(* ===== verification/Horizon_Prelude.thy ===== *)
theory Horizon_Prelude
  imports Complex_Main "HOL-Library.Monad_Syntax"
begin

text \<open>
  Shared vocabulary of the development: the Python values that reach the code untyped
  (JSON documents, floats), exceptions as values of a sum type, the sequencing of fallible
  stages, and the generic lemmas on lists and options that the component theories use.

  Conventions.  A Python \<open>int\<close> is an \<open>int\<close>.  A finite Python \<open>float\<close> is the exact rational it
  denotes; infinities and NaN are explicit constructors of \<open>pyfloat\<close>, and rounding of
  arithmetic results is not modelled.  A \<open>str\<close> is a \<open>string\<close>.  A \<open>dict\<close> whose iteration order
  matters is an association list, any other \<open>dict\<close> is a map.
\<close>

section \<open>Exceptions as values\<close>

datatype py_error =
    Value_Error string
  | Permission_Error string
  | Blocking_IO_Error string
  | OS_Error string
  | Type_Error string
  | Key_Error string
  | Overflow_Error string
  | Runtime_Error string

type_synonym 'a outcome = "py_error + 'a"

text \<open>Sequencing: the first stage that raises decides the outcome.\<close>

fun and_then :: "('e + 'a) \<Rightarrow> ('a \<Rightarrow> 'e + 'b) \<Rightarrow> 'e + 'b" where
  "and_then (Inl e) f = Inl e"
| "and_then (Inr x) f = f x"

text \<open>A guard \<^verbatim>\<open>if cond: raise error\<close>.\<close>

definition raise_if :: "bool \<Rightarrow> 'e \<Rightarrow> 'e + unit" where
  "raise_if c e = (if c then Inl e else Inr ())"

lemma and_then_Inr_iff: "and_then r f = Inr y \<longleftrightarrow> (\<exists>x. r = Inr x \<and> f x = Inr y)"
  by (cases r) auto

lemma and_then_Inl_iff:
  "and_then r f = Inl e \<longleftrightarrow> r = Inl e \<or> (\<exists>x. r = Inr x \<and> f x = Inl e)"
  by (cases r) auto

lemma raise_if_Inr_iff [simp]: "raise_if c e = Inr u \<longleftrightarrow> \<not> c"
  by (simp add: raise_if_def)

lemma raise_if_Inl_iff [simp]: "raise_if c e = Inl e' \<longleftrightarrow> c \<and> e' = e"
  by (auto simp: raise_if_def)

lemma and_then_raise_if: "and_then (raise_if c e) f = (if c then Inl e else f ())"
  by (simp add: raise_if_def)

lemmas stage_simps = and_then_Inr_iff and_then_Inl_iff

section \<open>Dynamically typed values\<close>

datatype pyfloat = Finite rat | Pos_Inf | Neg_Inf | Not_A_Number

fun isfinite :: "pyfloat \<Rightarrow> bool" where
  "isfinite (Finite _) = True"
| "isfinite _ = False"

text \<open>What \<^verbatim>\<open>json.loads\<close> returns.  Python's \<open>bool\<close> is a subclass of \<open>int\<close>, so the code's
  \<^verbatim>\<open>isinstance(x, int)\<close> accepts it and its explicit \<^verbatim>\<open>isinstance(x, bool)\<close> tests reject it.\<close>

datatype json =
    JNull
  | JBool bool
  | JInt int
  | JFloat pyfloat
  | JStr string
  | JArr "json list"
  | JObj "(string \<times> json) list"

fun is_int :: "json \<Rightarrow> bool" where
  "is_int (JInt _) = True"
| "is_int (JBool _) = True"
| "is_int _ = False"

fun is_bool :: "json \<Rightarrow> bool" where
  "is_bool (JBool _) = True"
| "is_bool _ = False"

fun is_str :: "json \<Rightarrow> bool" where
  "is_str (JStr _) = True"
| "is_str _ = False"

text \<open>The value of a field that must be a string, or an integer that is no \<open>bool\<close>.\<close>

fun as_str :: "json \<Rightarrow> string option" where
  "as_str (JStr s) = Some s"
| "as_str _ = None"

fun as_int :: "json \<Rightarrow> int option" where
  "as_int (JInt n) = Some n"
| "as_int _ = None"

lemma as_str_Some [simp]: "as_str j = Some s \<longleftrightarrow> j = JStr s"
  by (cases j) auto

lemma as_int_Some [simp]: "as_int j = Some n \<longleftrightarrow> j = JInt n"
  by (cases j) auto

text \<open>\<^verbatim>\<open>float(n)\<close> raises \<open>OverflowError\<close> from the first integer that rounds past the largest
  finite double.\<close>

definition float_overflow_bound :: int where
  "float_overflow_bound = 2 ^ 1024 - 2 ^ 970"

definition float_of_int :: "int \<Rightarrow> pyfloat outcome" where
  "float_of_int n =
     (if \<bar>n\<bar> \<ge> float_overflow_bound then Inl (Overflow_Error ''int too large to convert to float'')
      else Inr (Finite (of_int n)))"

section \<open>Hexadecimal digests\<close>

definition hex_digits :: string where
  "hex_digits = ''0123456789abcdef''"

definition is_hex64 :: "string \<Rightarrow> bool" where
  "is_hex64 s \<longleftrightarrow> length s = 64 \<and> list_all (\<lambda>c. c \<in> set hex_digits) s"

section \<open>Lists\<close>

lemma find_SomeD: "find P xs = Some x \<Longrightarrow> x \<in> set xs \<and> P x"
  by (auto simp: find_Some_iff)

lemma filter_length_le [simp]: "length (filter P xs) \<le> length xs"
  by (rule length_filter_le)

lemma take_filter_subset: "set (take n (filter P xs)) \<subseteq> set xs"
  by (meson filter_is_subset set_take_subset subset_trans)

lemma distinct_map_inj_on_set:
  "distinct (map f xs) \<Longrightarrow> x \<in> set xs \<Longrightarrow> y \<in> set xs \<Longrightarrow> f x = f y \<Longrightarrow> x = y"
  by (auto simp: distinct_map inj_on_def)

end
