(* ===== verification/Models.thy ===== *)
theory Models
  imports Horizon_Prelude "HOL-Library.Sublist"
begin

text \<open>
  The reviewed profile model of \<^verbatim>\<open>src/game_control/models.py\<close>: the string enumerations, the
  specification records with their field bounds, and the validators that a profile must pass
  before any other component sees it.
\<close>

section \<open>String enumerations\<close>

datatype profile_id =
    MINECRAFT
  | MINECRAFT_SUNLIT_COBBLEMON
  | PZ_RISING
  | TERRARIA_VANILLA
  | TERRARIA_TMOD
  | TERRARIA_TMOD_145_CANDIDATE

fun profile_value :: "profile_id \<Rightarrow> string" where
  "profile_value MINECRAFT = ''minecraft''"
| "profile_value MINECRAFT_SUNLIT_COBBLEMON = ''minecraft-sunlit-cobblemon''"
| "profile_value PZ_RISING = ''pz-rising''"
| "profile_value TERRARIA_VANILLA = ''terraria-vanilla''"
| "profile_value TERRARIA_TMOD = ''terraria-tmod''"
| "profile_value TERRARIA_TMOD_145_CANDIDATE = ''terraria-tmod-145-candidate''"

definition profile_members :: "profile_id list" where
  "profile_members =
     [MINECRAFT, MINECRAFT_SUNLIT_COBBLEMON, PZ_RISING, TERRARIA_VANILLA, TERRARIA_TMOD,
      TERRARIA_TMOD_145_CANDIDATE]"

text \<open>\<^verbatim>\<open>ProfileId(value)\<close>: the member with that value, \<open>None\<close> where Python raises \<open>ValueError\<close>.\<close>

definition profile_of_value :: "string \<Rightarrow> profile_id option" where
  "profile_of_value s = find (\<lambda>p. profile_value p = s) profile_members"

lemma profile_of_value_value [simp]: "profile_of_value (profile_value p) = Some p"
  by (cases p) (simp_all add: profile_of_value_def profile_members_def)

lemma profile_of_value_SomeD: "profile_of_value s = Some p \<Longrightarrow> s = profile_value p"
  unfolding profile_of_value_def by (auto dest: find_SomeD)

lemma profile_value_inj [simp]: "profile_value p = profile_value q \<longleftrightarrow> p = q"
  by (metis option.inject profile_of_value_value)

datatype adapter_kind = CRAFTY | SYSTEMD

datatype observed_state = STOPPED | STARTING | RUNNING | STOPPING | FAILED | BLOCKED

fun observed_state_value :: "observed_state \<Rightarrow> string" where
  "observed_state_value STOPPED = ''stopped''"
| "observed_state_value STARTING = ''starting''"
| "observed_state_value RUNNING = ''running''"
| "observed_state_value STOPPING = ''stopping''"
| "observed_state_value FAILED = ''failed''"
| "observed_state_value BLOCKED = ''blocked''"

lemma observed_state_value_inj [simp]:
  "observed_state_value s = observed_state_value t \<longleftrightarrow> s = t"
  by (cases s; cases t) simp_all

datatype health_state = HEALTHY | UNHEALTHY | UNKNOWN

datatype operation_name =
    Op_START | Op_STOP | Op_RESTART | Op_FORCE_STOP | Op_COMMAND | Op_BACKUP | Op_RESTORE
  | Op_CLONE_SOURCE | Op_CLONE_TARGET | Op_UPDATE_CHECK | Op_UPDATE_APPLY | Op_BENCHMARK

datatype backup_destination = LOCAL | HORIZON_B2

fun destination_value :: "backup_destination \<Rightarrow> string" where
  "destination_value LOCAL = ''local''"
| "destination_value HORIZON_B2 = ''horizon-b2''"

definition destination_of_value :: "string \<Rightarrow> backup_destination option" where
  "destination_of_value s = find (\<lambda>d. destination_value d = s) [LOCAL, HORIZON_B2]"

lemma destination_of_value_value [simp]: "destination_of_value (destination_value d) = Some d"
  by (cases d) (simp_all add: destination_of_value_def)

datatype notification_event =
    Ev_START | Ev_STOP | Ev_FAILED_START | Ev_CRASH | Ev_FORCED_STOP | Ev_SLOT_CONFLICT
  | Ev_LOW_DISK | Ev_BACKUP_FAILURE | Ev_UPDATE_COMPLETE | Ev_UPDATE_FAILURE | Ev_IDLE_STOP
  | Ev_SUSTAINED_MSPT | Ev_MEMORY_GROWTH | Ev_WAKE_SLO | Ev_BENCHMARK_REGRESSION

section \<open>Paths\<close>

text \<open>A \<^verbatim>\<open>pathlib.Path\<close>: whether it is absolute, and its parts after the root.  \<open>p.parents\<close> are the
  proper prefixes.\<close>

record fs_path =
  path_absolute :: bool
  path_parts :: "string list"

definition normalized_absolute :: "fs_path \<Rightarrow> bool" where
  "normalized_absolute p \<longleftrightarrow> path_absolute p \<and> ''..'' \<notin> set (path_parts p)"

definition in_parents :: "fs_path \<Rightarrow> fs_path \<Rightarrow> bool" where
  "in_parents a p \<longleftrightarrow>
     path_absolute a = path_absolute p \<and> strict_prefix (path_parts a) (path_parts p)"

text \<open>\<open>p\<close> lies in the tree rooted at \<open>a\<close>.\<close>

definition path_under :: "fs_path \<Rightarrow> fs_path \<Rightarrow> bool" where
  "path_under a p \<longleftrightarrow> path_absolute a = path_absolute p \<and> prefix (path_parts a) (path_parts p)"

lemma path_under_iff: "path_under a p \<longleftrightarrow> a = p \<or> in_parents a p"
proof -
  have "a = p \<longleftrightarrow> path_absolute a = path_absolute p \<and> path_parts a = path_parts p"
    by (cases a; cases p) simp
  then show ?thesis
    by (auto simp: path_under_def in_parents_def strict_prefix_def)
qed

text \<open>Two trees that share a path have comparable roots.\<close>

lemma path_under_comparable: "path_under a p \<Longrightarrow> path_under b p \<Longrightarrow> path_under a b \<or> path_under b a"
  unfolding path_under_def by (metis prefix_same_cases)

lemma incomparable_trees_disjoint:
  "\<not> path_under a b \<Longrightarrow> \<not> path_under b a \<Longrightarrow> \<not> (path_under a p \<and> path_under b p)"
  using path_under_comparable by blast

section \<open>Specification records\<close>

datatype protocol = Tcp | Udp

record port_spec =
  port_protocol :: protocol
  port_number :: int
  port_required :: bool

definition valid_port_spec :: "port_spec \<Rightarrow> bool" where
  "valid_port_spec s \<longleftrightarrow> 1 \<le> port_number s \<and> port_number s \<le> 65535"

record process_spec =
  proc_executable :: fs_path
  proc_argv_contains :: "string list"
  proc_ready_log_pattern :: "string option"

definition valid_process_spec :: "process_spec \<Rightarrow> bool" where
  "valid_process_spec s \<longleftrightarrow>
     (case proc_ready_log_pattern s of None \<Rightarrow> True | Some p \<Rightarrow> 1 \<le> length p \<and> length p \<le> 256)
     \<and> normalized_absolute (proc_executable s)
     \<and> list_all (\<lambda>v. 1 \<le> length v \<and> length v \<le> 128
          \<and> CHR 0x00 \<notin> set v \<and> CHR 0x0A \<notin> set v) (proc_argv_contains s)"

record path_spec =
  data_roots :: "fs_path list"
  backup_roots :: "fs_path list"
  mutable_root :: fs_path
  log_files :: "fs_path list"
  backup_root :: fs_path
  install_root :: fs_path
  version_file :: fs_path

definition valid_path_spec :: "path_spec \<Rightarrow> bool" where
  "valid_path_spec s \<longleftrightarrow>
     data_roots s \<noteq> []
     \<and> list_all normalized_absolute
          (data_roots s @ backup_roots s @ [mutable_root s] @ log_files s
           @ [backup_root s, install_root s, version_file s])
     \<and> \<not> (backup_root s = mutable_root s \<or> in_parents (mutable_root s) (backup_root s))
     \<and> distinct (data_roots s)
     \<and> distinct (backup_roots s)"

record public_endpoint_spec =
  endpoint_host :: string
  endpoint_port :: int
  endpoint_protocol :: protocol
  relay_unit :: string

definition lower_alnum :: "char \<Rightarrow> bool" where
  "lower_alnum c \<longleftrightarrow> c \<in> set ''abcdefghijklmnopqrstuvwxyz0123456789''"

definition any_alnum :: "char \<Rightarrow> bool" where
  "any_alnum c \<longleftrightarrow> lower_alnum c \<or> c \<in> set ''ABCDEFGHIJKLMNOPQRSTUVWXYZ''"

text \<open>The pattern \<^verbatim>\<open>^[a-z0-9](?:[a-z0-9.-]{0,251}[a-z0-9])?$\<close>.\<close>

definition valid_host :: "string \<Rightarrow> bool" where
  "valid_host h \<longleftrightarrow> h \<noteq> [] \<and> length h \<le> 253 \<and> lower_alnum (hd h) \<and> lower_alnum (last h)
     \<and> list_all (\<lambda>c. lower_alnum c \<or> c \<in> set ''.-'') h"

text \<open>The pattern \<^verbatim>\<open>^[a-z0-9@_.-]+\.service$\<close>.\<close>

definition valid_unit :: "string \<Rightarrow> bool" where
  "valid_unit u \<longleftrightarrow> length u > 8 \<and> drop (length u - 8) u = ''.service''
     \<and> list_all (\<lambda>c. lower_alnum c \<or> c \<in> set ''@_.-'') (take (length u - 8) u)"

definition valid_public_endpoint_spec :: "public_endpoint_spec \<Rightarrow> bool" where
  "valid_public_endpoint_spec s \<longleftrightarrow> valid_host (endpoint_host s)
     \<and> 1 \<le> endpoint_port s \<and> endpoint_port s \<le> 65535 \<and> valid_unit (relay_unit s)"

record curated_modpack_spec =
  curated_version :: string
  curated_project_id :: int
  curated_file_id :: int
  curated_size_bytes :: int
  manifest_path :: fs_path
  release_root :: fs_path
  state_root :: fs_path
  active_link :: fs_path

text \<open>The pattern \<^verbatim>\<open>^[A-Za-z0-9][A-Za-z0-9_.+-]{0,127}$\<close>.\<close>

definition valid_curated_version :: "string \<Rightarrow> bool" where
  "valid_curated_version v \<longleftrightarrow> v \<noteq> [] \<and> length v \<le> 128 \<and> any_alnum (hd v)
     \<and> list_all (\<lambda>c. any_alnum c \<or> c \<in> set ''_.+-'') v"

definition valid_curated_modpack_spec :: "curated_modpack_spec \<Rightarrow> bool" where
  "valid_curated_modpack_spec s \<longleftrightarrow>
     valid_curated_version (curated_version s)
     \<and> 1 \<le> curated_project_id s \<and> 1 \<le> curated_file_id s
     \<and> 1 \<le> curated_size_bytes s \<and> curated_size_bytes s \<le> 4 * 1024 * 1024 * 1024
     \<and> list_all normalized_absolute [manifest_path s, release_root s, state_root s, active_link s]
     \<and> release_root s \<noteq> state_root s
     \<and> \<not> (in_parents (release_root s) (state_root s) \<or> in_parents (state_root s) (release_root s))
     \<and> \<not> (active_link s = release_root s \<or> in_parents (active_link s) (release_root s)
          \<or> in_parents (release_root s) (active_link s))
     \<and> \<not> (active_link s = state_root s \<or> in_parents (active_link s) (state_root s)
          \<or> in_parents (state_root s) (active_link s))"

datatype update_kind = Manual | Steamcmd_In_Place | Release_Symlink | Curated_Modpack

record update_spec =
  upd_kind :: update_kind
  upd_app_id :: "int option"
  upd_beta :: "string option"
  upd_download_url :: "string option"
  upd_executable_relative_path :: "string option"
  upd_version_command :: "string list"
  upd_sha256 :: "string option"
  upd_curated :: "curated_modpack_spec option"

text \<open>The patterns of \<open>beta\<close>, \<open>executable_relative_path\<close> and \<open>sha256\<close>.\<close>

definition valid_beta :: "string \<Rightarrow> bool" where
  "valid_beta b \<longleftrightarrow> 1 \<le> length b \<and> length b \<le> 32
     \<and> list_all (\<lambda>c. any_alnum c \<or> c \<in> set ''_.-'') b"

definition valid_executable_relative_path :: "string \<Rightarrow> bool" where
  "valid_executable_relative_path p \<longleftrightarrow> p \<noteq> [] \<and> length p \<le> 256
     \<and> (any_alnum (hd p) \<or> hd p \<in> set ''_.-'')
     \<and> list_all (\<lambda>c. any_alnum c \<or> c \<in> set ''_./-'') (tl p)"

definition valid_sha256 :: "string \<Rightarrow> bool" where
  "valid_sha256 d \<longleftrightarrow> length d = 64 \<and> list_all (\<lambda>c. c \<in> set ''0123456789abcdefABCDEF'') d"

text \<open>The constraint of an optional field holds when the field is present.\<close>

definition opt_ok :: "('a \<Rightarrow> bool) \<Rightarrow> 'a option \<Rightarrow> bool" where
  "opt_ok P x \<longleftrightarrow> (case x of None \<Rightarrow> True | Some v \<Rightarrow> P v)"

lemma opt_ok_simps [simp]: "opt_ok P None" "opt_ok P (Some v) \<longleftrightarrow> P v"
  by (simp_all add: opt_ok_def)

definition update_fields_match_kind :: "update_spec \<Rightarrow> bool" where
  "update_fields_match_kind u \<longleftrightarrow>
     (case upd_kind u of
        Manual \<Rightarrow> upd_app_id u = None \<and> upd_beta u = None \<and> upd_download_url u = None
          \<and> upd_executable_relative_path u = None \<and> upd_version_command u = [] \<and> upd_sha256 u = None
          \<and> upd_curated u = None
      | Steamcmd_In_Place \<Rightarrow> upd_app_id u \<noteq> None \<and> upd_download_url u = None \<and> upd_sha256 u = None
          \<and> upd_curated u = None
      | Release_Symlink \<Rightarrow> upd_download_url u \<noteq> None \<and> upd_executable_relative_path u \<noteq> None
          \<and> upd_curated u = None
      | Curated_Modpack \<Rightarrow> upd_download_url u \<noteq> None \<and> upd_sha256 u \<noteq> None \<and> upd_curated u \<noteq> None
          \<and> upd_app_id u = None \<and> upd_beta u = None \<and> upd_executable_relative_path u = None
          \<and> upd_version_command u = [])"

definition valid_update_spec :: "update_spec \<Rightarrow> bool" where
  "valid_update_spec u \<longleftrightarrow>
     opt_ok (\<lambda>n. 1 \<le> n) (upd_app_id u) \<and> opt_ok valid_beta (upd_beta u)
     \<and> opt_ok valid_executable_relative_path (upd_executable_relative_path u)
     \<and> opt_ok valid_sha256 (upd_sha256 u)
     \<and> opt_ok valid_curated_modpack_spec (upd_curated u)
     \<and> update_fields_match_kind u"

record profile =
  prof_id :: profile_id
  prof_display_name :: string
  prof_adapter :: adapter_kind
  prof_crafty_server_id :: "string option"
  prof_systemd_unit :: "string option"
  prof_process :: process_spec
  prof_ports :: "port_spec list"
  prof_start_timeout_seconds :: int
  prof_stop_timeout_seconds :: int
  prof_health_timeout_seconds :: int
  prof_paths :: path_spec
  prof_min_available_memory_bytes :: int
  prof_min_free_disk_bytes :: int
  prof_public_endpoint :: "public_endpoint_spec option"
  prof_operations :: "operation_name set"
  prof_update :: update_spec
  prof_notification_events :: "notification_event set"
  prof_idle_stop_minutes :: int

definition profile_fields_ok :: "profile \<Rightarrow> bool" where
  "profile_fields_ok p \<longleftrightarrow>
     2 \<le> length (prof_display_name p) \<and> length (prof_display_name p) \<le> 64
     \<and> opt_ok valid_unit (prof_systemd_unit p)
     \<and> valid_process_spec (prof_process p)
     \<and> prof_ports p \<noteq> [] \<and> list_all valid_port_spec (prof_ports p)
     \<and> 5 \<le> prof_start_timeout_seconds p \<and> prof_start_timeout_seconds p \<le> 900
     \<and> 5 \<le> prof_stop_timeout_seconds p \<and> prof_stop_timeout_seconds p \<le> 900
     \<and> 5 \<le> prof_health_timeout_seconds p \<and> prof_health_timeout_seconds p \<le> 900
     \<and> valid_path_spec (prof_paths p)
     \<and> 1 \<le> prof_min_available_memory_bytes p \<and> 1 \<le> prof_min_free_disk_bytes p
     \<and> opt_ok valid_public_endpoint_spec (prof_public_endpoint p)
     \<and> prof_operations p \<noteq> {}
     \<and> valid_update_spec (prof_update p)
     \<and> 0 \<le> prof_idle_stop_minutes p \<and> prof_idle_stop_minutes p \<le> 1440"

text \<open>The model validator runs after the fields; each guard raises \<open>ValueError\<close>.\<close>

definition locator_and_operations_match :: "profile \<Rightarrow> profile outcome" where
  "locator_and_operations_match p =
     and_then (raise_if (prof_adapter p = CRAFTY \<and> (prof_crafty_server_id p = None \<or> prof_systemd_unit p \<noteq> None))
        (Value_Error ''crafty profile requires only crafty_server_id'')) (\<lambda>_.
     and_then (raise_if (prof_adapter p \<noteq> CRAFTY \<and> (prof_systemd_unit p = None \<or> prof_crafty_server_id p \<noteq> None))
        (Value_Error ''systemd profile requires only systemd_unit'')) (\<lambda>_.
     and_then (raise_if (Op_UPDATE_APPLY \<in> prof_operations p \<and> upd_kind (prof_update p) = Manual)
        (Value_Error ''manual profile cannot apply updates'')) (\<lambda>_.
     and_then (raise_if (Op_UPDATE_APPLY \<in> prof_operations p
          \<and> upd_kind (prof_update p) \<in> {Release_Symlink, Curated_Modpack} \<and> upd_sha256 (prof_update p) = None)
        (Value_Error ''release profile cannot apply updates without a trusted sha256'')) (\<lambda>_.
     and_then (raise_if (0 < prof_idle_stop_minutes p \<and> prof_idle_stop_minutes p < 5)
        (Value_Error ''idle_stop_minutes must be 0 or between 5 and 1440'')) (\<lambda>_.
     Inr p)))))"

definition validate_profile :: "profile \<Rightarrow> profile outcome" where
  "validate_profile p =
     and_then (raise_if (\<not> profile_fields_ok p) (Value_Error ''invalid profile field''))
       (\<lambda>_. locator_and_operations_match p)"

lemma validate_profile_Inr:
  "validate_profile p = Inr q \<longleftrightarrow> q = p \<and> profile_fields_ok p
     \<and> (prof_adapter p = CRAFTY \<longrightarrow> prof_crafty_server_id p \<noteq> None \<and> prof_systemd_unit p = None)
     \<and> (prof_adapter p \<noteq> CRAFTY \<longrightarrow> prof_systemd_unit p \<noteq> None \<and> prof_crafty_server_id p = None)
     \<and> (Op_UPDATE_APPLY \<in> prof_operations p \<longrightarrow> upd_kind (prof_update p) \<noteq> Manual
          \<and> (upd_kind (prof_update p) \<in> {Release_Symlink, Curated_Modpack} \<longrightarrow> upd_sha256 (prof_update p) \<noteq> None))
     \<and> (prof_idle_stop_minutes p = 0 \<or> 5 \<le> prof_idle_stop_minutes p)"
proof -
  have "profile_fields_ok p \<Longrightarrow> 0 \<le> prof_idle_stop_minutes p"
    by (simp add: profile_fields_ok_def)
  then show ?thesis
    unfolding validate_profile_def locator_and_operations_match_def
    by (auto simp: stage_simps)
qed

section \<open>A sample profile\<close>

definition sample_path :: "string list \<Rightarrow> fs_path" where
  "sample_path parts = \<lparr>path_absolute = True, path_parts = parts\<rparr>"

definition sample_profile :: "profile_id \<Rightarrow> profile" where
  "sample_profile p =
     \<lparr>prof_id = p, prof_display_name = ''Sample'', prof_adapter = SYSTEMD, prof_crafty_server_id = None,
      prof_systemd_unit = Some ''game.service'',
      prof_process = \<lparr>proc_executable = sample_path [''usr'', ''bin'', ''game''], proc_argv_contains = [],
        proc_ready_log_pattern = None\<rparr>,
      prof_ports = [\<lparr>port_protocol = Tcp, port_number = 25565, port_required = True\<rparr>],
      prof_start_timeout_seconds = 60, prof_stop_timeout_seconds = 60, prof_health_timeout_seconds = 60,
      prof_paths = \<lparr>data_roots = [sample_path [''srv'', ''game'', ''data'']], backup_roots = [],
        mutable_root = sample_path [''srv'', ''game''], log_files = [], backup_root = sample_path [''srv'', ''backups''],
        install_root = sample_path [''opt'', ''game''], version_file = sample_path [''opt'', ''game'', ''version'']\<rparr>,
      prof_min_available_memory_bytes = 1, prof_min_free_disk_bytes = 1, prof_public_endpoint = None,
      prof_operations = {Op_START, Op_STOP, Op_FORCE_STOP, Op_COMMAND, Op_BACKUP},
      prof_update = \<lparr>upd_kind = Manual, upd_app_id = None, upd_beta = None, upd_download_url = None,
        upd_executable_relative_path = None, upd_version_command = [], upd_sha256 = None, upd_curated = None\<rparr>,
      prof_notification_events = {}, prof_idle_stop_minutes = 0\<rparr>"

lemma sample_profile_valid: "validate_profile (sample_profile p) = Inr (sample_profile p)"
  by code_simp

definition sample_curated :: curated_modpack_spec where
  "sample_curated = \<lparr>curated_version = ''1.0'', curated_project_id = 1, curated_file_id = 1, curated_size_bytes = 1,
     manifest_path = sample_path [''etc'', ''pack.json''], release_root = sample_path [''srv'', ''releases''],
     state_root = sample_path [''srv'', ''state''], active_link = sample_path [''srv'', ''active'']\<rparr>"

definition sample_curated_profile :: profile where
  "sample_curated_profile = (sample_profile MINECRAFT_SUNLIT_COBBLEMON)
     \<lparr>prof_operations := {Op_UPDATE_APPLY},
      prof_update := \<lparr>upd_kind = Curated_Modpack, upd_app_id = None, upd_beta = None, upd_download_url = Some ''https://example.org/pack'',
        upd_executable_relative_path = None, upd_version_command = [], upd_sha256 = Some (replicate 64 (CHR ''a'')),
        upd_curated = Some sample_curated\<rparr>\<rparr>"

section \<open>What validation guarantees\<close>

lemma valid_curated_trees:
  assumes "valid_curated_modpack_spec c" "a \<in> {release_root c, state_root c, active_link c}"
    "b \<in> {release_root c, state_root c, active_link c}" "a \<noteq> b"
  shows "\<not> (path_under a x \<and> path_under b x)"
proof (rule incomparable_trees_disjoint)
  show "\<not> path_under a b" "\<not> path_under b a"
    using assms by (auto simp: valid_curated_modpack_spec_def path_under_iff)
qed

text \<open>A validated profile can only install what was reviewed and cannot damage its own safety copies: if it may apply
  updates, its source is not manual, and a release or modpack source carries a 64-digit SHA-256; the release,
  state and active trees of a curated modpack are pairwise different and disjoint, so replacing one cannot touch
  another; and the backup root is not inside the mutable tree.\<close>

theorem validated_profile_confined:
  assumes "validate_profile p = Inr q"
  shows "(Op_UPDATE_APPLY \<in> prof_operations q \<longrightarrow> upd_kind (prof_update q) \<noteq> Manual
      \<and> (upd_kind (prof_update q) \<in> {Release_Symlink, Curated_Modpack}
          \<longrightarrow> (\<exists>d. upd_sha256 (prof_update q) = Some d \<and> valid_sha256 d)))
    \<and> (\<forall>c. upd_curated (prof_update q) = Some c \<longrightarrow> distinct [release_root c, state_root c, active_link c]
          \<and> (\<forall>a b x. a \<in> {release_root c, state_root c, active_link c} \<longrightarrow> b \<in> {release_root c, state_root c, active_link c}
                \<longrightarrow> a \<noteq> b \<longrightarrow> \<not> (path_under a x \<and> path_under b x)))
    \<and> \<not> path_under (mutable_root (prof_paths q)) (backup_root (prof_paths q))"
proof -
  have q: "q = p" and fields: "profile_fields_ok p" using assms by (simp_all add: validate_profile_Inr)
  then have u: "valid_update_spec (prof_update p)" and paths: "valid_path_spec (prof_paths p)"
    by (simp_all add: profile_fields_ok_def)
  have "distinct [release_root c, state_root c, active_link c]" if "upd_curated (prof_update p) = Some c" for c
    using u that by (auto simp: valid_update_spec_def valid_curated_modpack_spec_def)
  moreover have "\<not> (path_under a x \<and> path_under b x)" if "upd_curated (prof_update p) = Some c"
    "a \<in> {release_root c, state_root c, active_link c}" "b \<in> {release_root c, state_root c, active_link c}" "a \<noteq> b" for a b c x
    by (rule valid_curated_trees [OF _ that(2-4)]) (use u that(1) in \<open>simp add: valid_update_spec_def\<close>)
  moreover have "upd_kind (prof_update p) \<noteq> Manual \<and> (upd_kind (prof_update p) \<in> {Release_Symlink, Curated_Modpack}
      \<longrightarrow> (\<exists>d. upd_sha256 (prof_update p) = Some d \<and> valid_sha256 d))" if "Op_UPDATE_APPLY \<in> prof_operations p"
    using assms that u by (auto simp: validate_profile_Inr valid_update_spec_def)
  moreover have "\<not> path_under (mutable_root (prof_paths p)) (backup_root (prof_paths p))"
    using paths by (auto simp: valid_path_spec_def path_under_iff)
  ultimately show ?thesis unfolding q by blast
qed

theorem validated_profile_confined_witness:
  "validate_profile sample_curated_profile = Inr sample_curated_profile
    \<and> upd_kind (prof_update sample_curated_profile) \<noteq> Manual
    \<and> \<not> (path_under (release_root sample_curated) (sample_path [''srv'', ''state'', ''world''])
         \<and> path_under (state_root sample_curated) (sample_path [''srv'', ''state'', ''world'']))"
proof -
  have v: "validate_profile sample_curated_profile = Inr sample_curated_profile" by code_simp
  have "upd_curated (prof_update sample_curated_profile) = Some sample_curated"
    "Op_UPDATE_APPLY \<in> prof_operations sample_curated_profile" "release_root sample_curated \<noteq> state_root sample_curated"
    by (simp_all add: sample_curated_profile_def sample_curated_def sample_path_def)
  with validated_profile_confined [OF v] v show ?thesis by blast
qed

end
