(* ===== verification/Py_Text.thy ===== *)
theory Py_Text
  imports Horizon_Prelude
begin

text \<open>
  The operations of Python's \<open>str\<close> and \<open>int\<close> that the components parse text with: whitespace,
  \<^verbatim>\<open>strip\<close>, \<^verbatim>\<open>split\<close>, \<^verbatim>\<open>partition\<close>, and \<^verbatim>\<open>int(text)\<close>.  A \<open>string\<close> is a list of 8-bit characters, so
  text outside Latin-1 is not represented.
\<close>

section \<open>Whitespace\<close>

definition is_space :: "char \<Rightarrow> bool" where
  "is_space c \<longleftrightarrow> (let n = (of_char c :: nat) in
     9 \<le> n \<and> n \<le> 13 \<or> 28 \<le> n \<and> n \<le> 32 \<or> n = 133 \<or> n = 160)"

definition rstrip :: "string \<Rightarrow> string" where
  "rstrip s = rev (dropWhile is_space (rev s))"

definition strip :: "string \<Rightarrow> string" where
  "strip s = rstrip (dropWhile is_space s)"

section \<open>Splitting\<close>

text \<open>\<^verbatim>\<open>text.split(c)\<close> for a one-character separator: never empty.\<close>

fun split_on :: "char \<Rightarrow> string \<Rightarrow> string list" where
  "split_on c [] = [[]]"
| "split_on c (x # xs) =
     (if x = c then [] # split_on c xs
      else (case split_on c xs of [] \<Rightarrow> [[x]] | w # ws \<Rightarrow> (x # w) # ws))"

text \<open>\<^verbatim>\<open>text.split()\<close>: the maximal runs of non-space characters.\<close>

function split_words :: "string \<Rightarrow> string list" where
  "split_words s =
     (case dropWhile is_space s of
        [] \<Rightarrow> []
      | x # xs \<Rightarrow> takeWhile (\<lambda>c. \<not> is_space c) (x # xs)
                 # split_words (dropWhile (\<lambda>c. \<not> is_space c) (x # xs)))"
  by pat_completeness auto
termination
proof (relation "measure length")
  fix s x xs assume s: "dropWhile is_space s = x # xs"
  then have "\<not> is_space x" by (simp add: dropWhile_eq_Cons_conv)
  then have "length (dropWhile (\<lambda>c. \<not> is_space c) (x # xs)) \<le> length xs"
    by (simp add: length_dropWhile_le)
  moreover have "length (x # xs) \<le> length s" using length_dropWhile_le[of is_space s] s by simp
  ultimately show "(dropWhile (\<lambda>c. \<not> is_space c) (x # xs), s) \<in> measure length" by simp
qed simp

declare split_words.simps [simp del]

text \<open>\<^verbatim>\<open>text.partition(c)\<close> and \<^verbatim>\<open>text.split(c, 1)\<close>: what stands before and after the first \<open>c\<close>.\<close>

definition partition_on :: "char \<Rightarrow> string \<Rightarrow> string \<times> string" where
  "partition_on c s = (takeWhile (\<lambda>x. x \<noteq> c) s, tl (dropWhile (\<lambda>x. x \<noteq> c) s))"

section \<open>Integers\<close>

definition digit_value :: "char \<Rightarrow> nat option" where
  "digit_value c = (let n = (of_char c :: nat) in if 48 \<le> n \<and> n \<le> 57 then Some (n - 48) else None)"

text \<open>Digits, with single underscores allowed between two of them.\<close>

fun digits_of :: "string \<Rightarrow> nat list option" where
  "digits_of [] = None"
| "digits_of [c] = map_option (\<lambda>d. [d]) (digit_value c)"
| "digits_of (c # x # xs) =
     (case digit_value c of
        None \<Rightarrow> None
      | Some d \<Rightarrow> map_option ((#) d) (if x = CHR ''_'' then digits_of xs else digits_of (x # xs)))"

definition decimal :: "nat list \<Rightarrow> int" where
  "decimal ds = foldl (\<lambda>n d. 10 * n + int d) 0 ds"

text \<open>More than 4300 digits raise \<open>ValueError\<close>.\<close>

definition unsigned_int :: "string \<Rightarrow> int option" where
  "unsigned_int s =
     (case digits_of s of None \<Rightarrow> None
      | Some ds \<Rightarrow> if length ds > 4300 then None else Some (decimal ds))"

text \<open>\<^verbatim>\<open>int(text)\<close>, \<open>None\<close> where it raises \<open>ValueError\<close>.\<close>

definition py_int :: "string \<Rightarrow> int option" where
  "py_int text =
     (case strip text of
        [] \<Rightarrow> None
      | c # cs \<Rightarrow>
          if c = CHR ''-'' then map_option uminus (unsigned_int cs)
          else if c = CHR ''+'' then unsigned_int cs
          else unsigned_int (c # cs))"

text \<open>\<^verbatim>\<open>range(start, stop, step)\<close> for a positive step.\<close>

definition py_range :: "int \<Rightarrow> int \<Rightarrow> int \<Rightarrow> int list" where
  "py_range start stop step = map (\<lambda>k. start + int k * step) [0..<nat ((stop - start + step - 1) div step)]"

lemma py_range_bounds: "n \<in> set (py_range start stop step) \<Longrightarrow> 0 < step \<Longrightarrow> start \<le> n \<and> n < stop"
proof -
  assume "n \<in> set (py_range start stop step)" and step: "0 < step"
  then obtain k where k: "n = start + int k * step" "int k < (stop - start + step - 1) div step"
    by (auto simp: py_range_def)
  let ?x = "stop - start + step - 1"
  have "(int k + 1) * step \<le> ?x div step * step" using k(2) step by (intro mult_right_mono) auto
  also have "\<dots> \<le> ?x" using div_mult_mod_eq[of ?x step] pos_mod_sign[OF step, of ?x] by linarith
  finally show ?thesis using k step by (simp add: algebra_simps)
qed

lemma split_on_not_Nil [simp]: "split_on c s \<noteq> []"
  by (induction c s rule: split_on.induct) (auto split: list.splits)

lemma digits_of_le: "digits_of s = Some ds \<Longrightarrow> length ds \<le> length s"
  by (induction s arbitrary: ds rule: digits_of.induct)
    (fastforce split: option.splits if_splits)+

end
