(* ===== verification/Slot.thy ===== *)
theory Slot
  imports Models
begin

text \<open>
  The single game slot of \<^verbatim>\<open>src/game_control/slot.py\<close>: the reservation record and its JSON form,
  the secure opening of lock files, every operation of \<open>ReservationStore\<close> on the root-owned
  reservation file, and the \<open>SlotInspector\<close>.

  State.  \<open>json_file\<close> is what stands at a path: nothing, something that cannot be inspected, or
  a file with its \<^verbatim>\<open>lstat\<close> fields and the JSON value its bytes decode to (\<open>None\<close> when they do not
  decode).  Each operation takes the file at \<open>reservation_path\<close> and returns its outcome and the
  file afterwards; the body under \<open>operation_transaction\<close> runs under an exclusive \<open>flock\<close> and is
  therefore one atomic step.

  Environment.  \<open>slot_env\<close> holds what a call reads from the host: the successive readings of the
  clock, the process table (\<open>proc_start_ticks\<close>), the effective user, the lock file, and whether
  writing or unlinking succeeds.
\<close>

unbundle bit_operations_syntax

section \<open>Files, locks and the host environment\<close>

definition MAX_RESERVATION_TTL :: rat where
  "MAX_RESERVATION_TTL = 30"

record file_stat =
  st_symlink :: bool
  st_regular :: bool
  st_nlink :: int
  st_uid :: int
  st_gid :: int
  st_mode :: nat \<comment> \<open>the permission bits, \<^verbatim>\<open>stat.S_IMODE\<close>\<close>
  st_size :: int

text \<open>\<open>Unreachable\<close>: \<^verbatim>\<open>lstat\<close> raises an \<open>OSError\<close> other than \<open>FileNotFoundError\<close>, and \<^verbatim>\<open>exists()\<close> answers
  \<open>False\<close>, as for a path through a file or a symlink loop.  \<open>Dangling_Link\<close>: a symbolic link
  whose target is missing.\<close>

datatype json_file =
    Missing
  | Unreachable
  | Dangling_Link
  | Stored file_stat "json option"

fun path_exists :: "json_file \<Rightarrow> bool" where
  "path_exists (Stored _ _) = True"
| "path_exists _ = False"

datatype write_result = Write_Ok | Write_Fails | Sync_Fails

record slot_env =
  clock_at :: "nat \<Rightarrow> rat"
  start_ticks :: "int \<Rightarrow> int option"
  euid :: int
  egid :: int
  own_pid :: int
  lock_file :: "file_stat option" \<comment> \<open>\<open>None\<close>: opening it raises \<open>OSError\<close>\<close>
  lock_is_canonical :: bool \<comment> \<open>the path is \<open>SLOT_LOCK\<close> or \<open>OPERATION_LOCK\<close>\<close>
  gameslot_gid :: "int option"
  write_result :: write_result
  unlink_ok :: bool
  encoded_size :: "json \<Rightarrow> int"

definition lock_open :: "slot_env \<Rightarrow> unit outcome" where
  "lock_open env =
     (case lock_file env of
        None \<Rightarrow> Inl (OS_Error ''open'')
      | Some info \<Rightarrow>
          if lock_is_canonical env then
            (case gameslot_gid env of
               None \<Rightarrow> Inl (Value_Error ''gameslot group is unavailable'')
             | Some gid \<Rightarrow>
                 raise_if (\<not> st_regular info \<or> st_uid info \<noteq> 0 \<or> st_gid info \<noteq> gid
                     \<or> st_mode info \<noteq> 0x1B0 \<or> st_nlink info \<noteq> 1)
                   (Value_Error ''slot lock is not root:gameslot 0660''))
          else
            raise_if (\<not> st_regular info \<or> st_uid info \<noteq> 0 \<or> st_mode info AND 0x002 \<noteq> 0
                \<or> st_mode info AND 0x180 \<noteq> 0x180)
              (Value_Error ''lock is not root-owned and secure''))"

text \<open>\<^verbatim>\<open>with operation_transaction(path): body\<close>.\<close>

definition operation_transaction ::
  "slot_env \<Rightarrow> json_file \<Rightarrow> (json_file \<Rightarrow> 'a outcome \<times> json_file) \<Rightarrow> 'a outcome \<times> json_file" where
  "operation_transaction env f body =
     (case lock_open env of Inl e \<Rightarrow> (Inl e, f) | Inr _ \<Rightarrow> body f)"

text \<open>\<open>_atomic_json\<close>: a temporary file is renamed over the path, then the directory is synced; an
  error before the rename leaves the old file, an error of the sync leaves the new one.\<close>

definition written_file :: "slot_env \<Rightarrow> json \<Rightarrow> json_file" where
  "written_file env payload =
     Stored \<lparr>st_symlink = False, st_regular = True, st_nlink = 1, st_uid = euid env,
             st_gid = (if euid env = 0 then 0 else egid env), st_mode = 0x1A4,
             st_size = encoded_size env payload\<rparr> (Some payload)"

definition atomic_json :: "slot_env \<Rightarrow> json \<Rightarrow> json_file \<Rightarrow> unit outcome \<times> json_file" where
  "atomic_json env payload f =
     (case write_result env of
        Write_Ok \<Rightarrow> (Inr (), written_file env payload)
      | Write_Fails \<Rightarrow> (Inl (OS_Error ''write''), f)
      | Sync_Fails \<Rightarrow> (Inl (OS_Error ''fsync''), written_file env payload))"

definition unlink_file :: "slot_env \<Rightarrow> json_file \<Rightarrow> unit outcome \<times> json_file" where
  "unlink_file env f = (if unlink_ok env then (Inr (), Missing) else (Inl (OS_Error ''unlink''), f))"

section \<open>The reservation record and its JSON form\<close>

text \<open>Arguments typed \<^verbatim>\<open>str | ProfileId\<close>.\<close>

datatype profile_ref = PMember profile_id | PRaw json

fun profile_arg :: "profile_ref \<Rightarrow> profile_id outcome" where
  "profile_arg (PMember p) = Inr p"
| "profile_arg (PRaw (JStr s)) =
     (case profile_of_value s of None \<Rightarrow> Inl (Value_Error ''invalid profile id'') | Some p \<Rightarrow> Inr p)"
| "profile_arg (PRaw _) = Inl (Value_Error ''invalid profile id'')"

record reservation =
  res_profile :: profile_id
  res_operation_id :: string
  res_generation :: int
  res_pid :: int
  res_ticks :: int
  res_expires_at :: rat
  res_kind :: string
  res_capability :: "string option"

definition operation_kinds :: "string list" where
  "operation_kinds = [''lifecycle'', ''update'']"

fun read_json :: "json_file \<Rightarrow> (string \<times> json) list option" where
  "read_json (Stored _ (Some (JObj kvs))) = Some kvs"
| "read_json _ = None"

text \<open>\<open>expires_at\<close> must be a number that converts to a finite float.\<close>

fun expiry_of_json :: "json \<Rightarrow> rat option" where
  "expiry_of_json (JInt n) =
     (case float_of_int n of Inr (Finite r) \<Rightarrow> Some r | _ \<Rightarrow> None)"
| "expiry_of_json (JFloat (Finite r)) = Some r"
| "expiry_of_json _ = None"

fun capability_of_json :: "string \<Rightarrow> json option \<Rightarrow> string option option" where
  "capability_of_json opkind None = Some None"
| "capability_of_json opkind (Some JNull) = Some None"
| "capability_of_json opkind (Some (JStr c)) =
     (if opkind = ''update'' \<and> is_hex64 c then Some (Some c) else None)"
| "capability_of_json opkind (Some _) = None"

definition reservation_from_json :: "(string \<times> json) list option \<Rightarrow> reservation option" where
  "reservation_from_json raw_opt = do {
     raw \<leftarrow> raw_opt;
     profile \<leftarrow> map_of raw ''profile_id'' \<bind> as_str \<bind> profile_of_value;
     operation_id \<leftarrow> map_of raw ''operation_id'' \<bind> as_str;
     generation \<leftarrow> map_of raw ''state_generation'' \<bind> as_int;
     pid \<leftarrow> map_of raw ''controller_pid'' \<bind> as_int;
     ticks \<leftarrow> map_of raw ''controller_start_ticks'' \<bind> as_int;
     expiry \<leftarrow> map_of raw ''expires_at'' \<bind> expiry_of_json;
     opkind \<leftarrow> as_str (case map_of raw ''operation_kind'' of None \<Rightarrow> JStr ''lifecycle'' | Some j \<Rightarrow> j);
     capability \<leftarrow> capability_of_json opkind (map_of raw ''capability_sha256'');
     if operation_id = [] \<or> generation < 0 \<or> pid \<le> 0 \<or> ticks < 0 \<or> opkind \<notin> set operation_kinds
     then None
     else Some \<lparr>res_profile = profile, res_operation_id = operation_id,
       res_generation = generation, res_pid = pid, res_ticks = ticks,
       res_expires_at = expiry, res_kind = opkind, res_capability = capability\<rparr> }"

definition reservation_payload :: "reservation \<Rightarrow> (string \<times> json) list" where
  "reservation_payload r =
     [(''profile_id'', JStr (profile_value (res_profile r))),
      (''operation_id'', JStr (res_operation_id r)),
      (''state_generation'', JInt (res_generation r)),
      (''controller_pid'', JInt (res_pid r)),
      (''controller_start_ticks'', JInt (res_ticks r)),
      (''expires_at'', JFloat (Finite (res_expires_at r))),
      (''operation_kind'', JStr (res_kind r))]
     @ (case res_capability r of None \<Rightarrow> [] | Some c \<Rightarrow> [(''capability_sha256'', JStr c)])"

text \<open>The records the reader accepts.\<close>

definition reservation_wf :: "reservation \<Rightarrow> bool" where
  "reservation_wf r \<longleftrightarrow> res_operation_id r \<noteq> [] \<and> 0 \<le> res_generation r \<and> 0 < res_pid r
     \<and> 0 \<le> res_ticks r \<and> res_kind r \<in> set operation_kinds
     \<and> opt_ok (\<lambda>c. res_kind r = ''update'' \<and> is_hex64 c) (res_capability r)"

section \<open>Reading and liveness\<close>

definition reservation_read :: "json_file \<Rightarrow> reservation option" where
  "reservation_read f = reservation_from_json (read_json f)"

text \<open>\<open>_live\<close>, with the reading of the clock it takes.\<close>

definition live_at :: "slot_env \<Rightarrow> rat \<Rightarrow> reservation \<Rightarrow> bool" where
  "live_at env now r \<longleftrightarrow> now < res_expires_at r \<and> res_expires_at r \<le> now + MAX_RESERVATION_TTL
     \<and> start_ticks env (res_pid r) = Some (res_ticks r)"

definition read_for_admission :: "json_file \<Rightarrow> reservation option outcome" where
  "read_for_admission f =
     (case f of
        Missing \<Rightarrow> Inr None
      | Unreachable \<Rightarrow> Inl (Value_Error ''reservation state is unavailable'')
      | Dangling_Link \<Rightarrow> Inl (Value_Error ''reservation state is unsafe'')
      | Stored info _ \<Rightarrow>
          if st_symlink info \<or> \<not> st_regular info \<or> st_nlink info \<noteq> 1 \<or> st_uid info \<noteq> 0
             \<or> st_mode info AND 0x012 \<noteq> 0 \<or> st_mode info AND 0x100 = 0
             \<or> st_size info > 64 * 1024
          then Inl (Value_Error ''reservation state is unsafe'')
          else (case reservation_read f of
                  None \<Rightarrow> Inl (Value_Error ''reservation state is malformed'')
                | Some r \<Rightarrow> Inr (Some r)))"

definition expected_controller ::
  "slot_env \<Rightarrow> int option \<Rightarrow> int option \<Rightarrow> (int \<times> int) outcome" where
  "expected_controller env pid_opt ticks_opt =
     (let pid = (case pid_opt of None \<Rightarrow> own_pid env | Some p \<Rightarrow> p);
          ticks = (case ticks_opt of None \<Rightarrow> start_ticks env pid | Some t \<Rightarrow> Some t)
      in case ticks of
           None \<Rightarrow> Inl (Value_Error ''controller identity cannot be proven'')
         | Some t \<Rightarrow>
             if pid \<le> 0 \<or> t < 0 then Inl (Value_Error ''controller identity cannot be proven'')
             else Inr (pid, t))"

section \<open>Creating a reservation\<close>

record reserve_request =
  rq_profile :: profile_ref
  rq_operation_id :: string
  rq_ttl :: pyfloat
  rq_generation :: int
  rq_pid :: "int option"
  rq_ticks :: "int option"
  rq_kind :: string
  rq_capability :: "string option"

text \<open>The argument checks that \<open>reserve\<close> and \<open>reserve_if_available\<close> both perform before they take
  the operation lock; the result is the profile, the lifetime and the controller identity.\<close>

definition check_reserve_request ::
  "slot_env \<Rightarrow> reserve_request \<Rightarrow> (profile_id \<times> rat \<times> int \<times> int) outcome" where
  "check_reserve_request env rq =
     and_then (raise_if (euid env \<noteq> 0) (Permission_Error ''only root may create reservations'')) (\<lambda>_.
     and_then (profile_arg (rq_profile rq)) (\<lambda>profile.
     and_then (raise_if (rq_operation_id rq = []) (Value_Error ''invalid operation id'')) (\<lambda>_.
     and_then (case rq_ttl rq of Finite t \<Rightarrow> Inr t | _ \<Rightarrow> Inl (Value_Error ''invalid reservation ttl''))
       (\<lambda>ttl.
     and_then (raise_if (\<not> (0 < ttl \<and> ttl \<le> MAX_RESERVATION_TTL))
        (Value_Error ''reservation ttl must be at most 30 seconds'')) (\<lambda>_.
     and_then (raise_if (rq_generation rq < 0) (Value_Error ''invalid state generation'')) (\<lambda>_.
     and_then (raise_if (rq_kind rq \<notin> set operation_kinds) (Value_Error ''invalid operation kind'')) (\<lambda>_.
     and_then (raise_if (\<not> opt_ok (\<lambda>c. rq_kind rq = ''update'' \<and> is_hex64 c) (rq_capability rq))
        (Value_Error ''invalid handoff capability'')) (\<lambda>_.
     let pid = (case rq_pid rq of None \<Rightarrow> own_pid env | Some p \<Rightarrow> p);
         ticks = (case rq_ticks rq of None \<Rightarrow> start_ticks env pid | Some t \<Rightarrow> Some t)
     in case ticks of
          None \<Rightarrow> Inl (Value_Error ''controller process does not exist'')
        | Some t \<Rightarrow> Inr (profile, ttl, pid, t)))))))))"

definition commit_reservation ::
  "slot_env \<Rightarrow> reservation \<Rightarrow> json_file \<Rightarrow> reservation outcome \<times> json_file" where
  "commit_reservation env r f =
     (case atomic_json env (JObj (reservation_payload r)) f of
        (Inl e, f') \<Rightarrow> (Inl e, f')
      | (Inr _, f') \<Rightarrow> (Inr r, f'))"

text \<open>\<^verbatim>\<open>Reservation(profile_id, ..., self.clock() + ttl, ...)\<close>.\<close>

definition new_reservation ::
  "reserve_request \<Rightarrow> profile_id \<times> rat \<times> int \<times> int \<Rightarrow> int \<Rightarrow> rat \<Rightarrow> reservation" where
  "new_reservation rq checked generation now =
     (case checked of (profile, ttl, pid, ticks) \<Rightarrow>
        \<lparr>res_profile = profile, res_operation_id = rq_operation_id rq,
         res_generation = generation, res_pid = pid, res_ticks = ticks,
         res_expires_at = now + ttl, res_kind = rq_kind rq,
         res_capability = rq_capability rq\<rparr>)"

definition reserve ::
  "slot_env \<Rightarrow> reserve_request \<Rightarrow> json_file \<Rightarrow> reservation outcome \<times> json_file" where
  "reserve env rq f =
     (case check_reserve_request env rq of
        Inl e \<Rightarrow> (Inl e, f)
      | Inr checked \<Rightarrow>
          operation_transaction env f
            (commit_reservation env (new_reservation rq checked (rq_generation rq) (clock_at env 0))))"

text \<open>The value \<open>generation_provider()\<close> returned, checked.\<close>

fun provided_generation :: "json outcome option \<Rightarrow> int \<Rightarrow> int outcome" where
  "provided_generation None g = Inr g"
| "provided_generation (Some (Inl e)) g = Inl e"
| "provided_generation (Some (Inr (JInt n))) g =
     (if n < 0 then Inl (Value_Error ''invalid state generation'') else Inr n)"
| "provided_generation (Some (Inr _)) g = Inl (Value_Error ''invalid state generation'')"

text \<open>The checks made under the lock; the result is the generation to record.\<close>

definition admit_reservation ::
  "slot_env \<Rightarrow> reserve_request \<Rightarrow> bool outcome option \<Rightarrow> json outcome option \<Rightarrow> json_file \<Rightarrow> int outcome"
  where
  "admit_reservation env rq availability provider f =
     and_then (read_for_admission f) (\<lambda>current.
     and_then (raise_if (case current of None \<Rightarrow> False | Some c \<Rightarrow> live_at env (clock_at env 0) c)
        (Blocking_IO_Error ''reservation is already live'')) (\<lambda>_.
     and_then (case availability of None \<Rightarrow> Inr True | Some a \<Rightarrow> a) (\<lambda>available.
     and_then (raise_if (\<not> available)
        (Blocking_IO_Error ''reservation precondition is not satisfied'')) (\<lambda>_.
     provided_generation provider (rq_generation rq)))))"

definition reserve_if_available ::
  "slot_env \<Rightarrow> reserve_request \<Rightarrow> bool outcome option \<Rightarrow> json outcome option \<Rightarrow> json_file
     \<Rightarrow> reservation outcome \<times> json_file" where
  "reserve_if_available env rq availability provider f =
     (case check_reserve_request env rq of
        Inl e \<Rightarrow> (Inl e, f)
      | Inr checked \<Rightarrow>
          operation_transaction env f (\<lambda>f.
            case admit_reservation env rq availability provider f of
              Inl e \<Rightarrow> (Inl e, f)
            | Inr generation \<Rightarrow>
                commit_reservation env (new_reservation rq checked generation (clock_at env 1)) f))"

section \<open>Operations of an owner\<close>

record lease_ref =
  lr_profile :: profile_ref
  lr_operation_id :: string
  lr_generation :: int
  lr_kind :: "string option"
  lr_pid :: "int option"
  lr_ticks :: "int option"

text \<open>The comparison every owner operation makes, given the validated profile and controller.\<close>

definition owned_by :: "lease_ref \<Rightarrow> profile_id \<Rightarrow> int \<times> int \<Rightarrow> reservation \<Rightarrow> bool" where
  "owned_by lr profile ctl r \<longleftrightarrow>
     res_profile r = profile \<and> res_operation_id r = lr_operation_id lr
     \<and> res_generation r = lr_generation lr
     \<and> (case lr_kind lr of None \<Rightarrow> True | Some k \<Rightarrow> res_kind r = k)
     \<and> res_pid r = fst ctl \<and> res_ticks r = snd ctl"

definition resolve_lease_ref :: "slot_env \<Rightarrow> lease_ref \<Rightarrow> (profile_id \<times> int \<times> int) outcome" where
  "resolve_lease_ref env lr =
     and_then (profile_arg (lr_profile lr)) (\<lambda>profile.
     and_then (expected_controller env (lr_pid lr) (lr_ticks lr)) (\<lambda>ctl. Inr (profile, ctl)))"

text \<open>The body shared by the two release operations, with the identity already validated.\<close>

definition release_owned ::
  "slot_env \<Rightarrow> lease_ref \<Rightarrow> profile_id \<times> int \<times> int \<Rightarrow> json_file \<Rightarrow> bool outcome \<times> json_file" where
  "release_owned env lr who f =
     (case reservation_read f of
        None \<Rightarrow> (Inr False, f)
      | Some c \<Rightarrow>
          if \<not> owned_by lr (fst who) (snd who) c then (Inr False, f)
          else (case unlink_file env f of
                  (Inl e, f') \<Rightarrow> (Inl e, f')
                | (Inr _, f') \<Rightarrow> (Inr True, f')))"

definition release_if_owned_locked ::
  "slot_env \<Rightarrow> lease_ref \<Rightarrow> json_file \<Rightarrow> bool outcome \<times> json_file" where
  "release_if_owned_locked env lr f =
     (case resolve_lease_ref env lr of
        Inl e \<Rightarrow> (Inl e, f)
      | Inr who \<Rightarrow> release_owned env lr who f)"

definition release_if_owned ::
  "slot_env \<Rightarrow> lease_ref \<Rightarrow> json_file \<Rightarrow> bool outcome \<times> json_file" where
  "release_if_owned env lr f =
     (case resolve_lease_ref env lr of
        Inl e \<Rightarrow> (Inl e, f)
      | Inr who \<Rightarrow> operation_transaction env f (release_owned env lr who))"

definition owns_live :: "slot_env \<Rightarrow> lease_ref \<Rightarrow> json_file \<Rightarrow> bool outcome" where
  "owns_live env lr f =
     and_then (resolve_lease_ref env lr) (\<lambda>(profile, ctl).
     and_then (lock_open env) (\<lambda>_.
     Inr (case reservation_read f of
            None \<Rightarrow> False
          | Some c \<Rightarrow> owned_by lr profile ctl c \<and> live_at env (clock_at env 0) c)))"

text \<open>The variant for a caller that already holds the operation lock accepts update leases only.\<close>

definition owns_live_locked :: "slot_env \<Rightarrow> lease_ref \<Rightarrow> json_file \<Rightarrow> bool outcome" where
  "owns_live_locked env lr f =
     and_then (resolve_lease_ref env lr) (\<lambda>(profile, ctl).
     Inr (case reservation_read f of
            None \<Rightarrow> False
          | Some c \<Rightarrow> owned_by (lr\<lparr>lr_kind := Some ''update''\<rparr>) profile ctl c
              \<and> live_at env (clock_at env 0) c))"

definition transfer_if_owned ::
  "slot_env \<Rightarrow> lease_ref \<Rightarrow> profile_ref \<Rightarrow> string \<Rightarrow> rat \<Rightarrow> json_file
     \<Rightarrow> reservation outcome \<times> json_file" where
  "transfer_if_owned env lr target_ref target_operation_id ttl f =
     (case and_then (profile_arg (lr_profile lr)) (\<lambda>source.
           and_then (profile_arg target_ref) (\<lambda>target.
           and_then (expected_controller env (lr_pid lr) (lr_ticks lr)) (\<lambda>ctl.
           Inr (source, target, ctl)))) of
        Inl e \<Rightarrow> (Inl e, f)
      | Inr (source, target, ctl) \<Rightarrow>
          operation_transaction env f (\<lambda>f.
            case reservation_read f of
              None \<Rightarrow> (Inl (Blocking_IO_Error ''reservation ownership changed''), f)
            | Some c \<Rightarrow>
                if \<not> owned_by (lr\<lparr>lr_kind := None\<rparr>) source ctl c
                then (Inl (Blocking_IO_Error ''reservation ownership changed''), f)
                else commit_reservation env
                       (c\<lparr>res_profile := target, res_operation_id := target_operation_id,
                          res_generation := lr_generation lr,
                          res_expires_at := clock_at env 0 + ttl\<rparr>) f))"

definition renew_if_owned ::
  "slot_env \<Rightarrow> lease_ref \<Rightarrow> rat \<Rightarrow> json_file \<Rightarrow> reservation outcome \<times> json_file" where
  "renew_if_owned env lr ttl f =
     (case resolve_lease_ref env lr of
        Inl e \<Rightarrow> (Inl e, f)
      | Inr (profile, ctl) \<Rightarrow>
          operation_transaction env f (\<lambda>f.
            case reservation_read f of
              None \<Rightarrow> (Inl (Blocking_IO_Error ''reservation ownership changed''), f)
            | Some c \<Rightarrow>
                if \<not> owned_by lr profile ctl c \<or> \<not> live_at env (clock_at env 0) c
                then (Inl (Blocking_IO_Error ''reservation ownership changed''), f)
                else commit_reservation env (c\<lparr>res_expires_at := clock_at env 1 + ttl\<rparr>) f))"

section \<open>Handoff, runner admission, status projection, reconciliation\<close>

text \<open>\<open>hashlib.sha256(...).hexdigest()\<close> is the argument \<open>digest\<close>.\<close>

definition capability_digest :: "(string \<Rightarrow> string) \<Rightarrow> string \<Rightarrow> string outcome" where
  "capability_digest digest token =
     (if \<not> is_hex64 token then Inl (Value_Error ''handoff capability is malformed'')
      else Inr (digest token))"

definition authorize_handoff ::
  "(string \<Rightarrow> string) \<Rightarrow> slot_env \<Rightarrow> profile_ref \<Rightarrow> string \<Rightarrow> string \<Rightarrow> json_file \<Rightarrow> reservation outcome"
  where
  "authorize_handoff digest env pref token opkind f =
     and_then (profile_arg pref) (\<lambda>profile.
     and_then (raise_if (opkind \<notin> set operation_kinds) (Value_Error ''invalid operation kind'')) (\<lambda>_.
     and_then (capability_digest digest token) (\<lambda>expected.
     and_then (lock_open env) (\<lambda>_.
     and_then (read_for_admission f) (\<lambda>current.
     case current of
       None \<Rightarrow> Inl (Blocking_IO_Error ''handoff capability does not match the live reservation'')
     | Some c \<Rightarrow>
         if \<not> live_at env (clock_at env 0) c \<or> res_profile c \<noteq> profile \<or> res_kind c \<noteq> opkind
            \<or> res_capability c \<noteq> Some expected
         then Inl (Blocking_IO_Error ''handoff capability does not match the live reservation'')
         else Inr c)))))"

text \<open>\<open>valid_for_runner\<close>: \<open>Some True\<close> for a matching reservation, \<open>Some False\<close> for a live mismatch,
  \<open>None\<close> when the reservation is absent or stale.\<close>

definition valid_for_runner :: "slot_env \<Rightarrow> profile_ref \<Rightarrow> json_file \<Rightarrow> bool option outcome" where
  "valid_for_runner env pref f =
     and_then (profile_arg pref) (\<lambda>requested.
     Inr (case reservation_read f of
            None \<Rightarrow> None
          | Some r \<Rightarrow>
              if \<not> live_at env (clock_at env 0) r then None
              else Some (res_profile r = requested \<and> res_kind r = ''lifecycle'')))"

definition live_update :: "slot_env \<Rightarrow> profile_ref option \<Rightarrow> json_file \<Rightarrow> reservation option" where
  "live_update env pref f =
     (case (case pref of None \<Rightarrow> Inr None | Some p \<Rightarrow> map_sum id Some (profile_arg p)) of
        Inl _ \<Rightarrow> None
      | Inr requested \<Rightarrow>
          (case reservation_read f of
             None \<Rightarrow> None
           | Some r \<Rightarrow>
               if res_kind r \<noteq> ''update'' then None
               else if requested \<noteq> None \<and> requested \<noteq> Some (res_profile r) then None
               else if \<not> live_at env (clock_at env 0) r then None
               else Some r))"

text \<open>\<open>reconcile\<close>: the file is looked at once outside the lock and again inside it.  \<open>f1\<close> is what the
  second look finds.\<close>

definition reconcile_locked :: "slot_env \<Rightarrow> json_file \<Rightarrow> bool outcome \<times> json_file" where
  "reconcile_locked env f1 =
     (if (case reservation_read f1 of None \<Rightarrow> True | Some c \<Rightarrow> \<not> live_at env (clock_at env 1) c)
         \<and> path_exists f1
      then (case unlink_file env f1 of (Inl e, f') \<Rightarrow> (Inl e, f') | (Inr _, f') \<Rightarrow> (Inr True, f'))
      else (Inr False, f1))"

definition reconcile :: "slot_env \<Rightarrow> json_file \<Rightarrow> json_file \<Rightarrow> bool outcome \<times> json_file" where
  "reconcile env f0 f1 =
     (if euid env \<noteq> 0 then (Inl (Permission_Error ''only root may reconcile reservations''), f1)
      else if (case reservation_read f0 of None \<Rightarrow> False | Some r \<Rightarrow> live_at env (clock_at env 0) r)
      then (Inr False, f1)
      else operation_transaction env f1 (reconcile_locked env))"

section \<open>SlotInspector\<close>

record slot_observation =
  obs_owner :: "string option"
  obs_pid :: "int option"
  obs_ticks :: "int option"
  obs_inconsistent :: bool

definition free_observation :: slot_observation where
  "free_observation =
     \<lparr>obs_owner = None, obs_pid = None, obs_ticks = None, obs_inconsistent = False\<rparr>"

definition inconsistent_observation :: slot_observation where
  "inconsistent_observation = free_observation\<lparr>obs_inconsistent := True\<rparr>"

fun int_of_json :: "json \<Rightarrow> int option" where
  "int_of_json (JInt n) = Some n"
| "int_of_json (JBool b) = Some (of_bool b)"
| "int_of_json _ = None"

text \<open>The body of the \<^verbatim>\<open>try\<close>: \<open>None\<close> where it raises.\<close>

definition running_holder :: "slot_env \<Rightarrow> json_file \<Rightarrow> slot_observation option" where
  "running_holder env meta = do {
     raw \<leftarrow> read_json meta;
     owner \<leftarrow> (case map_of raw ''profile_id'' of None \<Rightarrow> map_of raw ''profile'' | Some j \<Rightarrow> Some j)
       \<bind> as_str \<bind> profile_of_value;
     pid \<leftarrow> map_of raw ''pid'' \<bind> int_of_json;
     ticks \<leftarrow> map_of raw ''proc_start_ticks'' \<bind> int_of_json;
     if pid \<le> 0 \<or> ticks < 0 \<or> start_ticks env pid \<noteq> Some ticks then None
     else Some \<lparr>obs_owner = Some (profile_value owner), obs_pid = Some pid,
                obs_ticks = Some ticks, obs_inconsistent = False\<rparr> }"

definition observe_held_slot :: "slot_env \<Rightarrow> json_file \<Rightarrow> slot_observation" where
  "observe_held_slot env meta =
     (case running_holder env meta of None \<Rightarrow> inconsistent_observation | Some ob \<Rightarrow> ob)"

text \<open>\<open>observe\<close>: \<open>held\<close> says whether another process holds the slot lock (the non-blocking \<open>flock\<close>
  raises).  When it does not, the metadata left by a dead runner is removed.\<close>

definition observe ::
  "slot_env \<Rightarrow> bool \<Rightarrow> json_file \<Rightarrow> slot_observation outcome \<times> json_file" where
  "observe env held meta =
     (case lock_open env of
        Inl e \<Rightarrow> (Inl e, meta)
      | Inr _ \<Rightarrow>
          if held then (Inr (observe_held_slot env meta), meta)
          else (case meta of
                  Missing \<Rightarrow> (Inr free_observation, meta)
                | _ \<Rightarrow> (case unlink_file env meta of
                          (Inl e, m) \<Rightarrow> (Inl e, m)
                        | (Inr _, m) \<Rightarrow> (Inr free_observation, m))))"

section \<open>Traces of store calls\<close>

text \<open>The calls that can change the file, except the unconditional \<open>reserve\<close>.  \<open>store_step\<close> is
  the effect of one call on the file.  The second argument of \<open>Reconcile\<close> is what its unlocked
  first look found.\<close>

datatype store_call =
    Acquire reserve_request "bool outcome option" "json outcome option"
  | Release lease_ref
  | Release_Locked lease_ref
  | Transfer lease_ref profile_ref string rat
  | Renew lease_ref rat
  | Reconcile json_file

fun store_step :: "slot_env \<Rightarrow> store_call \<Rightarrow> json_file \<Rightarrow> json_file" where
  "store_step env (Acquire rq availability provider) f =
     snd (reserve_if_available env rq availability provider f)"
| "store_step env (Release lr) f = snd (release_if_owned env lr f)"
| "store_step env (Release_Locked lr) f = snd (release_if_owned_locked env lr f)"
| "store_step env (Transfer lr target target_id ttl) f =
     snd (transfer_if_owned env lr target target_id ttl f)"
| "store_step env (Renew lr ttl) f = snd (renew_if_owned env lr ttl f)"
| "store_step env (Reconcile seen) f = snd (reconcile env seen f)"

text \<open>The call names the lease \<open>r\<close>: its arguments pass the ownership comparison.\<close>

fun names_lease :: "slot_env \<Rightarrow> store_call \<Rightarrow> reservation \<Rightarrow> bool" where
  "names_lease env (Acquire _ _ _) r = False"
| "names_lease env (Reconcile _) r = False"
| "names_lease env (Transfer lr _ _ _) r =
     (case resolve_lease_ref env lr of Inl _ \<Rightarrow> False
      | Inr who \<Rightarrow> owned_by (lr\<lparr>lr_kind := None\<rparr>) (fst who) (snd who) r)"
| "names_lease env (Release lr) r =
     (case resolve_lease_ref env lr of Inl _ \<Rightarrow> False | Inr who \<Rightarrow> owned_by lr (fst who) (snd who) r)"
| "names_lease env (Release_Locked lr) r =
     (case resolve_lease_ref env lr of Inl _ \<Rightarrow> False | Inr who \<Rightarrow> owned_by lr (fst who) (snd who) r)"
| "names_lease env (Renew lr _) r =
     (case resolve_lease_ref env lr of Inl _ \<Rightarrow> False | Inr who \<Rightarrow> owned_by lr (fst who) (snd who) r)"

text \<open>The lease is live at both clock readings a call can take.\<close>

definition live_during :: "slot_env \<Rightarrow> reservation \<Rightarrow> bool" where
  "live_during env r \<longleftrightarrow> live_at env (clock_at env 0) r \<and> live_at env (clock_at env 1) r"

text \<open>A record of ordinary size: an identifier of at most 1024 characters and numbers below \<open>2^63\<close>.  \<^verbatim>\<open>json.dumps\<close> writes at most
  twelve bytes for a character and 24 for such a number or a float, so its text stays below the 64 KiB of the
  admission reader; \<open>encoder_fits\<close> says so of the encoder.\<close>

definition ordinary :: "reservation \<Rightarrow> bool" where
  "ordinary r \<longleftrightarrow> length (res_operation_id r) \<le> 1024 \<and> res_generation r < 2 ^ 63 \<and> res_pid r < 2 ^ 63 \<and> res_ticks r < 2 ^ 63"

definition encoder_fits :: "slot_env \<Rightarrow> bool" where
  "encoder_fits env \<longleftrightarrow>
     (\<forall>r. reservation_wf r \<and> ordinary r \<longrightarrow> encoded_size env (JObj (reservation_payload r)) \<le> 64 * 1024)"

text \<open>A file that the admission reader accepts, absent or with a record of ordinary size.\<close>

definition store_ok :: "json_file \<Rightarrow> bool" where
  "store_ok f = (case read_for_admission f of Inl _ \<Rightarrow> False | Inr None \<Rightarrow> True | Inr (Some r) \<Rightarrow> ordinary r)"

text \<open>Calls by root, with a provable controller identity and arguments of ordinary size.  The target id of a transfer must not
  be empty, which \<open>transfer_if_owned\<close> does not check itself (see \<open>empty_transfer_blocks\<close> below).\<close>

fun root_call :: "slot_env \<Rightarrow> store_call \<Rightarrow> bool" where
  "root_call env (Acquire rq _ provider) =
     (euid env = 0 \<and> length (rq_operation_id rq) \<le> 1024
      \<and> (case expected_controller env (rq_pid rq) (rq_ticks rq) of Inl _ \<Rightarrow> False | Inr (pid, ticks) \<Rightarrow> pid < 2 ^ 63 \<and> ticks < 2 ^ 63)
      \<and> (case provided_generation provider (rq_generation rq) of Inl _ \<Rightarrow> True | Inr g \<Rightarrow> g < 2 ^ 63))"
| "root_call env (Transfer _ _ target_id _) = (euid env = 0 \<and> target_id \<noteq> [] \<and> length target_id \<le> 1024)"
| "root_call env _ = (euid env = 0)"

section \<open>A concrete host\<close>

text \<open>Root controller 4242 started at tick 77, a sound lock file, a clock at 1000 seconds, and
  requests and leases of that controller, for the evaluations below.\<close>

definition host :: slot_env where
  "host = \<lparr>clock_at = (\<lambda>n. 1000 + of_nat n), start_ticks = [4242 \<mapsto> 77], euid = 0, egid = 0,
     own_pid = 4242,
     lock_file = Some \<lparr>st_symlink = False, st_regular = True, st_nlink = 1, st_uid = 0, st_gid = 990,
       st_mode = 0x1B0, st_size = 0\<rparr>,
     lock_is_canonical = True, gameslot_gid = Some 990, write_result = Write_Ok, unlink_ok = True,
     encoded_size = (\<lambda>_. 256)\<rparr>"

definition start_request :: reserve_request where
  "start_request = \<lparr>rq_profile = PMember TERRARIA_VANILLA, rq_operation_id = ''job-1'',
     rq_ttl = Finite 30, rq_generation = 3, rq_pid = None, rq_ticks = None,
     rq_kind = ''lifecycle'', rq_capability = None\<rparr>"

definition start_lease :: reservation where
  "start_lease = \<lparr>res_profile = TERRARIA_VANILLA, res_operation_id = ''job-1'', res_generation = 3,
     res_pid = 4242, res_ticks = 77, res_expires_at = 1020, res_kind = ''lifecycle'',
     res_capability = None\<rparr>"

definition start_lease_ref :: lease_ref where
  "start_lease_ref = \<lparr>lr_profile = PMember TERRARIA_VANILLA, lr_operation_id = ''job-1'',
     lr_generation = 3, lr_kind = None, lr_pid = None, lr_ticks = None\<rparr>"

definition lease_file :: "reservation \<Rightarrow> json_file" where
  "lease_file r = written_file host (JObj (reservation_payload r))"

section \<open>Interface of a lease store\<close>

text \<open>What a client of the store relies on: a call changes the recorded holder only when the
  holder is no longer live or the call names it, and calls of the documented kind keep the store
  readable.\<close>

locale lease_store =
  fixes holder :: "'s \<Rightarrow> 'l option"
    and step :: "'e \<Rightarrow> 'c \<Rightarrow> 's \<Rightarrow> 's"
    and live :: "'e \<Rightarrow> 'l \<Rightarrow> bool"
    and names :: "'e \<Rightarrow> 'c \<Rightarrow> 'l \<Rightarrow> bool"
    and ok :: "'s \<Rightarrow> bool"
    and proper :: "'e \<Rightarrow> 'c \<Rightarrow> bool"
  assumes holder_kept:
      "holder s = Some l \<Longrightarrow> live e l \<Longrightarrow> \<not> names e c l \<Longrightarrow> holder (step e c s) = Some l"
    and ok_kept: "ok s \<Longrightarrow> proper e c \<Longrightarrow> ok (step e c s)"
begin

text \<open>Any interleaving of calls that do not name the lease leaves it in place while it is live.\<close>

lemma trace_keeps_holder:
  "holder s = Some l \<Longrightarrow> (\<And>e c. (e, c) \<in> set tr \<Longrightarrow> live e l \<and> \<not> names e c l)
     \<Longrightarrow> holder (fold (\<lambda>(e, c). step e c) tr s) = Some l"
proof (induction tr arbitrary: s)
  case (Cons a tr)
  obtain e c where "a = (e, c)" by fastforce
  with Cons.prems have "holder (step e c s) = Some l" by (auto intro: holder_kept)
  with Cons.IH Cons.prems(2) show ?case by (auto simp: \<open>a = (e, c)\<close>)
qed simp

lemma trace_keeps_ok:
  "ok s \<Longrightarrow> list_all (\<lambda>(e, c). proper e c) tr \<Longrightarrow> ok (fold (\<lambda>(e, c). step e c) tr s)"
  by (induction tr arbitrary: s) (auto intro: ok_kept)

end

section \<open>Round trip and well-formedness of records\<close>

lemma capability_of_json_ok:
  "capability_of_json opkind j = Some c \<Longrightarrow> opt_ok (\<lambda>d. opkind = ''update'' \<and> is_hex64 d) c"
  by (cases "(opkind, j)" rule: capability_of_json.cases) (auto split: if_splits)

lemma reservation_from_json_wf:
  "reservation_from_json raw = Some r \<Longrightarrow> reservation_wf r"
  unfolding reservation_from_json_def reservation_wf_def
  by (auto simp: bind_eq_Some_conv split: if_splits dest: capability_of_json_ok)

lemma reservation_read_wf: "reservation_read f = Some r \<Longrightarrow> reservation_wf r"
  unfolding reservation_read_def by (rule reservation_from_json_wf)

lemma reservation_payload_parse:
  "reservation_from_json (Some (reservation_payload r)) = (if reservation_wf r then Some r else None)"
  unfolding reservation_from_json_def reservation_wf_def reservation_payload_def
  by (cases r) (auto split: option.splits simp: opt_ok_def)

lemma read_written [simp]:
  "reservation_read (written_file env (JObj (reservation_payload r))) = (if reservation_wf r then Some r else None)"
  by (simp add: reservation_read_def written_file_def reservation_payload_parse)

lemma commit_reservation_cases:
  assumes "commit_reservation env r f = (res, f')"
  obtains (ok) "write_result env = Write_Ok" "res = Inr r"
      "f' = written_file env (JObj (reservation_payload r))"
    | (lost) e where "write_result env = Write_Fails" "res = Inl e" "f' = f"
    | (unsynced) e where "write_result env = Sync_Fails" "res = Inl e"
      "f' = written_file env (JObj (reservation_payload r))"
  using assms unfolding commit_reservation_def atomic_json_def
  by (auto split: write_result.splits)

lemma commit_unless_rejected:
  "commit_reservation env r f = (res, f') \<Longrightarrow>
     f' = f \<or> f' = written_file env (JObj (reservation_payload r))"
  by (erule commit_reservation_cases) auto

section \<open>Acquisition\<close>

lemma check_reserve_request_Inr:
  assumes "check_reserve_request env rq = Inr (profile, ttl, pid, ticks)"
  shows "euid env = 0" "profile_arg (rq_profile rq) = Inr profile" "rq_operation_id rq \<noteq> []"
    "rq_ttl rq = Finite ttl" "0 < ttl" "ttl \<le> MAX_RESERVATION_TTL" "0 \<le> rq_generation rq"
    "rq_kind rq \<in> set operation_kinds"
    "opt_ok (\<lambda>c. rq_kind rq = ''update'' \<and> is_hex64 c) (rq_capability rq)"
    "pid = (case rq_pid rq of None \<Rightarrow> own_pid env | Some p \<Rightarrow> p)"
    "Some ticks = (case rq_ticks rq of None \<Rightarrow> start_ticks env pid | Some t \<Rightarrow> Some t)"
  using assms unfolding check_reserve_request_def Let_def
  by (auto simp: stage_simps split: pyfloat.splits option.splits if_splits)

lemma provided_generation_nonneg:
  "provided_generation provider g = Inr n \<Longrightarrow> 0 \<le> g \<Longrightarrow> 0 \<le> n"
  by (cases "(provider, g)" rule: provided_generation.cases) (auto split: if_splits)

lemma reservation_from_json_None [simp]: "reservation_from_json None = None"
  by (simp add: reservation_from_json_def)

lemma read_for_admission_Inr: "read_for_admission f = Inr current \<Longrightarrow> reservation_read f = current"
  by (auto simp: read_for_admission_def reservation_read_def
      split: json_file.splits option.splits if_splits)

lemma admit_reservation_Inr:
  assumes "admit_reservation env rq availability provider f = Inr generation"
  shows "reservation_read f = Some c \<Longrightarrow> \<not> live_at env (clock_at env 0) c"
    and "availability = None \<or> availability = Some (Inr True)"
    and "provided_generation provider (rq_generation rq) = Inr generation"
proof -
  obtain current where cur: "read_for_admission f = Inr current"
    using assms by (auto simp: admit_reservation_def stage_simps)
  show "reservation_read f = Some c \<Longrightarrow> \<not> live_at env (clock_at env 0) c"
    using assms cur read_for_admission_Inr[OF cur]
    by (auto simp: admit_reservation_def stage_simps split: if_splits)
  show "availability = None \<or> availability = Some (Inr True)"
      "provided_generation provider (rq_generation rq) = Inr generation"
    using assms cur by (auto simp: admit_reservation_def stage_simps split: option.splits if_splits)
qed

lemma acquire_cases:
  assumes "reserve_if_available env rq availability provider f = (res, f')"
  obtains (refused) e where "res = Inl e" "f' = f"
    | (committed) profile ttl pid ticks generation where
        "check_reserve_request env rq = Inr (profile, ttl, pid, ticks)"
        "lock_open env = Inr ()"
        "admit_reservation env rq availability provider f = Inr generation"
        "commit_reservation env (new_reservation rq (profile, ttl, pid, ticks) generation (clock_at env 1)) f
           = (res, f')"
  using assms unfolding reserve_if_available_def operation_transaction_def
  by (auto split: sum.splits)

lemma live_not_replaced:
  assumes "reservation_read f = Some c" "live_at env (clock_at env 0) c"
  shows "snd (reserve_if_available env rq availability provider f) = f"
    and "\<exists>e. fst (reserve_if_available env rq availability provider f) = Inl e"
proof -
  obtain res f' where call: "reserve_if_available env rq availability provider f = (res, f')"
    by fastforce
  have "f' = f \<and> (\<exists>e. res = Inl e)"
    using call
  proof (cases rule: acquire_cases)
    case committed
    then show ?thesis using assms admit_reservation_Inr(1) by blast
  qed simp
  with call show "snd (reserve_if_available env rq availability provider f) = f"
    "\<exists>e. fst (reserve_if_available env rq availability provider f) = Inl e" by auto
qed

lemma new_reservation_wf:
  assumes "check_reserve_request env rq = Inr (profile, ttl, pid, ticks)" "0 < pid" "0 \<le> ticks"
    "provided_generation provider (rq_generation rq) = Inr generation"
  shows "reservation_wf (new_reservation rq (profile, ttl, pid, ticks) generation now)"
  using check_reserve_request_Inr[OF assms(1)] provided_generation_nonneg[OF assms(4)] assms(2,3)
  by (simp add: reservation_wf_def new_reservation_def)

lemma written_admitted:
  "euid env = 0 \<Longrightarrow> reservation_wf r \<Longrightarrow> encoded_size env (JObj (reservation_payload r)) \<le> 64 * 1024
     \<Longrightarrow> read_for_admission (written_file env (JObj (reservation_payload r))) = Inr (Some r)"
  using read_written[of env r] by (simp add: read_for_admission_def written_file_def)

lemma written_ok:
  "encoder_fits env \<Longrightarrow> euid env = 0 \<Longrightarrow> reservation_wf r \<Longrightarrow> ordinary r
     \<Longrightarrow> store_ok (written_file env (JObj (reservation_payload r)))"
  using written_admitted[of env r] by (simp add: store_ok_def encoder_fits_def)

lemma store_ok_ordinary: "store_ok f \<Longrightarrow> reservation_read f = Some r \<Longrightarrow> ordinary r"
  by (auto simp: store_ok_def read_for_admission_def reservation_read_def reservation_from_json_None
      split: json_file.splits if_splits option.splits sum.splits)

lemma expected_controller_request:
  assumes "check_reserve_request env rq = Inr (profile, ttl, pid, ticks)"
    and "expected_controller env (rq_pid rq) (rq_ticks rq) = Inr ctl"
  shows "ctl = (pid, ticks)" "0 < pid" "0 \<le> ticks"
  using check_reserve_request_Inr(10,11)[OF assms(1)] assms(2)
  unfolding expected_controller_def Let_def by (auto split: option.splits if_splits)

section \<open>Owner operations\<close>

lemma release_owned_cases:
  assumes "release_owned env lr who f = (res, f')"
  obtains (kept) "f' = f"
    | (removed) c where "reservation_read f = Some c" "owned_by lr (fst who) (snd who) c"
      "res = Inr True" "f' = Missing"
  using assms unfolding release_owned_def unlink_file_def
  by (auto split: option.splits if_splits)

lemma transfer_cases:
  assumes "transfer_if_owned env lr target target_id ttl f = (res, f')"
  obtains (refused) e where "res = Inl e" "f' = f"
    | (committed) who tgt c where "resolve_lease_ref env lr = Inr who" "profile_arg target = Inr tgt"
        "reservation_read f = Some c" "owned_by (lr\<lparr>lr_kind := None\<rparr>) (fst who) (snd who) c"
        "commit_reservation env
           (c\<lparr>res_profile := tgt, res_operation_id := target_id, res_generation := lr_generation lr,
              res_expires_at := clock_at env 0 + ttl\<rparr>) f = (res, f')"
  using assms unfolding transfer_if_owned_def operation_transaction_def resolve_lease_ref_def
  by (cases "profile_arg (lr_profile lr)"; cases "profile_arg target";
      cases "expected_controller env (lr_pid lr) (lr_ticks lr)"; cases "lock_open env")
    (auto split: option.splits if_splits)

lemma renew_cases:
  assumes "renew_if_owned env lr ttl f = (res, f')"
  obtains (refused) e where "res = Inl e" "f' = f"
    | (committed) who c where "resolve_lease_ref env lr = Inr who"
        "reservation_read f = Some c" "owned_by lr (fst who) (snd who) c"
        "live_at env (clock_at env 0) c"
        "commit_reservation env (c\<lparr>res_expires_at := clock_at env 1 + ttl\<rparr>) f = (res, f')"
  using assms unfolding renew_if_owned_def operation_transaction_def
  by (cases "resolve_lease_ref env lr"; cases "lock_open env")
    (auto split: option.splits if_splits)

lemma release_if_owned_cases:
  assumes "release_if_owned env lr f = (res, f') \<or> release_if_owned_locked env lr f = (res, f')"
  obtains (kept) "f' = f"
    | (removed) who c where "resolve_lease_ref env lr = Inr who" "reservation_read f = Some c"
      "owned_by lr (fst who) (snd who) c" "res = Inr True" "f' = Missing"
proof -
  have "f' = f \<or> (\<exists>who. resolve_lease_ref env lr = Inr who \<and> release_owned env lr who f = (res, f'))"
    using assms unfolding release_if_owned_def release_if_owned_locked_def operation_transaction_def
    by (auto split: sum.splits)
  then show thesis using kept removed by (metis release_owned_cases)
qed

lemma reconcile_cases:
  assumes "reconcile env seen f = (res, f')"
  obtains (kept) "f' = f"
    | (removed) "\<And>c. reservation_read f = Some c \<Longrightarrow> \<not> live_at env (clock_at env 1) c"
      "euid env = 0" "res = Inr True" "f' = Missing"
  using assms unfolding reconcile_def operation_transaction_def reconcile_locked_def unlink_file_def
  by (auto split: sum.splits option.splits if_splits)

section \<open>The store keeps the laws of the interface\<close>

lemma store_step_keeps_live_lease:
  assumes read: "reservation_read f = Some c" and live: "live_during env c"
    and foreign: "\<not> names_lease env call c"
  shows "store_step env call f = f"
proof (cases call)
  case (Acquire rq availability provider)
  with live_not_replaced(1)[OF read] live show ?thesis by (simp add: live_during_def)
next
  case (Release lr)
  then show ?thesis using read foreign
    by (cases "release_if_owned env lr f") (auto elim: release_if_owned_cases[OF disjI1])
next
  case (Release_Locked lr)
  then show ?thesis using read foreign
    by (cases "release_if_owned_locked env lr f") (auto elim: release_if_owned_cases[OF disjI2])
next
  case (Transfer lr target target_id ttl)
  then show ?thesis using read foreign
    by (cases "transfer_if_owned env lr target target_id ttl f") (auto elim: transfer_cases)
next
  case (Renew lr ttl)
  then show ?thesis using read foreign
    by (cases "renew_if_owned env lr ttl f") (auto elim: renew_cases)
next
  case (Reconcile seen)
  then show ?thesis using read live
    by (cases "reconcile env seen f") (auto simp: live_during_def elim!: reconcile_cases)
qed

lemma commit_keeps_ok:
  "store_ok f \<Longrightarrow> encoder_fits env \<Longrightarrow> euid env = 0 \<Longrightarrow> reservation_wf r \<Longrightarrow> ordinary r \<Longrightarrow> commit_reservation env r f = (res, f')
     \<Longrightarrow> store_ok f'"
  using written_ok commit_unless_rejected by metis

lemma transfer_keeps_ok:
  assumes call: "transfer_if_owned env lr target target_id ttl f = (res, f')"
    and "store_ok f" "encoder_fits env" "euid env = 0" "target_id \<noteq> []" "length target_id \<le> 1024"
  shows "store_ok f'"
  using call
proof (cases rule: transfer_cases)
  case (committed who tgt c)
  let ?r = "c\<lparr>res_profile := tgt, res_operation_id := target_id,
      res_generation := lr_generation lr, res_expires_at := clock_at env 0 + ttl\<rparr>"
  have "reservation_wf ?r"
    using reservation_read_wf[OF committed(3)] committed(4) assms(5)
    by (auto simp: reservation_wf_def owned_by_def)
  moreover have "ordinary ?r"
    using store_ok_ordinary[OF assms(2) committed(3)] committed(4) assms(6) by (auto simp: ordinary_def owned_by_def)
  ultimately show ?thesis using commit_keeps_ok[OF assms(2-4) _ _ committed(5)] by blast
qed (use assms in simp)

lemma renew_keeps_ok:
  assumes call: "renew_if_owned env lr ttl f = (res, f')" and "store_ok f" "encoder_fits env" "euid env = 0"
  shows "store_ok f'"
  using call
proof (cases rule: renew_cases)
  case (committed who c)
  have "reservation_wf (c\<lparr>res_expires_at := clock_at env 1 + ttl\<rparr>)"
    using reservation_read_wf[OF committed(2)] by (simp add: reservation_wf_def)
  moreover have "ordinary (c\<lparr>res_expires_at := clock_at env 1 + ttl\<rparr>)"
    using store_ok_ordinary[OF assms(2) committed(2)] by (simp add: ordinary_def)
  ultimately show ?thesis using commit_keeps_ok[OF assms(2-4) _ _ committed(5)] by blast
qed (use assms in simp)

lemma acquire_keeps_ok:
  assumes call: "reserve_if_available env rq availability provider f = (res, f')" and ok: "store_ok f"
    and root: "encoder_fits env" "root_call env (Acquire rq availability provider)"
  shows "store_ok f'"
  using call
proof (cases rule: acquire_cases)
  case (committed profile ttl pid ticks generation)
  obtain p t where ctl: "expected_controller env (rq_pid rq) (rq_ticks rq) = Inr (p, t)" "p < 2 ^ 63" "t < 2 ^ 63"
    using root(2) by (auto split: sum.splits prod.splits)
  note id = expected_controller_request[OF committed(1) ctl(1)] and gen = admit_reservation_Inr(3)[OF committed(3)]
  let ?r = "new_reservation rq (profile, ttl, pid, ticks) generation (clock_at env 1)"
  have "reservation_wf ?r" by (rule new_reservation_wf[OF committed(1) id(2,3) gen])
  moreover have "ordinary ?r" using root(2) gen id(1) ctl by (simp add: ordinary_def new_reservation_def)
  ultimately show ?thesis using commit_keeps_ok[OF ok root(1) _ _ _ committed(4)] root(2) by simp
qed (use ok in simp)

lemma store_step_keeps_ok:
  assumes ok: "store_ok f" and root: "encoder_fits env \<and> root_call env call"
  shows "store_ok (store_step env call f)"
proof (cases call)
  case (Acquire rq availability provider)
  then show ?thesis using ok root
    by (cases "reserve_if_available env rq availability provider f") (auto intro: acquire_keeps_ok simp del: root_call.simps)
next
  case (Release lr)
  then show ?thesis using ok
    by (cases "release_if_owned env lr f") (auto simp: store_ok_def read_for_admission_def elim: release_if_owned_cases[OF disjI1])
next
  case (Release_Locked lr)
  then show ?thesis using ok
    by (cases "release_if_owned_locked env lr f") (auto simp: store_ok_def read_for_admission_def elim: release_if_owned_cases[OF disjI2])
next
  case (Transfer lr target target_id ttl)
  with ok root show ?thesis
    by (cases "transfer_if_owned env lr target target_id ttl f") (auto intro: transfer_keeps_ok)
next
  case (Renew lr ttl)
  with ok root show ?thesis
    by (cases "renew_if_owned env lr ttl f") (auto intro: renew_keeps_ok)
next
  case (Reconcile seen)
  then show ?thesis using ok
    by (cases "reconcile env seen f") (auto simp: store_ok_def read_for_admission_def elim: reconcile_cases)
qed

interpretation slot_store: lease_store reservation_read store_step live_during names_lease store_ok
  "\<lambda>env call. encoder_fits env \<and> root_call env call"
  by unfold_locales (simp_all add: store_step_keeps_live_lease store_step_keeps_ok)

section \<open>Properties of the store\<close>

text \<open>C1. Mutual exclusion over interleavings: while a recorded lease is live, no sequence of
  acquisitions, releases, renewals, transfers and reconciliations by callers that do not name it
  (in any order, each with its own clock and process table) removes or replaces it.\<close>

theorem live_lease_survives_foreign_traces:
  assumes "reservation_read f = Some c"
    and "\<forall>(env, call) \<in> set tr. live_during env c \<and> \<not> names_lease env call c"
  shows "reservation_read (fold (\<lambda>(env, call). store_step env call) tr f) = Some c"
  using assms by (intro slot_store.trace_keeps_holder) auto

lemmas host_simps = host_def start_request_def start_lease_def start_lease_ref_def lease_file_def
  written_file_def operation_kinds_def MAX_RESERVATION_TTL_def

lemma start_lease_facts:
  "reservation_read (lease_file start_lease) = Some start_lease"
  "live_during host start_lease"
  "lock_open host = Inr ()"
  "resolve_lease_ref host start_lease_ref = Inr (TERRARIA_VANILLA, 4242, 77)"
  "check_reserve_request host start_request = Inr (TERRARIA_VANILLA, 30, 4242, 77)"
proof -
  have "reservation_wf start_lease"
    by (simp add: reservation_wf_def start_lease_def operation_kinds_def)
  then show "reservation_read (lease_file start_lease) = Some start_lease"
    unfolding lease_file_def by simp
qed (simp_all add: host_simps live_during_def live_at_def lock_open_def resolve_lease_ref_def
      expected_controller_def check_reserve_request_def raise_if_def)

theorem live_lease_survives_foreign_traces_witness:
  "reservation_read (store_step host (Release (start_lease_ref\<lparr>lr_generation := 4\<rparr>))
     (store_step host (Acquire start_request None None) (lease_file start_lease))) = Some start_lease"
  using live_lease_survives_foreign_traces[of "lease_file start_lease" start_lease
      "[(host, Acquire start_request None None), (host, Release (start_lease_ref\<lparr>lr_generation := 4\<rparr>))]"]
    start_lease_facts
  by (simp add: owned_by_def resolve_lease_ref_def expected_controller_def host_simps)

text \<open>C2. Acquisition: a granted lease was admitted over an absent or dead one, carries the
  requested identity, is what the admission reader finds afterwards, and is live at the moment it
  is written when the named controller is the running process.\<close>

theorem acquire_grants_live_lease:
  assumes call: "reserve_if_available env rq availability provider f = (Inr r, f')"
    and ctl: "expected_controller env (rq_pid rq) (rq_ticks rq) = Inr (pid, ticks)"
    and running: "start_ticks env pid = Some ticks"
    and fits: "encoded_size env (JObj (reservation_payload r)) \<le> 64 * 1024"
  shows "(\<forall>c. reservation_read f = Some c \<longrightarrow> \<not> live_at env (clock_at env 0) c)
    \<and> profile_arg (rq_profile rq) = Inr (res_profile r)
    \<and> res_operation_id r = rq_operation_id rq \<and> res_kind r = rq_kind rq
    \<and> (res_pid r, res_ticks r) = (pid, ticks)
    \<and> read_for_admission f' = Inr (Some r)
    \<and> live_at env (clock_at env 1) r"
  using call
proof (cases rule: acquire_cases)
  case (committed profile ttl p t generation)
  note adm = admit_reservation_Inr[OF committed(3)]
  note rq = check_reserve_request_Inr[OF committed(1)]
  note id = expected_controller_request[OF committed(1) ctl]
  have r: "r = new_reservation rq (profile, ttl, pid, ticks) generation (clock_at env 1)"
      and f': "f' = written_file env (JObj (reservation_payload r))"
    using committed(4) id(1) by (auto elim!: commit_reservation_cases)
  have wf: "reservation_wf r" using new_reservation_wf[OF committed(1) id(2,3) adm(3)] id(1) r by simp
  have "read_for_admission f' = Inr (Some r)"
    unfolding f' by (rule written_admitted[OF rq(1) wf fits])
  moreover have "live_at env (clock_at env 1) r"
    using rq(5,6) running by (simp add: r live_at_def new_reservation_def)
  ultimately show ?thesis
    using adm(1) rq(2) by (simp add: r new_reservation_def)
qed simp

theorem acquire_grants_live_lease_witness:
  "live_at host 1001 (start_lease\<lparr>res_expires_at := 1031\<rparr>)"
proof -
  have "reserve_if_available host start_request None None Missing
      = (Inr (start_lease\<lparr>res_expires_at := 1031\<rparr>), lease_file (start_lease\<lparr>res_expires_at := 1031\<rparr>))"
    using start_lease_facts(3,5)
    by (simp add: reserve_if_available_def operation_transaction_def admit_reservation_def raise_if_def
        read_for_admission_def commit_reservation_def atomic_json_def new_reservation_def host_simps)
  moreover have "expected_controller host None None = Inr (4242, 77)"
    by (simp add: expected_controller_def host_def)
  ultimately show ?thesis
    using acquire_grants_live_lease[of host start_request None None Missing _ _ 4242 77]
    by (simp add: host_simps)
qed

text \<open>One owner: two callers that are both told they own the live lease named the same profile,
  operation, generation and controller process.\<close>

theorem owns_live_exclusive:
  assumes "owns_live env lr1 f = Inr True" "owns_live env' lr2 f = Inr True"
  shows "resolve_lease_ref env lr1 = resolve_lease_ref env' lr2
    \<and> lr_operation_id lr1 = lr_operation_id lr2 \<and> lr_generation lr1 = lr_generation lr2"
  using assms unfolding owns_live_def
  by (auto simp: stage_simps owned_by_def split: option.splits)

theorem owns_live_exclusive_witness:
  "resolve_lease_ref host start_lease_ref
     = resolve_lease_ref host (start_lease_ref\<lparr>lr_pid := Some 4242, lr_kind := Some ''lifecycle''\<rparr>)"
proof -
  have "owns_live host start_lease_ref (lease_file start_lease) = Inr True"
      "owns_live host (start_lease_ref\<lparr>lr_pid := Some 4242, lr_kind := Some ''lifecycle''\<rparr>)
         (lease_file start_lease) = Inr True"
    using start_lease_facts
    by (simp_all add: owns_live_def live_during_def)
      (simp_all add: resolve_lease_ref_def expected_controller_def owned_by_def host_simps)
  from owns_live_exclusive[OF this] show ?thesis by simp
qed

text \<open>C3. Recovery: when the recorded lease is dead (expired, outside the lifetime bound, or its
  controller gone) or unreadable, root reconciliation removes the file, and the next
  well-formed acquisition whose precondition holds succeeds.\<close>

theorem reconcile_then_acquire:
  assumes root: "euid env = 0" and lock: "lock_open env = Inr ()" and unlink: "unlink_ok env"
    and dead: "\<forall>c. reservation_read f = Some c \<longrightarrow>
        \<not> live_at env (clock_at env 0) c \<and> \<not> live_at env (clock_at env 1) c"
    and there: "path_exists f"
    and request: "check_reserve_request env' rq = Inr checked"
    and lock': "lock_open env' = Inr ()" and wrote: "write_result env' = Write_Ok"
  shows "reconcile env f f = (Inr True, Missing)
    \<and> (\<exists>r f'. reserve_if_available env' rq None None (snd (reconcile env f f)) = (Inr r, f'))"
proof -
  have "reconcile env f f = (Inr True, Missing)"
    using root lock unlink dead there
    by (auto simp: reconcile_def operation_transaction_def reconcile_locked_def unlink_file_def
        split: option.splits)
  then show ?thesis using request lock' wrote
    by (simp add: reserve_if_available_def operation_transaction_def admit_reservation_def
        read_for_admission_def raise_if_def commit_reservation_def atomic_json_def)
qed

theorem reconcile_then_acquire_witness:
  "reconcile (host\<lparr>clock_at := \<lambda>_. 2000\<rparr>) (lease_file start_lease) (lease_file start_lease)
     = (Inr True, Missing)"
proof -
  let ?late = "host\<lparr>clock_at := \<lambda>_. 2000\<rparr>"
  have "\<forall>c. reservation_read (lease_file start_lease) = Some c \<longrightarrow>
        \<not> live_at ?late (clock_at ?late 0) c \<and> \<not> live_at ?late (clock_at ?late 1) c"
    using start_lease_facts(1) by (auto simp: live_at_def start_lease_def)
  moreover have "lock_open ?late = Inr ()" "path_exists (lease_file start_lease)"
    by (simp_all add: lock_open_def host_simps raise_if_def)
  ultimately show ?thesis
    using reconcile_then_acquire[of ?late "lease_file start_lease" host start_request] start_lease_facts(3,5)
    by (auto simp: host_def)
qed

text \<open>C4. The store stays readable: from an absent file, or one the admission reader accepts with a record of ordinary size, no
  sequence of root calls whose callers can prove their controller identity, with non-empty ids and arguments of ordinary
  size, leaves a file the admission reader would call unavailable, unsafe (also by its size) or malformed, even when writes
  fail half way.  The encoder is assumed to fit records of ordinary size into 64 KiB.\<close>

theorem store_stays_readable:
  assumes "store_ok f" and "\<forall>(env, call) \<in> set tr. encoder_fits env \<and> root_call env call"
  shows "\<exists>current. read_for_admission (fold (\<lambda>(env, call). store_step env call) tr f) = Inr current"
proof -
  have "store_ok (fold (\<lambda>(env, call). store_step env call) tr f)"
    using assms by (intro slot_store.trace_keeps_ok) (auto simp: list_all_iff)
  then show ?thesis by (simp add: store_ok_def split: sum.splits)
qed

theorem store_stays_readable_witness:
  "\<exists>current. read_for_admission
     (store_step host (Transfer start_lease_ref (PMember PZ_RISING) ''job-2'' 30)
       (store_step (host\<lparr>write_result := Sync_Fails\<rparr>) (Acquire start_request None None) Missing)) = Inr current"
  using store_stays_readable[of Missing
      "[(host\<lparr>write_result := Sync_Fails\<rparr>, Acquire start_request None None),
        (host, Transfer start_lease_ref (PMember PZ_RISING) ''job-2'' 30)]"]
  by (simp add: host_simps expected_controller_def encoder_fits_def store_ok_def read_for_admission_def)

text \<open>A transfer to an empty operation id is carried out, and leaves a file that blocks every acquisition as malformed.\<close>

lemma empty_transfer_blocks:
  "fst (transfer_if_owned host start_lease_ref (PMember PZ_RISING) [] 30 (lease_file start_lease)) = Inr (start_lease\<lparr>
      res_profile := PZ_RISING, res_operation_id := [], res_expires_at := 1030\<rparr>)"
  "read_for_admission (snd (transfer_if_owned host start_lease_ref (PMember PZ_RISING) [] 30 (lease_file start_lease)))
     = Inl (Value_Error ''reservation state is malformed'')"
  by code_simp+

lemma handoff_lease_is_update:
  "read_for_admission f = Inr (Some r) \<Longrightarrow> res_capability r = Some c \<Longrightarrow> res_kind r = ''update''"
  using reservation_read_wf[OF read_for_admission_Inr, of f r] by (simp add: reservation_wf_def)

text \<open>Handoff: a cross-process handoff is authorized exactly for the holder of the token whose
  digest the live, soundly stored update lease of that profile records; a lifecycle lease is never
  handed off.\<close>

theorem authorize_handoff_iff:
  "authorize_handoff digest env pref token opkind f = Inr r \<longleftrightarrow>
     opkind = ''update'' \<and> is_hex64 token \<and> lock_open env = Inr () \<and> read_for_admission f = Inr (Some r)
     \<and> live_at env (clock_at env 0) r \<and> profile_arg pref = Inr (res_profile r)
     \<and> res_kind r = ''update'' \<and> res_capability r = Some (digest token)"
proof
  assume auth: "authorize_handoff digest env pref token opkind f = Inr r"
  then obtain profile current where *: "profile_arg pref = Inr profile" "is_hex64 token"
      "lock_open env = Inr ()" "read_for_admission f = Inr current"
      and "(case current of None \<Rightarrow> Inl (Blocking_IO_Error ''handoff capability does not match the live reservation'')
        | Some c \<Rightarrow> if \<not> live_at env (clock_at env 0) c \<or> res_profile c \<noteq> profile \<or> res_kind c \<noteq> opkind
              \<or> res_capability c \<noteq> Some (digest token)
            then Inl (Blocking_IO_Error ''handoff capability does not match the live reservation'')
            else Inr c) = Inr r"
    unfolding authorize_handoff_def capability_digest_def and_then_Inr_iff
    by (auto simp del: One_nat_def split: if_split_asm)
  then have **: "current = Some r" "live_at env (clock_at env 0) r" "res_profile r = profile"
      "res_kind r = opkind" "res_capability r = Some (digest token)"
    by (auto split: option.splits if_split_asm)
  moreover have "res_kind r = ''update''"
    using handoff_lease_is_update * ** by auto
  ultimately show "opkind = ''update'' \<and> is_hex64 token \<and> lock_open env = Inr ()
      \<and> read_for_admission f = Inr (Some r) \<and> live_at env (clock_at env 0) r
      \<and> profile_arg pref = Inr (res_profile r) \<and> res_kind r = ''update''
      \<and> res_capability r = Some (digest token)"
    using * by simp
qed (simp add: authorize_handoff_def capability_digest_def raise_if_def operation_kinds_def)

text \<open>Renewal: an owner whose lease is live and whose write succeeds gets the same lease with
  only its expiry moved, and with a lifetime in the bound the renewed lease is live at the second
  reading of the clock; a lease that has died is not revived.\<close>

theorem renew_extends_only_expiry:
  assumes read: "reservation_read f = Some c" and own: "resolve_lease_ref env lr = Inr who"
      "owned_by lr (fst who) (snd who) c"
    and lock: "lock_open env = Inr ()" and wrote: "write_result env = Write_Ok"
    and ttl: "0 < ttl" "ttl \<le> MAX_RESERVATION_TTL"
  shows "if live_at env (clock_at env 0) c
    then (\<exists>r f'. renew_if_owned env lr ttl f = (Inr r, f') \<and> reservation_read f' = Some r
           \<and> r = c\<lparr>res_expires_at := clock_at env 1 + ttl\<rparr> \<and> live_at env (clock_at env 1) r)
    else renew_if_owned env lr ttl f = (Inl (Blocking_IO_Error ''reservation ownership changed''), f)"
proof -
  let ?r = "c\<lparr>res_expires_at := clock_at env 1 + ttl\<rparr>"
  obtain p ctl where who: "who = (p, ctl)" by (cases who)
  have call: "renew_if_owned env lr ttl f =
      (if live_at env (clock_at env 0) c then commit_reservation env ?r f
       else (Inl (Blocking_IO_Error ''reservation ownership changed''), f))"
    using read own lock by (simp add: who renew_if_owned_def operation_transaction_def)
  have "reservation_wf ?r"
    using reservation_read_wf[OF read] by (simp add: reservation_wf_def)
  then have "reservation_read (written_file env (JObj (reservation_payload ?r))) = Some ?r" by simp
  moreover have "live_at env (clock_at env 1) ?r" if "live_at env (clock_at env 0) c"
    using that ttl by (simp add: live_at_def)
  ultimately show ?thesis
    using wrote unfolding call by (simp add: commit_reservation_def atomic_json_def)
qed

theorem renew_extends_only_expiry_witness:
  "reservation_read (snd (renew_if_owned host start_lease_ref 30 (lease_file start_lease)))
     = Some (start_lease\<lparr>res_expires_at := 1031\<rparr>)"
proof -
  have "owned_by start_lease_ref TERRARIA_VANILLA (4242, 77) start_lease"
    by (simp add: owned_by_def host_simps)
  moreover have "clock_at host 1 = 1001" "write_result host = Write_Ok" by (simp_all add: host_def)
  ultimately show ?thesis
    using renew_extends_only_expiry[OF start_lease_facts(1) start_lease_facts(4), of 30]
      start_lease_facts(2,3)
    by (auto simp: live_during_def MAX_RESERVATION_TTL_def)
qed

text \<open>Round trip: the record written for a reservation reads back as that reservation exactly
  when it is well-formed, and everything the reader accepts is well-formed.\<close>

theorem reservation_roundtrip:
  "reservation_from_json (Some (reservation_payload r)) = Some r \<longleftrightarrow> reservation_wf r"
  by (simp add: reservation_payload_parse)

lemma running_holder_Some:
  "running_holder env meta = Some ob \<Longrightarrow>
     (\<exists>owner pid ticks. 0 < pid \<and> start_ticks env pid = Some ticks
        \<and> ob = \<lparr>obs_owner = Some (profile_value owner), obs_pid = Some pid,
                  obs_ticks = Some ticks, obs_inconsistent = False\<rparr>)"
  unfolding running_holder_def bind_eq_Some_conv
  by (auto simp: not_le not_less split: if_split_asm)

text \<open>Slot observation: with a usable lock the slot reads as free exactly when nobody holds
  it, and an owner is reported only when the metadata names a process that is running with the
  recorded start time; anything else held is reported as inconsistent.\<close>

theorem observe_sound:
  assumes "observe env held meta = (Inr ob, meta')"
  shows "(held \<longleftrightarrow> ob \<noteq> free_observation)
    \<and> (\<not> held \<longrightarrow> meta' = Missing)
    \<and> (\<forall>owner. obs_owner ob = Some owner \<longrightarrow>
          \<not> obs_inconsistent ob \<and> profile_of_value owner \<noteq> None
          \<and> (\<exists>pid ticks. obs_pid ob = Some pid \<and> obs_ticks ob = Some ticks \<and> 0 < pid
              \<and> start_ticks env pid = Some ticks))
    \<and> (held \<and> obs_owner ob = None \<longrightarrow> obs_inconsistent ob)"
proof (cases held)
  case True
  with assms have "ob = observe_held_slot env meta" by (auto simp: observe_def split: sum.splits)
  with True show ?thesis
    by (cases "running_holder env meta")
      (auto simp: observe_held_slot_def inconsistent_observation_def free_observation_def
        dest!: running_holder_Some)
next
  case False
  with assms show ?thesis
    by (auto simp: observe_def free_observation_def unlink_file_def
        split: sum.splits json_file.splits if_splits)
qed

theorem observe_sound_witness:
  "snd (observe host False (lease_file start_lease)) = Missing"
proof -
  have "observe host False (lease_file start_lease) = (Inr free_observation, Missing)"
    using start_lease_facts(3) by (simp add: observe_def unlink_file_def host_simps)
  from observe_sound[OF this] this show ?thesis by simp
qed

end
