(* ===== verification/Schedule.thy ===== *)
theory Schedule
  imports Models Py_Text
begin

text \<open>
  Cron schedules, \<^verbatim>\<open>src/game_control/schedule.py\<close>: parsing of cron fields and schedule entries, the
  matching of a minute, the bounded search for the next fire time, and the once-per-minute
  \<open>ScheduleBook\<close>.

  An aware UTC \<open>datetime\<close> is the number of microseconds since 0001-01-01T00:00; its calendar fields
  are computed from the proleptic Gregorian ordinal as the standard library does.  Arithmetic past
  the year 9999 raises \<open>OverflowError\<close>.
\<close>

section \<open>Calendar\<close>

type_synonym instant = int

abbreviation MINUTE :: int where "MINUTE \<equiv> 60000000"
abbreviation HOUR :: int where "HOUR \<equiv> 3600000000"
abbreviation DAY :: int where "DAY \<equiv> 86400000000"

definition MAX_INSTANT :: instant where
  "MAX_INSTANT = 3652059 * DAY - 1"

definition add_time :: "instant \<Rightarrow> int \<Rightarrow> instant outcome" where
  "add_time t d =
     (if t + d < 0 \<or> t + d > MAX_INSTANT then Inl (Overflow_Error ''date value out of range'')
      else Inr (t + d))"

definition to_ordinal :: "instant \<Rightarrow> int" where
  "to_ordinal t = t div DAY + 1"

definition hour_of :: "instant \<Rightarrow> int" where
  "hour_of t = t mod DAY div HOUR"

definition minute_of :: "instant \<Rightarrow> int" where
  "minute_of t = t mod HOUR div MINUTE"

text \<open>\<^verbatim>\<open>datetime.weekday()\<close>: Monday is 0.\<close>

definition weekday :: "instant \<Rightarrow> int" where
  "weekday t = (to_ordinal t + 6) mod 7"

definition days_before_month :: "int \<Rightarrow> int" where
  "days_before_month m = [-1, 0, 31, 59, 90, 120, 151, 181, 212, 243, 273, 304, 334] ! nat m"

definition days_in_month :: "int \<Rightarrow> int" where
  "days_in_month m = [-1, 31, 28, 31, 30, 31, 30, 31, 31, 30, 31, 30, 31] ! nat m"

text \<open>The standard library's \<open>_ord2ymd\<close>; \<open>month_day\<close> is its last step, from the day of the year.\<close>

definition month_day :: "bool \<Rightarrow> int \<Rightarrow> int \<times> int" where
  "month_day leap n =
     (let month = (n + 50) div 32;
          preceding = days_before_month month + of_bool (month > 2 \<and> leap)
      in if preceding > n
         then (month - 1, n - (preceding - (days_in_month (month - 1) + of_bool (month - 1 = 2 \<and> leap))) + 1)
         else (month, n - preceding + 1))"

definition ord2ymd :: "int \<Rightarrow> int \<times> int \<times> int" where
  "ord2ymd ordinal =
     (let n = ordinal - 1;
          n400 = n div 146097; n = n mod 146097;
          n100 = n div 36524; n = n mod 36524;
          n4 = n div 1461; n = n mod 1461;
          n1 = n div 365; n = n mod 365;
          year = n400 * 400 + 1 + n100 * 100 + n4 * 4 + n1
      in if n1 = 4 \<or> n100 = 4 then (year - 1, 12, 31)
         else (year, month_day (n1 = 3 \<and> (n4 \<noteq> 24 \<or> n100 = 3)) n))"

text \<open>Its inverse \<open>_ymd2ord\<close>.\<close>

definition is_leap :: "int \<Rightarrow> bool" where
  "is_leap y \<longleftrightarrow> y mod 4 = 0 \<and> (y mod 100 \<noteq> 0 \<or> y mod 400 = 0)"

definition ymd2ord :: "int \<times> int \<times> int \<Rightarrow> int" where
  "ymd2ord ymd = (case ymd of (y, m, d) \<Rightarrow>
     (y - 1) * 365 + (y - 1) div 4 - (y - 1) div 100 + (y - 1) div 400
     + days_before_month m + of_bool (m > 2 \<and> is_leap y) + d)"

definition year_of :: "instant \<Rightarrow> int" where
  "year_of t = fst (ord2ymd (to_ordinal t))"

definition month_of :: "instant \<Rightarrow> int" where
  "month_of t = fst (snd (ord2ymd (to_ordinal t)))"

definition day_of :: "instant \<Rightarrow> int" where
  "day_of t = snd (snd (ord2ymd (to_ordinal t)))"

section \<open>Cron fields\<close>

record cron_field =
  cron_values :: "int set"
  cron_minimum :: int
  cron_maximum :: int

text \<open>One comma-separated part: the values it denotes.\<close>

definition parse_part :: "int \<Rightarrow> int \<Rightarrow> string \<Rightarrow> int list outcome" where
  "parse_part minimum maximum part =
     (case partition_on (CHR ''/'') part of (base, step_text) \<Rightarrow>
        (case (if step_text = [] then Some 1 else py_int step_text) of
           None \<Rightarrow> Inl (Value_Error ''invalid literal for int()'')
         | Some step \<Rightarrow>
             and_then (raise_if (step \<le> 0) (Value_Error ''invalid cron step'')) (\<lambda>_.
             and_then
               (case (if base = ''*'' then Some (minimum, maximum)
                      else if CHR ''-'' \<in> set base then
                        (case partition_on (CHR ''-'') base of (left, right) \<Rightarrow>
                           do { a \<leftarrow> py_int left; b \<leftarrow> py_int right; Some (a, b) })
                      else do { n \<leftarrow> py_int base; Some (n, n) }) of
                  None \<Rightarrow> Inl (Value_Error ''invalid literal for int()'')
                | Some limits \<Rightarrow> Inr limits) (\<lambda>(start, stop).
             and_then (raise_if (start < minimum \<or> stop > maximum \<or> start > stop)
               (Value_Error ''cron field out of range'')) (\<lambda>_.
             Inr (py_range start (stop + 1) step))))))"

fun parse_parts :: "int \<Rightarrow> int \<Rightarrow> string list \<Rightarrow> int set \<Rightarrow> int set outcome" where
  "parse_parts minimum maximum [] result = Inr result"
| "parse_parts minimum maximum (part # parts) result =
     and_then (parse_part minimum maximum part) (\<lambda>ns.
       parse_parts minimum maximum parts (result \<union> set ns))"

definition cron_parse :: "string \<Rightarrow> int \<Rightarrow> int \<Rightarrow> cron_field outcome" where
  "cron_parse text minimum maximum =
     and_then (raise_if (text = []) (Value_Error ''invalid cron field'')) (\<lambda>_.
     and_then (parse_parts minimum maximum (split_on (CHR '','') text) {}) (\<lambda>result.
     Inr \<lparr>cron_values = result, cron_minimum = minimum, cron_maximum = maximum\<rparr>))"

definition field_matches :: "cron_field \<Rightarrow> int \<Rightarrow> bool" where
  "field_matches fld n \<longleftrightarrow> n \<in> cron_values fld"

section \<open>Schedule entries\<close>

record schedule_entry =
  sched_cron :: string
  sched_profile :: profile_id
  sched_minute :: cron_field
  sched_hour :: cron_field
  sched_day :: cron_field
  sched_month :: cron_field
  sched_weekday :: cron_field
  sched_enabled :: bool
  sched_backup_destination :: "backup_destination option"
  sched_operation :: string
  sched_baseline_preset :: json
  sched_candidate_preset :: json
  sched_campaign :: json
  sched_maintenance_window :: json
  sched_rollback_safe :: json
  sched_public_wake_policy :: json

definition day_matches :: "schedule_entry \<Rightarrow> instant \<Rightarrow> bool" where
  "day_matches entry day \<longleftrightarrow> field_matches (sched_month entry) (month_of day)
     \<and> field_matches (sched_day entry) (day_of day)
     \<and> field_matches (sched_weekday entry) ((weekday day + 1) mod 7)"

definition entry_matches :: "schedule_entry \<Rightarrow> instant \<Rightarrow> bool" where
  "entry_matches entry now \<longleftrightarrow> field_matches (sched_minute entry) (minute_of now)
     \<and> field_matches (sched_hour entry) (hour_of now)
     \<and> field_matches (sched_day entry) (day_of now)
     \<and> field_matches (sched_month entry) (month_of now)
     \<and> field_matches (sched_weekday entry) ((weekday now + 1) mod 7)"

text \<open>The minutes of one day in the order of the two inner loops; the first one in the window is
  returned.\<close>

definition minutes_of_day :: "schedule_entry \<Rightarrow> instant \<Rightarrow> instant list" where
  "minutes_of_day entry day =
     concat (map (\<lambda>h. map (\<lambda>m. day + h * HOUR + m * MINUTE)
        (sorted_list_of_set (cron_values (sched_minute entry))))
        (sorted_list_of_set (cron_values (sched_hour entry))))"

definition fire_in_day :: "schedule_entry \<Rightarrow> instant \<Rightarrow> instant \<Rightarrow> instant \<Rightarrow> instant option" where
  "fire_in_day entry candidate endpoint day =
     (if day_matches entry day
      then find (\<lambda>p. candidate \<le> p \<and> p \<le> endpoint) (minutes_of_day entry day)
      else None)"

function scan_days :: "schedule_entry \<Rightarrow> instant \<Rightarrow> instant \<Rightarrow> instant \<Rightarrow> instant outcome" where
  "scan_days entry candidate endpoint day =
     (if day > endpoint
      then Inl (Value_Error ''schedule has no fire time in the search horizon'')
      else case fire_in_day entry candidate endpoint day of
             Some p \<Rightarrow> Inr p
           | None \<Rightarrow>
               if day + DAY > MAX_INSTANT then Inl (Overflow_Error ''date value out of range'')
               else scan_days entry candidate endpoint (day + DAY))"
  by pat_completeness auto
termination
  by (relation "measure (\<lambda>(entry, candidate, endpoint, day). nat (endpoint + DAY - day))") auto

declare scan_days.simps [simp del]

definition search_start :: "instant \<Rightarrow> instant outcome" where
  "search_start now =
     (let candidate = now - now mod MINUTE
      in if now mod MINUTE \<noteq> 0 then add_time candidate MINUTE else Inr candidate)"

definition find_next_fire :: "schedule_entry \<Rightarrow> instant \<Rightarrow> int \<Rightarrow> instant outcome" where
  "find_next_fire entry now days =
     and_then (search_start now) (\<lambda>candidate.
     and_then (add_time candidate (days * DAY)) (\<lambda>endpoint.
     scan_days entry candidate endpoint (candidate - candidate mod DAY)))"

definition next_fire :: "schedule_entry \<Rightarrow> instant \<Rightarrow> instant option outcome" where
  "next_fire entry now =
     (if \<not> sched_enabled entry then Inr None
      else map_sum id Some (find_next_fire entry now (366 * 4)))"

section \<open>Parsing a schedule\<close>

definition schedule_keys :: "string list" where
  "schedule_keys = [''cron'', ''profile'', ''enabled'', ''backup_destination'', ''operation'',
     ''baseline_preset'', ''candidate_preset'', ''campaign'', ''maintenance_window'',
     ''rollback_safe'', ''public_wake_policy'']"

definition lookup_or :: "(string \<times> json) list \<Rightarrow> string \<Rightarrow> json \<Rightarrow> json" where
  "lookup_or item key dflt = (case map_of item key of None \<Rightarrow> dflt | Some j \<Rightarrow> j)"

text \<open>A \<open>dict\<close> or \<open>list\<close> as an element of a set literal raises \<open>TypeError\<close>.\<close>

fun hashable :: "json \<Rightarrow> bool" where
  "hashable (JArr _) = False"
| "hashable (JObj _) = False"
| "hashable _ = True"

fun parse_destination :: "json \<Rightarrow> backup_destination option outcome" where
  "parse_destination JNull = Inr None"
| "parse_destination (JStr s) =
     (case destination_of_value s of
        None \<Rightarrow> Inl (Value_Error ''invalid backup destination'')
      | Some d \<Rightarrow> Inr (Some d))"
| "parse_destination _ = Inl (Value_Error ''invalid backup destination'')"

definition parse_operation :: "(string \<times> json) list \<Rightarrow> backup_destination option \<Rightarrow> string outcome" where
  "parse_operation item destination =
     (case lookup_or item ''operation''
             (JStr (if destination \<noteq> None then ''backup'' else ''switch'')) of
        JStr s \<Rightarrow>
          if s \<notin> {''backup'', ''switch'', ''benchmark''} then Inl (Value_Error ''invalid schedule operation'')
          else if s = ''backup'' \<and> destination = None
          then Inl (Value_Error ''backup schedule requires a destination'')
          else Inr s
      | j \<Rightarrow> if hashable j then Inl (Value_Error ''invalid schedule operation'')
             else Inl (Type_Error ''unhashable type''))"

definition benchmark_policy_ok :: "(string \<times> json) list \<Rightarrow> bool" where
  "benchmark_policy_ok item \<longleftrightarrow>
     is_str (lookup_or item ''baseline_preset'' JNull) \<and> is_str (lookup_or item ''candidate_preset'' JNull)
     \<and> lookup_or item ''baseline_preset'' JNull \<noteq> lookup_or item ''candidate_preset'' JNull
     \<and> is_str (lookup_or item ''campaign'' JNull)
     \<and> lookup_or item ''maintenance_window'' (JBool False) = JBool True
     \<and> lookup_or item ''rollback_safe'' (JBool False) = JBool True
     \<and> lookup_or item ''public_wake_policy'' (JStr ''disabled'') = JStr ''safe''"

text \<open>\<^verbatim>\<open>zip(fields, (0, 0, 1, 1, 0), (59, 23, 31, 12, 6))\<close>.\<close>

definition parse_cron_fields ::
  "string list \<Rightarrow> (cron_field \<times> cron_field \<times> cron_field \<times> cron_field \<times> cron_field) outcome" where
  "parse_cron_fields texts =
     and_then (cron_parse (texts ! 0) 0 59) (\<lambda>minute.
     and_then (cron_parse (texts ! 1) 0 23) (\<lambda>hour.
     and_then (cron_parse (texts ! 2) 1 31) (\<lambda>day.
     and_then (cron_parse (texts ! 3) 1 12) (\<lambda>month.
     and_then (cron_parse (texts ! 4) 0 6) (\<lambda>weekday.
     Inr (minute, hour, day, month, weekday))))))"

text \<open>\<^verbatim>\<open>except (TypeError, ValueError) as exc: raise ValueError(message)\<close>.\<close>

fun reraise_value_error :: "string \<Rightarrow> 'a outcome \<Rightarrow> 'a outcome" where
  "reraise_value_error message (Inl (Value_Error _)) = Inl (Value_Error message)"
| "reraise_value_error message (Inl (Type_Error _)) = Inl (Value_Error message)"
| "reraise_value_error message r = r"

definition parse_entry_fields ::
  "(string \<times> json) list \<Rightarrow> schedule_entry outcome" where
  "parse_entry_fields item =
     and_then (raise_if (\<not> is_bool (lookup_or item ''enabled'' (JBool True)))
        (Value_Error ''invalid schedule enabled'')) (\<lambda>_.
     and_then (parse_destination (lookup_or item ''backup_destination'' JNull)) (\<lambda>destination.
     and_then (parse_operation item destination) (\<lambda>operation.
     and_then (raise_if (operation = ''benchmark'' \<and> \<not> benchmark_policy_ok item)
        (Value_Error ''benchmark schedule requires complete maintenance and rollback policy'')) (\<lambda>_.
     let cron = (case map_of item ''cron'' of Some (JStr s) \<Rightarrow> s | _ \<Rightarrow> []);
         texts = split_words cron
     in
     and_then (raise_if (length texts \<noteq> 5) (Value_Error ''cron must have five fields'')) (\<lambda>_.
     and_then (reraise_value_error ''invalid schedule entry''
        (case map_of item ''profile'' \<bind> as_str \<bind> profile_of_value of
           None \<Rightarrow> Inl (Value_Error ''invalid profile'')
         | Some profile \<Rightarrow>
             and_then (parse_cron_fields texts) (\<lambda>parsed. Inr (profile, parsed))))
       (\<lambda>(profile, minute, hour, day, month, wday).
     Inr \<lparr>sched_cron = cron, sched_profile = profile, sched_minute = minute, sched_hour = hour,
          sched_day = day, sched_month = month, sched_weekday = wday,
          sched_enabled = (lookup_or item ''enabled'' (JBool True) = JBool True),
          sched_backup_destination = destination, sched_operation = operation,
          sched_baseline_preset = lookup_or item ''baseline_preset'' JNull,
          sched_candidate_preset = lookup_or item ''candidate_preset'' JNull,
          sched_campaign = lookup_or item ''campaign'' JNull,
          sched_maintenance_window = lookup_or item ''maintenance_window'' (JBool False),
          sched_rollback_safe = lookup_or item ''rollback_safe'' (JBool False),
          sched_public_wake_policy = lookup_or item ''public_wake_policy'' (JStr ''disabled'')\<rparr>))))))"

text \<open>One iteration of the loop; \<open>now\<close> is the reading of \<^verbatim>\<open>datetime.now(timezone.utc)\<close>.\<close>

definition parse_entry :: "instant \<Rightarrow> json \<Rightarrow> schedule_entry outcome" where
  "parse_entry now raw =
     (case raw of
        JObj item \<Rightarrow>
          if map_of item ''cron'' = None \<or> map_of item ''profile'' = None
             \<or> \<not> list_all (\<lambda>(k, _). k \<in> set schedule_keys) item
          then Inl (Value_Error ''invalid schedule entry'')
          else
            and_then (parse_entry_fields item) (\<lambda>entry.
            case find_next_fire entry now (366 * 4) of
              Inl (Value_Error _) \<Rightarrow>
                Inl (Value_Error ''schedule has no fire time within the next four years'')
            | Inl e \<Rightarrow> Inl e
            | Inr _ \<Rightarrow> Inr entry)
      | _ \<Rightarrow> Inl (Value_Error ''invalid schedule entry''))"

fun parse_items :: "(nat \<Rightarrow> instant) \<Rightarrow> nat \<Rightarrow> json list \<Rightarrow> schedule_entry list outcome" where
  "parse_items clock k [] = Inr []"
| "parse_items clock k (raw # raws) =
     and_then (parse_entry (clock k) raw) (\<lambda>entry.
     and_then (parse_items clock (Suc k) raws) (\<lambda>entries. Inr (entry # entries)))"

fun parse_schedule :: "(nat \<Rightarrow> instant) \<Rightarrow> json \<Rightarrow> schedule_entry list outcome" where
  "parse_schedule clock JNull = Inr []"
| "parse_schedule clock (JArr raws) = parse_items clock 0 raws"
| "parse_schedule clock _ = Inl (Value_Error ''schedule must be an array'')"

section \<open>ScheduleBook\<close>

record schedule_book =
  book_entries :: "schedule_entry list"
  last_minute :: "(int \<times> int \<times> int \<times> int \<times> int) option"

definition minute_key :: "instant \<Rightarrow> int \<times> int \<times> int \<times> int \<times> int" where
  "minute_key now = (year_of now, month_of now, day_of now, hour_of now, minute_of now)"

definition due :: "instant \<Rightarrow> schedule_book \<Rightarrow> schedule_entry list \<times> schedule_book" where
  "due now book =
     (if last_minute book = Some (minute_key now) then ([], book)
      else (filter (\<lambda>entry. sched_enabled entry \<and> entry_matches entry now) (book_entries book),
            book\<lparr>last_minute := Some (minute_key now)\<rparr>))"


text \<open>Successive polls: what each call of \<open>due\<close> returns.\<close>

fun polls :: "schedule_book \<Rightarrow> instant list \<Rightarrow> schedule_entry list list" where
  "polls book [] = []"
| "polls book (now # later) = fst (due now book) # polls (snd (due now book)) later"

section \<open>Specification of fire times\<close>

text \<open>The hour and minute values of a parsed entry are in range, so that
  \<^verbatim>\<open>day.replace(hour=hour, minute=minute)\<close> does not raise (\<open>parse_entry_fields_wf\<close>).\<close>

definition entry_wf :: "schedule_entry \<Rightarrow> bool" where
  "entry_wf entry \<longleftrightarrow> cron_values (sched_hour entry) \<subseteq> {0..23} \<and> cron_values (sched_minute entry) \<subseteq> {0..59}"

text \<open>A fire time of the window: a whole minute in it that the entry matches.\<close>

definition fires :: "schedule_entry \<Rightarrow> instant \<Rightarrow> instant \<Rightarrow> instant \<Rightarrow> bool" where
  "fires entry lo hi t \<longleftrightarrow> t mod MINUTE = 0 \<and> lo \<le> t \<and> t \<le> hi \<and> entry_matches entry t"


text \<open>What an accepted entry promises: field values in range, one of the three operations with
  the data it needs, and a fire time in the next four years of the clock it was parsed at.\<close>

definition entry_sound :: "instant \<Rightarrow> schedule_entry \<Rightarrow> bool" where
  "entry_sound now entry \<longleftrightarrow>
     cron_values (sched_minute entry) \<subseteq> {0..59} \<and> cron_values (sched_hour entry) \<subseteq> {0..23}
     \<and> cron_values (sched_day entry) \<subseteq> {1..31} \<and> cron_values (sched_month entry) \<subseteq> {1..12}
     \<and> cron_values (sched_weekday entry) \<subseteq> {0..6}
     \<and> sched_operation entry \<in> {''backup'', ''switch'', ''benchmark''}
     \<and> (sched_operation entry = ''backup'' \<longrightarrow> sched_backup_destination entry \<noteq> None)
     \<and> (sched_operation entry = ''benchmark'' \<longrightarrow>
          sched_maintenance_window entry = JBool True \<and> sched_rollback_safe entry = JBool True
          \<and> sched_public_wake_policy entry = JStr ''safe''
          \<and> sched_baseline_preset entry \<noteq> sched_candidate_preset entry)
     \<and> (\<exists>t. find_next_fire entry now (366 * 4) = Inr t)"

section \<open>A concrete entry\<close>

definition nightly_item :: json where
  "nightly_item = JObj [(''cron'', JStr ''30 4 * * 1-5''), (''profile'', JStr ''terraria-vanilla''),
     (''backup_destination'', JStr ''local'')]"

text \<open>2026-03-01T12:00:05Z, a Sunday.\<close>

definition sunday_noon :: instant where
  "sunday_noon = (ymd2ord (2026, 3, 1) - 1) * DAY + 12 * HOUR + 5000000"

definition nightly :: schedule_entry where
  "nightly = projr (parse_entry sunday_noon nightly_item)"

section \<open>Calendar facts\<close>

lemma month_day_table:
  "list_all (\<lambda>n. list_all (\<lambda>leap. case month_day leap n of (m, d) \<Rightarrow>
       days_before_month m + of_bool (m > 2 \<and> leap) + d = n + 1
       \<and> 1 \<le> m \<and> m \<le> 12 \<and> 1 \<le> d \<and> d \<le> 31) [True, False]) [0..364]"
  by code_simp

lemma month_day_inverse:
  assumes "0 \<le> n" "n < 365" "month_day leap n = (m, d)"
  shows "days_before_month m + of_bool (m > 2 \<and> leap) + d = n + 1 \<and> 1 \<le> m \<and> m \<le> 12 \<and> 1 \<le> d \<and> d \<le> 31"
proof -
  have "n \<in> set [0..364]" "leap \<in> set [True, False]" using assms by auto
  from bspec[OF bspec[OF month_day_table[unfolded list_all_iff] this(1)] this(2)]
  show ?thesis using assms(3) by simp
qed

lemma mod_top_eq_0: "(x::int) = k * q + r \<Longrightarrow> 0 < r \<Longrightarrow> r \<le> k \<Longrightarrow> x mod k = 0 \<longleftrightarrow> r = k"
  by (cases "r = k") simp_all

text \<open>A year given by its place in the 400, 100, 4 and 1 year cycles.\<close>

lemma year_cycles:
  fixes a b c d :: int
  assumes "0 \<le> b" "b \<le> 3" "0 \<le> c" "c \<le> 24" "0 \<le> d" "d \<le> 3"
    and y: "y = a * 400 + b * 100 + c * 4 + d"
  shows "y div 4 = a * 100 + b * 25 + c" "y div 100 = a * 4 + b" "y div 400 = a"
    and "is_leap (y + 1) \<longleftrightarrow> d = 3 \<and> (c \<noteq> 24 \<or> b = 3)"
proof -
  show "y div 4 = a * 100 + b * 25 + c" using assms by (intro int_div_pos_eq[of _ _ _ d]) simp_all
  show "y div 100 = a * 4 + b" using assms by (intro int_div_pos_eq[of _ _ _ "c * 4 + d"]) simp_all
  show "y div 400 = a" using assms by (intro int_div_pos_eq[of _ _ _ "b * 100 + c * 4 + d"]) simp_all
  have "(y + 1) mod 4 = 0 \<longleftrightarrow> d + 1 = 4"
    using assms by (intro mod_top_eq_0[of _ _ "a * 100 + b * 25 + c"]) simp_all
  moreover have "(y + 1) mod 100 = 0 \<longleftrightarrow> c * 4 + d + 1 = 100"
    using assms by (intro mod_top_eq_0[of _ _ "a * 4 + b"]) simp_all
  moreover have "(y + 1) mod 400 = 0 \<longleftrightarrow> b * 100 + c * 4 + d + 1 = 400"
    using assms by (intro mod_top_eq_0[of _ _ a]) simp_all
  ultimately show "is_leap (y + 1) \<longleftrightarrow> d = 3 \<and> (c \<noteq> 24 \<or> b = 3)" using assms unfolding is_leap_def by auto
qed

lemma ymd2ord_cycles:
  assumes "0 \<le> b" "b \<le> 3" "0 \<le> c" "c \<le> 24" "0 \<le> e" "e \<le> 3"
    and y: "y = a * 400 + b * 100 + c * 4 + e + 1"
  shows "ymd2ord (y, m, d) = a * 146097 + b * 36524 + c * 1461 + e * 365
    + days_before_month m + of_bool (m > 2 \<and> e = 3 \<and> (c \<noteq> 24 \<or> b = 3)) + d"
proof -
  have y': "y - 1 = a * 400 + b * 100 + c * 4 + e" using y by simp
  note cyc = year_cycles[OF assms(1-6) y']
  have "is_leap y \<longleftrightarrow> e = 3 \<and> (c \<noteq> 24 \<or> b = 3)" using cyc(4) by simp
  then show ?thesis
    unfolding ymd2ord_def case_prod_conv cyc(1-3) by (simp add: y' algebra_simps)
qed

lemma ord2ymd_inverse:
  assumes "ord2ymd ordinal = (y, m, d)"
  shows "ymd2ord (y, m, d) = ordinal \<and> 1 \<le> m \<and> m \<le> 12 \<and> 1 \<le> d \<and> d \<le> 31"
proof -
  define n where "n = ordinal - 1"
  define a where "a = n div 146097"
  define r where "r = n mod 146097"
  define b where "b = r div 36524"
  define r2 where "r2 = r mod 36524"
  define c where "c = r2 div 1461"
  define r3 where "r3 = r2 mod 1461"
  define e where "e = r3 div 365"
  define r4 where "r4 = r3 mod 365"
  note defs = n_def a_def r_def b_def r2_def c_def r3_def e_def r4_def
  have n: "n = a * 146097 + r" "r = b * 36524 + r2" "r2 = c * 1461 + r3" "r3 = e * 365 + r4"
    unfolding a_def r_def b_def r2_def c_def r3_def e_def r4_def by simp_all
  have pos: "0 \<le> r" "r < 146097" "0 \<le> r2" "r2 < 36524" "0 \<le> r3" "r3 < 1461" "0 \<le> r4" "r4 < 365"
    unfolding r_def r2_def r3_def r4_def by simp_all
  then have nn: "0 \<le> b" "0 \<le> c" "0 \<le> e" unfolding b_def c_def e_def by simp_all
  have bounds: "b \<le> 4" "c \<le> 24" "e \<le> 4"
    using n(2) n(3) n(4) pos by linarith+
  have b4: "c = 0" "e = 0" "r4 = 0" if "b = 4"
  proof -
    have "r2 = 0" using that n(2) pos(2,3) by linarith
    then show "c = 0" "e = 0" "r4 = 0" using n(3,4) pos nn by linarith+
  qed
  have e4: "c \<le> 23" "r4 = 0" if "e = 4"
  proof -
    show "r4 = 0" using that n(4) pos(6,7) by linarith
    then show "c \<le> 23" using that n(3,4) pos(4) by linarith
  qed
  have ymd: "(if e = 4 \<or> b = 4 then (a * 400 + 1 + b * 100 + c * 4 + e - 1, 12, 31)
      else (a * 400 + 1 + b * 100 + c * 4 + e, month_day (e = 3 \<and> (c \<noteq> 24 \<or> b = 3)) r4)) = (y, m, d)"
    using assms unfolding ord2ymd_def Let_def defs[symmetric] .
  have ordinal: "ordinal = a * 146097 + b * 36524 + c * 1461 + e * 365 + r4 + 1"
    using n n_def by linarith
  consider "b = 4" | "e = 4" "b \<noteq> 4" | "e \<noteq> 4" "b \<noteq> 4" by blast
  then show ?thesis
  proof cases
    case 1
    with ymd b4[OF 1] have "y = a * 400 + 3 * 100 + 24 * 4 + 3 + 1" "m = 12" "d = 31" by auto
    then show ?thesis using ymd2ord_cycles[of 3 24 3 y a 12 31] b4[OF 1] 1 ordinal
      by (simp add: days_before_month_def)
  next
    case 2
    with ymd have "y = a * 400 + b * 100 + c * 4 + 3 + 1" "m = 12" "d = 31" by auto
    then show ?thesis using ymd2ord_cycles[of b c 3 y a 12 31] e4[OF 2(1)] 2 ordinal bounds nn
      by (simp add: days_before_month_def)
  next
    case 3
    with ymd have "y = a * 400 + b * 100 + c * 4 + e + 1"
        and md: "month_day (e = 3 \<and> (c \<noteq> 24 \<or> b = 3)) r4 = (m, d)" by auto
    then have "ymd2ord (y, m, d) = a * 146097 + b * 36524 + c * 1461 + e * 365
        + days_before_month m + of_bool (m > 2 \<and> e = 3 \<and> (c \<noteq> 24 \<or> b = 3)) + d"
      using bounds nn 3 by (intro ymd2ord_cycles) auto
    then show ?thesis using month_day_inverse[OF pos(7,8) md] ordinal by linarith
  qed
qed

lemma split_time:
  "t = t div DAY * DAY + hour_of t * HOUR + minute_of t * MINUTE + t mod MINUTE"
proof -
  have "t = t div DAY * DAY + t mod DAY" by simp
  moreover have "t mod DAY = t mod DAY div HOUR * HOUR + t mod DAY mod HOUR" by simp
  moreover have "t mod DAY mod HOUR = t mod HOUR" by (simp add: mod_mod_cancel)
  moreover have "t mod HOUR = t mod HOUR div MINUTE * MINUTE + t mod HOUR mod MINUTE" by simp
  moreover have "t mod HOUR mod MINUTE = t mod MINUTE" by (simp add: mod_mod_cancel)
  ultimately show ?thesis unfolding hour_of_def minute_of_def by linarith
qed

lemma div_MINUTE: "t div MINUTE = t div DAY * 1440 + hour_of t * 60 + minute_of t"
  using split_time[of t] by (intro int_div_pos_eq[of _ _ _ "t mod MINUTE"]) simp_all

lemma minute_key_inj:
  assumes "minute_key s = minute_key t"
  shows "s div MINUTE = t div MINUTE"
proof -
  obtain y m d y' m' d' where ymd: "ord2ymd (to_ordinal s) = (y, m, d)" "ord2ymd (to_ordinal t) = (y', m', d')"
    by (metis prod_cases3)
  with assms have "(y, m, d) = (y', m', d')" and hm: "hour_of s = hour_of t" "minute_of s = minute_of t"
    by (simp_all add: minute_key_def year_of_def month_of_def day_of_def)
  then have "s div DAY = t div DAY"
    using ord2ymd_inverse[OF ymd(1)] ord2ymd_inverse[OF ymd(2)] by (simp add: to_ordinal_def)
  then show ?thesis using hm by (simp only: div_MINUTE)
qed

section \<open>Field values of a parsed entry\<close>

lemma parse_part_range:
  "parse_part minimum maximum part = Inr ns \<Longrightarrow> set ns \<subseteq> {minimum..maximum}"
  unfolding parse_part_def
  by (auto simp: stage_simps dest!: py_range_bounds split: prod.splits option.splits if_split_asm)

lemma parse_parts_range:
  "parse_parts minimum maximum parts result = Inr r \<Longrightarrow> result \<subseteq> {minimum..maximum} \<Longrightarrow>
     r \<subseteq> {minimum..maximum}"
  by (induction parts arbitrary: result) (auto simp: stage_simps dest: parse_part_range)

lemma cron_parse_range: "cron_parse text lo hi = Inr fld \<Longrightarrow> cron_values fld \<subseteq> {lo..hi}"
  unfolding cron_parse_def by (force simp: stage_simps dest: parse_parts_range[OF _ empty_subsetI])

lemma reraise_value_error_Inr [simp]: "reraise_value_error message r = Inr x \<longleftrightarrow> r = Inr x"
  by (cases "(message, r)" rule: reraise_value_error.cases) auto

lemma parse_entry_fields_wf: "parse_entry_fields item = Inr entry \<Longrightarrow> entry_wf entry"
  unfolding parse_entry_fields_def parse_cron_fields_def Let_def entry_wf_def
  by (auto simp: and_then_Inr_iff split: option.split_asm dest!: cron_parse_range)

section \<open>Searching a day\<close>

lemma time_of_day:
  assumes "day mod DAY = 0" "0 \<le> h" "h \<le> 23" "0 \<le> m" "m \<le> 59"
  shows "hour_of (day + h * HOUR + m * MINUTE) = h" "minute_of (day + h * HOUR + m * MINUTE) = m"
    "to_ordinal (day + h * HOUR + m * MINUTE) = to_ordinal day"
    "(day + h * HOUR + m * MINUTE) mod MINUTE = 0"
proof -
  obtain q where q: "day = DAY * q" using assms(1) by (auto simp: mod_eq_0_iff_dvd)
  show "to_ordinal (day + h * HOUR + m * MINUTE) = to_ordinal day"
    unfolding to_ordinal_def using assms q by (simp add: int_div_pos_eq[of _ _ q "h * HOUR + m * MINUTE"])
  have "(day + h * HOUR + m * MINUTE) mod DAY = h * HOUR + m * MINUTE"
    using assms q by (intro int_mod_pos_eq[of _ _ q]) simp_all
  moreover have "(h * HOUR + m * MINUTE) div HOUR = h"
    using assms by (intro int_div_pos_eq[of _ _ _ "m * MINUTE"]) simp_all
  ultimately show "hour_of (day + h * HOUR + m * MINUTE) = h" by (simp add: hour_of_def)
  have "(day + h * HOUR + m * MINUTE) mod HOUR = m * MINUTE"
    using assms q by (intro int_mod_pos_eq[of _ _ "q * 24 + h"]) simp_all
  then show "minute_of (day + h * HOUR + m * MINUTE) = m" by (simp add: minute_of_def)
  show "(day + h * HOUR + m * MINUTE) mod MINUTE = 0"
    using q by (intro int_mod_pos_eq[of _ _ "q * 1440 + h * 60 + m"]) simp_all
qed


lemma entry_matches_split:
  "entry_matches entry t \<longleftrightarrow> day_matches entry t
     \<and> minute_of t \<in> cron_values (sched_minute entry) \<and> hour_of t \<in> cron_values (sched_hour entry)"
  by (auto simp: entry_matches_def day_matches_def field_matches_def)

lemma day_matches_cong: "to_ordinal s = to_ordinal t \<Longrightarrow> day_matches entry s = day_matches entry t"
  by (simp add: day_matches_def month_of_def day_of_def weekday_def)

lemma finite_cron: "entry_wf entry \<Longrightarrow> finite (cron_values (sched_hour entry)) \<and> finite (cron_values (sched_minute entry))"
  unfolding entry_wf_def by (meson finite_atLeastAtMost_int finite_subset)

lemma minutes_of_day_iff:
  assumes wf: "entry_wf entry" and day: "day mod DAY = 0"
  shows "day_matches entry day \<and> t \<in> set (minutes_of_day entry day) \<longleftrightarrow>
    entry_matches entry t \<and> t mod MINUTE = 0 \<and> t div DAY * DAY = day"
proof
  assume left: "day_matches entry day \<and> t \<in> set (minutes_of_day entry day)"
  then obtain h m where hm: "h \<in> cron_values (sched_hour entry)" "m \<in> cron_values (sched_minute entry)"
      and t: "t = day + h * HOUR + m * MINUTE"
    using finite_cron[OF wf] by (auto simp: minutes_of_day_def)
  with wf have "0 \<le> h" "h \<le> 23" "0 \<le> m" "m \<le> 59" unfolding entry_wf_def by auto
  note tod = time_of_day[OF day this, folded t]
  have "t div DAY * DAY = day" using tod(3) day div_mult_mod_eq[of day DAY] by (simp add: to_ordinal_def)
  then show "entry_matches entry t \<and> t mod MINUTE = 0 \<and> t div DAY * DAY = day"
    using left tod hm day_matches_cong[OF tod(3), of entry] by (simp add: entry_matches_split)
next
  assume right: "entry_matches entry t \<and> t mod MINUTE = 0 \<and> t div DAY * DAY = day"
  then have "t = day + hour_of t * HOUR + minute_of t * MINUTE" using split_time[of t] by simp
  moreover have "to_ordinal t = to_ordinal day" using right by (auto simp: to_ordinal_def)
  ultimately show "day_matches entry day \<and> t \<in> set (minutes_of_day entry day)"
    using right finite_cron[OF wf] day_matches_cong[of t day entry]
    by (force simp: minutes_of_day_def entry_matches_split)
qed

lemma sorted_concat_minutes:
  assumes "sorted_wrt (<) hs" "sorted ms" "\<And>m. m \<in> set ms \<Longrightarrow> 0 \<le> m \<and> m \<le> 59"
  shows "sorted (concat (map (\<lambda>h. map (\<lambda>m. day + h * HOUR + m * MINUTE) ms) hs))"
  using assms(1)
proof (induction hs)
  case (Cons h hs)
  have "sorted (map (\<lambda>m. day + h * HOUR + m * MINUTE) ms)"
    using assms(2) by (induction ms) auto
  moreover have "day + h * HOUR + m * MINUTE \<le> day + h' * HOUR + m' * MINUTE"
    if "h < h'" "m \<in> set ms" "m' \<in> set ms" for h' m m'
    using that assms(3)[of m] assms(3)[of m'] by simp
  ultimately show ?case using Cons by (auto simp: sorted_append)
qed simp

lemma sorted_minutes_of_day: "entry_wf entry \<Longrightarrow> sorted (minutes_of_day entry day)"
  unfolding minutes_of_day_def
  using finite_cron[of entry]
  by (intro sorted_concat_minutes) (auto simp: entry_wf_def)

lemma find_sorted_least: "sorted xs \<Longrightarrow> find P xs = Some x \<Longrightarrow> y \<in> set xs \<Longrightarrow> P y \<Longrightarrow> x \<le> y"
  by (induction xs) (auto split: if_splits)

lemma fire_in_day_Some:
  assumes "entry_wf entry" "day mod DAY = 0" "fire_in_day entry lo hi day = Some p"
  shows "fires entry lo hi p" "p div DAY * DAY = day"
    "\<And>t. fires entry lo hi t \<Longrightarrow> t div DAY * DAY = day \<Longrightarrow> p \<le> t"
proof -
  have found: "day_matches entry day" "find (\<lambda>p. lo \<le> p \<and> p \<le> hi) (minutes_of_day entry day) = Some p"
    using assms(3) unfolding fire_in_day_def by (auto split: if_splits)
  have "p \<in> set (minutes_of_day entry day)" and window: "lo \<le> p \<and> p \<le> hi"
    using find_SomeD[OF found(2)] by simp_all
  with minutes_of_day_iff[OF assms(1,2), of p] found(1)
  have "entry_matches entry p" "p mod MINUTE = 0" and day: "p div DAY * DAY = day" by simp_all
  with window show "fires entry lo hi p" by (simp add: fires_def)
  show "p div DAY * DAY = day" by (rule day)
  show "p \<le> t" if "fires entry lo hi t" "t div DAY * DAY = day" for t
  proof -
    have "t \<in> set (minutes_of_day entry day)" "lo \<le> t \<and> t \<le> hi"
      using minutes_of_day_iff[OF assms(1,2), of t] that by (simp_all add: fires_def)
    then show ?thesis using find_sorted_least[OF sorted_minutes_of_day[OF assms(1)] found(2)] by simp
  qed
qed

lemma fire_in_day_None:
  assumes "entry_wf entry" "day mod DAY = 0" "fire_in_day entry lo hi day = None"
    "fires entry lo hi t"
  shows "t div DAY * DAY \<noteq> day"
  using assms minutes_of_day_iff[OF assms(1,2), of t]
  by (auto simp: fire_in_day_def fires_def find_None_iff split: if_splits)

section \<open>Searching the window\<close>

lemma same_day: "(day::int) mod DAY = 0 \<Longrightarrow> t div DAY * DAY = day \<longleftrightarrow> day \<le> t \<and> t < day + DAY"
proof -
  assume "day mod DAY = 0"
  then obtain q where q: "day = DAY * q" by (auto simp: mod_eq_0_iff_dvd)
  have t: "t = t div DAY * DAY + t mod DAY" "0 \<le> t mod DAY" "t mod DAY < DAY" by simp_all
  have "t div DAY = q" if "day \<le> t" "t < day + DAY"
    using that q by (intro int_div_pos_eq[of _ _ _ "t - day"]) simp_all
  then show ?thesis using t q by (auto simp: mult.commute)
qed

lemma scan_days_correct:
  assumes wf: "entry_wf entry" and room: "hi + DAY \<le> MAX_INSTANT" and day: "day mod DAY = 0"
  shows "case scan_days entry lo hi day of
      Inr p \<Rightarrow> fires entry lo hi p \<and> day \<le> p \<and> (\<forall>t. fires entry lo hi t \<and> day \<le> t \<longrightarrow> p \<le> t)
    | Inl e \<Rightarrow> (\<exists>msg. e = Value_Error msg) \<and> (\<forall>t. fires entry lo hi t \<longrightarrow> t < day)"
  using assms
proof (induction entry lo hi day rule: scan_days.induct)
  case (1 entry lo hi day)
  note wf = "1.prems"(1) and room = "1.prems"(2) and day = "1.prems"(3)
  consider "hi < day" | p where "day \<le> hi" "fire_in_day entry lo hi day = Some p"
    | "day \<le> hi" "fire_in_day entry lo hi day = None"
    by fastforce
  then show ?case
  proof cases
    case 1
    then show ?thesis by (simp add: scan_days.simps[of entry lo hi day] fires_def)
  next
    case (2 p)
    note p = fire_in_day_Some[OF wf day 2(2)]
    have "p \<le> t" if "fires entry lo hi t" "day \<le> t" for t
    proof (cases "t < day + DAY")
      case True
      then show ?thesis using p(3)[OF that(1)] same_day[OF day, of t] that(2) by simp
    next
      case False
      then show ?thesis using p(2) same_day[OF day, of p] by linarith
    qed
    moreover have "day \<le> p" using p(2) same_day[OF day, of p] by simp
    ultimately show ?thesis using 2 p(1) by (simp add: scan_days.simps[of entry lo hi day])
  next
    case 3
    have next_day: "(day + DAY) mod DAY = 0" using day by simp
    have step: "scan_days entry lo hi day = scan_days entry lo hi (day + DAY)"
      using 3 room by (simp add: scan_days.simps[of entry lo hi day])
    have gap: "t < day \<or> day + DAY \<le> t" if "fires entry lo hi t" for t
      using fire_in_day_None[OF wf day 3(2) that] same_day[OF day, of t] by linarith
    have ih: "case scan_days entry lo hi (day + DAY) of
        Inr p \<Rightarrow> fires entry lo hi p \<and> day + DAY \<le> p
          \<and> (\<forall>t. fires entry lo hi t \<and> day + DAY \<le> t \<longrightarrow> p \<le> t)
      | Inl e \<Rightarrow> (\<exists>msg. e = Value_Error msg) \<and> (\<forall>t. fires entry lo hi t \<longrightarrow> t < day + DAY)"
      using "1.IH"[OF _ 3(2) _ wf room next_day] 3(1) room by simp
    show ?thesis
    proof (cases "scan_days entry lo hi (day + DAY)")
      case (Inl e)
      with ih have e: "\<exists>msg. e = Value_Error msg" and late: "t < day + DAY" if "fires entry lo hi t" for t
        using that by auto
      have "t < day" if "fires entry lo hi t" for t using gap[OF that] late[OF that] by simp
      then show ?thesis using ih unfolding step Inl by simp
    next
      case (Inr p)
      with ih have p: "fires entry lo hi p" "day + DAY \<le> p"
        "fires entry lo hi t \<Longrightarrow> day + DAY \<le> t \<Longrightarrow> p \<le> t" for t by auto
      have "p \<le> t" if "fires entry lo hi t" "day \<le> t" for t
        using gap[OF that(1)] p(3)[OF that(1)] that(2) by simp
      then show ?thesis using p(1,2) unfolding step Inr by simp
    qed
  qed
qed

section \<open>Properties\<close>

lemma next_minute_le:
  fixes q r k :: int
  assumes "0 < r" "r < MINUTE"
  shows "(q + 1) * MINUTE \<le> MINUTE * k \<longleftrightarrow> q * MINUTE + r \<le> MINUTE * k"
  using assms by (cases "q + 1 \<le> k") simp_all

lemma search_start_Inr:
  "search_start now = Inr lo \<Longrightarrow> lo mod MINUTE = 0 \<and> (\<forall>t. t mod MINUTE = 0 \<longrightarrow> (lo \<le> t \<longleftrightarrow> now \<le> t))"
proof -
  assume start: "search_start now = Inr lo"
  have now: "now = now div MINUTE * MINUTE + now mod MINUTE" "0 \<le> now mod MINUTE" "now mod MINUTE < MINUTE"
    by simp_all
  define q where "q = (if now mod MINUTE = 0 then now div MINUTE else now div MINUTE + 1)"
  have lo: "lo = q * MINUTE"
    using start now by (auto simp: search_start_def add_time_def q_def Let_def minus_mod_eq_div_mult split: if_splits)
  have "lo \<le> t \<longleftrightarrow> now \<le> t" if "t mod MINUTE = 0" for t
  proof -
    obtain k where t: "t = MINUTE * k" using \<open>t mod MINUTE = 0\<close> by (auto simp: mod_eq_0_iff_dvd)
    show ?thesis
    proof (cases "now mod MINUTE = 0")
      case True
      then show ?thesis using lo now(1) by (simp add: q_def)
    next
      case False
      then have "now mod MINUTE > 0" using now(2) by linarith
      from next_minute_le[OF this now(3), of "now div MINUTE" k] now(1) show ?thesis
        using lo t unfolding q_def if_not_P[OF False] by simp
    qed
  qed
  then show ?thesis using lo by simp
qed

lemma parse_entry_wf: "parse_entry n raw = Inr entry \<Longrightarrow> entry_wf entry"
proof (cases raw)
  case (JObj item)
  assume "parse_entry n raw = Inr entry"
  then obtain e where "parse_entry_fields item = Inr e"
      and "(case find_next_fire e n (366 * 4) of
        Inl (Value_Error _) \<Rightarrow> Inl (Value_Error ''schedule has no fire time within the next four years'')
      | Inl err \<Rightarrow> Inl err | Inr _ \<Rightarrow> Inr e) = Inr entry"
    unfolding parse_entry_def JObj by (simp add: and_then_Inr_iff split: if_split_asm) blast
  then show ?thesis
    by (cases "find_next_fire e n (366 * 4)") (auto split: py_error.splits intro: parse_entry_fields_wf)
qed (simp_all add: parse_entry_def)

lemma fires_shift:
  assumes "search_start now = Inr lo"
  shows "fires entry lo hi t \<longleftrightarrow> fires entry now hi t"
  using search_start_Inr[OF assms] by (auto simp: fires_def)

text \<open>C11. Next fire: for a parsed entry the day-wise search returns exactly the first whole
  minute of the horizon, from the present one on, that the entry matches, and fails exactly when
  there is none.\<close>

theorem find_next_fire_first:
  assumes parsed: "parse_entry n raw = Inr entry"
    and start: "search_start now = Inr lo" and "0 \<le> lo" "0 \<le> days"
    and room: "lo + days * DAY + DAY \<le> MAX_INSTANT"
  shows "(find_next_fire entry now days = Inr t \<longleftrightarrow>
      fires entry now (lo + days * DAY) t \<and> (\<forall>u. fires entry now (lo + days * DAY) u \<longrightarrow> t \<le> u))
    \<and> ((\<exists>e. find_next_fire entry now days = Inl e) \<longleftrightarrow> (\<nexists>u. fires entry now (lo + days * DAY) u))"
proof -
  let ?hi = "lo + days * DAY" and ?day = "lo - lo mod DAY"
  have hi: "add_time lo (days * DAY) = Inr ?hi" using assms(3,4) room by (auto simp: add_time_def)
  then have scan: "find_next_fire entry now days = scan_days entry lo ?hi ?day"
    using start by (simp add: find_next_fire_def)
  have "?day mod DAY = 0" by (simp add: mod_diff_left_eq)
  note correct = scan_days_correct[OF parse_entry_wf[OF parsed] room this, of lo]
  have after: "?day \<le> u" if "fires entry lo ?hi u" for u
    using that pos_mod_sign[of DAY lo] unfolding fires_def by linarith
  show ?thesis
  proof (cases "scan_days entry lo ?hi ?day")
    case (Inl e)
    with correct have "u < ?day" if "fires entry lo ?hi u" for u using that by simp
    with after have "\<not> fires entry lo ?hi u" for u by (meson leD)
    then show ?thesis unfolding scan Inl fires_shift[OF start] by auto
  next
    case (Inr p)
    with correct have "fires entry lo ?hi p" "\<And>u. fires entry lo ?hi u \<Longrightarrow> ?day \<le> u \<Longrightarrow> p \<le> u" by simp_all
    with after have "fires entry lo ?hi p" "\<And>u. fires entry lo ?hi u \<Longrightarrow> p \<le> u" by blast+
    then show ?thesis unfolding scan Inr fires_shift[OF start] by (auto intro: antisym)
  qed
qed

lemma minute_key_iff: "minute_key s = minute_key t \<longleftrightarrow> s div MINUTE = t div MINUTE"
proof
  assume same: "s div MINUTE = t div MINUTE"
  have "u div DAY = u div MINUTE div 1440" for u by (simp add: zdiv_zmult2_eq[symmetric])
  then have day: "s div DAY = t div DAY" using same by simp
  have bounds: "0 \<le> hour_of u" "0 \<le> minute_of u" "minute_of u < 60" for u
    by (simp_all add: hour_of_def minute_of_def div_less_iff_less_mult)
  have "hour_of s * 60 + minute_of s = hour_of t * 60 + minute_of t"
    using same div_MINUTE[of s] div_MINUTE[of t] day by simp
  then have "hour_of s = hour_of t \<and> minute_of s = minute_of t" using bounds[of s] bounds[of t] by presburger
  then show "minute_key s = minute_key t"
    using day by (simp add: minute_key_def year_of_def month_of_def day_of_def to_ordinal_def)
qed (rule minute_key_inj)

lemma polls_nth:
  assumes "j < length ts"
  shows "polls book ts ! j =
    (if (if j = 0 then last_minute book else Some (minute_key (ts ! (j - 1)))) = Some (minute_key (ts ! j)) then []
     else filter (\<lambda>entry. sched_enabled entry \<and> entry_matches entry (ts ! j)) (book_entries book))"
  using assms
proof (induction ts arbitrary: book j)
  case (Cons now ts)
  have after: "last_minute (snd (due now book)) = Some (minute_key now)"
      "book_entries (snd (due now book)) = book_entries book" by (auto simp: due_def)
  show ?case
  proof (cases j)
    case 0
    then show ?thesis by (simp add: due_def)
  next
    case (Suc i)
    then show ?thesis using Cons.IH[of i "snd (due now book)"] Cons.prems after
      by (cases i) simp_all
  qed
qed simp

text \<open>Once per minute: polled at any non-decreasing sequence of instants, a fresh book reports
  an entry at the first poll of every minute it matches while enabled, and nothing at the
  later polls of that minute.\<close>

theorem due_once_per_minute:
  assumes "sorted ts" "j < length ts" "last_minute book = None"
  shows "polls book ts ! j =
    (if \<exists>i<j. ts ! i div MINUTE = ts ! j div MINUTE then []
     else filter (\<lambda>entry. sched_enabled entry \<and> entry_matches entry (ts ! j)) (book_entries book))"
proof (cases j)
  case 0
  then show ?thesis using polls_nth[OF assms(2), of book] assms(3) by simp
next
  case (Suc k)
  have "(\<exists>i<j. ts ! i div MINUTE = ts ! j div MINUTE) \<longleftrightarrow> ts ! k div MINUTE = ts ! j div MINUTE"
  proof
    assume "\<exists>i<j. ts ! i div MINUTE = ts ! j div MINUTE"
    then obtain i where i: "i < j" "ts ! i div MINUTE = ts ! j div MINUTE" by blast
    with Suc assms have "ts ! i \<le> ts ! k" "ts ! k \<le> ts ! j" by (auto simp: sorted_iff_nth_mono)
    then have "ts ! i div MINUTE \<le> ts ! k div MINUTE" "ts ! k div MINUTE \<le> ts ! j div MINUTE"
      by (simp_all add: zdiv_mono1)
    with i show "ts ! k div MINUTE = ts ! j div MINUTE" by simp
  qed (use Suc in auto)
  then show ?thesis using polls_nth[OF assms(2), of book] Suc by (simp add: minute_key_iff)
qed

lemma nightly_evaluates:
  "find_next_fire nightly sunday_noon 1464 = Inr ((ymd2ord (2026, 3, 2) - 1) * DAY + 4 * HOUR + 30 * MINUTE)"
  "parse_entry sunday_noon nightly_item = Inr nightly"
  by code_simp+

theorem find_next_fire_first_witness:
  "fires nightly sunday_noon (sunday_noon - 5000000 + MINUTE + 1464 * DAY)
     ((ymd2ord (2026, 3, 2) - 1) * DAY + 4 * HOUR + 30 * MINUTE)"
proof -
  have "search_start sunday_noon = Inr (sunday_noon - 5000000 + MINUTE)"
      "0 \<le> sunday_noon - 5000000 + MINUTE" "sunday_noon - 5000000 + MINUTE + 1464 * DAY + DAY \<le> MAX_INSTANT"
    by (simp_all add: sunday_noon_def search_start_def add_time_def MAX_INSTANT_def ymd2ord_def
        days_before_month_def)
  from find_next_fire_first[OF nightly_evaluates(2) this(1,2) _ this(3),
      of "(ymd2ord (2026, 3, 2) - 1) * DAY + 4 * HOUR + 30 * MINUTE"] nightly_evaluates(1)
  show ?thesis by simp
qed

theorem due_once_per_minute_witness:
  "polls \<lparr>book_entries = [nightly], last_minute = None\<rparr> [sunday_noon, sunday_noon + 10000000] ! 1 = []"
proof -
  let ?ts = "[sunday_noon, sunday_noon + 10000000]"
  have "\<exists>i<1. ?ts ! i div MINUTE = ?ts ! 1 div MINUTE"
    by (simp add: sunday_noon_def ymd2ord_def days_before_month_def)
  with due_once_per_minute[of ?ts 1 "\<lparr>book_entries = [nightly], last_minute = None\<rparr>"]
  show ?thesis by simp
qed

lemma cron_fields_range:
  assumes "parse_cron_fields texts = Inr (minute, hour, day, month, wday)"
  shows "cron_values minute \<subseteq> {0..59}" "cron_values hour \<subseteq> {0..23}" "cron_values day \<subseteq> {1..31}"
    "cron_values month \<subseteq> {1..12}" "cron_values wday \<subseteq> {0..6}"
  using assms unfolding parse_cron_fields_def
  by (auto simp: and_then_Inr_iff dest!: cron_parse_range)

lemma parse_operation_Inr:
  "parse_operation item destination = Inr operation \<Longrightarrow>
     operation \<in> {''backup'', ''switch'', ''benchmark''} \<and> (operation = ''backup'' \<longrightarrow> destination \<noteq> None)"
  unfolding parse_operation_def by (auto split: json.splits if_splits)

lemma parse_entry_sound:
  assumes "parse_entry now raw = Inr entry"
  shows "entry_sound now entry"
proof (cases raw)
  case (JObj item)
  with assms obtain e where e: "parse_entry_fields item = Inr e"
      and "(case find_next_fire e now (366 * 4) of
        Inl (Value_Error _) \<Rightarrow> Inl (Value_Error ''schedule has no fire time within the next four years'')
      | Inl err \<Rightarrow> Inl err | Inr _ \<Rightarrow> Inr e) = Inr entry"
    unfolding parse_entry_def JObj by (simp add: and_then_Inr_iff split: if_split_asm) blast
  then have fire: "e = entry" "\<exists>t. find_next_fire entry now (366 * 4) = Inr t"
    by (cases "find_next_fire e now (366 * 4)"; auto split: py_error.splits)+
  obtain destination profile minute hour day month wday where parts:
      "parse_operation item destination = Inr (sched_operation entry)"
      "sched_operation entry = ''benchmark'' \<longrightarrow> benchmark_policy_ok item"
      "parse_cron_fields (split_words (case map_of item ''cron'' of Some (JStr s) \<Rightarrow> s | _ \<Rightarrow> []))
         = Inr (minute, hour, day, month, wday)"
      "sched_minute entry = minute" "sched_hour entry = hour" "sched_day entry = day"
      "sched_month entry = month" "sched_weekday entry = wday"
      "sched_backup_destination entry = destination"
      "sched_baseline_preset entry = lookup_or item ''baseline_preset'' JNull"
      "sched_candidate_preset entry = lookup_or item ''candidate_preset'' JNull"
      "sched_maintenance_window entry = lookup_or item ''maintenance_window'' (JBool False)"
      "sched_rollback_safe entry = lookup_or item ''rollback_safe'' (JBool False)"
      "sched_public_wake_policy entry = lookup_or item ''public_wake_policy'' (JStr ''disabled'')"
    using e unfolding fire(1) parse_entry_fields_def Let_def
    by (auto simp: and_then_Inr_iff split: option.split_asm)
  show ?thesis
    unfolding entry_sound_def
    using cron_fields_range[OF parts(3)] parse_operation_Inr[OF parts(1)] parts fire(2)
    by (simp add: benchmark_policy_ok_def)
qed (use assms in \<open>simp_all add: parse_entry_def\<close>)

lemma parse_items_sound:
  "parse_items clock k raws = Inr entries \<Longrightarrow> entry \<in> set entries \<Longrightarrow> \<exists>i. entry_sound (clock i) entry"
proof (induction raws arbitrary: k entries)
  case (Cons raw raws)
  then obtain e es where "parse_entry (clock k) raw = Inr e" "parse_items clock (Suc k) raws = Inr es"
      "entries = e # es"
    by (auto simp: and_then_Inr_iff)
  with Cons parse_entry_sound[of "clock k" raw e] show ?case by (cases "entry = e") auto
qed simp

text \<open>Accepted schedules are sound: every entry of a schedule that \<open>parse_schedule\<close> accepts has
  field values in range, names an operation together with the data that operation needs, and fires
  within four years of the moment it was parsed.\<close>

theorem parse_schedule_sound:
  assumes "parse_schedule clock raw = Inr entries" and "entry \<in> set entries"
  shows "\<exists>k. entry_sound (clock k) entry"
  using assms by (cases raw) (auto dest: parse_items_sound)

theorem parse_schedule_sound_witness:
  "\<exists>k::nat. entry_sound sunday_noon nightly"
proof -
  have "parse_schedule (\<lambda>_. sunday_noon) (JArr [nightly_item]) = Inr [nightly]"
    using nightly_evaluates(2) by simp
  from parse_schedule_sound[OF this, of nightly] show ?thesis by simp
qed

end
