(* ===== verification/Idle_Stop.thy ===== *)
theory Idle_Stop
  imports Schedule
begin

text \<open>
  The idle-stop tracker of \<^verbatim>\<open>src/game_control/idle_stop.py\<close>.  Its state is one streak per profile
  key; the specification is a function of the whole history of a profile's samples, and the
  refinement theorem says that the tracker computes it.
\<close>

section \<open>The tracker\<close>

record streak =
  started_at :: instant
  attempted :: bool

type_synonym idle_tracker = "string \<Rightarrow> streak option"

text \<open>What one call reads: the profile's \<open>idle_stop_minutes\<close> and key, the status fields, and the
  clock.\<close>

record idle_sample =
  smp_key :: string
  smp_minutes :: int
  smp_state :: string
  smp_players :: "int option"
  smp_job :: "string option"
  smp_now :: instant

definition idle_observe :: "idle_sample \<Rightarrow> idle_tracker \<Rightarrow> bool \<times> idle_tracker" where
  "idle_observe s streaks =
     (if smp_minutes s \<le> 0 then (False, streaks(smp_key s := None))
      else if smp_state s \<noteq> ''running'' \<or> smp_players s = None \<or> smp_players s \<noteq> Some 0 \<or> smp_job s \<noteq> None
      then (False, streaks(smp_key s := None))
      else case streaks (smp_key s) of
             None \<Rightarrow> (False, streaks(smp_key s \<mapsto> \<lparr>started_at = smp_now s, attempted = False\<rparr>))
           | Some st \<Rightarrow>
               if attempted st then (False, streaks)
               else if smp_now s - started_at st < smp_minutes s * MINUTE then (False, streaks)
               else (True, streaks(smp_key s \<mapsto> st\<lparr>attempted := True\<rparr>)))"

definition idle_reset :: "string \<Rightarrow> idle_tracker \<Rightarrow> idle_tracker" where
  "idle_reset key streaks = streaks(key := None)"

datatype idle_event = Sample idle_sample | Reset string

fun event_key :: "idle_event \<Rightarrow> string" where
  "event_key (Sample s) = smp_key s"
| "event_key (Reset key) = key"

fun idle_step :: "idle_event \<Rightarrow> idle_tracker \<Rightarrow> bool \<times> idle_tracker" where
  "idle_step (Sample s) streaks = idle_observe s streaks"
| "idle_step (Reset key) streaks = (False, idle_reset key streaks)"

text \<open>A run: the answer of every event, and the final tracker.\<close>

fun idle_run :: "idle_event list \<Rightarrow> idle_tracker \<Rightarrow> bool list \<times> idle_tracker" where
  "idle_run [] streaks = ([], streaks)"
| "idle_run (e # es) streaks =
     (let (out, streaks') = idle_step e streaks; (outs, final) = idle_run es streaks'
      in (out # outs, final))"

section \<open>Specification over histories\<close>

text \<open>A history is the list of a profile's events, the latest first.\<close>

fun is_idle :: "idle_event \<Rightarrow> bool" where
  "is_idle (Sample s) \<longleftrightarrow> 0 < smp_minutes s \<and> smp_state s = ''running'' \<and> smp_players s = Some 0
     \<and> smp_job s = None"
| "is_idle (Reset _) \<longleftrightarrow> False"

fun event_now :: "idle_event \<Rightarrow> instant" where
  "event_now (Sample s) = smp_now s"
| "event_now (Reset _) = 0"

fun event_minutes :: "idle_event \<Rightarrow> int" where
  "event_minutes (Sample s) = smp_minutes s"
| "event_minutes (Reset _) = 0"

definition current_streak :: "idle_event list \<Rightarrow> idle_event list" where
  "current_streak h = takeWhile is_idle h"

text \<open>The latest event asks for a stop: it continues a streak that began at least the configured
  minutes ago and in which no stop was asked for.\<close>

fun asks_stop :: "idle_event list \<Rightarrow> bool"
  and stop_asked :: "idle_event list \<Rightarrow> bool" where
  "asks_stop [] = False"
| "asks_stop (e # h) \<longleftrightarrow> is_idle e \<and> current_streak h \<noteq> [] \<and> \<not> stop_asked h
     \<and> event_now e - event_now (last (current_streak h)) \<ge> event_minutes e * MINUTE"
| "stop_asked [] = False"
| "stop_asked (e # h) \<longleftrightarrow> is_idle e \<and> (stop_asked h \<or> asks_stop (e # h))"

definition streak_of :: "idle_event list \<Rightarrow> streak option" where
  "streak_of h =
     (if current_streak h = [] then None
      else Some \<lparr>started_at = event_now (last (current_streak h)), attempted = stop_asked h\<rparr>)"

text \<open>The history of a key in a list of events, the latest first.\<close>

definition history :: "string \<Rightarrow> idle_event list \<Rightarrow> idle_event list" where
  "history key es = rev (filter (\<lambda>e. event_key e = key) es)"

text \<open>A quiet sample of a profile with a ten-minute limit.\<close>

definition quiet :: "instant \<Rightarrow> idle_sample" where
  "quiet now = \<lparr>smp_key = ''terraria-vanilla'', smp_minutes = 10, smp_state = ''running'',
     smp_players = Some 0, smp_job = None, smp_now = now\<rparr>"

section \<open>The tracker computes the specification\<close>

lemma stop_asked_streak: "stop_asked h \<Longrightarrow> current_streak h \<noteq> []"
  by (cases h) (auto simp: current_streak_def)

lemma current_streak_Cons:
  "current_streak (e # h) = (if is_idle e then e # current_streak h else [])"
  by (simp add: current_streak_def)

lemma idle_step_refines:
  assumes "streaks (event_key e) = streak_of h"
  shows "fst (idle_step e streaks) = asks_stop (e # h)"
    and "snd (idle_step e streaks) (event_key e) = streak_of (e # h)"
proof -
  have "fst (idle_step e streaks) = asks_stop (e # h)
      \<and> snd (idle_step e streaks) (event_key e) = streak_of (e # h)"
  proof (cases e)
    case (Reset key)
    then show ?thesis by (simp add: idle_reset_def streak_of_def current_streak_Cons)
  next
    case (Sample s)
    show ?thesis
    proof (cases "is_idle e")
      case False
      then show ?thesis using Sample
        by (auto simp: idle_observe_def streak_of_def current_streak_Cons)
    next
      case idle: True
      show ?thesis
      proof (cases "current_streak h = []")
        case True
        then have "\<not> stop_asked h" using stop_asked_streak by blast
        with True show ?thesis using Sample idle assms
          by (simp add: idle_observe_def streak_of_def current_streak_Cons)
      next
        case False
        then show ?thesis using Sample idle assms
          by (auto simp: idle_observe_def streak_of_def current_streak_Cons)
      qed
    qed
  qed
  then show "fst (idle_step e streaks) = asks_stop (e # h)"
    "snd (idle_step e streaks) (event_key e) = streak_of (e # h)" by auto
qed

lemma idle_step_frame: "key \<noteq> event_key e \<Longrightarrow> snd (idle_step e streaks) key = streaks key"
  by (cases e) (auto simp: idle_observe_def idle_reset_def split: option.splits)

lemma history_snoc:
  "history key (es @ [e]) = (if event_key e = key then e # history key es else history key es)"
  by (simp add: history_def)

lemma idle_run_from:
  assumes "\<And>key. streaks key = streak_of (history key past)"
  shows "snd (idle_run es streaks) key = streak_of (history key (past @ es))
    \<and> (\<forall>j < length es. fst (idle_run es streaks) ! j
         = asks_stop (history (event_key (es ! j)) (past @ take (Suc j) es)))"
  using assms
proof (induction es arbitrary: streaks past)
  case (Cons e es)
  obtain out streaks' where step: "idle_step e streaks = (out, streaks')" by fastforce
  have out: "out = asks_stop (history (event_key e) (past @ [e]))"
    using idle_step_refines(1)[of streaks e] Cons.prems step by (simp add: history_snoc)
  have next_state: "streaks' key = streak_of (history key (past @ [e]))" for key
    using idle_step_refines(2)[of streaks e] idle_step_frame[of key e streaks] Cons.prems step
    by (cases "event_key e = key") (auto simp: history_snoc)
  have rest: "fst (idle_run (e # es) streaks) = out # fst (idle_run es streaks')"
      "snd (idle_run (e # es) streaks) = snd (idle_run es streaks')"
    using step by (simp_all add: split_beta)
  show ?case
    using Cons.IH[OF next_state] out unfolding rest by (auto simp: nth_Cons split: nat.splits)
qed simp

text \<open>C33. Idle stops: started empty and fed any interleaving of samples and resets of any
  profiles, the tracker answers each sample exactly as the history of that profile says: a stop
  is asked for when an unbroken streak of running, zero-player, job-free samples is at least the
  configured minutes old and no stop was asked for in that streak.\<close>

theorem idle_tracker_refines_history:
  "(\<forall>j < length es. fst (idle_run es Map.empty) ! j
      = asks_stop (history (event_key (es ! j)) (take (Suc j) es)))
   \<and> snd (idle_run es Map.empty) key = streak_of (history key es)"
proof -
  have "Map.empty k = streak_of (history k [])" for k
    by (simp add: streak_of_def history_def current_streak_def)
  from idle_run_from[OF this, of es key] show ?thesis by simp
qed

theorem idle_tracker_refines_history_witness:
  "fst (idle_run [Sample (quiet 0), Reset ''other'', Sample (quiet (10 * MINUTE))] Map.empty) ! 2"
proof -
  let ?es = "[Sample (quiet 0), Reset ''other'', Sample (quiet (10 * MINUTE))]"
  have "fst (idle_run ?es Map.empty) ! 2 = asks_stop (history (event_key (?es ! 2)) (take (Suc 2) ?es))"
    by (rule idle_tracker_refines_history[of ?es undefined, THEN conjunct1, rule_format]) simp
  also have "\<dots>" by (simp add: history_def quiet_def current_streak_def)
  finally show ?thesis .
qed

end
