(* ===== verification/Alert_Policy.thy ===== *)
theory Alert_Policy
  imports Horizon_Prelude "HOL-Library.AList" "HOL-Library.List_Lexorder" "HOL-Library.Char_ord"
begin

text \<open>
  Performance alerts, \<^verbatim>\<open>src/game_control/alert_policy.py\<close>: the rule registry and the
  \<open>PerformanceAlertEvaluator\<close>.  Dictionaries whose iteration order decides something are
  association lists (\<open>AList.update\<close> replaces in place or appends, as a \<open>dict\<close> does).  Sample
  values are annotated \<open>float | None\<close> in the source and are \<open>pyfloat option\<close> here.
\<close>

section \<open>Signals, owners and rules\<close>

datatype alert_signal = SUSTAINED_MSPT | MEMORY_GROWTH | DISK_PRESSURE | WAKE_SLO | BENCHMARK_REGRESSION

fun signal_value :: "alert_signal \<Rightarrow> string" where
  "signal_value SUSTAINED_MSPT = ''sustained_mspt''"
| "signal_value MEMORY_GROWTH = ''memory_growth''"
| "signal_value DISK_PRESSURE = ''disk_pressure''"
| "signal_value WAKE_SLO = ''wake_slo''"
| "signal_value BENCHMARK_REGRESSION = ''benchmark_regression''"

datatype alert_owner = SLOTD | PROMETHEUS_ALERTMANAGER

datatype activity_policy = RUNNING_ONLY | STARTING_OR_RUNNING | ALWAYS

record alert_rule =
  rule_signal :: alert_signal
  rule_owner :: alert_owner
  rule_activity :: activity_policy
  rule_dedup_group :: string
  rule_priority :: int
  rule_threshold :: "rat option"
  rule_window_seconds :: rat

record alert_emission =
  em_signal :: alert_signal
  em_generation :: int
  em_message :: string

definition MSPT_P95_THRESHOLD_MS :: rat where "MSPT_P95_THRESHOLD_MS = 50"
definition MSPT_SUSTAINED_SECONDS :: rat where "MSPT_SUSTAINED_SECONDS = 30"
definition MSPT_MIN_SAMPLES :: nat where "MSPT_MIN_SAMPLES = 4"
definition MEMORY_GROWTH_WINDOW_SECONDS :: rat where "MEMORY_GROWTH_WINDOW_SECONDS = 600"
definition MEMORY_GROWTH_THRESHOLD_BYTES :: rat where "MEMORY_GROWTH_THRESHOLD_BYTES = 512 * 1024 * 1024"
definition MEMORY_RECOVERY_BYTES :: rat where "MEMORY_RECOVERY_BYTES = 256 * 1024 * 1024"
definition WAKE_SLO_THRESHOLD_MS :: rat where "WAKE_SLO_THRESHOLD_MS = 180000"
definition MAX_RUNTIME_SAMPLES :: nat where "MAX_RUNTIME_SAMPLES = 256"
definition SUSTAINED_SPAN_TOLERANCE_SECONDS :: rat where "SUSTAINED_SPAN_TOLERANCE_SECONDS = 5"

definition ALERT_RULES :: "alert_rule list" where
  "ALERT_RULES =
     [\<lparr>rule_signal = SUSTAINED_MSPT, rule_owner = SLOTD, rule_activity = RUNNING_ONLY,
       rule_dedup_group = ''runtime_pressure'', rule_priority = 10,
       rule_threshold = Some MSPT_P95_THRESHOLD_MS, rule_window_seconds = MSPT_SUSTAINED_SECONDS\<rparr>,
      \<lparr>rule_signal = MEMORY_GROWTH, rule_owner = SLOTD, rule_activity = RUNNING_ONLY,
       rule_dedup_group = ''runtime_pressure'', rule_priority = 20,
       rule_threshold = Some MEMORY_GROWTH_THRESHOLD_BYTES,
       rule_window_seconds = MEMORY_GROWTH_WINDOW_SECONDS\<rparr>,
      \<lparr>rule_signal = DISK_PRESSURE, rule_owner = PROMETHEUS_ALERTMANAGER, rule_activity = ALWAYS,
       rule_dedup_group = ''host_storage'', rule_priority = 20,
       rule_threshold = None, rule_window_seconds = 0\<rparr>,
      \<lparr>rule_signal = WAKE_SLO, rule_owner = SLOTD, rule_activity = STARTING_OR_RUNNING,
       rule_dedup_group = ''wake_path'', rule_priority = 20,
       rule_threshold = Some WAKE_SLO_THRESHOLD_MS, rule_window_seconds = 0\<rparr>,
      \<lparr>rule_signal = BENCHMARK_REGRESSION, rule_owner = SLOTD, rule_activity = ALWAYS,
       rule_dedup_group = ''benchmark'', rule_priority = 20,
       rule_threshold = None, rule_window_seconds = 0\<rparr>]"

definition alert_signals :: "alert_signal list" where
  "alert_signals = [SUSTAINED_MSPT, MEMORY_GROWTH, DISK_PRESSURE, WAKE_SLO, BENCHMARK_REGRESSION]"

fun register_rules :: "alert_rule list \<Rightarrow> (alert_signal \<times> alert_rule) list
    \<Rightarrow> (alert_signal \<times> alert_rule) list outcome" where
  "register_rules [] registry = Inr registry"
| "register_rules (rule # rules) registry =
     (if map_of registry (rule_signal rule) \<noteq> None
      then Inl (Runtime_Error ''duplicate alert signal ownership'')
      else if rule_dedup_group rule = [] \<or> \<not> (0 \<le> rule_priority rule \<and> rule_priority rule \<le> 100)
      then Inl (Runtime_Error ''invalid alert policy'')
      else register_rules rules (AList.update (rule_signal rule) rule registry))"

definition build_registry :: "alert_rule list \<Rightarrow> (alert_signal \<times> alert_rule) list outcome" where
  "build_registry rules =
     and_then (register_rules rules []) (\<lambda>registry.
     and_then (raise_if (set (map fst registry) \<noteq> set alert_signals)
        (Runtime_Error ''incomplete alert signal ownership'')) (\<lambda>_. Inr registry))"

definition ALERT_POLICY :: "alert_signal \<Rightarrow> alert_rule" where
  "ALERT_POLICY signal = the (map_of (projr (build_registry ALERT_RULES)) signal)"

fun alert_message :: "alert_signal \<Rightarrow> string" where
  "alert_message SUSTAINED_MSPT = ''Sunlit tick time has remained above the 50 ms p95 threshold.''"
| "alert_message MEMORY_GROWTH = ''Sunlit resident memory grew by at least 512 MiB over ten minutes.''"
| "alert_message WAKE_SLO = ''Sunlit wake readiness exceeded the 180 second objective.''"
| "alert_message BENCHMARK_REGRESSION =
     ''The latest Sunlit benchmark crossed its declared regression threshold.''"
| "alert_message DISK_PRESSURE = ''''"

section \<open>The evaluator\<close>

type_synonym samples = "(rat \<times> rat) list" \<comment> \<open>time and value, the oldest first\<close>

record alert_state =
  st_mspt :: "string \<Rightarrow> samples"
  st_rss :: "string \<Rightarrow> samples"
  st_breached :: "string \<Rightarrow> (alert_signal \<times> bool) list"
  st_active_groups :: "string \<Rightarrow> string set"
  st_memory_peak :: "string \<Rightarrow> rat option"
  st_last_generation :: int

definition initial_alert_state :: alert_state where
  "initial_alert_state = \<lparr>st_mspt = (\<lambda>_. []), st_rss = (\<lambda>_. []), st_breached = (\<lambda>_. []),
     st_active_groups = (\<lambda>_. {}), st_memory_peak = Map.empty, st_last_generation = 0\<rparr>"

text \<open>\<open>_finite\<close>.\<close>

fun finite_value :: "pyfloat option \<Rightarrow> rat option" where
  "finite_value (Some (Finite r)) = (if r \<ge> 0 then Some r else None)"
| "finite_value _ = None"

definition next_generation :: "int \<Rightarrow> int \<Rightarrow> int" where
  "next_generation last_gen candidate = max (last_gen + 1) candidate"

text \<open>\<^verbatim>\<open>deque(maxlen=MAX_RUNTIME_SAMPLES).append\<close>, then the loop that drops samples before the
  boundary while more than one is left.\<close>

definition append_sample :: "rat \<times> rat \<Rightarrow> samples \<Rightarrow> samples" where
  "append_sample x xs = (let ys = xs @ [x] in drop (length ys - MAX_RUNTIME_SAMPLES) ys)"

fun prune_samples :: "rat \<Rightarrow> samples \<Rightarrow> samples" where
  "prune_samples boundary (x # y # ys) =
     (if fst x < boundary then prune_samples boundary (y # ys) else x # y # ys)"
| "prune_samples boundary xs = xs"

definition set_breach ::
  "string \<Rightarrow> alert_signal \<Rightarrow> bool \<Rightarrow> alert_state \<Rightarrow> alert_state" where
  "set_breach pid signal b st =
     st\<lparr>st_breached := (st_breached st)(pid := AList.update signal b (st_breached st pid))\<rparr>"

definition breach_of :: "alert_state \<Rightarrow> string \<Rightarrow> alert_signal \<Rightarrow> bool" where
  "breach_of st pid signal = (map_of (st_breached st pid) signal = Some True)"

text \<open>The four stages of \<open>observe\<close> that update the breaches: a profile that is not running, a tick
  time sample, a memory sample, and the wake and benchmark inputs.\<close>

definition clear_runtime :: "string \<Rightarrow> alert_state \<Rightarrow> alert_state" where
  "clear_runtime pid st =
     set_breach pid MEMORY_GROWTH False (set_breach pid SUSTAINED_MSPT False
       (st\<lparr>st_mspt := (st_mspt st)(pid := []), st_rss := (st_rss st)(pid := []),
          st_memory_peak := (st_memory_peak st)(pid := None)\<rparr>))"

definition mspt_sustained :: "rat \<Rightarrow> samples \<Rightarrow> bool" where
  "mspt_sustained now xs \<longleftrightarrow> length xs \<ge> MSPT_MIN_SAMPLES
     \<and> fst (hd xs) \<le> now - MSPT_SUSTAINED_SECONDS
     \<and> list_all (\<lambda>(_, v). v \<ge> MSPT_P95_THRESHOLD_MS) xs"

definition observe_mspt :: "string \<Rightarrow> rat \<Rightarrow> pyfloat option \<Rightarrow> alert_state \<Rightarrow> alert_state" where
  "observe_mspt pid now mspt_p95 st =
     (case finite_value mspt_p95 of
        None \<Rightarrow> st
      | Some mspt \<Rightarrow>
          let xs = prune_samples (now - MSPT_SUSTAINED_SECONDS - SUSTAINED_SPAN_TOLERANCE_SECONDS)
                     (append_sample (now, mspt) (st_mspt st pid))
          in set_breach pid SUSTAINED_MSPT (mspt_sustained now xs)
               (st\<lparr>st_mspt := (st_mspt st)(pid := xs)\<rparr>))"

definition observe_rss :: "string \<Rightarrow> rat \<Rightarrow> pyfloat option \<Rightarrow> alert_state \<Rightarrow> alert_state" where
  "observe_rss pid now rss_bytes st =
     (case finite_value rss_bytes of
        None \<Rightarrow> st
      | Some rss \<Rightarrow>
          let xs = prune_samples (now - MEMORY_GROWTH_WINDOW_SECONDS - SUSTAINED_SPAN_TOLERANCE_SECONDS)
                     (append_sample (now, rss) (st_rss st pid));
              span = now - fst (hd xs);
              growth = rss - snd (hd xs);
              st1 = st\<lparr>st_rss := (st_rss st)(pid := xs)\<rparr>
          in if breach_of st pid MEMORY_GROWTH then
               let peak = max (case st_memory_peak st pid of None \<Rightarrow> rss | Some p \<Rightarrow> p) rss;
                   still = (peak - rss < MEMORY_RECOVERY_BYTES)
               in set_breach pid MEMORY_GROWTH still
                    (st1\<lparr>st_memory_peak := (st_memory_peak st)(pid := if still then Some peak else None)\<rparr>)
             else
               let grown = (span \<ge> MEMORY_GROWTH_WINDOW_SECONDS \<and> growth \<ge> MEMORY_GROWTH_THRESHOLD_BYTES)
               in set_breach pid MEMORY_GROWTH grown
                    (if grown then st1\<lparr>st_memory_peak := (st_memory_peak st)(pid \<mapsto> rss)\<rparr> else st1))"

record alert_input =
  in_state :: string
  in_now :: "pyfloat option"
  in_mspt :: "pyfloat option"
  in_rss :: "pyfloat option"
  in_wake :: "pyfloat option"
  in_benchmark :: "bool option"

definition observe_edges :: "string \<Rightarrow> alert_input \<Rightarrow> alert_state \<Rightarrow> alert_state" where
  "observe_edges pid inp st =
     (let st1 = (case finite_value (in_wake inp) of
                   Some wake \<Rightarrow> set_breach pid WAKE_SLO (wake > WAKE_SLO_THRESHOLD_MS) st
                 | None \<Rightarrow> if in_state inp \<notin> {''starting'', ''running''}
                            then set_breach pid WAKE_SLO False st else st)
      in case in_benchmark inp of
           None \<Rightarrow> st1
         | Some b \<Rightarrow> set_breach pid BENCHMARK_REGRESSION b st1)"

text \<open>The rules that compete for an emission.\<close>

definition rule_applies :: "string \<Rightarrow> alert_rule \<Rightarrow> bool" where
  "rule_applies state rule \<longleftrightarrow> rule_owner rule = SLOTD
     \<and> (rule_activity rule = RUNNING_ONLY \<longrightarrow> state = ''running'')
     \<and> (rule_activity rule = STARTING_OR_RUNNING \<longrightarrow> state \<in> {''starting'', ''running''})"

definition consider_rule ::
  "alert_rule \<Rightarrow> (string \<times> alert_rule) list \<Rightarrow> (string \<times> alert_rule) list" where
  "consider_rule rule candidates =
     (case map_of candidates (rule_dedup_group rule) of
        None \<Rightarrow> AList.update (rule_dedup_group rule) rule candidates
      | Some selected \<Rightarrow>
          if rule_priority rule > rule_priority selected
          then AList.update (rule_dedup_group rule) rule candidates else candidates)"

fun select_candidates ::
  "string \<Rightarrow> (alert_signal \<times> bool) list \<Rightarrow> (string \<times> alert_rule) list \<Rightarrow> (string \<times> alert_rule) list" where
  "select_candidates state [] candidates = candidates"
| "select_candidates state ((signal, breached) # rest) candidates =
     select_candidates state rest
       (if \<not> breached \<or> \<not> rule_applies state (ALERT_POLICY signal) then candidates
        else consider_rule (ALERT_POLICY signal) candidates)"

text \<open>The emission loop; \<open>clock\<close> gives the successive readings of the generation clock.\<close>

fun emit :: "(nat \<Rightarrow> int) \<Rightarrow> nat \<Rightarrow> (string \<times> alert_rule) list \<Rightarrow> string set \<Rightarrow> int
    \<Rightarrow> alert_emission list \<times> string set \<times> int" where
  "emit clock k [] active gen = ([], active, gen)"
| "emit clock k ((grp, rule) # rest) active gen =
     (if grp \<in> active then emit clock k rest active gen
      else
        let gen' = next_generation gen (clock k);
            (es, active', gen'') = emit clock (Suc k) rest (insert grp active) gen'
        in (\<lparr>em_signal = rule_signal rule, em_generation = gen',
             em_message = alert_message (rule_signal rule)\<rparr> # es, active', gen''))"

definition runtime_stage :: "string \<Rightarrow> rat \<Rightarrow> alert_input \<Rightarrow> alert_state \<Rightarrow> alert_state" where
  "runtime_stage pid now inp st =
     (if in_state inp \<noteq> ''running'' then clear_runtime pid st
      else observe_rss pid now (in_rss inp) (observe_mspt pid now (in_mspt inp) st))"

definition breach_stage :: "string \<Rightarrow> rat \<Rightarrow> alert_input \<Rightarrow> alert_state \<Rightarrow> alert_state" where
  "breach_stage pid now inp st = observe_edges pid inp (runtime_stage pid now inp st)"

definition emission_stage :: "(nat \<Rightarrow> int) \<Rightarrow> string \<Rightarrow> string \<Rightarrow> alert_state
    \<Rightarrow> alert_emission list \<times> alert_state" where
  "emission_stage clock pid state st =
     (let candidates = select_candidates state (st_breached st pid) [];
          (es, active, gen) = emit clock 0 candidates
             (st_active_groups st pid \<inter> set (map fst candidates)) (st_last_generation st)
      in (sort_key (\<lambda>e. signal_value (em_signal e)) es,
          st\<lparr>st_active_groups := (st_active_groups st)(pid := active), st_last_generation := gen\<rparr>))"

definition alert_observe :: "(nat \<Rightarrow> int) \<Rightarrow> string \<Rightarrow> alert_input \<Rightarrow> alert_state
    \<Rightarrow> alert_emission list outcome \<times> alert_state" where
  "alert_observe clock pid inp st =
     (if pid = [] \<or> length pid > 128 then (Inl (Value_Error ''invalid alert profile''), st)
      else case finite_value (in_now inp) of
             None \<Rightarrow> (Inl (Value_Error ''invalid alert timestamp''), st)
           | Some now \<Rightarrow>
               (case emission_stage clock pid (in_state inp) (breach_stage pid now inp st) of
                  (es, st') \<Rightarrow> (Inr es, st')))"

definition active_signals :: "alert_state \<Rightarrow> string \<Rightarrow> alert_signal list" where
  "active_signals st pid =
     sort_key signal_value (map fst (filter snd (st_breached st pid)))"

section \<open>Specification of incidents\<close>

text \<open>The root-cause groups that a breach state puts in alarm for a profile.\<close>

definition breached_groups :: "alert_state \<Rightarrow> string \<Rightarrow> string \<Rightarrow> string set" where
  "breached_groups st pid state =
     {rule_dedup_group (ALERT_POLICY s) | s. breach_of st pid s \<and> rule_applies state (ALERT_POLICY s)}"

definition emission_group :: "alert_emission \<Rightarrow> string" where
  "emission_group e = rule_dedup_group (ALERT_POLICY (em_signal e))"

text \<open>Each profile's breach table has one entry per signal.\<close>

definition alert_state_ok :: "alert_state \<Rightarrow> bool" where
  "alert_state_ok st \<longleftrightarrow> (\<forall>pid. distinct (map fst (st_breached st pid))
     \<and> length (st_mspt st pid) \<le> MAX_RUNTIME_SAMPLES \<and> length (st_rss st pid) \<le> MAX_RUNTIME_SAMPLES)"

text \<open>What holds of a candidate table: one rule per group, each a policy rule.\<close>

definition candidates_ok :: "(string \<times> alert_rule) list \<Rightarrow> bool" where
  "candidates_ok cs \<longleftrightarrow> distinct (map fst cs)
     \<and> (\<forall>(g, r) \<in> set cs. rule_dedup_group r = g \<and> r = ALERT_POLICY (rule_signal r))"

text \<open>A wake that took 200 seconds, reported while starting.\<close>

definition late_wake :: alert_input where
  "late_wake = \<lparr>in_state = ''starting'', in_now = Some (Finite 100), in_mspt = None, in_rss = None,
     in_wake = Some (Finite 200000), in_benchmark = None\<rparr>"

section \<open>The rule registry\<close>

lemma build_registry_rules: "\<exists>registry. build_registry ALERT_RULES = Inr registry"
  by (auto simp: build_registry_def ALERT_RULES_def alert_signals_def raise_if_def)

lemma ALERT_POLICY_simps [simp]:
  "ALERT_POLICY SUSTAINED_MSPT = ALERT_RULES ! 0"
  "ALERT_POLICY MEMORY_GROWTH = ALERT_RULES ! 1"
  "ALERT_POLICY DISK_PRESSURE = ALERT_RULES ! 2"
  "ALERT_POLICY WAKE_SLO = ALERT_RULES ! 3"
  "ALERT_POLICY BENCHMARK_REGRESSION = ALERT_RULES ! 4"
proof -
  have "{SUSTAINED_MSPT, MEMORY_GROWTH, DISK_PRESSURE, WAKE_SLO, BENCHMARK_REGRESSION} = set alert_signals"
    by (auto simp: alert_signals_def)
  then have "build_registry ALERT_RULES = Inr (map (\<lambda>r. (rule_signal r, r)) ALERT_RULES)"
    by (simp add: build_registry_def ALERT_RULES_def raise_if_def)
  then show "ALERT_POLICY SUSTAINED_MSPT = ALERT_RULES ! 0" "ALERT_POLICY MEMORY_GROWTH = ALERT_RULES ! 1"
    "ALERT_POLICY DISK_PRESSURE = ALERT_RULES ! 2" "ALERT_POLICY WAKE_SLO = ALERT_RULES ! 3"
    "ALERT_POLICY BENCHMARK_REGRESSION = ALERT_RULES ! 4"
    by (simp_all add: ALERT_POLICY_def ALERT_RULES_def)
qed

lemma policy_signal: "rule_signal (ALERT_POLICY s) = s"
  by (cases s) (simp_all add: ALERT_RULES_def)

section \<open>Candidates\<close>

lemma set_update_subset: "set (AList.update k v al) \<subseteq> insert (k, v) (set al)"
  by (induction al) auto

lemma candidates_ok_update:
  "candidates_ok cs \<Longrightarrow> candidates_ok (AList.update (rule_dedup_group (ALERT_POLICY s)) (ALERT_POLICY s) cs)"
  unfolding candidates_ok_def
  using set_update_subset[of "rule_dedup_group (ALERT_POLICY s)" "ALERT_POLICY s" cs]
  by (auto simp: distinct_update policy_signal)

lemma consider_rule_spec:
  assumes "candidates_ok cs"
  shows "candidates_ok (consider_rule (ALERT_POLICY s) cs)"
    and "fst ` set (consider_rule (ALERT_POLICY s) cs) = insert (rule_dedup_group (ALERT_POLICY s)) (fst ` set cs)"
proof -
  show "candidates_ok (consider_rule (ALERT_POLICY s) cs)"
    using assms candidates_ok_update[of cs s] by (simp add: consider_rule_def split: option.splits)
  have "rule_dedup_group (ALERT_POLICY s) \<in> fst ` set cs"
    if "map_of cs (rule_dedup_group (ALERT_POLICY s)) = Some r" for r
    using map_of_SomeD[OF that] by force
  then show "fst ` set (consider_rule (ALERT_POLICY s) cs) = insert (rule_dedup_group (ALERT_POLICY s)) (fst ` set cs)"
    by (auto simp: consider_rule_def dom_update split: option.splits)
qed

lemma select_candidates_spec:
  assumes "candidates_ok cs"
  shows "candidates_ok (select_candidates state table cs)
    \<and> fst ` set (select_candidates state table cs) = fst ` set cs
      \<union> {rule_dedup_group (ALERT_POLICY s) | s. (s, True) \<in> set table \<and> rule_applies state (ALERT_POLICY s)}"
  using assms
proof (induction table arbitrary: cs)
  case (Cons entry table)
  obtain signal breached where entry: "entry = (signal, breached)" by fastforce
  define cs' where "cs' = (if \<not> breached \<or> \<not> rule_applies state (ALERT_POLICY signal) then cs
      else consider_rule (ALERT_POLICY signal) cs)"
  have ok: "candidates_ok cs'" using Cons.prems consider_rule_spec(1) by (simp add: cs'_def)
  have fst_cs': "fst ` set cs' = fst ` set cs
      \<union> (if breached \<and> rule_applies state (ALERT_POLICY signal) then {rule_dedup_group (ALERT_POLICY signal)} else {})"
    using consider_rule_spec(2)[OF Cons.prems, of signal] by (auto simp: cs'_def)
  have "select_candidates state (entry # table) cs = select_candidates state table cs'"
    by (simp add: entry cs'_def)
  then show ?case using Cons.IH[OF ok] unfolding fst_cs' entry by auto
qed auto

lemma candidates_groups:
  assumes "distinct (map fst (st_breached st pid))"
  shows "candidates_ok (select_candidates state (st_breached st pid) [])"
    and "fst ` set (select_candidates state (st_breached st pid) []) = breached_groups st pid state"
proof -
  have ok: "candidates_ok []" by (simp add: candidates_ok_def)
  have "(s, True) \<in> set (st_breached st pid) \<longleftrightarrow> breach_of st pid s" for s
    using assms by (simp add: breach_of_def)
  then show "candidates_ok (select_candidates state (st_breached st pid) [])"
    "fst ` set (select_candidates state (st_breached st pid) []) = breached_groups st pid state"
    using select_candidates_spec[OF ok, of state "st_breached st pid"]
    by (simp_all add: breached_groups_def)
qed

section \<open>Emissions\<close>

lemma emit_spec:
  assumes "candidates_ok cs" "emit clock k cs active gen = (es, active', gen')"
  shows "active' = active \<union> fst ` set cs"
    and "map emission_group es = filter (\<lambda>g. g \<notin> active) (map fst cs)"
    and "gen \<le> gen'" and "sorted_wrt (<) (gen # map em_generation es)"
    and "\<forall>e \<in> set es. em_generation e \<le> gen'"
proof -
  have "active' = active \<union> fst ` set cs
    \<and> map emission_group es = filter (\<lambda>g. g \<notin> active) (map fst cs)
    \<and> gen \<le> gen' \<and> sorted_wrt (<) (gen # map em_generation es)
    \<and> (\<forall>e \<in> set es. em_generation e \<le> gen')"
    using assms
  proof (induction cs arbitrary: k active gen es)
    case (Cons c cs)
    obtain g rule where c: "c = (g, rule)" by fastforce
    from Cons.prems(1) have ok: "candidates_ok cs" "g \<notin> fst ` set cs" "rule_dedup_group rule = g"
        "rule = ALERT_POLICY (rule_signal rule)"
      by (auto simp: candidates_ok_def c)
    show ?case
    proof (cases "g \<in> active")
      case True
      then show ?thesis using Cons.IH[OF ok(1), of k active gen es] Cons.prems(2) by (auto simp: c)
    next
      case False
      define g1 where "g1 = next_generation gen (clock k)"
      obtain es1 where rest: "emit clock (Suc k) cs (insert g active) g1 = (es1, active', gen')"
          and es: "es = \<lparr>em_signal = rule_signal rule, em_generation = g1,
             em_message = alert_message (rule_signal rule)\<rparr> # es1"
        using Cons.prems(2) False by (auto simp: c g1_def Let_def split: prod.splits)
      have "gen < g1" by (simp add: g1_def next_generation_def)
      moreover have "filter (\<lambda>x. x \<notin> insert g active) (map fst cs) = filter (\<lambda>x. x \<notin> active) (map fst cs)"
        using ok(2) by (intro filter_cong) auto
      moreover note Cons.IH[OF ok(1) rest]
      ultimately show ?thesis using False ok(3,4) by (auto simp: es c emission_group_def)
    qed
  qed simp
  then show "active' = active \<union> fst ` set cs"
    "map emission_group es = filter (\<lambda>g. g \<notin> active) (map fst cs)"
    "gen \<le> gen'" "sorted_wrt (<) (gen # map em_generation es)"
    "\<forall>e \<in> set es. em_generation e \<le> gen'" by auto
qed

section \<open>The state invariant\<close>

lemma set_breach_ok: "alert_state_ok st \<Longrightarrow> alert_state_ok (set_breach pid signal b st)"
  by (simp add: alert_state_ok_def set_breach_def distinct_update)

lemma prune_samples_length: "length (prune_samples boundary xs) \<le> length xs"
  by (induction boundary xs rule: prune_samples.induct) auto

lemma append_sample_length: "length (append_sample x xs) \<le> MAX_RUNTIME_SAMPLES"
  by (simp add: append_sample_def Let_def MAX_RUNTIME_SAMPLES_def)

lemma samples_bounded: "length (prune_samples boundary (append_sample x xs)) \<le> MAX_RUNTIME_SAMPLES"
  using prune_samples_length append_sample_length by (rule order_trans)

lemma breach_stage_ok:
  assumes "alert_state_ok st"
  shows "alert_state_ok (breach_stage pid now inp st)"
proof -
  have clear: "alert_state_ok (clear_runtime pid s)" if "alert_state_ok s" for s
    unfolding clear_runtime_def using that
    by (intro set_breach_ok) (simp add: alert_state_ok_def)
  have mspt: "alert_state_ok (observe_mspt pid now x s)" if "alert_state_ok s" for x s
    unfolding observe_mspt_def Let_def using that samples_bounded
    by (auto split: option.splits simp: alert_state_ok_def set_breach_def distinct_update)
  have rss: "alert_state_ok (observe_rss pid now x s)" if "alert_state_ok s" for x s
    unfolding observe_rss_def Let_def using that samples_bounded
    by (auto split: option.splits simp: alert_state_ok_def set_breach_def distinct_update)
  have edges: "alert_state_ok (observe_edges pid inp s)" if "alert_state_ok s" for s
    unfolding observe_edges_def Let_def using that
    by (auto split: option.splits intro!: set_breach_ok)
  show ?thesis unfolding breach_stage_def runtime_stage_def using assms
    by (auto intro!: edges clear rss mspt)
qed

section \<open>Properties\<close>

lemma breach_stage_keeps:
  "st_active_groups (breach_stage pid now inp st) = st_active_groups st"
  "st_last_generation (breach_stage pid now inp st) = st_last_generation st"
  by (auto simp: breach_stage_def runtime_stage_def clear_runtime_def observe_mspt_def observe_rss_def
      observe_edges_def set_breach_def Let_def split: option.splits)

lemma alert_observe_Inr:
  assumes "alert_observe clock pid inp st = (Inr es, st')" and ok: "alert_state_ok st"
  obtains now es0 gen where "finite_value (in_now inp) = Some now"
    "emit clock 0 (select_candidates (in_state inp) (st_breached (breach_stage pid now inp st) pid) [])
       (st_active_groups st pid \<inter> breached_groups (breach_stage pid now inp st) pid (in_state inp))
       (st_last_generation st) = (es0, breached_groups (breach_stage pid now inp st) pid (in_state inp), gen)"
    "es = sort_key (\<lambda>e. signal_value (em_signal e)) es0"
    "st' = (breach_stage pid now inp st)\<lparr>st_active_groups := (st_active_groups st)
        (pid := breached_groups (breach_stage pid now inp st) pid (in_state inp)), st_last_generation := gen\<rparr>"
proof -
  obtain now where now: "finite_value (in_now inp) = Some now"
      and em: "emission_stage clock pid (in_state inp) (breach_stage pid now inp st) = (es, st')"
    using assms(1) by (auto simp: alert_observe_def split: if_splits option.splits prod.splits)
  let ?s = "breach_stage pid now inp st"
  let ?cs = "select_candidates (in_state inp) (st_breached ?s pid) []"
  have "distinct (map fst (st_breached ?s pid))"
    using breach_stage_ok[OF ok] by (simp add: alert_state_ok_def)
  note cs = candidates_groups[OF this, of "in_state inp"]
  obtain es0 active gen where emit: "emit clock 0 ?cs (st_active_groups st pid \<inter> set (map fst ?cs))
      (st_last_generation st) = (es0, active, gen)" by (metis prod_cases3)
  have active: "active = breached_groups ?s pid (in_state inp)"
    using emit_spec(1)[OF cs(1) emit] cs(2) by auto
  show thesis
    using that[OF now, of es0 gen] em emit active cs(2)
    by (simp add: emission_stage_def breach_stage_keeps Let_def)
qed

text \<open>Edge-triggered alerts: an accepted observation raises one alert for every root-cause
  group that is in alarm now and was not in alarm at the profile's previous observation, none for
  any other group, and remembers exactly the groups in alarm; other profiles keep theirs.\<close>

theorem alert_edge_triggered:
  assumes obs: "alert_observe clock pid inp st = (Inr es, st')" and ok: "alert_state_ok st"
  shows "\<exists>now. finite_value (in_now inp) = Some now
    \<and> distinct (map emission_group es)
    \<and> set (map emission_group es)
        = breached_groups (breach_stage pid now inp st) pid (in_state inp) - st_active_groups st pid
    \<and> st_active_groups st'
        = (st_active_groups st)(pid := breached_groups (breach_stage pid now inp st) pid (in_state inp))"
  using obs ok
proof (rule alert_observe_Inr)
  fix now es0 gen
  let ?s = "breach_stage pid now inp st"
  let ?cs = "select_candidates (in_state inp) (st_breached ?s pid) []"
  let ?B = "breached_groups ?s pid (in_state inp)"
  assume now: "finite_value (in_now inp) = Some now"
    and emit: "emit clock 0 ?cs (st_active_groups st pid \<inter> ?B) (st_last_generation st) = (es0, ?B, gen)"
    and es: "es = sort_key (\<lambda>e. signal_value (em_signal e)) es0"
    and st': "st' = ?s\<lparr>st_active_groups := (st_active_groups st)(pid := ?B), st_last_generation := gen\<rparr>"
  have "distinct (map fst (st_breached ?s pid))"
    using breach_stage_ok[OF ok] by (simp add: alert_state_ok_def)
  note cs = candidates_groups[OF this, of "in_state inp"]
  have groups: "map emission_group es0 = filter (\<lambda>g. g \<notin> st_active_groups st pid \<inter> ?B) (map fst ?cs)"
    by (rule emit_spec(2)[OF cs(1) emit])
  have "distinct (map emission_group es0)"
    unfolding groups using cs(1) by (simp add: candidates_ok_def)
  moreover have "set (map emission_group es0) = ?B - st_active_groups st pid"
    unfolding groups using cs(2) by auto
  ultimately show ?thesis using now st' by (simp add: es distinct_map)
qed

text \<open>Alert generations: the generations of all alerts, over all profiles, are pairwise
  different and above every generation issued before, whatever the clock returns.\<close>

theorem alert_generations_fresh:
  assumes obs: "alert_observe clock pid inp st = (Inr es, st')" and ok: "alert_state_ok st"
  shows "distinct (map em_generation es)
    \<and> (\<forall>e \<in> set es. st_last_generation st < em_generation e \<and> em_generation e \<le> st_last_generation st')
    \<and> st_last_generation st \<le> st_last_generation st' \<and> alert_state_ok st'"
  using obs ok
proof (rule alert_observe_Inr)
  fix now es0 gen
  let ?s = "breach_stage pid now inp st"
  let ?cs = "select_candidates (in_state inp) (st_breached ?s pid) []"
  let ?B = "breached_groups ?s pid (in_state inp)"
  assume emit: "emit clock 0 ?cs (st_active_groups st pid \<inter> ?B) (st_last_generation st) = (es0, ?B, gen)"
    and es: "es = sort_key (\<lambda>e. signal_value (em_signal e)) es0"
    and st': "st' = ?s\<lparr>st_active_groups := (st_active_groups st)(pid := ?B), st_last_generation := gen\<rparr>"
  have "distinct (map fst (st_breached ?s pid))"
    using breach_stage_ok[OF ok] by (simp add: alert_state_ok_def)
  note spec = emit_spec[OF candidates_groups(1)[OF this] emit]
  have "distinct (map em_generation es0)"
    using spec(4) strict_sorted_iff by auto
  then have "distinct (map em_generation es)" by (simp add: es distinct_map)
  moreover have "alert_state_ok st'"
    using breach_stage_ok[OF ok] by (simp add: st' alert_state_ok_def)
  ultimately show ?thesis using spec(3,4,5) st' by (auto simp: es)
qed

text \<open>A wake that missed its objective, observed once and then again.\<close>

lemma late_wake_evaluates:
  "alert_state_ok initial_alert_state"
  "\<exists>st. alert_observe (\<lambda>_. 7) ''sunlit'' late_wake initial_alert_state
     = (Inr [\<lparr>em_signal = WAKE_SLO, em_generation = 7, em_message = alert_message WAKE_SLO\<rparr>], st)"
  by (simp_all add: alert_state_ok_def initial_alert_state_def late_wake_def alert_observe_def
      emission_stage_def breach_stage_def runtime_stage_def clear_runtime_def observe_edges_def
      set_breach_def WAKE_SLO_THRESHOLD_MS_def ALERT_RULES_def rule_applies_def consider_rule_def
      next_generation_def)

theorem alert_edge_triggered_witness:
  "\<exists>es st'. alert_observe (\<lambda>_. 7) ''sunlit'' late_wake initial_alert_state = (Inr es, st')
     \<and> st_active_groups st' ''sunlit'' = set (map emission_group es)"
proof -
  from late_wake_evaluates(2) obtain st' es where obs:
    "alert_observe (\<lambda>_. 7) ''sunlit'' late_wake initial_alert_state = (Inr es, st')" by blast
  from alert_edge_triggered[OF this late_wake_evaluates(1)] obs show ?thesis
    by (auto simp: initial_alert_state_def)
qed

theorem alert_generations_fresh_witness:
  "\<exists>es st'. alert_observe (\<lambda>_. 7) ''sunlit'' late_wake initial_alert_state = (Inr es, st')
     \<and> distinct (map em_generation es) \<and> alert_state_ok st'"
proof -
  from late_wake_evaluates(2) obtain st' es where obs:
    "alert_observe (\<lambda>_. 7) ''sunlit'' late_wake initial_alert_state = (Inr es, st')" by blast
  from alert_generations_fresh[OF this late_wake_evaluates(1)] obs show ?thesis by blast
qed

end
