(* ===== verification/Startup_Estimates.thy ===== *)
theory Startup_Estimates
  imports Py_Text
begin

text \<open>
  Startup-duration history, \<^verbatim>\<open>src/game_control/startup_estimates.py\<close>: input normalization, the
  table \<open>startup_estimate_samples\<close> as the list of its rows in the order of their ids, and
  \<open>StartupEstimateStore\<close> with its summary cache.

  The database is an argument of each operation: \<open>Db_Ok\<close>; no schema; a failure after which the transaction (or
  savepoint) has been rolled back; or one that was not undone, because \<^verbatim>\<open>ROLLBACK TO\<close> or \<^verbatim>\<open>RELEASE\<close> raised as well.
\<close>

section \<open>Inputs\<close>

definition MIN_SAMPLES :: nat where "MIN_SAMPLES = 5"
definition MAX_SAMPLES :: nat where "MAX_SAMPLES = 25"
definition MAX_VERSION_BUCKETS :: nat where "MAX_VERSION_BUCKETS = 4"
definition MAX_DURATION_MS :: rat where "MAX_DURATION_MS = 900000"
definition MAX_PROFILE_KEY_LENGTH :: nat where "MAX_PROFILE_KEY_LENGTH = 128"
definition MAX_VERSION_LENGTH :: nat where "MAX_VERSION_LENGTH = 64"
definition MAX_RUN_KEY_LENGTH :: nat where "MAX_RUN_KEY_LENGTH = 64"

definition bounded_text :: "nat \<Rightarrow> json \<Rightarrow> string option" where
  "bounded_text limit j =
     (case as_str j of
        None \<Rightarrow> None
      | Some s \<Rightarrow> let candidate = strip s
                 in if candidate = [] \<or> length candidate > limit then None else Some candidate)"

definition normalize_profile_key :: "json \<Rightarrow> string option" where
  "normalize_profile_key = bounded_text MAX_PROFILE_KEY_LENGTH"

definition normalize_version :: "json \<Rightarrow> string option" where
  "normalize_version = bounded_text MAX_VERSION_LENGTH"

definition normalize_run_key :: "json \<Rightarrow> string option" where
  "normalize_run_key = bounded_text MAX_RUN_KEY_LENGTH"

text \<open>\<open>float(value)\<close> of an integer can raise \<open>OverflowError\<close>.\<close>

definition validated_duration_ms :: "json \<Rightarrow> rat option outcome" where
  "validated_duration_ms j =
     and_then (case j of JInt n \<Rightarrow> float_of_int n | JFloat x \<Rightarrow> Inr x | _ \<Rightarrow> Inr Not_A_Number) (\<lambda>x.
     Inr (case x of
            Finite d \<Rightarrow> if d \<le> 0 \<or> d > MAX_DURATION_MS then None else Some d
          | _ \<Rightarrow> None))"

definition median_seconds :: "rat list \<Rightarrow> rat outcome" where
  "median_seconds xs =
     (let ordered = sort xs; middle = length ordered div 2
      in if ordered = [] then Inl (Value_Error ''median requires at least one sample'')
         else if length ordered mod 2 \<noteq> 0 then Inr (ordered ! middle)
         else Inr ((ordered ! (middle - 1) + ordered ! middle) / 2))"

section \<open>The table and the store\<close>

record sample_row =
  row_id :: nat
  row_profile :: string
  row_version :: string
  row_duration :: rat
  row_finished_at :: string
  row_run_key :: "string option"

record estimate_summary =
  sample_count :: nat
  median :: "rat option"

definition empty_summary :: estimate_summary where
  "empty_summary = \<lparr>sample_count = 0, median = None\<rparr>"

record estimate_store =
  min_samples :: nat
  max_samples :: nat
  max_version_buckets :: nat
  rows :: "sample_row list" \<comment> \<open>by increasing id\<close>
  next_row_id :: nat \<comment> \<open>\<^verbatim>\<open>AUTOINCREMENT\<close>\<close>
  cache :: "((string \<times> string) \<times> estimate_summary) list"

datatype db_state =
    Db_Ok
  | Db_No_Schema
  | Db_Fails
  | Db_Kept nat \<comment> \<open>raised after this many of the three statements, which stay in effect\<close>

text \<open>\<open>_insert\<close>: \<^verbatim>\<open>INSERT OR IGNORE\<close> under \<^verbatim>\<open>UNIQUE (profile_id, run_key)\<close>, where \<open>NULL\<close> keys never
  collide.\<close>

definition insert_sample ::
  "string \<Rightarrow> string \<Rightarrow> rat \<Rightarrow> string \<Rightarrow> json \<Rightarrow> estimate_store \<Rightarrow> estimate_store" where
  "insert_sample profile version duration stamp run_key s =
     (let key = normalize_run_key run_key
      in if key \<noteq> None \<and> list_ex (\<lambda>r. row_profile r = profile \<and> row_run_key r = key) (rows s) then s
         else s\<lparr>rows := rows s @ [\<lparr>row_id = next_row_id s, row_profile = profile, row_version = version,
                  row_duration = duration, row_finished_at = stamp, row_run_key = key\<rparr>],
                next_row_id := Suc (next_row_id s)\<rparr>)"

definition in_bucket :: "string \<Rightarrow> string \<Rightarrow> sample_row \<Rightarrow> bool" where
  "in_bucket profile version r \<longleftrightarrow> row_profile r = profile \<and> row_version r = version"

text \<open>\<^verbatim>\<open>ORDER BY id DESC LIMIT n\<close>.\<close>

definition latest :: "nat \<Rightarrow> sample_row list \<Rightarrow> sample_row list" where
  "latest n rs = take n (rev rs)"

definition trim_bucket :: "string \<Rightarrow> string \<Rightarrow> estimate_store \<Rightarrow> estimate_store" where
  "trim_bucket profile version s =
     (let keep = map row_id (latest (max_samples s) (filter (in_bucket profile version) (rows s)))
      in s\<lparr>rows := filter (\<lambda>r. \<not> in_bucket profile version r \<or> row_id r \<in> set keep) (rows s)\<rparr>)"

text \<open>\<^verbatim>\<open>SELECT version ... GROUP BY version ORDER BY MAX(id) DESC LIMIT n\<close>: the versions in the order
  of their latest rows.\<close>

definition latest_versions :: "nat \<Rightarrow> string \<Rightarrow> sample_row list \<Rightarrow> string list" where
  "latest_versions n profile rs =
     take n (rev (remdups (map row_version (filter (\<lambda>r. row_profile r = profile) rs))))"

definition trim_versions :: "string \<Rightarrow> estimate_store \<Rightarrow> estimate_store" where
  "trim_versions profile s =
     (let keep = latest_versions (max_version_buckets s) profile (rows s)
      in s\<lparr>rows := filter (\<lambda>r. row_profile r \<noteq> profile \<or> row_version r \<in> set keep) (rows s)\<rparr>)"

definition invalidate_profile :: "string \<Rightarrow> estimate_store \<Rightarrow> estimate_store" where
  "invalidate_profile profile s = s\<lparr>cache := filter (\<lambda>(key, _). fst key \<noteq> profile) (cache s)\<rparr>"

text \<open>\<open>record_sample\<close>; the stamp is an argument, and \<open>_iso_now\<close> can raise, outside the \<^verbatim>\<open>try\<close>.\<close>

definition sample_statements :: "string \<Rightarrow> string \<Rightarrow> rat \<Rightarrow> string \<Rightarrow> json \<Rightarrow> (estimate_store \<Rightarrow> estimate_store) list" where
  "sample_statements profile version duration stamp run_key =
     [insert_sample profile version duration stamp run_key, trim_bucket profile version, trim_versions profile]"

definition record_sample ::
  "db_state \<Rightarrow> json \<Rightarrow> json \<Rightarrow> json \<Rightarrow> json \<Rightarrow> string outcome \<Rightarrow> estimate_store \<Rightarrow> bool outcome \<times> estimate_store" where
  "record_sample db profile_id version duration_ms run_key stamp s =
     (case validated_duration_ms duration_ms of
        Inl e \<Rightarrow> (Inl e, s)
      | Inr duration \<Rightarrow>
          (case (normalize_profile_key profile_id, normalize_version version, duration) of
             (Some p, Some v, Some d) \<Rightarrow>
               if db = Db_No_Schema then (Inr False, s)
               else (case stamp of
                       Inl e \<Rightarrow> (Inl e, s)
                     | Inr finished_at \<Rightarrow>
                         (case db of
                            Db_Ok \<Rightarrow> (Inr True, invalidate_profile p
                              (fold (\<lambda>f. f) (sample_statements p v d finished_at run_key) s))
                          | Db_Kept n \<Rightarrow> (Inr False, fold (\<lambda>f. f) (take n (sample_statements p v d finished_at run_key)) s)
                          | _ \<Rightarrow> (Inr False, s)))
           | _ \<Rightarrow> (Inr False, s)))"

text \<open>The projection of a bucket, read from the table.  Every stored duration passed validation, so
  validating it again keeps it.\<close>

definition read_summary :: "estimate_store \<Rightarrow> string \<times> string \<Rightarrow> estimate_summary" where
  "read_summary s key =
     (let selected = latest (max_samples s) (filter (in_bucket (fst key) (snd key)) (rows s));
          durations = concat (map (\<lambda>r. case validated_duration_ms (JFloat (Finite (row_duration r))) of
                                      Inr (Some d) \<Rightarrow> [d] | _ \<Rightarrow> []) selected);
          count = length durations
      in \<lparr>sample_count = count,
          median = (if count \<ge> min_samples s
                    then (case median_seconds durations of Inl _ \<Rightarrow> None | Inr m \<Rightarrow> Some (m / 1000))
                    else None)\<rparr>)"

definition summary :: "db_state \<Rightarrow> json \<Rightarrow> json \<Rightarrow> estimate_store \<Rightarrow> estimate_summary \<times> estimate_store" where
  "summary db profile_id version s =
     (case (normalize_profile_key profile_id, normalize_version version) of
        (Some p, Some v) \<Rightarrow>
          (case map_of (cache s) (p, v) of
             Some cached \<Rightarrow> (cached, s)
           | None \<Rightarrow>
               if db \<noteq> Db_Ok then (empty_summary, s)
               else let result = read_summary s (p, v);
                        kept = (if length (cache s) > 64 then [] else cache s)
                    in (result, s\<lparr>cache := ((p, v), result) # kept\<rparr>))
      | _ \<Rightarrow> (empty_summary, s))"

section \<open>Invariants\<close>

text \<open>Row ids increase and stay below the next id, stored durations are plausible, buckets and
  version sets are within their bounds, and run keys are unique per profile.\<close>

definition bucket_rows :: "estimate_store \<Rightarrow> string \<Rightarrow> string \<Rightarrow> sample_row list" where
  "bucket_rows s p v = filter (in_bucket p v) (rows s)"

definition versions_of :: "estimate_store \<Rightarrow> string \<Rightarrow> string set" where
  "versions_of s p = row_version ` {r \<in> set (rows s). row_profile r = p}"

definition table_ok :: "estimate_store \<Rightarrow> bool" where
  "table_ok s \<longleftrightarrow> sorted_wrt (<) (map row_id (rows s))
     \<and> (\<forall>r \<in> set (rows s). row_id r < next_row_id s \<and> 0 < row_duration r \<and> row_duration r \<le> MAX_DURATION_MS)
     \<and> 1 \<le> min_samples s \<and> 1 \<le> max_samples s \<and> 1 \<le> max_version_buckets s"

definition bounded :: "estimate_store \<Rightarrow> bool" where
  "bounded s \<longleftrightarrow> (\<forall>p. card (versions_of s p) \<le> max_version_buckets s
     \<and> (\<forall>v. length (bucket_rows s p v) \<le> max_samples s))"

text \<open>Every cached summary is what the table says.\<close>

definition cache_coherent :: "estimate_store \<Rightarrow> bool" where
  "cache_coherent s \<longleftrightarrow> (\<forall>(key, sm) \<in> set (cache s). sm = read_summary s key)"

text \<open>The store as its constructor builds it over an empty table.\<close>

definition new_store :: estimate_store where
  "new_store = \<lparr>min_samples = MIN_SAMPLES, max_samples = MAX_SAMPLES,
     max_version_buckets = MAX_VERSION_BUCKETS, rows = [], next_row_id = 1, cache = []\<rparr>"

text \<open>What one accepted sample does to the rows, before the cache is invalidated.\<close>

definition stored :: "string \<Rightarrow> string \<Rightarrow> rat \<Rightarrow> string \<Rightarrow> json \<Rightarrow> estimate_store \<Rightarrow> estimate_store" where
  "stored p v d stamp key s = trim_versions p (trim_bucket p v (insert_sample p v d stamp key s))"

text \<open>The calls a client makes.\<close>

datatype estimate_call =
    Record db_state json json json json "string outcome"
  | Read db_state json json

fun estimate_step :: "estimate_call \<Rightarrow> estimate_store \<Rightarrow> estimate_store" where
  "estimate_step (Record db p v d key stamp) s = snd (record_sample db p v d key stamp s)"
| "estimate_step (Read db p v) s = snd (summary db p v s)"

text \<open>Failed recordings have been undone.\<close>

fun undone :: "estimate_call \<Rightarrow> bool" where
  "undone (Record (Db_Kept n) p v d key stamp) = False"
| "undone _ = True"

text \<open>A sample of one bucket, for the examples.\<close>

definition sample_call :: "rat \<Rightarrow> estimate_call" where
  "sample_call d = Record Db_Ok (JStr ''sunlit'') (JStr ''1.0'') (JFloat (Finite d)) JNull (Inr ''t'')"

section \<open>Single operations\<close>

lemma validated_duration_Some:
  "validated_duration_ms j = Inr (Some d) \<Longrightarrow> 0 < d \<and> d \<le> MAX_DURATION_MS"
proof -
  assume "validated_duration_ms j = Inr (Some d)"
  then obtain x where "(case x of Finite d \<Rightarrow> if d \<le> 0 \<or> d > MAX_DURATION_MS then None else Some d
      | _ \<Rightarrow> None) = Some d"
    unfolding validated_duration_ms_def and_then_Inr_iff by blast
  then show ?thesis by (cases x) (auto split: if_split_asm)
qed

lemma insert_sample_ok:
  "table_ok s \<Longrightarrow> 0 < d \<Longrightarrow> d \<le> MAX_DURATION_MS \<Longrightarrow> table_ok (insert_sample p v d stamp key s)"
  by (auto simp: table_ok_def insert_sample_def Let_def sorted_wrt_append)

lemma filter_rows_ok: "table_ok s \<Longrightarrow> table_ok (s\<lparr>rows := filter P (rows s)\<rparr>)"
  unfolding table_ok_def by (auto simp: sorted_wrt_map sorted_wrt_filter)

lemma trim_ok:
  "table_ok s \<Longrightarrow> table_ok (trim_bucket p v s)" "table_ok s \<Longrightarrow> table_ok (trim_versions p s)"
  "table_ok s \<Longrightarrow> table_ok (invalidate_profile p s)"
  by (simp_all add: trim_bucket_def trim_versions_def Let_def filter_rows_ok)
    (simp add: invalidate_profile_def table_ok_def)

section \<open>Bounds\<close>

lemma bucket_filter_rows:
  "bucket_rows (s\<lparr>rows := filter P (rows s)\<rparr>) p v = filter P (bucket_rows s p v)"
  by (simp add: bucket_rows_def conj_commute)

lemma trim_bucket_length: 
  assumes "table_ok s"
  shows "length (bucket_rows (trim_bucket p v s) p v) \<le> max_samples s"
proof -
  let ?b = "bucket_rows s p v"
  have dist: "distinct (map row_id ?b)"
    using assms unfolding table_ok_def bucket_rows_def
    by (metis distinct_map_filter strict_sorted_iff)
  have "bucket_rows (trim_bucket p v s) p v
      = filter (\<lambda>r. row_id r \<in> set (map row_id (latest (max_samples s) ?b))) ?b"
    unfolding trim_bucket_def Let_def bucket_filter_rows
    by (rule filter_cong) (auto simp: bucket_rows_def)
  moreover have "length (filter (\<lambda>r. row_id r \<in> I) ?b) \<le> card I" if "finite I" for I
  proof -
    have "length (filter (\<lambda>r. row_id r \<in> I) ?b) = card (row_id ` set (filter (\<lambda>r. row_id r \<in> I) ?b))"
      using dist by (metis distinct_card distinct_map_filter length_map set_map)
    also have "\<dots> \<le> card I" using that by (intro card_mono) auto
    finally show ?thesis .
  qed
  moreover have "card (set (map row_id (latest (max_samples s) ?b))) \<le> max_samples s"
    using card_length[of "map row_id (latest (max_samples s) ?b)"] by (simp add: latest_def)
  ultimately show ?thesis by (metis List.finite_set le_trans)
qed

lemma trim_versions_card: "card (versions_of (trim_versions p s) p) \<le> max_version_buckets s"
proof -
  have "versions_of (trim_versions p s) p \<subseteq> set (latest_versions (max_version_buckets s) p (rows s))"
    by (auto simp: versions_of_def trim_versions_def Let_def)
  then have "card (versions_of (trim_versions p s) p)
      \<le> card (set (latest_versions (max_version_buckets s) p (rows s)))"
    by (intro card_mono) auto
  also have "\<dots> \<le> max_version_buckets s"
    using card_length[of "latest_versions (max_version_buckets s) p (rows s)"]
    by (simp add: latest_versions_def)
  finally show ?thesis .
qed

lemma insert_sample_limits [simp]:
  "max_samples (insert_sample p v d stamp key s) = max_samples s" "min_samples (insert_sample p v d stamp key s) = min_samples s"
  "max_version_buckets (insert_sample p v d stamp key s) = max_version_buckets s" "cache (insert_sample p v d stamp key s) = cache s"
  by (simp_all add: insert_sample_def Let_def)

lemma trim_bucket_limits [simp]:
  "max_samples (trim_bucket p v s) = max_samples s" "min_samples (trim_bucket p v s) = min_samples s"
  "max_version_buckets (trim_bucket p v s) = max_version_buckets s" "cache (trim_bucket p v s) = cache s"
  by (simp_all add: trim_bucket_def Let_def)

lemma trim_versions_limits [simp]:
  "max_samples (trim_versions p s) = max_samples s" "min_samples (trim_versions p s) = min_samples s"
  "max_version_buckets (trim_versions p s) = max_version_buckets s" "cache (trim_versions p s) = cache s"
  by (simp_all add: trim_versions_def Let_def)

lemma stored_limits [simp]:
  "max_samples (stored p v d stamp key s) = max_samples s" "min_samples (stored p v d stamp key s) = min_samples s"
  "max_version_buckets (stored p v d stamp key s) = max_version_buckets s" "cache (stored p v d stamp key s) = cache s"
  by (simp_all add: stored_def)

text \<open>Other profiles keep their rows.\<close>

lemma stored_other_profile:
  "filter (\<lambda>r. row_profile r = q) (rows (stored p v d stamp key s)) = filter (\<lambda>r. row_profile r = q) (rows s)"
  if "q \<noteq> p"
proof -
  have keep: "filter (\<lambda>r. row_profile r = q) (filter P xs) = filter (\<lambda>r. row_profile r = q) xs"
    if "\<And>r. row_profile r = q \<Longrightarrow> P r" for P and xs :: "sample_row list"
    using that by (auto simp: filter_filter intro!: filter_cong)
  have "filter (\<lambda>r. row_profile r = q) (rows (trim_versions p t)) = filter (\<lambda>r. row_profile r = q) (rows t)"
      "filter (\<lambda>r. row_profile r = q) (rows (trim_bucket p v t)) = filter (\<lambda>r. row_profile r = q) (rows t)"
      "filter (\<lambda>r. row_profile r = q) (rows (insert_sample p v d stamp key t)) = filter (\<lambda>r. row_profile r = q) (rows t)"
    for t
    using that by (simp_all add: trim_versions_def trim_bucket_def insert_sample_def in_bucket_def Let_def keep
        del: filter_filter)
  then show ?thesis by (simp add: stored_def)
qed

lemma bucket_rows_of_profile:
  "bucket_rows s q w = filter (\<lambda>r. row_version r = w) (filter (\<lambda>r. row_profile r = q) (rows s))"
  by (auto simp: bucket_rows_def in_bucket_def intro!: filter_cong)

lemma stored_bucket_le:
  assumes "w \<noteq> v"
  shows "length (bucket_rows (stored p v d stamp key s) p w) \<le> length (bucket_rows s p w)"
proof -
  have "bucket_rows (insert_sample p v d stamp key s) p w = bucket_rows s p w"
    using assms by (simp add: bucket_rows_def insert_sample_def in_bucket_def Let_def)
  then show ?thesis
    by (simp add: stored_def trim_versions_def trim_bucket_def Let_def bucket_filter_rows
        order_trans[OF length_filter_le])
qed

lemma stored_bounded:
  assumes "table_ok s" "bounded s" "0 < d" "d \<le> MAX_DURATION_MS"
  shows "bounded (stored p v d stamp key s)"
  unfolding bounded_def stored_limits
proof (intro allI conjI)
  fix q w
  let ?t = "trim_bucket p v (insert_sample p v d stamp key s)"
  show "card (versions_of (stored p v d stamp key s) q) \<le> max_version_buckets s"
  proof (cases "q = p")
    case True
    then show ?thesis using trim_versions_card[of p ?t] by (simp add: stored_def)
  next
    case False
    then have "versions_of (stored p v d stamp key s) q = versions_of s q"
      unfolding versions_of_def set_filter[symmetric] stored_other_profile[OF False] by simp
    then show ?thesis using assms(2) by (simp add: bounded_def)
  qed
  show "length (bucket_rows (stored p v d stamp key s) q w) \<le> max_samples s"
  proof (cases "q = p")
    case False
    then show ?thesis using assms(2)
      by (simp add: bounded_def bucket_rows_of_profile stored_other_profile)
  next
    case True
    show ?thesis
    proof (cases "w = v")
      case True
      have "length (bucket_rows ?t p v) \<le> max_samples s"
        using trim_bucket_length[OF insert_sample_ok[OF assms(1,3,4)]] by simp
      then show ?thesis using \<open>q = p\<close> True
        by (simp add: stored_def trim_versions_def Let_def bucket_filter_rows
            order_trans[OF length_filter_le])
    next
      case False
      then show ?thesis using stored_bucket_le[OF False, of p d stamp key s] assms(2) True
        by (auto simp: bounded_def intro: order_trans)
    qed
  qed
qed

section \<open>Cache coherence\<close>

lemma read_summary_cong:
  "bucket_rows s (fst key) (snd key) = bucket_rows t (fst key) (snd key) \<Longrightarrow> max_samples s = max_samples t
     \<Longrightarrow> min_samples s = min_samples t \<Longrightarrow> read_summary s key = read_summary t key"
  by (simp add: read_summary_def bucket_rows_def)

lemma fold_statements: "fold (\<lambda>f. f) (sample_statements p v d stamp key) s = stored p v d stamp key s"
  by (simp add: sample_statements_def stored_def)

lemma record_sample_cases:
  assumes "record_sample db profile_id version duration_ms run_key stamp s = (res, s')" "undone (Record db profile_id version duration_ms run_key stamp)"
  obtains (rejected) "s' = s" "res \<noteq> Inr True"
    | (accepted) p v d finished_at where "normalize_profile_key profile_id = Some p" "normalize_version version = Some v"
      "validated_duration_ms duration_ms = Inr (Some d)" "res = Inr True" "stamp = Inr finished_at"
      "s' = invalidate_profile p (stored p v d finished_at run_key s)"
  using assms unfolding record_sample_def fold_statements
  by (auto split: sum.split_asm option.split_asm if_split_asm db_state.split_asm)

lemma record_sample_coherent:
  assumes "record_sample db profile_id version duration_ms run_key stamp s = (res, s')" "cache_coherent s"
    "undone (Record db profile_id version duration_ms run_key stamp)"
  shows "cache_coherent s'"
  using assms(1,3)
proof (cases rule: record_sample_cases)
  case rejected
  with assms show ?thesis by simp
next
  case (accepted p v d finished_at)
  have same: "read_summary s' key = read_summary s key" if "fst key \<noteq> p" for key
    using that by (intro read_summary_cong)
      (simp_all add: accepted(6) invalidate_profile_def bucket_rows_of_profile stored_other_profile)
  show ?thesis
    unfolding cache_coherent_def
  proof (clarify)
    fix q w sm assume "((q, w), sm) \<in> set (cache s')"
    then have "((q, w), sm) \<in> set (cache s)" "q \<noteq> p"
      by (auto simp: accepted(6) invalidate_profile_def)
    then show "sm = read_summary s' (q, w)" using assms(2) same[of "(q, w)"]
      by (auto simp: cache_coherent_def)
  qed
qed

lemma summary_coherent:
  assumes "summary db profile_id version s = (sm, s')" "cache_coherent s"
  shows "cache_coherent s' \<and> rows s' = rows s \<and> next_row_id s' = next_row_id s
    \<and> min_samples s' = min_samples s \<and> max_samples s' = max_samples s
    \<and> max_version_buckets s' = max_version_buckets s"
proof -
  have "read_summary (s\<lparr>cache := c\<rparr>) key = read_summary s key" for c key
    by (intro read_summary_cong) (simp_all add: bucket_rows_def)
  then show ?thesis using assms
    by (auto simp: summary_def cache_coherent_def Let_def split: option.split_asm if_split_asm)
qed

section \<open>Properties\<close>

lemma record_sample_invariants:
  assumes "record_sample db profile_id version duration_ms run_key stamp s = (res, s')"
    and "table_ok s" "bounded s" "undone (Record db profile_id version duration_ms run_key stamp)"
  shows "table_ok s' \<and> bounded s'"
  using assms(1,4)
proof (cases rule: record_sample_cases)
  case rejected
  with assms show ?thesis by simp
next
  case (accepted p v d finished_at)
  note d = validated_duration_Some[OF accepted(3)]
  have "table_ok (stored p v d finished_at run_key s)" "bounded (stored p v d finished_at run_key s)"
    using assms(2,3) d by (auto simp: stored_def intro: trim_ok insert_sample_ok stored_bounded[unfolded stored_def])
  moreover have "bounded (invalidate_profile p t) = bounded t" for t
    by (simp add: bounded_def invalidate_profile_def versions_of_def bucket_rows_def)
  ultimately show ?thesis unfolding accepted(6) by (simp add: trim_ok(3))
qed

lemma estimate_step_invariants:
  assumes inv: "table_ok s \<and> bounded s \<and> cache_coherent s" and "undone call"
  shows "table_ok (estimate_step call s) \<and> bounded (estimate_step call s) \<and> cache_coherent (estimate_step call s)"
proof (cases call)
  case (Record db p v d key stamp)
  then show ?thesis using assms record_sample_invariants record_sample_coherent
    by (cases "record_sample db p v d key stamp s") fastforce
next
  case (Read db p v)
  obtain sm s' where sm: "summary db p v s = (sm, s')" by fastforce
  from summary_coherent[OF this] inv show ?thesis using Read sm
    by (auto simp: table_ok_def bounded_def versions_of_def bucket_rows_def)
qed

lemma new_store_invariants: "table_ok new_store \<and> bounded new_store \<and> cache_coherent new_store"
  by (simp add: new_store_def table_ok_def bounded_def cache_coherent_def versions_of_def bucket_rows_def
      MIN_SAMPLES_def MAX_SAMPLES_def MAX_VERSION_BUCKETS_def)

lemma run_invariants:
  assumes "list_all undone calls"
  shows "table_ok (fold estimate_step calls new_store) \<and> bounded (fold estimate_step calls new_store)
    \<and> cache_coherent (fold estimate_step calls new_store)"
proof -
  have "table_ok (fold estimate_step calls s) \<and> bounded (fold estimate_step calls s) \<and> cache_coherent (fold estimate_step calls s)"
    if "table_ok s \<and> bounded s \<and> cache_coherent s" for s
    using assms that by (induction calls arbitrary: s) (simp_all add: estimate_step_invariants)
  then show ?thesis using new_store_invariants by blast
qed

lemma estimate_step_limits:
  assumes "undone call"
  shows "max_samples (estimate_step call s) = max_samples s \<and> min_samples (estimate_step call s) = min_samples s
    \<and> max_version_buckets (estimate_step call s) = max_version_buckets s"
proof (cases call)
  case (Record db p v d key stamp)
  obtain res s' where r: "record_sample db p v d key stamp s = (res, s')" by fastforce
  from r assms[unfolded Record] show ?thesis
    by (cases rule: record_sample_cases) (use Record r in \<open>auto simp: invalidate_profile_def\<close>)
next
  case (Read db p v)
  then show ?thesis by (auto simp: summary_def Let_def split: option.split)
qed

lemma fold_limits:
  assumes "list_all undone calls"
  shows "max_samples (fold estimate_step calls s) = max_samples s \<and> min_samples (fold estimate_step calls s) = min_samples s
    \<and> max_version_buckets (fold estimate_step calls s) = max_version_buckets s"
  using assms by (induction calls arbitrary: s) (simp_all add: estimate_step_limits)

text \<open>What a bucket shows: the number of its rows and, from five rows on, the median of their durations in seconds.\<close>

lemma read_summary_bucket:
  assumes "table_ok s" "bounded s"
  shows "sample_count (read_summary s (p, v)) = length (bucket_rows s p v)"
    "median (read_summary s (p, v)) = (if length (bucket_rows s p v) < min_samples s then None
       else case median_seconds (map row_duration (rev (bucket_rows s p v))) of Inl _ \<Rightarrow> None | Inr m \<Rightarrow> Some (m / 1000))"
proof -
  have ok: "validated_duration_ms (JFloat (Finite (row_duration r))) = Inr (Some (row_duration r))"
    if "r \<in> set (bucket_rows s p v)" for r
    using that assms(1) by (auto simp: table_ok_def bucket_rows_def validated_duration_ms_def)
  have all: "latest (max_samples s) (bucket_rows s p v) = rev (bucket_rows s p v)"
    using assms(2) by (simp add: latest_def bounded_def)
  have "concat (map (\<lambda>r. case validated_duration_ms (JFloat (Finite (row_duration r))) of Inr (Some d) \<Rightarrow> [d] | _ \<Rightarrow> []) rs)
      = map row_duration rs" if "set rs \<subseteq> set (bucket_rows s p v)" for rs
    using that by (induction rs) (simp_all add: ok)
  then have durations: "concat (map (\<lambda>r. case validated_duration_ms (JFloat (Finite (row_duration r))) of Inr (Some d) \<Rightarrow> [d] | _ \<Rightarrow> [])
      (rev (bucket_rows s p v))) = map row_duration (rev (bucket_rows s p v))" by simp
  show "sample_count (read_summary s (p, v)) = length (bucket_rows s p v)"
    "median (read_summary s (p, v)) = (if length (bucket_rows s p v) < min_samples s then None
       else case median_seconds (map row_duration (rev (bucket_rows s p v))) of Inl _ \<Rightarrow> None | Inr m \<Rightarrow> Some (m / 1000))"
    using durations all by (simp_all add: read_summary_def Let_def bucket_rows_def not_less)
qed

text \<open>C40. The startup history is bounded and what is shown of it is what it holds: after any sequence of recordings and reads,
  whose failures were undone by the database, no profile has more than four versions and no version more than 25 samples,
  and a summary read from a healthy database, cached or not, counts exactly the stored samples of its profile and version and
  shows the median of exactly their durations, in seconds, from five samples on, and no median before.\<close>

theorem estimates_show_history:
  assumes "list_all undone calls" "normalize_profile_key profile_id = Some p" "normalize_version version = Some v"
  defines "s \<equiv> fold estimate_step calls new_store"
  shows "card (versions_of s p) \<le> 4 \<and> length (bucket_rows s p v) \<le> 25
    \<and> sample_count (fst (summary Db_Ok profile_id version s)) = length (bucket_rows s p v)
    \<and> median (fst (summary Db_Ok profile_id version s)) =
        (if length (bucket_rows s p v) < 5 then None
         else case median_seconds (map row_duration (rev (bucket_rows s p v))) of Inl _ \<Rightarrow> None | Inr m \<Rightarrow> Some (m / 1000))"
proof -
  have inv: "table_ok s" "bounded s" "cache_coherent s" using run_invariants[OF assms(1)] by (simp_all add: s_def)
  have limits: "max_samples s = 25" "min_samples s = 5" "max_version_buckets s = 4"
    using fold_limits[OF assms(1), of new_store]
    by (simp_all add: s_def new_store_def MAX_SAMPLES_def MIN_SAMPLES_def MAX_VERSION_BUCKETS_def)
  have "fst (summary Db_Ok profile_id version s) = read_summary s (p, v)"
    using assms(2,3) inv(3) by (auto simp: summary_def cache_coherent_def Let_def split: option.split dest!: map_of_SomeD)
  then show ?thesis using inv(2) read_summary_bucket[OF inv(1,2), of p v] limits by (simp add: bounded_def)
qed

theorem estimates_show_history_witness:
  "median (fst (summary Db_Ok (JStr ''sunlit'') (JStr ''1.0'') (fold estimate_step (map sample_call [3000, 1000, 9000, 2000, 4000]) new_store)))
    = Some 3"
proof -
  let ?calls = "map sample_call [3000, 1000, 9000, 2000, 4000]"
  have keys: "normalize_profile_key (JStr ''sunlit'') = Some ''sunlit''" "normalize_version (JStr ''1.0'') = Some ''1.0''"
    by code_simp+
  have "map row_duration (rev (bucket_rows (fold estimate_step ?calls new_store) ''sunlit'' ''1.0'')) = [4000, 2000, 9000, 1000, 3000]"
    by code_simp
  moreover have "length (bucket_rows (fold estimate_step ?calls new_store) ''sunlit'' ''1.0'') = 5" by code_simp
  moreover have "median_seconds [4000, 2000, 9000, 1000, 3000] = Inr 3000" by code_simp
  moreover have "list_all undone ?calls" by (simp add: sample_call_def)
  ultimately show ?thesis using estimates_show_history[of ?calls, OF _ keys] by simp
qed

text \<open>A recording fails closed: a failure that was undone leaves the store as it was.  It raises for an integer outside the range of a
  float, and when the clock gives no stamp for a valid sample.\<close>

lemma record_sample_raises:
  "(\<exists>e. fst (record_sample db profile_id version duration_ms run_key (Inr stamp) s) = Inl e) \<longleftrightarrow>
     (\<exists>n. duration_ms = JInt n \<and> float_overflow_bound \<le> \<bar>n\<bar>)"
proof -
  have "(\<exists>e. validated_duration_ms duration_ms = Inl e) \<longleftrightarrow>
      (\<exists>n. duration_ms = JInt n \<and> float_overflow_bound \<le> \<bar>n\<bar>)"
    by (cases duration_ms) (simp_all add: validated_duration_ms_def float_of_int_def)
  then show ?thesis
    by (auto simp: record_sample_def split: sum.split option.split db_state.split)
qed

lemma record_sample_fails_closed:
  "undone (Record db profile_id version duration_ms run_key stamp)
     \<Longrightarrow> fst (record_sample db profile_id version duration_ms run_key stamp s) \<noteq> Inr True
     \<Longrightarrow> snd (record_sample db profile_id version duration_ms run_key stamp s) = s"
  by (cases "record_sample db profile_id version duration_ms run_key stamp s") (auto elim: record_sample_cases)

text \<open>After a failure that was not undone the cache can be stale: here a bucket of five rows is still shown with four.\<close>

lemma kept_sample_stale:
  "let s = fold estimate_step [sample_call 3000, sample_call 1000, sample_call 9000, sample_call 2000, Read Db_Ok (JStr ''sunlit'') (JStr ''1.0''),
         Record (Db_Kept 3) (JStr ''sunlit'') (JStr ''1.0'') (JFloat (Finite 4000)) JNull (Inr ''t'')] new_store
   in sample_count (fst (summary Db_Ok (JStr ''sunlit'') (JStr ''1.0'') s)) = 4 \<and> length (bucket_rows s ''sunlit'' ''1.0'') = 5"
  by code_simp

lemma filter_take_length:
  "(\<And>x. x \<in> set (take n xs) \<Longrightarrow> P x) \<Longrightarrow> n \<le> length xs \<Longrightarrow> n \<le> length (filter P xs)"
proof -
  assume "\<And>x. x \<in> set (take n xs) \<Longrightarrow> P x" and "n \<le> length xs"
  then have "filter P (take n xs) = take n xs" "length (take n xs) = n" by simp_all
  moreover have "filter P xs = filter P (take n xs) @ filter P (drop n xs)"
    by (metis append_take_drop_id filter_append)
  ultimately show ?thesis by simp
qed

lemma filter_drop_length:
  "(\<And>x. x \<in> set (drop n xs) \<Longrightarrow> P x) \<Longrightarrow> length xs - n \<le> length (filter P xs)"
proof -
  assume "\<And>x. x \<in> set (drop n xs) \<Longrightarrow> P x"
  then have "filter P (drop n xs) = drop n xs" by simp
  moreover have "filter P xs = filter P (take n xs) @ filter P (drop n xs)"
    by (metis append_take_drop_id filter_append)
  ultimately show ?thesis by simp
qed

text \<open>The median is a median: at least half of the samples are at most it, and at least half are
  at least it.\<close>

theorem median_halves:
  assumes "median_seconds xs = Inr m"
  shows "length xs \<le> 2 * length (filter (\<lambda>x. x \<le> m) xs) \<and> length xs \<le> 2 * length (filter (\<lambda>x. m \<le> x) xs)"
proof -
  let ?ys = "sort xs" and ?k = "length xs div 2"
  have same: "length (filter P xs) = length (filter P ?ys)" for P
    by (metis filter_sort length_sort)
  have sorted: "?ys ! i \<le> ?ys ! j" if "i \<le> j" "j < length xs" for i j
    using that by (simp add: sorted_nth_mono)
  have ne: "xs \<noteq> []" and m: "m = (if odd (length xs) then ?ys ! ?k else (?ys ! (?k - 1) + ?ys ! ?k) / 2)"
    using assms by (auto simp: median_seconds_def Let_def odd_iff_mod_2_eq_one split: if_split_asm)
  define lo where "lo = (if odd (length xs) then ?k else ?k - 1)"
  have k: "?k < length xs" "lo < length xs" "lo \<le> ?k" using ne by (auto simp: lo_def intro: le_less_trans[OF diff_le_self])
  have mid: "?ys ! lo \<le> m" "m \<le> ?ys ! ?k"
    using sorted[of "?k - 1" ?k] k by (auto simp: m lo_def)
  have "x \<le> m" if x: "x \<in> set (take (Suc lo) ?ys)" for x
  proof -
    obtain i where "x = ?ys ! i" "i \<le> lo"
      using x unfolding in_set_conv_nth by (auto simp: less_Suc_eq_le)
    then show ?thesis using sorted[of i lo] mid(1) k by auto
  qed
  then have low: "Suc lo \<le> length (filter (\<lambda>x. x \<le> m) ?ys)" using k by (intro filter_take_length) auto
  have "m \<le> x" if x: "x \<in> set (drop ?k ?ys)" for x
  proof -
    obtain i where "x = ?ys ! (?k + i)" "?k + i < length xs"
      using x unfolding in_set_conv_nth by auto
    then show ?thesis using sorted[of ?k "?k + i"] mid(2) by auto
  qed
  then have high: "length xs - ?k \<le> length (filter (\<lambda>x. m \<le> x) ?ys)"
    using filter_drop_length[of ?k ?ys "\<lambda>x. m \<le> x"] by simp
  have "length xs \<le> 2 * Suc lo" "length xs \<le> 2 * (length xs - ?k)"
    using ne by (auto simp: lo_def elim!: oddE evenE)
  with mult_le_mono2[OF low, of 2] mult_le_mono2[OF high, of 2] show ?thesis
    unfolding same by (auto intro: order_trans)
qed

theorem median_halves_witness:
  "length [4, 1, 9, 2 :: rat] \<le> 2 * length (filter (\<lambda>x. x \<le> 3) [4, 1, 9, 2 :: rat])"
proof -
  have "median_seconds [4, 1, 9, 2] = Inr 3" by (simp add: median_seconds_def)
  from median_halves[OF this] show ?thesis by simp
qed

end
