(* ===== verification/Sql_Table.thy ===== *)
theory Sql_Table
  imports Main
begin

text \<open>
  Tables as lists of rows in \<open>rowid\<close> order, and the two deletions the retention statements use: the
  oldest rows beyond a global cap, and, in every partition, the rows after the newest ones
  (\<^verbatim>\<open>ROW_NUMBER() OVER (PARTITION BY p ORDER BY k DESC, rowid DESC) > n\<close>).  The order of the key
  column is given by its rank, an integer.
\<close>

section \<open>Definitions\<close>

text \<open>Rows with their position, in ascending order of key and position: \<open>sort_key\<close> is stable.\<close>

definition numbered :: "('a \<Rightarrow> bool) \<Rightarrow> 'a list \<Rightarrow> (nat \<times> 'a) list" where
  "numbered P xs = filter (\<lambda>(i, x). P x) (enumerate 0 xs)"

definition oldest_first :: "('a \<Rightarrow> int) \<Rightarrow> ('a \<Rightarrow> bool) \<Rightarrow> 'a list \<Rightarrow> (nat \<times> 'a) list" where
  "oldest_first rank P xs = sort_key (\<lambda>(i, x). rank x) (numbered P xs)"

definition delete_rows :: "nat set \<Rightarrow> 'a list \<Rightarrow> 'a list" where
  "delete_rows ids xs = map snd (filter (\<lambda>(i, x). i \<notin> ids) (enumerate 0 xs))"

text \<open>\<^verbatim>\<open>DELETE ... WHERE rowid IN (SELECT rowid ... ORDER BY key ASC, rowid ASC LIMIT excess)\<close>, where
  the excess is the number of selected rows over the cap.\<close>

definition cap_global :: "nat \<Rightarrow> ('a \<Rightarrow> int) \<Rightarrow> ('a \<Rightarrow> bool) \<Rightarrow> 'a list \<Rightarrow> 'a list" where
  "cap_global cap rank P xs =
     (let excess = length (filter P xs) - cap
      in delete_rows (set (map fst (take excess (oldest_first rank P xs)))) xs)"

definition beyond_newest :: "nat \<Rightarrow> ('a \<Rightarrow> int) \<Rightarrow> ('a \<Rightarrow> bool) \<Rightarrow> 'a list \<Rightarrow> nat set" where
  "beyond_newest cap rank P xs = set (map fst (drop cap (rev (oldest_first rank P xs))))"

definition cap_partitions :: "nat \<Rightarrow> ('a \<Rightarrow> int) \<Rightarrow> ('a \<Rightarrow> 'p) \<Rightarrow> ('a \<Rightarrow> bool) \<Rightarrow> 'a list \<Rightarrow> 'a list" where
  "cap_partitions cap rank part P xs =
     delete_rows (\<Union>p \<in> set (map part (filter P xs)). beyond_newest cap rank (\<lambda>x. P x \<and> part x = p) xs) xs"

section \<open>Rows kept and rows deleted\<close>

lemma delete_rows_filter:
  "filter P (delete_rows ids xs) = map snd (filter (\<lambda>(i, x). i \<notin> ids) (numbered P xs))"
  by (auto simp: delete_rows_def numbered_def filter_map filter_filter comp_def split_beta intro!: arg_cong[of _ _ "map snd"] filter_cong)

lemma numbered_length: "length (numbered P xs) = length (filter P xs)"
proof -
  have "map snd (numbered P xs) = filter P xs"
    using delete_rows_filter[of P "{}" xs] by (simp add: delete_rows_def)
  then show ?thesis by (metis length_map)
qed

lemma numbered_distinct: "distinct (map fst (numbered P xs))"
  by (simp add: numbered_def distinct_map_filter)

lemma oldest_first_props:
  "length (oldest_first rank P xs) = length (filter P xs)"
  "distinct (map fst (oldest_first rank P xs))"
  "set (oldest_first rank P xs) = set (numbered P xs)"
  using numbered_length[of P xs] numbered_distinct[of P xs]
  by (simp_all add: oldest_first_def distinct_map)

text \<open>Deleting the numbers of some of the selected rows leaves that many fewer of them.\<close>

lemma delete_selected_length:
  assumes "distinct (map fst ds)" "set ds \<subseteq> set (numbered P xs)"
  shows "length (filter P (delete_rows (set (map fst ds)) xs)) = length (filter P xs) - length ds"
proof -
  let ?n = "numbered P xs"
  have dist: "distinct ?n"
    using numbered_distinct[of P xs] by (simp add: distinct_map)
  have "i \<notin> set (map fst ds) \<longleftrightarrow> (i, x) \<notin> set ds" if "(i, x) \<in> set ?n" for i x
  proof
    assume "(i, x) \<notin> set ds"
    show "i \<notin> set (map fst ds)"
    proof
      assume "i \<in> set (map fst ds)"
      then obtain y where "(i, y) \<in> set ds" by auto
      moreover from this have "(i, y) \<in> set ?n" using assms(2) by blast
      ultimately show False
        using eq_key_imp_eq_value[OF numbered_distinct that] \<open>(i, x) \<notin> set ds\<close> by blast
    qed
  qed force
  then have "filter (\<lambda>(i, x). i \<notin> set (map fst ds)) ?n = filter (\<lambda>p. p \<notin> set ds) ?n"
    by (intro filter_cong) auto
  then have "length (filter P (delete_rows (set (map fst ds)) xs)) = length (filter (\<lambda>p. p \<notin> set ds) ?n)"
    by (simp add: delete_rows_filter)
  also have "\<dots> = card (set (filter (\<lambda>p. p \<notin> set ds) ?n))"
    using dist by (simp add: distinct_card del: set_filter)
  also have "set (filter (\<lambda>p. p \<notin> set ds) ?n) = set ?n - set ds" by auto
  also have "card (set ?n - set ds) = card (set ?n) - card (set ds)"
    using assms(2) by (intro card_Diff_subset) auto
  also have "card (set ?n) = length (filter P xs)"
    using dist numbered_length[of P xs] by (simp add: distinct_card)
  also have "card (set ds) = length ds"
    using assms(1) by (simp add: distinct_card distinct_map)
  finally show ?thesis .
qed

lemma delete_rows_subset: "set (delete_rows ids xs) \<subseteq> set xs"
  by (auto simp: delete_rows_def in_set_enumerate_eq)

lemma delete_rows_distinct: "distinct (map f xs) \<Longrightarrow> distinct (map f (delete_rows ids xs))"
proof -
  assume "distinct (map f xs)"
  then have "distinct (map (\<lambda>p. f (snd p)) (enumerate 0 xs))"
    by (simp add: map_map[symmetric, unfolded comp_def] del: map_map)
  then show ?thesis by (simp add: delete_rows_def distinct_map_filter comp_def)
qed

lemma delete_rows_keeps:
  assumes "x \<in> set xs" "\<And>i. i \<in> ids \<Longrightarrow> i < length xs \<Longrightarrow> P (xs ! i)" "\<not> P x"
  shows "x \<in> set (delete_rows ids xs)"
proof -
  obtain i where "i < length xs" "xs ! i = x" using assms(1) by (auto simp: in_set_conv_nth)
  then show ?thesis using assms(2,3)
    by (auto simp: delete_rows_def in_set_enumerate_eq image_iff intro!: bexI[of _ "(i, x)"])
qed

lemma numbered_nth: "(i, x) \<in> set (numbered P xs) \<Longrightarrow> i < length xs \<and> xs ! i = x \<and> P x"
  by (auto simp: numbered_def in_set_enumerate_eq)

section \<open>The global cap\<close>

lemma cap_global_length: "length (filter P (cap_global cap rank P xs)) \<le> cap"
proof -
  let ?ds = "take (length (filter P xs) - cap) (oldest_first rank P xs)"
  have "distinct (map fst ?ds)" using oldest_first_props(2)[of rank P xs] by (simp flip: take_map)
  moreover have "set ?ds \<subseteq> set (numbered P xs)"
    using oldest_first_props(3)[of rank P xs] set_take_subset by metis
  ultimately show ?thesis
    using delete_selected_length[of ?ds P xs] oldest_first_props(1)[of rank P xs]
    by (simp add: cap_global_def)
qed

lemma oldest_selected: "(i, x) \<in> set (oldest_first rank P xs) \<Longrightarrow> i < length xs \<and> xs ! i = x \<and> P x"
  using oldest_first_props(3)[of rank P xs] numbered_nth by simp

lemma cap_global_keeps:
  assumes "x \<in> set xs" "\<not> P x"
  shows "x \<in> set (cap_global cap rank P xs)"
proof -
  have "P (xs ! i)" if "i \<in> set (map fst (take n (oldest_first rank P xs)))" for i n
    using that by (auto dest!: in_set_takeD oldest_selected)
  then show ?thesis
    unfolding cap_global_def Let_def using assms by (intro delete_rows_keeps[where P = P]) blast+
qed

lemma cap_global_subset: "set (cap_global cap rank P xs) \<subseteq> set xs"
  by (simp add: cap_global_def Let_def delete_rows_subset)

lemma cap_global_distinct: "distinct (map f xs) \<Longrightarrow> distinct (map f (cap_global cap rank P xs))"
  by (simp add: cap_global_def Let_def delete_rows_distinct)

section \<open>The cap per partition\<close>

lemma beyond_newest_selected: "i \<in> beyond_newest cap rank P xs \<Longrightarrow> i < length xs \<and> P (xs ! i)"
  unfolding beyond_newest_def by (auto dest!: in_set_dropD oldest_selected)

lemma delete_rows_cong:
  assumes "\<And>i. i < length xs \<Longrightarrow> P (xs ! i) \<Longrightarrow> i \<in> A \<longleftrightarrow> i \<in> B"
  shows "filter P (delete_rows A xs) = filter P (delete_rows B xs)"
  unfolding delete_rows_filter using assms
  by (intro arg_cong[of _ _ "map snd"] filter_cong) (auto dest!: numbered_nth)

lemma cap_partitions_length:
  "length (filter (\<lambda>x. P x \<and> part x = p) (cap_partitions cap rank part P xs)) \<le> cap"
proof -
  let ?Q = "\<lambda>x. P x \<and> part x = p"
  let ?ds = "drop cap (rev (oldest_first rank ?Q xs))"
  have "i \<in> (\<Union>p \<in> set (map part (filter P xs)). beyond_newest cap rank (\<lambda>x. P x \<and> part x = p) xs)
      \<longleftrightarrow> i \<in> beyond_newest cap rank ?Q xs" if "i < length xs" "?Q (xs ! i)" for i
  proof
    assume "i \<in> beyond_newest cap rank ?Q xs"
    moreover have "p \<in> set (map part (filter P xs))" using that nth_mem[OF that(1)] by auto
    ultimately show "i \<in> (\<Union>p \<in> set (map part (filter P xs)). beyond_newest cap rank (\<lambda>x. P x \<and> part x = p) xs)"
      by blast
  next
    assume "i \<in> (\<Union>p \<in> set (map part (filter P xs)). beyond_newest cap rank (\<lambda>x. P x \<and> part x = p) xs)"
    then obtain q where q: "i \<in> beyond_newest cap rank (\<lambda>x. P x \<and> part x = q) xs" by blast
    from beyond_newest_selected[OF q] that(2) have "q = p" by simp
    with q show "i \<in> beyond_newest cap rank ?Q xs" by simp
  qed
  then have "filter ?Q (cap_partitions cap rank part P xs)
      = filter ?Q (delete_rows (beyond_newest cap rank ?Q xs) xs)"
    unfolding cap_partitions_def by (rule delete_rows_cong)
  moreover have "length (filter ?Q (delete_rows (set (map fst ?ds)) xs)) = length (filter ?Q xs) - length ?ds"
  proof (rule delete_selected_length)
    have "distinct (map fst (rev (oldest_first rank ?Q xs)))"
      using oldest_first_props(2)[of rank ?Q xs] by (simp add: rev_map[symmetric] del: rev_map)
    then show "distinct (map fst ?ds)" using distinct_drop by (simp only: drop_map[symmetric])
    show "set ?ds \<subseteq> set (numbered ?Q xs)"
      unfolding oldest_first_props(3)[of rank ?Q xs, symmetric] by (auto dest: in_set_dropD)
  qed
  moreover have "length (filter ?Q xs) - length ?ds \<le> cap"
    using oldest_first_props(1)[of rank ?Q xs] by simp
  ultimately show ?thesis unfolding beyond_newest_def by simp
qed

lemma cap_partitions_keeps:
  assumes "x \<in> set xs" "\<not> P x"
  shows "x \<in> set (cap_partitions cap rank part P xs)"
proof -
  have "P (xs ! i)"
    if "i \<in> (\<Union>p \<in> set (map part (filter P xs)). beyond_newest cap rank (\<lambda>x. P x \<and> part x = p) xs)" for i
    using that by (auto dest!: beyond_newest_selected)
  then show ?thesis
    unfolding cap_partitions_def using assms by (intro delete_rows_keeps[where P = P]) blast+
qed

lemma cap_partitions_subset: "set (cap_partitions cap rank part P xs) \<subseteq> set xs"
  by (simp add: cap_partitions_def delete_rows_subset)

lemma cap_partitions_distinct: "distinct (map f xs) \<Longrightarrow> distinct (map f (cap_partitions cap rank part P xs))"
  by (simp add: cap_partitions_def delete_rows_distinct)

text \<open>Deleting rows afterwards keeps a bound on the number of selected rows.\<close>

lemma delete_rows_filter_le: "length (filter P (delete_rows ids xs)) \<le> length (filter P xs)"
  using numbered_length[of P xs] length_filter_le[of _ "numbered P xs"] by (simp add: delete_rows_filter)

lemma cap_global_filter_le: "length (filter Q (cap_global cap rank P xs)) \<le> length (filter Q xs)"
  by (simp add: cap_global_def Let_def delete_rows_filter_le)

text \<open>Rows outside the selection are not touched.\<close>

lemma delete_rows_other:
  assumes "\<And>i. i \<in> ids \<Longrightarrow> i < length xs \<Longrightarrow> P (xs ! i)" "\<And>x. Q x \<Longrightarrow> \<not> P x"
  shows "filter Q (delete_rows ids xs) = filter Q xs"
proof -
  have "filter Q (delete_rows ids xs) = filter Q (delete_rows {} xs)"
    using assms by (intro delete_rows_cong) blast
  then show ?thesis by (simp add: delete_rows_def)
qed

lemma cap_global_other:
  assumes "\<And>x. Q x \<Longrightarrow> \<not> P x"
  shows "filter Q (cap_global cap rank P xs) = filter Q xs"
  unfolding cap_global_def Let_def
  by (rule delete_rows_other[where P = P]) (auto dest!: in_set_takeD oldest_selected simp: assms)

lemma cap_partitions_other:
  assumes "\<And>x. Q x \<Longrightarrow> \<not> P x"
  shows "filter Q (cap_partitions cap rank part P xs) = filter Q xs"
  unfolding cap_partitions_def
  by (rule delete_rows_other[where P = P]) (auto dest!: beyond_newest_selected simp: assms)

end
