(* ===== verification/Iso_Time.thy ===== *)
theory Iso_Time
  imports Schedule
begin

text \<open>
  Instants stored as ISO-8601 text and compared as text by SQL (\<^verbatim>\<open>_iso\<close> of the capability store and of the
  controller).  The text has fixed-width fields, except that \<open>isoformat\<close> leaves the fraction out when it is
  zero; since \<^verbatim>\<open>.\<close> sorts before \<^verbatim>\<open>Z\<close>, a whole second sorts after every other instant of that second.
  \<open>iso_le\<close> is that order.  \<open>iso_minute\<close> is the text of a whole minute.
\<close>

section \<open>Definitions\<close>

abbreviation SECOND :: int where "SECOND \<equiv> 1000000"

definition iso_fraction :: "instant \<Rightarrow> int" where
  "iso_fraction t = (if t mod SECOND = 0 then SECOND else t mod SECOND)"

definition iso_le :: "instant \<Rightarrow> instant \<Rightarrow> bool" where
  "iso_le a b \<longleftrightarrow> a div SECOND < b div SECOND
     \<or> (a div SECOND = b div SECOND \<and> iso_fraction a \<le> iso_fraction b)"

text \<open>The order as an integer rank.\<close>

definition iso_rank :: "instant \<Rightarrow> int" where
  "iso_rank t = t div SECOND * (SECOND + 1) + iso_fraction t"

definition iso_less :: "instant \<Rightarrow> instant \<Rightarrow> bool" where
  "iso_less a b \<longleftrightarrow> \<not> iso_le b a"

definition digit_char :: "int \<Rightarrow> char" where
  "digit_char d = ''0123456789'' ! nat (d mod 10)"

text \<open>Zero-padded decimal digits, as \<^verbatim>\<open>%0wd\<close> prints a non-negative number of at most \<open>w\<close> digits.\<close>

fun padded :: "nat \<Rightarrow> int \<Rightarrow> string" where
  "padded 0 n = []"
| "padded (Suc w) n = padded w (n div 10) @ [digit_char n]"

definition iso_minute :: "instant \<Rightarrow> string" where
  "iso_minute t = padded 4 (year_of t) @ ''-'' @ padded 2 (month_of t) @ ''-'' @ padded 2 (day_of t) @ ''T''
     @ padded 2 (hour_of t) @ '':'' @ padded 2 (minute_of t) @ '':00+00:00''"

section \<open>The order of the texts\<close>

lemma div_le_within:
  assumes "0 < (m::int)" "a div m \<le> b div m"
  shows "a < b + m"
proof (rule ccontr)
  assume "\<not> a < b + m"
  then have "(b + m) div m \<le> a div m" using assms(1) by (intro zdiv_mono1) simp_all
  then show False using assms by simp
qed

lemma iso_le_within: "iso_le a b \<Longrightarrow> a < b + SECOND"
  unfolding iso_le_def by (rule div_le_within) (simp, erule disjE, erule less_imp_le, erule conjE, rule eq_refl)

end
