(* ===== verification/Capability.thy ===== *)
theory Capability
  imports Iso_Time Sql_Table
begin

text \<open>
  The capability boundary for external agents, \<^verbatim>\<open>src/game_control/capability.py\<close>: the token store
  (issue, revoke, grant, rate window, wake cooldown, idempotent requests, audit and retention) and
  the service that maps a capability request onto controller calls.

  State.  \<open>cap_db\<close> is the content of the four tables as the connection sees it; each table is the
  list of its rows in \<open>rowid\<close> order.  Rows are typed because only this module writes them.
  Environment.  \<open>clock\<close> gives the successive readings of the clock inside one call;
  \<open>hash_token\<close> and \<open>hash_request\<close> stand for SHA-256 of the prefixed token and of the canonical request;
  random values are arguments.

  Timestamps are stored as ISO-8601 text and compared as text by SQL (theory Iso_Time).
\<close>

section \<open>Roles, scopes, requests and errors\<close>

datatype capability_audience = LAZYMC | HELIOS_MCP
datatype capability_role = OBSERVER | WAKER
datatype capability_scope = Scope_STATUS | Scope_WAKE | Scope_TPS
datatype capability_kind = Kind_Status | Kind_Wake | Kind_Tps

fun kind_value :: "capability_kind \<Rightarrow> string" where
  "kind_value Kind_Status = ''status''"
| "kind_value Kind_Wake = ''wake''"
| "kind_value Kind_Tps = ''tps''"

record capability_request =
  creq_id :: string
  creq_kind :: capability_kind
  creq_window :: string

record capability_error =
  err_code :: string
  err_status :: int
  err_retryable :: bool

abbreviation cap_err :: "string \<Rightarrow> int \<Rightarrow> bool \<Rightarrow> capability_error" where
  "cap_err code status retryable \<equiv> \<lparr>err_code = code, err_status = status, err_retryable = retryable\<rparr>"

type_synonym 'a cap_outcome = "capability_error + 'a"

definition CAPABILITY_MAX_RESPONSE_BYTES :: int where "CAPABILITY_MAX_RESPONSE_BYTES = 64 * 1024"
definition CAPABILITY_MAX_TTL :: int where "CAPABILITY_MAX_TTL = 30 * DAY"
definition CAPABILITY_MAX_RATE_WINDOW :: int where "CAPABILITY_MAX_RATE_WINDOW = HOUR"
definition CAPABILITY_MAX_WAKE_COOLDOWN :: int where "CAPABILITY_MAX_WAKE_COOLDOWN = HOUR"
definition CAPABILITY_START_PROFILE :: profile_id where
  "CAPABILITY_START_PROFILE = MINECRAFT_SUNLIT_COBBLEMON"
definition CAPABILITY_STATUS_REPLAY_WINDOW :: int where "CAPABILITY_STATUS_REPLAY_WINDOW = 10 * MINUTE"
definition CAPABILITY_STATUS_REPLAY_PER_TOKEN_CAP :: nat where
  "CAPABILITY_STATUS_REPLAY_PER_TOKEN_CAP = 128"
definition CAPABILITY_STATUS_REPLAY_GLOBAL_CAP :: nat where
  "CAPABILITY_STATUS_REPLAY_GLOBAL_CAP = 4096"
definition CAPABILITY_STATUS_AUDIT_PER_TOKEN_CAP :: nat where
  "CAPABILITY_STATUS_AUDIT_PER_TOKEN_CAP = CAPABILITY_STATUS_REPLAY_PER_TOKEN_CAP * 2"
definition CAPABILITY_STATUS_AUDIT_GLOBAL_CAP :: nat where
  "CAPABILITY_STATUS_AUDIT_GLOBAL_CAP = CAPABILITY_STATUS_REPLAY_GLOBAL_CAP * 2"
definition CAPABILITY_RETENTION_MAINTENANCE_INTERVAL :: int where
  "CAPABILITY_RETENTION_MAINTENANCE_INTERVAL = MINUTE"

section \<open>Tables\<close>

record cap_token =
  tok_id :: string
  tok_hash :: string
  tok_role :: capability_role
  tok_audience :: capability_audience
  tok_scopes :: "capability_scope set"
  tok_profile :: "profile_id option"
  tok_created_at :: instant
  tok_expires_at :: instant
  tok_rate_budget :: int
  tok_rate_window_seconds :: int
  tok_rate_window_started_at :: instant
  tok_rate_window_used :: int
  tok_wake_cooldown_seconds :: int
  tok_last_wake_at :: "instant option"
  tok_revoked_at :: "instant option"

datatype request_status = Req_Pending | Req_Completed

record cap_request_row =
  row_token :: string
  row_request :: string
  row_hash :: string
  row_response :: "json option"
  row_status :: request_status
  row_kind :: capability_kind
  row_successful :: bool
  row_created_at :: instant

record cap_audit_row =
  aud_timestamp :: instant
  aud_token :: "string option"
  aud_audience :: "capability_audience option"
  aud_action :: string
  aud_result :: string
  aud_detail :: string

record cap_db =
  tokens :: "cap_token list"
  requests :: "cap_request_row list"
  audit_log :: "cap_audit_row list"
  last_pruned_at :: instant

section \<open>Issue and revoke\<close>

fun scopes_of :: "capability_role \<Rightarrow> capability_scope set" where
  "scopes_of OBSERVER = {Scope_STATUS, Scope_TPS}"
| "scopes_of WAKER = {Scope_STATUS, Scope_WAKE}"

definition validate_binding ::
  "capability_role \<Rightarrow> capability_audience \<Rightarrow> profile_id option \<Rightarrow> unit cap_outcome" where
  "validate_binding role audience profile =
     (if role = OBSERVER then
        raise_if (audience \<noteq> HELIOS_MCP \<or> profile \<noteq> None) (cap_err ''invalid_binding'' 422 False)
      else
        raise_if (role \<noteq> WAKER \<or> audience \<notin> {LAZYMC, HELIOS_MCP} \<or> profile \<noteq> Some CAPABILITY_START_PROFILE)
          (cap_err ''invalid_binding'' 422 False))"

definition audit_row :: "instant \<Rightarrow> string option \<Rightarrow> capability_audience option \<Rightarrow> string \<Rightarrow> string \<Rightarrow> string
    \<Rightarrow> cap_audit_row" where
  "audit_row now token audience action result detail =
     \<lparr>aud_timestamp = now, aud_token = token, aud_audience = audience, aud_action = take 64 action,
      aud_result = take 16 result, aud_detail = take 256 detail\<rparr>"

definition audit :: "cap_audit_row \<Rightarrow> cap_db \<Rightarrow> cap_db" where
  "audit row db = db\<lparr>audit_log := audit_log db @ [row]\<rparr>"

record issue_request =
  iss_role :: capability_role
  iss_audience :: capability_audience
  iss_profile :: "profile_id option"
  iss_ttl :: int
  iss_rate_budget :: int
  iss_rate_window :: int
  iss_wake_cooldown :: int

definition check_issue :: "issue_request \<Rightarrow> unit cap_outcome" where
  "check_issue rq =
     and_then (validate_binding (iss_role rq) (iss_audience rq) (iss_profile rq)) (\<lambda>_.
     and_then (raise_if (iss_ttl rq \<le> 0 \<or> iss_ttl rq > CAPABILITY_MAX_TTL) (cap_err ''invalid_expiry'' 422 False)) (\<lambda>_.
     and_then (raise_if (\<not> (1 \<le> iss_rate_budget rq \<and> iss_rate_budget rq \<le> 1000))
        (cap_err ''invalid_rate_budget'' 422 False)) (\<lambda>_.
     and_then (raise_if (iss_rate_window rq \<le> 0 \<or> iss_rate_window rq > CAPABILITY_MAX_RATE_WINDOW)
        (cap_err ''invalid_rate_window'' 422 False)) (\<lambda>_.
     and_then (raise_if (iss_wake_cooldown rq < 0 \<or> iss_wake_cooldown rq > CAPABILITY_MAX_WAKE_COOLDOWN)
        (cap_err ''invalid_wake_cooldown'' 422 False)) (\<lambda>_.
     raise_if (iss_rate_window rq div SECOND < 1 \<or> iss_wake_cooldown rq div SECOND < 0)
        (cap_err ''invalid_rate_window'' 422 False))))))"

text \<open>\<open>token_id\<close> and \<open>token\<close> are the random values drawn; a collision with a stored row violates a
  uniqueness constraint.\<close>

definition issue :: "(string \<Rightarrow> string) \<Rightarrow> (nat \<Rightarrow> instant) \<Rightarrow> string \<Rightarrow> string \<Rightarrow> issue_request \<Rightarrow> cap_db
    \<Rightarrow> string cap_outcome \<times> cap_db" where
  "issue hash_token clock token_id token rq db =
     (case check_issue rq of
        Inl e \<Rightarrow> (Inl e, db)
      | Inr _ \<Rightarrow>
          if list_ex (\<lambda>t. tok_id t = token_id \<or> tok_hash t = hash_token token) (tokens db)
          then (Inl (cap_err ''integrity_error'' 500 False), db)
          else
            let now = clock 0;
                row = \<lparr>tok_id = token_id, tok_hash = hash_token token, tok_role = iss_role rq,
                  tok_audience = iss_audience rq, tok_scopes = scopes_of (iss_role rq),
                  tok_profile = iss_profile rq, tok_created_at = now, tok_expires_at = now + iss_ttl rq,
                  tok_rate_budget = iss_rate_budget rq,
                  tok_rate_window_seconds = iss_rate_window rq div SECOND,
                  tok_rate_window_started_at = now, tok_rate_window_used = 0,
                  tok_wake_cooldown_seconds = iss_wake_cooldown rq div SECOND,
                  tok_last_wake_at = None, tok_revoked_at = None\<rparr>
            in (Inr token,
                audit (audit_row (clock 1) (Some token_id) (Some (iss_audience rq)) ''issue'' ''issued''
                   (''role='' @ (case iss_role rq of OBSERVER \<Rightarrow> ''observer'' | WAKER \<Rightarrow> ''waker'')))
                  (db\<lparr>tokens := tokens db @ [row]\<rparr>)))"

definition update_token :: "string \<Rightarrow> (cap_token \<Rightarrow> cap_token) \<Rightarrow> cap_db \<Rightarrow> cap_db" where
  "update_token tid f db = db\<lparr>tokens := map (\<lambda>t. if tok_id t = tid then f t else t) (tokens db)\<rparr>"

definition revoke :: "(nat \<Rightarrow> instant) \<Rightarrow> string \<Rightarrow> cap_db \<Rightarrow> unit cap_outcome \<times> cap_db" where
  "revoke clock token_id db =
     (if token_id = [] \<or> length token_id > 64 then (Inl (cap_err ''invalid_token_id'' 422 False), db)
      else if \<not> list_ex (\<lambda>t. tok_id t = token_id) (tokens db)
      then (Inl (cap_err ''unknown_token'' 404 False), db)
      else (Inr (),
            audit (audit_row (clock 1) (Some token_id) None ''revoke'' ''revoked'' ''token revoked'')
              (update_token token_id (\<lambda>t. if tok_revoked_at t = None then t\<lparr>tok_revoked_at := Some (clock 0)\<rparr> else t)
                 db)))"

section \<open>Grant and budget\<close>

definition find_token :: "(string \<Rightarrow> string) \<Rightarrow> string \<Rightarrow> cap_db \<Rightarrow> cap_token option" where
  "find_token hash_token token db = find (\<lambda>t. tok_hash t = hash_token token) (tokens db)"

text \<open>The grant is the token row as it was read.\<close>

definition grant :: "(string \<Rightarrow> string) \<Rightarrow> instant \<Rightarrow> string \<Rightarrow> capability_audience \<Rightarrow> cap_db
    \<Rightarrow> cap_token cap_outcome" where
  "grant hash_token now token expected db =
     and_then (raise_if (\<not> (40 \<le> length token \<and> length token \<le> 128) \<or> CHR 0x0A \<in> set token \<or> CHR 0x0D \<in> set token)
        (cap_err ''invalid_token'' 401 False)) (\<lambda>_.
     case find_token hash_token token db of
       None \<Rightarrow> Inl (cap_err ''invalid_token'' 401 False)
     | Some t \<Rightarrow>
         and_then (raise_if (tok_audience t \<noteq> expected) (cap_err ''audience_mismatch'' 403 False)) (\<lambda>_.
         and_then (raise_if (tok_revoked_at t \<noteq> None) (cap_err ''token_revoked'' 401 False)) (\<lambda>_.
         and_then (raise_if (tok_expires_at t \<le> now) (cap_err ''token_expired'' 401 False)) (\<lambda>_.
         case validate_binding (tok_role t) (tok_audience t) (tok_profile t) of
           Inl _ \<Rightarrow> Inl (cap_err ''invalid_token'' 401 False)
         | Inr _ \<Rightarrow> Inr t))))"

text \<open>The two conditional \<^verbatim>\<open>UPDATE\<close> statements: \<open>None\<close> when the row does not match, so that no row
  is changed.\<close>

definition wake_update :: "instant \<Rightarrow> int \<Rightarrow> cap_token \<Rightarrow> cap_token option" where
  "wake_update now cooldown t =
     (if tok_revoked_at t = None \<and> iso_less now (tok_expires_at t)
         \<and> (case tok_last_wake_at t of None \<Rightarrow> True | Some w \<Rightarrow> iso_le w (now - cooldown * SECOND))
      then Some (t\<lparr>tok_last_wake_at := Some now\<rparr>) else None)"

definition window_update :: "instant \<Rightarrow> int \<Rightarrow> cap_token \<Rightarrow> cap_token option" where
  "window_update now window t =
     (let fresh = iso_le (tok_rate_window_started_at t) (now - window * SECOND)
      in if tok_revoked_at t = None \<and> iso_less now (tok_expires_at t)
            \<and> (fresh \<or> tok_rate_window_used t < tok_rate_budget t)
         then Some (t\<lparr>tok_rate_window_started_at := (if fresh then now else tok_rate_window_started_at t),
                      tok_rate_window_used := (if fresh then 1 else tok_rate_window_used t + 1)\<rparr>)
         else None)"

definition charge_token :: "instant \<Rightarrow> cap_token \<Rightarrow> capability_kind \<Rightarrow> cap_db \<Rightarrow> cap_token option" where
  "charge_token now g kind db = do {
     t \<leftarrow> find (\<lambda>t. tok_id t = tok_id g) (tokens db);
     if kind = Kind_Wake then wake_update now (tok_wake_cooldown_seconds g) t
     else window_update now (tok_rate_window_seconds g) t }"

definition refusal :: "capability_kind \<Rightarrow> capability_error" where
  "refusal kind = (if kind = Kind_Wake then cap_err ''wake_cooldown'' 429 True
     else cap_err ''rate_window_exhausted'' 429 True)"

definition refusal_audit :: "instant \<Rightarrow> cap_token \<Rightarrow> capability_kind \<Rightarrow> cap_audit_row" where
  "refusal_audit now g kind =
     (if kind = Kind_Wake
      then audit_row now (Some (tok_id g)) (Some (tok_audience g)) ''wake'' ''rejected'' ''wake cooldown active''
      else audit_row now (Some (tok_id g)) (Some (tok_audience g)) ''request'' ''rejected'' ''rate window exhausted'')"

definition consume_budget :: "(nat \<Rightarrow> instant) \<Rightarrow> cap_token \<Rightarrow> capability_kind \<Rightarrow> cap_db
    \<Rightarrow> unit cap_outcome \<times> cap_db" where
  "consume_budget clock g kind db =
     (case charge_token (clock 2) g kind db of
        Some u \<Rightarrow> (Inr (), update_token (tok_id g) (\<lambda>_. u) db)
      | None \<Rightarrow> (Inl (refusal kind), audit (refusal_audit (clock 3) g kind) db))"

section \<open>Idempotent requests\<close>

definition find_request :: "string \<Rightarrow> string \<Rightarrow> cap_db \<Rightarrow> cap_request_row option" where
  "find_request tid rid db = find (\<lambda>r. row_token r = tid \<and> row_request r = rid) (requests db)"

definition replay_expired :: "instant \<Rightarrow> cap_request_row \<Rightarrow> bool" where
  "replay_expired now r \<longleftrightarrow> row_kind r = Kind_Status \<and> row_successful r
     \<and> row_created_at r + CAPABILITY_STATUS_REPLAY_WINDOW \<le> now"

definition admit_request :: "(nat \<Rightarrow> instant) \<Rightarrow> string \<Rightarrow> cap_token \<Rightarrow> capability_request \<Rightarrow> cap_db
    \<Rightarrow> (cap_token \<times> json option) cap_outcome \<times> cap_db" where
  "admit_request clock canonical g rq db =
     (case consume_budget clock g (creq_kind rq) db of
        (Inl e, db') \<Rightarrow> (Inl e, db')
      | (Inr _, db') \<Rightarrow>
          (Inr (g, None),
           audit (audit_row (clock 4) (Some (tok_id g)) (Some (tok_audience g)) ''request'' ''accepted''
               (''kind='' @ kind_value (creq_kind rq)))
             (db'\<lparr>requests := requests db' @ [\<lparr>row_token = tok_id g, row_request = creq_id rq,
                row_hash = canonical, row_response = None, row_status = Req_Pending,
                row_kind = creq_kind rq, row_successful = False, row_created_at = clock 3\<rparr>]\<rparr>)))"

definition forget_replay :: "cap_token \<Rightarrow> capability_request \<Rightarrow> cap_request_row list \<Rightarrow> cap_request_row list" where
  "forget_replay g rq rs = filter (\<lambda>x. \<not> (row_token x = tok_id g \<and> row_request x = creq_id rq
      \<and> row_kind x = Kind_Status \<and> row_successful x \<and> row_status x = Req_Completed)) rs"

definition begin_request :: "(string \<Rightarrow> string) \<Rightarrow> (capability_request \<Rightarrow> string) \<Rightarrow> (nat \<Rightarrow> instant) \<Rightarrow> string
    \<Rightarrow> capability_audience \<Rightarrow> capability_request \<Rightarrow> cap_db
    \<Rightarrow> (cap_token \<times> json option) cap_outcome \<times> cap_db" where
  "begin_request hash_token hash_request clock token audience rq db =
     (case grant hash_token (clock 0) token audience db of
        Inl e \<Rightarrow> (Inl e, db)
      | Inr g \<Rightarrow>
          let canonical = hash_request rq
          in case find_request (tok_id g) (creq_id rq) db of
               None \<Rightarrow> admit_request clock canonical g rq db
             | Some r \<Rightarrow>
                 if row_hash r \<noteq> canonical then
                   (Inl (cap_err ''request_id_conflict'' 409 False),
                    audit (audit_row (clock 1) (Some (tok_id g)) (Some (tok_audience g)) ''request'' ''rejected''
                      ''request id conflict'') db)
                 else if row_status r = Req_Completed \<and> row_response r \<noteq> None then
                   if replay_expired (clock 1) r then
                     admit_request clock canonical g rq
                       (db\<lparr>requests := forget_replay g rq (requests db)\<rparr>)
                   else (Inr (g, row_response r), db)
                 else (Inl (cap_err ''request_in_progress'' 409 True), db))"

section \<open>Retention and completion\<close>

definition routine_status :: "cap_request_row \<Rightarrow> bool" where
  "routine_status r \<longleftrightarrow> row_kind r = Kind_Status \<and> row_status r = Req_Completed \<and> row_successful r"

definition routine_audit :: "cap_audit_row \<Rightarrow> bool" where
  "routine_audit a \<longleftrightarrow> aud_action a = ''status'' \<and> aud_result a \<in> {''accepted'', ''succeeded''}"

definition prune_requests :: "instant \<Rightarrow> cap_request_row list \<Rightarrow> cap_request_row list" where
  "prune_requests cutoff rs =
     cap_global CAPABILITY_STATUS_REPLAY_GLOBAL_CAP (\<lambda>r. iso_rank (row_created_at r)) routine_status
      (cap_partitions CAPABILITY_STATUS_REPLAY_PER_TOKEN_CAP (\<lambda>r. iso_rank (row_created_at r)) row_token
        routine_status
        (filter (\<lambda>r. \<not> (routine_status r \<and> iso_less (row_created_at r) cutoff)) rs))"

definition prune_audit :: "instant \<Rightarrow> cap_audit_row list \<Rightarrow> cap_audit_row list" where
  "prune_audit cutoff rs =
     cap_global CAPABILITY_STATUS_AUDIT_GLOBAL_CAP (\<lambda>a. iso_rank (aud_timestamp a)) routine_audit
      (cap_partitions CAPABILITY_STATUS_AUDIT_PER_TOKEN_CAP (\<lambda>a. iso_rank (aud_timestamp a)) aud_token
        (\<lambda>a. aud_token a \<noteq> None \<and> routine_audit a)
        (filter (\<lambda>a. \<not> (routine_audit a \<and> iso_less (aud_timestamp a) cutoff)) rs))"

definition prune_status_retention :: "instant \<Rightarrow> cap_db \<Rightarrow> cap_db" where
  "prune_status_retention now db =
     (if now < last_pruned_at db + CAPABILITY_RETENTION_MAINTENANCE_INTERVAL then db
      else db\<lparr>last_pruned_at := now,
             requests := prune_requests (now - CAPABILITY_STATUS_REPLAY_WINDOW) (requests db),
             audit_log := prune_audit (now - CAPABILITY_STATUS_REPLAY_WINDOW) (audit_log db)\<rparr>)"

text \<open>\<open>complete\<close>: \<open>encoded_size\<close> is the length of the encoded response.\<close>

definition too_large_body :: json where
  "too_large_body = JObj [(''error'', JObj [(''code'', JStr ''response_too_large''),
     (''message'', JStr ''capability response exceeded its bound''), (''retryable'', JBool False)])]"

definition completed :: "cap_token \<Rightarrow> capability_request \<Rightarrow> json \<Rightarrow> bool \<Rightarrow> cap_request_row \<Rightarrow> cap_request_row" where
  "completed g rq b s r = (if row_token r = tok_id g \<and> row_request r = creq_id rq \<and> row_status r = Req_Pending
      then r\<lparr>row_response := Some b, row_status := Req_Completed, row_successful := s\<rparr> else r)"

definition complete_request :: "(json \<Rightarrow> int) \<Rightarrow> (nat \<Rightarrow> instant) \<Rightarrow> cap_token \<Rightarrow> capability_request \<Rightarrow> json
    \<Rightarrow> bool \<Rightarrow> cap_db \<Rightarrow> cap_db" where
  "complete_request encoded_size clock g rq response ok db =
     (let oversized = encoded_size response > CAPABILITY_MAX_RESPONSE_BYTES;
          stored = (if oversized then too_large_body else response);
          success = (ok \<and> \<not> oversized)
      in prune_status_retention (clock 1)
           (audit (audit_row (clock 0) (Some (tok_id g)) (Some (tok_audience g)) (kind_value (creq_kind rq))
               (if success then ''succeeded'' else ''failed'')
               (if success then ''completed'' else ''safe failure''))
             (db\<lparr>requests := map (completed g rq stored success) (requests db)\<rparr>)))"

section \<open>The service\<close>

text \<open>The controller is behind an RPC: \<open>None\<close> is a transport failure, and each kind of call has its
  replies.  A status result that validates is its list of profiles; a readiness result that
  does not validate is \<open>Wait_Invalid\<close>.\<close>

record profile_item =
  item_profile :: profile_id
  item_slot_owner :: "profile_id option"
  item_state :: observed_state
  item_health :: health_state
  item_ports_ready :: bool

record rpc_error =
  rpc_code :: string
  rpc_retryable :: bool

datatype status_reply = Status_Failure rpc_error | Status_Items "profile_item list" | Status_Other json
datatype wait_reply = Wait_Failure rpc_error | Wait_Result string int | Wait_Invalid
datatype plain_reply = Plain_Failure rpc_error | Plain_Result json

text \<open>The replies of one dispatch: the status before and after a start, the wait, the start, and the
  statistics query.\<close>

record rpc_replies =
  rpc_status :: "status_reply option"
  rpc_status_again :: "status_reply option"
  rpc_wait :: "wait_reply option"
  rpc_start :: "plain_reply option"
  rpc_tps :: "plain_reply option"

datatype rpc_action =
    Get_Status
  | Wait_Readiness profile_id
  | Start_Profile profile_id
  | Get_Stats_Tps profile_id string

text \<open>The bodies the service returns: a controller failure, the ready state of a wake, a status with
  its profiles, or another JSON object.\<close>

datatype cap_body =
    Body_Error rpc_error
  | Body_Ready "int option" bool \<comment> \<open>readiness generation, \<open>already_active\<close>\<close>
  | Body_Status "profile_item list"
  | Body_Json json

fun json_body :: "json \<Rightarrow> cap_body" where
  "json_body (JObj kvs) = Body_Json (JObj kvs)"
| "json_body (JArr xs) = Body_Json (JObj [(''items'', JArr xs)])"
| "json_body j = Body_Json (JObj [(''result'', j)])"

definition called :: "'r option \<Rightarrow> 'r cap_outcome" where
  "called reply = (case reply of None \<Rightarrow> Inl (cap_err ''upstream_unavailable'' 503 True) | Some r \<Rightarrow> Inr r)"

fun snapshot_of :: "status_reply \<Rightarrow> profile_item list option" where
  "snapshot_of (Status_Items items) = Some items"
| "snapshot_of _ = None"

definition wake_target :: "status_reply \<Rightarrow> profile_item option" where
  "wake_target reply =
     (case snapshot_of reply of None \<Rightarrow> None
      | Some items \<Rightarrow> find (\<lambda>i. item_profile i = CAPABILITY_START_PROFILE) items)"

definition active_wake_result :: "status_reply \<Rightarrow> cap_body option" where
  "active_wake_result reply =
     (case wake_target reply of
        None \<Rightarrow> None
      | Some t \<Rightarrow>
          if item_slot_owner t = Some CAPABILITY_START_PROFILE \<and> item_state t = RUNNING
             \<and> item_health t = HEALTHY \<and> item_ports_ready t
          then Some (Body_Ready None True) else None)"

definition check_scope :: "cap_token \<Rightarrow> capability_kind \<Rightarrow> unit cap_outcome" where
  "check_scope g kind =
     raise_if ((kind = Kind_Tps \<and> Scope_TPS \<notin> tok_scopes g) \<or> (kind = Kind_Wake \<and> Scope_WAKE \<notin> tok_scopes g)
         \<or> (kind = Kind_Status \<and> Scope_STATUS \<notin> tok_scopes g)
         \<or> (tok_role g = WAKER \<and> kind \<notin> {Kind_Status, Kind_Wake}))
       (cap_err ''scope_denied'' 403 False)"

text \<open>The wait for a start that is already under way.\<close>

definition wait_body :: "wait_reply \<Rightarrow> cap_body cap_outcome" where
  "wait_body reply =
     (case reply of
        Wait_Failure f \<Rightarrow> Inr (Body_Error f)
      | Wait_Invalid \<Rightarrow> Inl (cap_err ''upstream_unavailable'' 503 True)
      | Wait_Result result generation \<Rightarrow>
          if result = ''success'' then Inr (Body_Ready (Some generation) True)
          else Inl (cap_err ''health_failed'' 503 (result = ''timeout'')))"

definition started_body :: "json \<Rightarrow> cap_body cap_outcome" where
  "started_body j =
     (case j of
        JObj kvs \<Rightarrow>
          (case map_of kvs ''readiness_generation'' \<bind> as_int of
             Some n \<Rightarrow>
               if map_of kvs ''readiness'' = Some (JStr ''success'') \<and> 1 \<le> n then Inr (Body_Ready (Some n) False)
               else Inl (cap_err ''upstream_unavailable'' 503 True)
           | None \<Rightarrow> Inl (cap_err ''upstream_unavailable'' 503 True))
      | _ \<Rightarrow> Inl (cap_err ''upstream_unavailable'' 503 True))"

text \<open>The result of a dispatch and the actions it sent, in order.  \<open>start_target\<close> is the start with the
  second look at the status after a slot conflict.\<close>

definition start_target :: "rpc_replies \<Rightarrow> cap_body cap_outcome \<times> rpc_action list" where
  "start_target rpc =
     (case called (rpc_start rpc) of
        Inl e \<Rightarrow> (Inl e, [Start_Profile CAPABILITY_START_PROFILE])
      | Inr (Plain_Result j) \<Rightarrow> (started_body j, [Start_Profile CAPABILITY_START_PROFILE])
      | Inr (Plain_Failure f) \<Rightarrow>
          if rpc_code f = ''slot_conflict'' then
            (and_then (called (rpc_status_again rpc)) (\<lambda>r.
               case active_wake_result r of Some b \<Rightarrow> Inr b | None \<Rightarrow> Inr (Body_Error f)),
             [Start_Profile CAPABILITY_START_PROFILE, Get_Status])
          else (Inr (Body_Error f), [Start_Profile CAPABILITY_START_PROFILE]))"

definition after_preflight :: "rpc_replies \<Rightarrow> status_reply \<Rightarrow> cap_body cap_outcome \<times> rpc_action list" where
  "after_preflight rpc preflight =
     (case active_wake_result preflight of
        Some b \<Rightarrow> (Inr b, [])
      | None \<Rightarrow>
          (case preflight of
             Status_Failure f \<Rightarrow> (Inr (Body_Error f), [])
           | _ \<Rightarrow>
               (case wake_target preflight of
                  None \<Rightarrow> (Inl (cap_err ''upstream_unavailable'' 503 True), [])
                | Some t \<Rightarrow>
                    if item_slot_owner t = Some CAPABILITY_START_PROFILE \<and> item_state t = STARTING
                    then (and_then (called (rpc_wait rpc)) wait_body, [Wait_Readiness CAPABILITY_START_PROFILE])
                    else if item_slot_owner t \<noteq> None
                    then (Inl (cap_err ''slot_conflict'' 409 False), [])
                    else start_target rpc)))"

definition dispatch_wake :: "rpc_replies \<Rightarrow> cap_body cap_outcome \<times> rpc_action list" where
  "dispatch_wake rpc =
     (case called (rpc_status rpc) of
        Inl e \<Rightarrow> (Inl e, [Get_Status])
      | Inr preflight \<Rightarrow>
          (case after_preflight rpc preflight of (body, actions) \<Rightarrow> (body, Get_Status # actions)))"

definition status_body :: "cap_token \<Rightarrow> status_reply \<Rightarrow> cap_body cap_outcome" where
  "status_body g reply =
     (case reply of
        Status_Failure f \<Rightarrow> Inr (Body_Error f)
      | Status_Items items \<Rightarrow>
          Inr (Body_Status (if tok_role g = WAKER
                 then filter (\<lambda>i. item_profile i = CAPABILITY_START_PROFILE) items else items))
      | Status_Other j \<Rightarrow>
          if tok_role g = WAKER then Inl (cap_err ''upstream_unavailable'' 503 True) else Inr (json_body j))"

definition tps_body :: "plain_reply \<Rightarrow> cap_body cap_outcome" where
  "tps_body reply = (case reply of Plain_Failure f \<Rightarrow> Inr (Body_Error f) | Plain_Result j \<Rightarrow> Inr (json_body j))"

definition dispatch :: "cap_token \<Rightarrow> capability_request \<Rightarrow> rpc_replies
    \<Rightarrow> cap_body cap_outcome \<times> rpc_action list" where
  "dispatch g rq rpc =
     (case check_scope g (creq_kind rq) of
        Inl e \<Rightarrow> (Inl e, [])
      | Inr _ \<Rightarrow>
          (case creq_kind rq of
             Kind_Status \<Rightarrow> (and_then (called (rpc_status rpc)) (status_body g), [Get_Status])
           | Kind_Wake \<Rightarrow> dispatch_wake rpc
           | Kind_Tps \<Rightarrow> (and_then (called (rpc_tps rpc)) tps_body,
                         [Get_Stats_Tps CAPABILITY_START_PROFILE (creq_window rq)])))"

text \<open>\<^verbatim>\<open>"error" not in body\<close>.\<close>

fun body_ok :: "cap_body \<Rightarrow> bool" where
  "body_ok (Body_Error _) = False"
| "body_ok (Body_Json (JObj kvs)) = (map_of kvs ''error'' = None)"
| "body_ok _ = True"

text \<open>\<open>handle\<close>: the replayed body or the dispatched one, and the actions sent.  \<open>render\<close> is the JSON
  encoding of a body or an error, \<open>encoded_size\<close> its length.\<close>

datatype handled =
    Refused capability_error
  | Replayed json
  | Answered "cap_body cap_outcome"

definition handle :: "(string \<Rightarrow> string) \<Rightarrow> (capability_request \<Rightarrow> string) \<Rightarrow> (cap_body cap_outcome \<Rightarrow> json)
    \<Rightarrow> (json \<Rightarrow> int) \<Rightarrow> (nat \<Rightarrow> instant) \<Rightarrow> (nat \<Rightarrow> instant) \<Rightarrow> string \<Rightarrow> capability_audience \<Rightarrow> capability_request
    \<Rightarrow> rpc_replies \<Rightarrow> cap_db \<Rightarrow> handled \<times> rpc_action list \<times> cap_db" where
  "handle hash_token hash_request render encoded_size clock clock' token audience rq rpc db =
     (case begin_request hash_token hash_request clock token audience rq db of
        (Inl e, db1) \<Rightarrow> (Refused e, [], db1)
      | (Inr (g, Some replay), db1) \<Rightarrow> (Replayed replay, [], db1)
      | (Inr (g, None), db1) \<Rightarrow>
          (case dispatch g rq rpc of (body, actions) \<Rightarrow>
             (Answered body, actions,
              complete_request encoded_size clock' g rq (render body)
                (case body of Inl _ \<Rightarrow> False | Inr b \<Rightarrow> body_ok b) db1)))"

section \<open>Histories of calls\<close>

text \<open>The calls on one database, each with its own clock.  A request is handled by \<open>begin\<close>, the dispatch
  and \<open>complete\<close>; other calls may run between the two because the dispatch awaits the controller, so
  they are separate events here.\<close>

datatype cap_call =
    Issue "nat \<Rightarrow> instant" string string issue_request
  | Revoke "nat \<Rightarrow> instant" string
  | Begin "nat \<Rightarrow> instant" string capability_audience capability_request
  | Complete "nat \<Rightarrow> instant" cap_token capability_request json bool

record cap_host =
  host_hash_token :: "string \<Rightarrow> string"
  host_hash_request :: "capability_request \<Rightarrow> string"
  host_encoded_size :: "json \<Rightarrow> int"

fun cap_step :: "cap_host \<Rightarrow> cap_call \<Rightarrow> cap_db \<Rightarrow> cap_db" where
  "cap_step h (Issue clock token_id token rq) db = snd (issue (host_hash_token h) clock token_id token rq db)"
| "cap_step h (Revoke clock token_id) db = snd (revoke clock token_id db)"
| "cap_step h (Begin clock token audience rq) db =
     snd (begin_request (host_hash_token h) (host_hash_request h) clock token audience rq db)"
| "cap_step h (Complete clock g rq body ok) db = complete_request (host_encoded_size h) clock g rq body ok db"

definition cap_run :: "cap_host \<Rightarrow> cap_call list \<Rightarrow> cap_db \<Rightarrow> cap_db" where
  "cap_run h calls db = fold (cap_step h) calls db"

definition request_key :: "cap_request_row \<Rightarrow> string \<times> string" where
  "request_key r = (row_token r, row_request r)"

definition token_ok :: "cap_token \<Rightarrow> bool" where
  "token_ok t \<longleftrightarrow> tok_scopes t = scopes_of (tok_role t) \<and> 1 \<le> tok_rate_budget t
     \<and> 0 \<le> tok_rate_window_used t \<and> tok_rate_window_used t \<le> tok_rate_budget t
     \<and> 1 \<le> tok_rate_window_seconds t \<and> 0 \<le> tok_wake_cooldown_seconds t"

definition cap_db_ok :: "cap_db \<Rightarrow> bool" where
  "cap_db_ok db \<longleftrightarrow> distinct (map tok_id (tokens db)) \<and> distinct (map tok_hash (tokens db))
     \<and> list_all token_ok (tokens db) \<and> distinct (map request_key (requests db))"

definition empty_db :: cap_db where
  "empty_db = \<lparr>tokens = [], requests = [], audit_log = [], last_pruned_at = 0\<rparr>"

text \<open>A successful charge replaces one token row by itself with the budget fields changed.\<close>

definition same_token :: "cap_token \<Rightarrow> cap_token \<Rightarrow> bool" where
  "same_token t u \<longleftrightarrow> tok_id u = tok_id t \<and> tok_hash u = tok_hash t \<and> tok_role u = tok_role t
     \<and> tok_audience u = tok_audience t \<and> tok_scopes u = tok_scopes t \<and> tok_profile u = tok_profile t
     \<and> tok_revoked_at u = tok_revoked_at t"

text \<open>A request other than a status read was accepted under this key; a token was revoked.\<close>

definition accepted_key :: "string \<Rightarrow> string \<Rightarrow> cap_db \<Rightarrow> bool" where
  "accepted_key tid rid db \<longleftrightarrow> (\<exists>r \<in> set (requests db). request_key r = (tid, rid) \<and> row_kind r \<noteq> Kind_Status)"

definition revoked_id :: "string \<Rightarrow> cap_db \<Rightarrow> bool" where
  "revoked_id tid db \<longleftrightarrow> (\<exists>t \<in> set (tokens db). tok_id t = tid \<and> tok_revoked_at t \<noteq> None)"

text \<open>The audit rows of accepted and rejected requests.\<close>

definition request_audit :: "cap_audit_row \<Rightarrow> bool" where
  "request_audit a \<longleftrightarrow> aud_action a = ''request''"

definition audit_count :: "cap_db \<Rightarrow> nat" where
  "audit_count db = length (filter request_audit (audit_log db))"

fun accepts :: "cap_host \<Rightarrow> cap_call \<Rightarrow> cap_db \<Rightarrow> bool" where
  "accepts h (Begin clock token audience rq) db =
     (case begin_request (host_hash_token h) (host_hash_request h) clock token audience rq db of
        (Inr (g, None), _) \<Rightarrow> True | _ \<Rightarrow> False)"
| "accepts h _ db = False"

fun accepted_count :: "cap_host \<Rightarrow> cap_call list \<Rightarrow> cap_db \<Rightarrow> nat" where
  "accepted_count h [] db = 0"
| "accepted_count h (c # cs) db = (if accepts h c db then 1 else 0) + accepted_count h cs (cap_step h c db)"

text \<open>Accepted charges of one token at the given times.\<close>

fun window_charges :: "int \<Rightarrow> instant list \<Rightarrow> cap_token \<Rightarrow> cap_token option" where
  "window_charges w [] t = Some t"
| "window_charges w (now # ts) t = (case window_update now w t of None \<Rightarrow> None | Some u \<Rightarrow> window_charges w ts u)"

section \<open>A sample history\<close>

text \<open>One waker token, its wake request and the calls around it; the witnesses evaluate them.\<close>

definition sample_host :: cap_host where
  "sample_host = \<lparr>host_hash_token = (\<lambda>t. t), host_hash_request = creq_id, host_encoded_size = (\<lambda>_. 10)\<rparr>"

definition sample_secret :: string where
  "sample_secret = replicate 40 (CHR ''s'')"

definition sample_token :: cap_token where
  "sample_token = \<lparr>tok_id = ''t1'', tok_hash = sample_secret, tok_role = WAKER, tok_audience = LAZYMC,
     tok_scopes = scopes_of WAKER, tok_profile = Some CAPABILITY_START_PROFILE, tok_created_at = 0,
     tok_expires_at = DAY, tok_rate_budget = 1, tok_rate_window_seconds = 60, tok_rate_window_started_at = 0,
     tok_rate_window_used = 0, tok_wake_cooldown_seconds = 60, tok_last_wake_at = None, tok_revoked_at = None\<rparr>"

definition sample_db :: cap_db where
  "sample_db = empty_db\<lparr>tokens := [sample_token]\<rparr>"

definition sample_wake :: capability_request where
  "sample_wake = \<lparr>creq_id = ''r1'', creq_kind = Kind_Wake, creq_window = []\<rparr>"

definition sample_rpc :: rpc_replies where
  "sample_rpc = \<lparr>rpc_status = Some (Status_Items [\<lparr>item_profile = CAPABILITY_START_PROFILE, item_slot_owner = None,
       item_state = STOPPED, item_health = UNKNOWN, item_ports_ready = False\<rparr>]), rpc_status_again = None,
     rpc_wait = None, rpc_start = None, rpc_tps = None\<rparr>"

text \<open>A second token, which the witness of revocation leaves alone.\<close>

definition sample_token2 :: cap_token where
  "sample_token2 = sample_token\<lparr>tok_id := ''t2'', tok_hash := CHR ''2'' # sample_secret\<rparr>"

definition sample_db2 :: cap_db where
  "sample_db2 = empty_db\<lparr>tokens := [sample_token, sample_token2]\<rparr>"


section \<open>What each operation changes\<close>

lemma audit_simps [simp]:
  "tokens (audit a db) = tokens db" "requests (audit a db) = requests db"
  "audit_log (audit a db) = audit_log db @ [a]" "last_pruned_at (audit a db) = last_pruned_at db"
  by (simp_all add: audit_def)

lemma update_token_simps [simp]:
  "requests (update_token tid f db) = requests db" "audit_log (update_token tid f db) = audit_log db"
  by (simp_all add: update_token_def)

lemma prune_tokens [simp]: "tokens (prune_status_retention now db) = tokens db"
  by (simp add: prune_status_retention_def)

lemma complete_tokens [simp]: "tokens (complete_request sz clock g rq body ok db) = tokens db"
  by (simp add: complete_request_def Let_def)

lemma wake_update_Some:
  assumes "wake_update now c t = Some u"
  shows "u = t\<lparr>tok_last_wake_at := Some now\<rparr>" "tok_revoked_at t = None"
    "case tok_last_wake_at t of None \<Rightarrow> True | Some w \<Rightarrow> iso_le w (now - c * SECOND)"
  using assms unfolding wake_update_def by (simp_all split: if_split_asm)

lemma window_update_Some:
  assumes "window_update now w t = Some u"
  shows "u = t\<lparr>tok_rate_window_started_at := (if iso_le (tok_rate_window_started_at t) (now - w * SECOND) then now
        else tok_rate_window_started_at t),
      tok_rate_window_used := (if iso_le (tok_rate_window_started_at t) (now - w * SECOND) then 1
        else tok_rate_window_used t + 1)\<rparr>"
    "tok_revoked_at t = None"
    "iso_le (tok_rate_window_started_at t) (now - w * SECOND) \<or> tok_rate_window_used t < tok_rate_budget t"
  using assms unfolding window_update_def Let_def by (simp_all split: if_split_asm)

lemma wake_update_ok: "wake_update now c t = Some u \<Longrightarrow> token_ok t \<Longrightarrow> token_ok u \<and> same_token t u"
  by (drule wake_update_Some(1)) (simp add: token_ok_def same_token_def)

lemma window_update_ok:
  assumes "window_update now w t = Some u" "token_ok t"
  shows "token_ok u \<and> same_token t u"
  using window_update_Some(3)[OF assms(1)] assms(2)
  unfolding window_update_Some(1)[OF assms(1)] by (auto simp: token_ok_def same_token_def)

lemma charge_token_Some:
  assumes "charge_token now g kind db = Some u" "list_all token_ok (tokens db)"
  obtains t where "find (\<lambda>t. tok_id t = tok_id g) (tokens db) = Some t" "token_ok u" "same_token t u"
    "token_ok t"
proof -
  obtain t where t: "find (\<lambda>t. tok_id t = tok_id g) (tokens db) = Some t"
      and "(if kind = Kind_Wake then wake_update now (tok_wake_cooldown_seconds g) t
        else window_update now (tok_rate_window_seconds g) t) = Some u"
    using assms(1) unfolding charge_token_def bind_eq_Some_conv by blast
  moreover have "token_ok t" using find_SomeD[OF t] assms(2) by (simp add: list_all_iff)
  ultimately show thesis using that wake_update_ok window_update_ok by (metis (full_types))
qed

lemma update_token_list:
  assumes "distinct (map tok_id (tokens db))" "find (\<lambda>t. tok_id t = tid) (tokens db) = Some t"
    "same_token t u"
  shows "map tok_id (tokens (update_token tid (\<lambda>_. u) db)) = map tok_id (tokens db)"
    "map tok_hash (tokens (update_token tid (\<lambda>_. u) db)) = map tok_hash (tokens db)"
    "map tok_revoked_at (tokens (update_token tid (\<lambda>_. u) db)) = map tok_revoked_at (tokens db)"
proof -
  have t: "t \<in> set (tokens db)" "tok_id t = tid" using find_SomeD[OF assms(2)] by simp_all
  have "x = t" if "x \<in> set (tokens db)" "tok_id x = tid" for x
    using distinct_map_inj_on_set[OF assms(1) that(1) t(1)] that(2) t(2) by simp
  then show "map tok_id (tokens (update_token tid (\<lambda>_. u) db)) = map tok_id (tokens db)"
    "map tok_hash (tokens (update_token tid (\<lambda>_. u) db)) = map tok_hash (tokens db)"
    "map tok_revoked_at (tokens (update_token tid (\<lambda>_. u) db)) = map tok_revoked_at (tokens db)"
    using assms(3) by (auto simp: update_token_def same_token_def)
qed

lemma consume_budget_ok:
  assumes "consume_budget clock g kind db = (res, db')" "cap_db_ok db"
  shows "cap_db_ok db' \<and> requests db' = requests db
    \<and> map tok_id (tokens db') = map tok_id (tokens db) \<and> map tok_hash (tokens db') = map tok_hash (tokens db)
    \<and> map tok_revoked_at (tokens db') = map tok_revoked_at (tokens db)"
proof (cases "charge_token (clock 2) g kind db")
  case None
  then show ?thesis using assms by (auto simp: consume_budget_def cap_db_ok_def)
next
  case (Some u)
  have ids: "distinct (map tok_id (tokens db))" and ok: "list_all token_ok (tokens db)"
    using assms(2) by (simp_all add: cap_db_ok_def)
  obtain t where t: "find (\<lambda>t. tok_id t = tok_id g) (tokens db) = Some t" "token_ok u" "same_token t u"
    using charge_token_Some[OF Some ok] by blast
  have db': "db' = update_token (tok_id g) (\<lambda>_. u) db" using assms(1) Some by (simp add: consume_budget_def)
  have "list_all token_ok (tokens db')"
    using ok t(2) by (auto simp: db' update_token_def list_all_iff)
  then show ?thesis
    using assms(2) update_token_list[OF ids t(1,3)] by (simp add: db' cap_db_ok_def)
qed

section \<open>Retention\<close>

lemma prune_requests_keeps: "r \<in> set rs \<Longrightarrow> \<not> routine_status r \<Longrightarrow> r \<in> set (prune_requests cutoff rs)"
  unfolding prune_requests_def by (intro cap_global_keeps cap_partitions_keeps) auto

lemma prune_requests_distinct: "distinct (map f rs) \<Longrightarrow> distinct (map f (prune_requests cutoff rs))"
  unfolding prune_requests_def
  by (intro cap_global_distinct cap_partitions_distinct) (simp add: distinct_map_filter)

lemma prune_audit_other:
  assumes "\<And>a. Q a \<Longrightarrow> \<not> routine_audit a"
  shows "filter Q (prune_audit cutoff rs) = filter Q rs"
proof -
  have "filter Q (filter (\<lambda>a. \<not> (routine_audit a \<and> iso_less (aud_timestamp a) cutoff)) rs) = filter Q rs"
    using assms by (auto simp: filter_filter intro!: filter_cong)
  then show ?thesis
    unfolding prune_audit_def using assms by (subst cap_global_other cap_partitions_other, blast)+
qed

lemma prune_requests_caps:
  "length (filter routine_status (prune_requests cutoff rs)) \<le> CAPABILITY_STATUS_REPLAY_GLOBAL_CAP"
  "length (filter (\<lambda>r. routine_status r \<and> row_token r = tid) (prune_requests cutoff rs))
     \<le> CAPABILITY_STATUS_REPLAY_PER_TOKEN_CAP"
  unfolding prune_requests_def
  by (rule cap_global_length) (rule order_trans[OF cap_global_filter_le cap_partitions_length])

lemma prune_audit_caps:
  "length (filter routine_audit (prune_audit cutoff rs)) \<le> CAPABILITY_STATUS_AUDIT_GLOBAL_CAP"
  "length (filter (\<lambda>a. (aud_token a \<noteq> None \<and> routine_audit a) \<and> aud_token a = tid) (prune_audit cutoff rs))
     \<le> CAPABILITY_STATUS_AUDIT_PER_TOKEN_CAP"
  unfolding prune_audit_def
  by (rule cap_global_length) (rule order_trans[OF cap_global_filter_le cap_partitions_length])

section \<open>Persistence of requests and revocations\<close>

lemma prune_ok:
  assumes "cap_db_ok db"
  shows "cap_db_ok (prune_status_retention now db)"
    and "accepted_key tid rid db \<Longrightarrow> accepted_key tid rid (prune_status_retention now db)"
proof -
  show "cap_db_ok (prune_status_retention now db)"
    using assms prune_requests_distinct[of request_key "requests db"]
    by (simp add: prune_status_retention_def cap_db_ok_def)
  show "accepted_key tid rid (prune_status_retention now db)" if "accepted_key tid rid db"
    using that prune_requests_keeps[of _ "requests db"]
    by (fastforce simp: prune_status_retention_def accepted_key_def routine_status_def)
qed

lemma completed_keys [simp]:
  "request_key (completed g rq b s r) = request_key r" "row_kind (completed g rq b s r) = row_kind r"
  by (simp_all add: completed_def request_key_def)

lemma complete_cases:
  obtains b s now a where "complete_request sz clock g rq body ok db
      = prune_status_retention now (audit a (db\<lparr>requests := map (completed g rq b s) (requests db)\<rparr>))"
proof -
  have "\<exists>b s now a. complete_request sz clock g rq body ok db
      = prune_status_retention now (audit a (db\<lparr>requests := map (completed g rq b s) (requests db)\<rparr>))"
    unfolding complete_request_def Let_def by blast
  then show thesis using that by blast
qed

lemma complete_ok:
  assumes "cap_db_ok db"
  shows "cap_db_ok (complete_request sz clock g rq body ok db)"
    and "accepted_key tid rid db \<Longrightarrow> accepted_key tid rid (complete_request sz clock g rq body ok db)"
proof -
  obtain b s now a where complete: "complete_request sz clock g rq body ok db
      = prune_status_retention now (audit a (db\<lparr>requests := map (completed g rq b s) (requests db)\<rparr>))"
    by (rule complete_cases)
  have mid: "cap_db_ok (audit a (db\<lparr>requests := map (completed g rq b s) (requests db)\<rparr>))"
    using assms unfolding cap_db_ok_def by (simp add: comp_def)
  then show "cap_db_ok (complete_request sz clock g rq body ok db)"
    unfolding complete by (rule prune_ok(1))
  assume "accepted_key tid rid db"
  then have "accepted_key tid rid (audit a (db\<lparr>requests := map (completed g rq b s) (requests db)\<rparr>))"
    by (auto simp: accepted_key_def)
  then show "accepted_key tid rid (complete_request sz clock g rq body ok db)"
    unfolding complete by (rule prune_ok(2)[OF mid])
qed

text \<open>An accepted request appends its row and its audit row to the charged database.\<close>

lemma admit_cases:
  assumes "admit_request clock canonical g rq db = (res, db')" "cap_db_ok db"
    "find_request (tok_id g) (creq_id rq) db = None"
  obtains (refused) e where "res = Inl e" "requests db' = requests db" "cap_db_ok db'"
      "map tok_id (tokens db') = map tok_id (tokens db)" "map tok_revoked_at (tokens db') = map tok_revoked_at (tokens db)"
  | (accepted) r where "res = Inr (g, None)" "requests db' = requests db @ [r]" "cap_db_ok db'"
      "request_key r = (tok_id g, creq_id rq)" "row_kind r = creq_kind rq"
      "map tok_id (tokens db') = map tok_id (tokens db)" "map tok_revoked_at (tokens db') = map tok_revoked_at (tokens db)"
proof -
  obtain out db1 where charge: "consume_budget clock g (creq_kind rq) db = (out, db1)"
    by (cases "consume_budget clock g (creq_kind rq) db")
  note ok = consume_budget_ok[OF charge assms(2)]
  show thesis
  proof (cases out)
    case (Inl e)
    then show thesis using refused[of e] assms(1) charge ok by (simp add: admit_request_def)
  next
    case (Inr u)
    define r where "r = \<lparr>row_token = tok_id g, row_request = creq_id rq,
                row_hash = canonical, row_response = None, row_status = Req_Pending,
                row_kind = creq_kind rq, row_successful = False, row_created_at = clock 3\<rparr>"
    have eq: "res = Inr (g, None)" "requests db' = requests db @ [r]" "tokens db' = tokens db1"
      using assms(1) charge Inr ok by (auto simp: admit_request_def r_def)
    have key: "request_key r = (tok_id g, creq_id rq)" "row_kind r = creq_kind rq"
      by (simp_all add: r_def request_key_def)
    have "request_key r \<notin> set (map request_key (requests db))"
      using assms(3) key by (auto simp: find_request_def find_None_iff request_key_def)
    then have "cap_db_ok db'" using ok assms(2) by (auto simp: cap_db_ok_def eq)
    then show thesis using accepted[of r] eq key ok by simp
  qed
qed

lemma find_request_key:
  "find_request tid rid db = Some r \<Longrightarrow> r \<in> set (requests db) \<and> request_key r = (tid, rid)"
  unfolding find_request_def request_key_def by (auto dest: find_SomeD)

lemma forget_replay_find:
  assumes "cap_db_ok db" "find_request (tok_id g) (creq_id rq) db = Some r" "routine_status r"
  shows "find_request (tok_id g) (creq_id rq) (db\<lparr>requests := forget_replay g rq (requests db)\<rparr>) = None"
proof -
  have "x = r" if "x \<in> set (requests db)" "request_key x = (tok_id g, creq_id rq)" for x
    using assms(1) that find_request_key[OF assms(2)]
    by (intro distinct_map_inj_on_set[of request_key "requests db"]) (simp_all add: cap_db_ok_def)
  then show ?thesis using assms(3)
    by (auto simp: find_request_def find_None_iff forget_replay_def routine_status_def request_key_def)
qed

text \<open>The outcomes of \<open>begin\<close>: no new row, or an admission, possibly after an expired replay was dropped.\<close>

lemma begin_cases:
  assumes "begin_request ht hr clock token audience rq db = (res, db')" "cap_db_ok db"
  obtains (unchanged) "requests db' = requests db" "tokens db' = tokens db" "\<nexists>g. res = Inr (g, None)"
      "audit_log db' = audit_log db \<or> (\<exists>a. audit_log db' = audit_log db @ [a])"
  | (admitted) g db1 where "grant ht (clock 0) token audience db = Inr g"
      "admit_request clock (hr rq) g rq db1 = (res, db')"
      "find_request (tok_id g) (creq_id rq) db1 = None" "cap_db_ok db1"
      "\<not> accepted_key (tok_id g) (creq_id rq) db" "tokens db1 = tokens db" "audit_log db1 = audit_log db"
      "\<And>tid rid. accepted_key tid rid db \<Longrightarrow> accepted_key tid rid db1"
proof (cases "grant ht (clock 0) token audience db")
  case (Inl e)
  then show thesis using unchanged assms(1) by (auto simp: begin_request_def)
next
  case (Inr g)
  show thesis
  proof (cases "find_request (tok_id g) (creq_id rq) db")
    case None
    then have "\<not> accepted_key (tok_id g) (creq_id rq) db"
      by (auto simp: find_request_def find_None_iff accepted_key_def request_key_def)
    then show thesis using admitted[OF Inr _ None assms(2)] assms(1) Inr None
      by (simp add: begin_request_def Let_def)
  next
    case (Some r)
    show thesis
    proof (cases "row_hash r = hr rq \<and> row_status r = Req_Completed \<and> row_response r \<noteq> None \<and> replay_expired (clock 1) r")
      case False
      then show thesis using unchanged assms(1) Inr Some
        by (auto simp: begin_request_def Let_def split: if_split_asm)
    next
      case True
      then have routine: "routine_status r" by (simp add: routine_status_def replay_expired_def)
      let ?db1 = "db\<lparr>requests := forget_replay g rq (requests db)\<rparr>"
      have ok: "cap_db_ok ?db1" using assms(2) by (simp add: cap_db_ok_def forget_replay_def distinct_map_filter)
      have "\<not> accepted_key (tok_id g) (creq_id rq) db"
      proof
        assume "accepted_key (tok_id g) (creq_id rq) db"
        then obtain x where "x \<in> set (requests db)" "request_key x = (tok_id g, creq_id rq)" "row_kind x \<noteq> Kind_Status"
          by (auto simp: accepted_key_def)
        moreover from this have "x = r" using assms(2) find_request_key[OF Some]
          by (intro distinct_map_inj_on_set[of request_key "requests db"]) (simp_all add: cap_db_ok_def)
        ultimately show False using routine by (simp add: routine_status_def)
      qed
      moreover have "admit_request clock (hr rq) g rq ?db1 = (res, db')"
        using assms(1) Inr Some True by (simp add: begin_request_def Let_def forget_replay_def)
      moreover have "accepted_key tid rid ?db1" if "accepted_key tid rid db" for tid rid
        using that by (auto simp: accepted_key_def forget_replay_def)
      ultimately show thesis
        using admitted[OF Inr _ forget_replay_find[OF assms(2) Some routine] ok] by simp
    qed
  qed
qed

lemma revoked_id_cong:
  assumes "map tok_id (tokens db') = map tok_id (tokens db)"
    "map tok_revoked_at (tokens db') = map tok_revoked_at (tokens db)"
  shows "revoked_id tid db' \<longleftrightarrow> revoked_id tid db"
proof -
  have zips: "set (zip (map tok_id xs) (map tok_revoked_at xs)) = (\<lambda>t. (tok_id t, tok_revoked_at t)) ` set xs" for xs
    by (induction xs) auto
  have "revoked_id tid d \<longleftrightarrow> (\<exists>y. (tid, Some y) \<in> set (zip (map tok_id (tokens d)) (map tok_revoked_at (tokens d))))" for d
    unfolding revoked_id_def zips by (auto simp: image_iff) metis+
  then show ?thesis using assms by simp
qed

lemma begin_ok:
  assumes "begin_request ht hr clock token audience rq db = (res, db')" "cap_db_ok db"
  shows "cap_db_ok db'" and "accepted_key tid rid db \<Longrightarrow> accepted_key tid rid db'"
    and "revoked_id tid db \<Longrightarrow> revoked_id tid db'"
proof -
  have "cap_db_ok db' \<and> (accepted_key tid rid db \<longrightarrow> accepted_key tid rid db') \<and> (revoked_id tid db \<longrightarrow> revoked_id tid db')"
    using assms
  proof (cases rule: begin_cases)
    case unchanged
    then show ?thesis using assms(2) by (simp add: cap_db_ok_def accepted_key_def revoked_id_def)
  next
    case (admitted g db1)
    from admitted(2,4,3) show ?thesis
    proof (cases rule: admit_cases)
      case (refused e)
      then show ?thesis using admitted(6) admitted(8)[of tid rid] revoked_id_cong[of db' db tid]
        by (simp add: accepted_key_def)
    next
      case (accepted r)
      then show ?thesis using admitted(6) admitted(8)[of tid rid] revoked_id_cong[of db' db tid]
        by (simp add: accepted_key_def)
    qed
  qed
  then show "cap_db_ok db'" "accepted_key tid rid db \<Longrightarrow> accepted_key tid rid db'"
    "revoked_id tid db \<Longrightarrow> revoked_id tid db'" by blast+
qed

lemma issue_ok:
  assumes "issue ht clock token_id token rq db = (res, db')" "cap_db_ok db"
  shows "cap_db_ok db'" and "requests db' = requests db" and "revoked_id tid db \<Longrightarrow> revoked_id tid db'"
    and "(\<exists>rows. audit_log db' = audit_log db @ rows)"
proof -
  have "cap_db_ok db' \<and> requests db' = requests db \<and> (revoked_id tid db \<longrightarrow> revoked_id tid db')
    \<and> (\<exists>rows. audit_log db' = audit_log db @ rows)"
  proof (cases "check_issue rq")
    case (Inl e)
    then show ?thesis using assms by (auto simp: issue_def)
  next
    case (Inr u)
    then have "1 \<le> iss_rate_budget rq" "1 \<le> iss_rate_window rq div SECOND" "0 \<le> iss_wake_cooldown rq div SECOND"
      by (auto simp: check_issue_def stage_simps)
    moreover have "ht token \<notin> tok_hash ` set (tokens db)" "token_id \<notin> tok_id ` set (tokens db)"
      if "\<not> list_ex (\<lambda>t. tok_id t = token_id \<or> tok_hash t = ht token) (tokens db)"
      using that by (auto simp: list_ex_iff)
    ultimately show ?thesis using assms Inr
      by (auto simp: issue_def Let_def cap_db_ok_def token_ok_def revoked_id_def split: if_split_asm)
  qed
  then show "cap_db_ok db'" "requests db' = requests db" "revoked_id tid db \<Longrightarrow> revoked_id tid db'"
    "\<exists>rows. audit_log db' = audit_log db @ rows" by blast+
qed

lemma revoke_ok:
  assumes "revoke clock token_id db = (res, db')" "cap_db_ok db"
  shows "cap_db_ok db'" and "requests db' = requests db" and "revoked_id tid db \<Longrightarrow> revoked_id tid db'"
    and "res = Inr () \<Longrightarrow> revoked_id token_id db'"
proof -
  define f where "f t = (if tok_revoked_at t = None then t\<lparr>tok_revoked_at := Some (clock 0)\<rparr> else t)" for t :: cap_token
  have f: "tok_id (f t) = tok_id t" "tok_hash (f t) = tok_hash t" "token_ok t \<Longrightarrow> token_ok (f t)"
      "tok_revoked_at (f t) \<noteq> None" for t
    by (auto simp: f_def token_ok_def)
  have res: "db' = db \<and> res \<noteq> Inr () \<or> (\<exists>a. db' = audit a (update_token token_id f db)
      \<and> list_ex (\<lambda>t. tok_id t = token_id) (tokens db))"
    using assms(1) by (auto simp: revoke_def f_def[abs_def] split: if_split_asm)
  have "cap_db_ok (update_token token_id f db)"
    using assms(2) f by (auto simp: cap_db_ok_def update_token_def list_all_iff comp_def if_distrib cong: if_cong)
  then show "cap_db_ok db'" using res assms(2) by (auto simp: cap_db_ok_def)
  show "requests db' = requests db" using res by auto
  have upd: "revoked_id tid (update_token token_id f db)" if "revoked_id tid db \<or> tid = token_id"
    "list_ex (\<lambda>t. tok_id t = token_id) (tokens db)" for tid
  proof -
    obtain t where t: "t \<in> set (tokens db)" "tok_id t = tid" "tid = token_id \<or> tok_revoked_at t \<noteq> None"
      using \<open>revoked_id tid db \<or> tid = token_id\<close> \<open>list_ex _ _\<close> by (auto simp: revoked_id_def list_ex_iff)
    then have "(if tok_id t = token_id then f t else t) \<in> set (tokens (update_token token_id f db))"
      by (simp add: update_token_def)
    then show ?thesis using t f(1,4) unfolding revoked_id_def by (metis (full_types))
  qed
  have aud: "revoked_id tid (audit a d) \<longleftrightarrow> revoked_id tid d" for tid a d by (simp add: revoked_id_def)
  show "revoked_id tid db'" if "revoked_id tid db" using that res upd aud by blast
  show "revoked_id token_id db'" if "res = Inr ()" using that res upd aud by blast
qed

lemma cap_step_ok:
  assumes "cap_db_ok db"
  shows "cap_db_ok (cap_step h c db)" and "accepted_key tid rid db \<Longrightarrow> accepted_key tid rid (cap_step h c db)"
    and "revoked_id tid db \<Longrightarrow> revoked_id tid (cap_step h c db)"
proof -
  have "cap_db_ok (cap_step h c db) \<and> (accepted_key tid rid db \<longrightarrow> accepted_key tid rid (cap_step h c db))
    \<and> (revoked_id tid db \<longrightarrow> revoked_id tid (cap_step h c db))"
  proof (cases c)
    case (Issue clock token_id token rq)
    obtain res db' where "issue (host_hash_token h) clock token_id token rq db = (res, db')" by (cases "issue (host_hash_token h) clock token_id token rq db")
    then show ?thesis using issue_ok(1-3)[OF _ assms] Issue
      by (simp add: accepted_key_def)
  next
    case (Revoke clock token_id)
    obtain res db' where "revoke clock token_id db = (res, db')" by (cases "revoke clock token_id db")
    then show ?thesis using revoke_ok(1-3)[OF _ assms] Revoke
      by (simp add: accepted_key_def)
  next
    case (Begin clock token audience rq)
    obtain res db' where "begin_request (host_hash_token h) (host_hash_request h) clock token audience rq db = (res, db')"
      by (cases "begin_request (host_hash_token h) (host_hash_request h) clock token audience rq db")
    then show ?thesis using begin_ok[OF _ assms] Begin by simp
  next
    case (Complete clock g rq body ok)
    then show ?thesis using complete_ok[OF assms] by (simp add: revoked_id_def)
  qed
  then show "cap_db_ok (cap_step h c db)" "accepted_key tid rid db \<Longrightarrow> accepted_key tid rid (cap_step h c db)"
    "revoked_id tid db \<Longrightarrow> revoked_id tid (cap_step h c db)" by blast+
qed

lemma cap_run_ok:
  assumes "cap_db_ok db"
  shows "cap_db_ok (cap_run h cs db)" and "accepted_key tid rid db \<Longrightarrow> accepted_key tid rid (cap_run h cs db)"
    and "revoked_id tid db \<Longrightarrow> revoked_id tid (cap_run h cs db)"
proof -
  have "cap_db_ok (cap_run h cs db) \<and> (accepted_key tid rid db \<longrightarrow> accepted_key tid rid (cap_run h cs db))
    \<and> (revoked_id tid db \<longrightarrow> revoked_id tid (cap_run h cs db))"
    using assms
  proof (induction cs arbitrary: db)
    case Nil
    then show ?case by (simp add: cap_run_def)
  next
    case (Cons c cs)
    then show ?case using cap_step_ok[OF Cons.prems] by (auto simp: cap_run_def)
  qed
  then show "cap_db_ok (cap_run h cs db)" "accepted_key tid rid db \<Longrightarrow> accepted_key tid rid (cap_run h cs db)"
    "revoked_id tid db \<Longrightarrow> revoked_id tid (cap_run h cs db)" by blast+
qed

lemma empty_db_ok: "cap_db_ok empty_db"
  by (simp add: cap_db_ok_def empty_db_def)

section \<open>What a request may do\<close>

text \<open>The controller actions open to a role.\<close>

lemma dispatch_wake_actions:
  assumes "dispatch_wake rpc = (body, actions)"
  shows "set actions \<subseteq> {Get_Status, Wait_Readiness CAPABILITY_START_PROFILE, Start_Profile CAPABILITY_START_PROFILE}"
    "Start_Profile p \<in> set actions \<Longrightarrow> (\<exists>items t. rpc_status rpc = Some (Status_Items items)
       \<and> find (\<lambda>i. item_profile i = CAPABILITY_START_PROFILE) items = Some t \<and> item_slot_owner t = None)"
proof -
  have start: "set (snd (start_target rpc)) \<subseteq> {Get_Status, Start_Profile CAPABILITY_START_PROFILE}"
    by (auto simp: start_target_def split: sum.split plain_reply.split)
  have after: "set (snd (after_preflight rpc pre)) \<subseteq> {Get_Status, Wait_Readiness CAPABILITY_START_PROFILE, Start_Profile CAPABILITY_START_PROFILE}
      \<and> (Start_Profile p \<in> set (snd (after_preflight rpc pre)) \<longrightarrow> (\<exists>items t. pre = Status_Items items
       \<and> find (\<lambda>i. item_profile i = CAPABILITY_START_PROFILE) items = Some t \<and> item_slot_owner t = None))" for pre
    using start
    by (cases pre) (auto simp: after_preflight_def wake_target_def active_wake_result_def split: option.split)
  show "set actions \<subseteq> {Get_Status, Wait_Readiness CAPABILITY_START_PROFILE, Start_Profile CAPABILITY_START_PROFILE}"
    "Start_Profile p \<in> set actions \<Longrightarrow> \<exists>items t. rpc_status rpc = Some (Status_Items items)
       \<and> find (\<lambda>i. item_profile i = CAPABILITY_START_PROFILE) items = Some t \<and> item_slot_owner t = None"
  proof (atomize(full), cases "rpc_status rpc")
    case (Some pre)
    then have "actions = Get_Status # snd (after_preflight rpc pre)"
      using assms by (simp add: dispatch_wake_def called_def split: prod.splits)
    then show "set actions \<subseteq> {Get_Status, Wait_Readiness CAPABILITY_START_PROFILE, Start_Profile CAPABILITY_START_PROFILE}
      \<and> (Start_Profile p \<in> set actions \<longrightarrow> (\<exists>items t. rpc_status rpc = Some (Status_Items items)
       \<and> find (\<lambda>i. item_profile i = CAPABILITY_START_PROFILE) items = Some t \<and> item_slot_owner t = None))"
      using after[of pre] Some by simp
  qed (use assms in \<open>auto simp: dispatch_wake_def called_def\<close>)
qed

text \<open>A grant is a stored row.\<close>

lemma grant_stored:
  assumes "grant ht now token audience db = Inr g"
  shows "g \<in> set (tokens db)" "tok_revoked_at g = None" "now < tok_expires_at g" "tok_audience g = audience"
    "validate_binding (tok_role g) (tok_audience g) (tok_profile g) = Inr ()"
proof -
  have f: "find_token ht token db = Some g" "tok_revoked_at g = None \<and> now < tok_expires_at g \<and> tok_audience g = audience
    \<and> validate_binding (tok_role g) (tok_audience g) (tok_profile g) = Inr ()"
    using assms unfolding grant_def
    by (auto simp: stage_simps split: option.splits sum.splits)
  then show "g \<in> set (tokens db)" "tok_revoked_at g = None" "now < tok_expires_at g" "tok_audience g = audience"
    "validate_binding (tok_role g) (tok_audience g) (tok_profile g) = Inr ()"
    by (auto simp: find_token_def dest: find_SomeD)
qed

lemma begin_grant:
  assumes "begin_request ht hr clock token audience rq db = (Inr (g, replay), db')"
  shows "grant ht (clock 0) token audience db = Inr g"
proof (cases "grant ht (clock 0) token audience db")
  case (Inl e)
  then show ?thesis using assms by (simp add: begin_request_def)
next
  case (Inr g')
  have "fst (admit_request clock c g' rq d) = Inr (g, replay) \<Longrightarrow> g = g'" for c d
    by (auto simp: admit_request_def split: prod.splits sum.splits)
  then have "g = g'" using assms Inr
    by (auto simp: begin_request_def Let_def split: option.splits if_split_asm) (metis fst_conv)+
  then show ?thesis using Inr by simp
qed

text \<open>C37. What an external agent can make the controller do: the actions sent while one request is
  handled are reads, unless the token's role is \<open>WAKER\<close>; then they are a status read, a wait
  and a start of the one profile the boundary may start, and the start is sent only when
  the status read just before showed that profile with a free game slot.  A request the store
  refuses or replays sends nothing.\<close>

theorem handle_confined:
  assumes "cap_db_ok db"
    "handle ht hr render sz clock clock' token audience rq rpc db = (res, actions, db')"
    "a \<in> set actions"
  shows "\<exists>g \<in> set (tokens db). tok_revoked_at g = None \<and> clock 0 < tok_expires_at g \<and> tok_audience g = audience
    \<and> (a = Get_Status
       \<or> a = Wait_Readiness CAPABILITY_START_PROFILE \<and> tok_role g = WAKER \<and> creq_kind rq = Kind_Wake
       \<or> a = Start_Profile CAPABILITY_START_PROFILE \<and> tok_role g = WAKER \<and> creq_kind rq = Kind_Wake
         \<and> (\<exists>items t. rpc_status rpc = Some (Status_Items items)
             \<and> find (\<lambda>i. item_profile i = CAPABILITY_START_PROFILE) items = Some t \<and> item_slot_owner t = None)
       \<or> a = Get_Stats_Tps CAPABILITY_START_PROFILE (creq_window rq) \<and> tok_role g = OBSERVER \<and> creq_kind rq = Kind_Tps)"
proof -
  obtain out db1 where b: "begin_request ht hr clock token audience rq db = (out, db1)"
    by (cases "begin_request ht hr clock token audience rq db")
  obtain g where g: "out = Inr (g, None)" "a \<in> set (snd (dispatch g rq rpc))"
    using assms(2,3) b unfolding handle_def by (auto split: sum.splits prod.splits option.splits)
  have grant: "grant ht (clock 0) token audience db = Inr g" using begin_grant b g(1) by blast
  note stored = grant_stored[OF grant]
  have scopes: "tok_scopes g = scopes_of (tok_role g)"
    using assms(1) stored(1) by (auto simp: cap_db_ok_def list_all_iff token_ok_def)
  obtain u where chk: "check_scope g (creq_kind rq) = Inr u"
    using g(2) unfolding dispatch_def by (cases "check_scope g (creq_kind rq)") auto
  obtain body acts where w: "dispatch_wake rpc = (body, acts)" by (cases "dispatch_wake rpc")
  have role: "creq_kind rq = Kind_Wake \<Longrightarrow> tok_role g = WAKER" "creq_kind rq = Kind_Tps \<Longrightarrow> tok_role g = OBSERVER"
    using chk scopes by (cases "tok_role g"; auto simp: check_scope_def)+
  show ?thesis
  proof (intro bexI[of _ g] conjI)
    show "a = Get_Status
       \<or> a = Wait_Readiness CAPABILITY_START_PROFILE \<and> tok_role g = WAKER \<and> creq_kind rq = Kind_Wake
       \<or> a = Start_Profile CAPABILITY_START_PROFILE \<and> tok_role g = WAKER \<and> creq_kind rq = Kind_Wake
         \<and> (\<exists>items t. rpc_status rpc = Some (Status_Items items)
             \<and> find (\<lambda>i. item_profile i = CAPABILITY_START_PROFILE) items = Some t \<and> item_slot_owner t = None)
       \<or> a = Get_Stats_Tps CAPABILITY_START_PROFILE (creq_window rq) \<and> tok_role g = OBSERVER \<and> creq_kind rq = Kind_Tps"
    proof (cases "creq_kind rq")
      case Kind_Wake
      then have "a \<in> set acts" using g(2) chk w by (simp add: dispatch_def)
      then show ?thesis using dispatch_wake_actions[OF w] role(1) Kind_Wake by blast
    qed (use g(2) chk role in \<open>simp_all add: dispatch_def\<close>)
  qed (use stored in simp_all)
qed

section \<open>Requests run once, revocation is final\<close>

text \<open>C38. A wake or statistics request that was accepted once is never accepted again: after any further
  calls on the store, in any order and including completions, retention runs and reissued
  tokens, \<open>begin\<close> with the same token and request id can only replay the stored response; it never
  asks the service to dispatch it a second time.\<close>

theorem accepted_request_runs_once:
  assumes "cap_db_ok db"
    "begin_request (host_hash_token h) (host_hash_request h) clock token audience rq db = (Inr (g, None), db1)"
    "creq_kind rq \<noteq> Kind_Status"
    "begin_request (host_hash_token h) (host_hash_request h) clock' token' audience' rq' (cap_run h calls db1)
       = (Inr (g', replay), db2)"
    "tok_id g' = tok_id g" "creq_id rq' = creq_id rq"
  shows "replay \<noteq> None"
proof
  assume none: "replay = None"
  note b1 = assms(2)
  have ok1: "cap_db_ok db1" using begin_ok(1)[OF b1 assms(1)] .
  have key: "accepted_key (tok_id g) (creq_id rq) db1"
    using b1 assms(1)
  proof (cases rule: begin_cases)
    case unchanged
    then show ?thesis by simp
  next
    case (admitted k d)
    from admitted(2,4,3) show ?thesis
      by (cases rule: admit_cases) (use assms(3) in \<open>auto simp: accepted_key_def\<close>)
  qed
  have ok: "cap_db_ok (cap_run h calls db1)"
    and key': "accepted_key (tok_id g) (creq_id rq) (cap_run h calls db1)"
    using cap_run_ok[OF ok1] key by blast+
  from assms(4) ok show False
  proof (cases rule: begin_cases)
    case unchanged
    then show ?thesis using none by simp
  next
    case (admitted k d)
    then have "k = g'" using begin_grant[OF assms(4)] by simp
    then show ?thesis using admitted(5) key' assms(5,6) by simp
  qed
qed

text \<open>C39. Revocation is final: once \<open>revoke\<close> has succeeded for a token id, no later call sequence makes
  \<open>begin\<close> grant anything to that token id again.\<close>

theorem revocation_final:
  assumes "cap_db_ok db" "revoke clock token_id db = (Inr (), db1)"
    "begin_request (host_hash_token h) (host_hash_request h) clock' token audience rq (cap_run h calls db1)
       = (Inr (g, replay), db2)"
  shows "tok_id g \<noteq> token_id"
proof
  assume id: "tok_id g = token_id"
  have ok1: "cap_db_ok db1" and rev: "revoked_id token_id db1"
    using revoke_ok[OF assms(2,1)] by blast+
  have ok: "cap_db_ok (cap_run h calls db1)" and "revoked_id token_id (cap_run h calls db1)"
    using cap_run_ok[OF ok1] rev by blast+
  then obtain t where t: "t \<in> set (tokens (cap_run h calls db1))" "tok_id t = token_id" "tok_revoked_at t \<noteq> None"
    by (auto simp: revoked_id_def)
  note g = grant_stored(1,2)[OF begin_grant[OF assms(3)]]
  have "g = t" using ok g(1) t(1,2) id
    by (intro distinct_map_inj_on_set[of tok_id]) (simp_all add: cap_db_ok_def)
  then show False using g(2) t(3) by simp
qed

section \<open>Retention bounds what it selects, and only that\<close>

text \<open>A retention run leaves at most the configured number of routine status replays and status
  audit rows, in total and per token, and deletes nothing else: wake, statistics, pending and failed requests all stay.\<close>

theorem retention_bounds:
  assumes "last_pruned_at db + CAPABILITY_RETENTION_MAINTENANCE_INTERVAL \<le> now"
  shows "length (filter routine_status (requests (prune_status_retention now db))) \<le> 4096
    \<and> length (filter (\<lambda>r. routine_status r \<and> row_token r = tid) (requests (prune_status_retention now db))) \<le> 128
    \<and> length (filter routine_audit (audit_log (prune_status_retention now db))) \<le> 8192
    \<and> length (filter (\<lambda>a. (aud_token a \<noteq> None \<and> routine_audit a) \<and> aud_token a = Some tid)
         (audit_log (prune_status_retention now db))) \<le> 256
    \<and> (\<forall>r. r \<in> set (requests db) \<and> \<not> routine_status r \<longrightarrow> r \<in> set (requests (prune_status_retention now db)))
    \<and> filter (\<lambda>a. \<not> routine_audit a) (audit_log (prune_status_retention now db)) = filter (\<lambda>a. \<not> routine_audit a) (audit_log db)"
proof -
  let ?cut = "now - CAPABILITY_STATUS_REPLAY_WINDOW"
  have eq: "requests (prune_status_retention now db) = prune_requests ?cut (requests db)"
    "audit_log (prune_status_retention now db) = prune_audit ?cut (audit_log db)"
    using assms by (simp_all add: prune_status_retention_def)
  show ?thesis unfolding eq
    using prune_requests_caps(1)[of ?cut "requests db"] prune_requests_caps(2)[of tid ?cut "requests db"]
      prune_audit_caps(1)[of ?cut "audit_log db"] prune_audit_caps(2)[of "Some tid" ?cut "audit_log db"]
      prune_requests_keeps[of _ "requests db" ?cut] prune_audit_other[of "\<lambda>a. \<not> routine_audit a" ?cut "audit_log db"]
    by (simp add: CAPABILITY_STATUS_REPLAY_GLOBAL_CAP_def CAPABILITY_STATUS_REPLAY_PER_TOKEN_CAP_def
        CAPABILITY_STATUS_AUDIT_GLOBAL_CAP_def CAPABILITY_STATUS_AUDIT_PER_TOKEN_CAP_def)
qed

lemma prune_request_audit: "filter request_audit (audit_log (prune_status_retention now db)) = filter request_audit (audit_log db)"
  using prune_audit_other[of request_audit] by (simp add: prune_status_retention_def request_audit_def routine_audit_def)

lemma consume_audit_count: "audit_count db \<le> audit_count (snd (consume_budget clock g kind db))"
  by (auto simp: consume_budget_def audit_count_def split: option.split)

lemma admit_audit_count:
  "audit_count d + (if fst (admit_request clock c g rq d) = Inr (g, None) then 1 else 0)
     \<le> audit_count (snd (admit_request clock c g rq d))"
  using consume_audit_count[of d clock g "creq_kind rq"]
  by (auto simp: admit_request_def audit_count_def request_audit_def audit_row_def split: prod.splits sum.splits)

lemma admit_fst: "fst (admit_request clock c g rq d) = Inr (k, None) \<Longrightarrow> k = g"
  by (auto simp: admit_request_def split: prod.splits sum.splits)

lemma begin_audit_count:
  assumes "begin_request ht hr clock token audience rq db = (res, db')" "cap_db_ok db"
  shows "audit_count db + (if \<exists>g. res = Inr (g, None) then 1 else 0) \<le> audit_count db'"
  using assms
proof (cases rule: begin_cases)
  case unchanged
  then have "audit_count db \<le> audit_count db'" by (auto simp: audit_count_def)
  then show ?thesis using unchanged(3) by simp
next
  case (admitted g db1)
  have "audit_count db1 = audit_count db" using admitted(7) by (simp add: audit_count_def)
  moreover have "audit_count db1 + (if res = Inr (g, None) then 1 else 0) \<le> audit_count db'"
    using admit_audit_count[of db1 clock "hr rq" g rq] admitted(2) by simp
  moreover have "(\<exists>k. res = Inr (k, None)) \<longleftrightarrow> res = Inr (g, None)"
    using admit_fst[of clock "hr rq" g rq db1] admitted(2) by auto
  ultimately show ?thesis by simp
qed

lemma cap_step_audit_count:
  assumes "cap_db_ok db"
  shows "audit_count db + (if accepts h c db then 1 else 0) \<le> audit_count (cap_step h c db)"
proof (cases c)
  case (Issue clock token_id token rq)
  then show ?thesis by (auto simp: issue_def audit_count_def Let_def split: sum.split)
next
  case (Revoke clock token_id)
  then show ?thesis by (auto simp: revoke_def audit_count_def)
next
  case (Begin clock token audience rq)
  obtain res db' where b: "begin_request (host_hash_token h) (host_hash_request h) clock token audience rq db = (res, db')"
    by (cases "begin_request (host_hash_token h) (host_hash_request h) clock token audience rq db")
  have "accepts h c db \<longleftrightarrow> (\<exists>g. res = Inr (g, None))"
    using b Begin by (auto split: sum.split prod.split option.split)
  then show ?thesis using begin_audit_count[OF b assms] b Begin by simp
next
  case (Complete clock g rq body ok)
  obtain b s now a where "complete_request (host_encoded_size h) clock g rq body ok db
      = prune_status_retention now (audit a (db\<lparr>requests := map (completed g rq b s) (requests db)\<rparr>))"
    by (rule complete_cases)
  then show ?thesis using Complete by (simp add: audit_count_def prune_request_audit)
qed

lemma cap_run_Cons: "cap_run h (c # cs) db = cap_run h cs (cap_step h c db)"
  by (simp add: cap_run_def)

text \<open>The audit rows of accepted requests are outside every retention statement: they are written with the
  action \<open>request\<close> while retention selects the action \<open>status\<close>.  So the audit table holds at least
  one row per request ever accepted, with no bound.\<close>

theorem accepted_audit_unbounded:
  assumes "cap_db_ok db"
  shows "length (filter request_audit (audit_log db)) + accepted_count h calls db
    \<le> length (filter request_audit (audit_log (cap_run h calls db)))"
  using assms
proof (induction calls arbitrary: db)
  case Nil
  then show ?case by (simp add: cap_run_def)
next
  case (Cons c cs)
  show ?case
    using Cons.IH[OF cap_step_ok(1)[OF Cons.prems, of h c]] cap_step_audit_count[OF Cons.prems, of h c]
    unfolding audit_count_def cap_run_Cons by simp
qed

section \<open>The rate window\<close>

text \<open>Among the next \<open>budget - used + 1\<close> accepted charges one opens a new window.\<close>

lemma window_reset:
  assumes "window_charges w ts t = Some v" "int (length ts) > tok_rate_budget t - tok_rate_window_used t"
    "tok_rate_window_used t \<le> tok_rate_budget t"
  shows "\<exists>as now bs u. ts = as @ now # bs \<and> int (length as) \<le> tok_rate_budget t - tok_rate_window_used t
    \<and> iso_le (tok_rate_window_started_at t) (now - w * SECOND) \<and> window_charges w bs u = Some v
    \<and> tok_rate_window_started_at u = now \<and> tok_rate_window_used u = 1 \<and> tok_rate_budget u = tok_rate_budget t"
  using assms
proof (induction ts arbitrary: t)
  case Nil
  then show ?case by simp
next
  case (Cons now ts)
  obtain t1 where t1: "window_update now w t = Some t1" "window_charges w ts t1 = Some v"
    using Cons.prems(1) by (auto split: option.splits)
  note upd = window_update_Some[OF t1(1)]
  show ?case
  proof (cases "iso_le (tok_rate_window_started_at t) (now - w * SECOND)")
    case True
    then show ?thesis using upd t1(2) Cons.prems(3)
      by (intro exI[of _ "[]"] exI[of _ now] exI[of _ ts] exI[of _ t1]) simp
  next
    case False
    then have f: "tok_rate_window_used t1 = tok_rate_window_used t + 1" "tok_rate_budget t1 = tok_rate_budget t"
        "tok_rate_window_started_at t1 = tok_rate_window_started_at t" "tok_rate_window_used t < tok_rate_budget t"
      using upd(1,3) by simp_all
    have "int (length ts) > tok_rate_budget t1 - tok_rate_window_used t1" "tok_rate_window_used t1 \<le> tok_rate_budget t1"
      using f Cons.prems(2) by simp_all
    from Cons.IH[OF t1(2) this] obtain as now' bs u where
      "ts = as @ now' # bs" "int (length as) \<le> tok_rate_budget t1 - tok_rate_window_used t1"
      "iso_le (tok_rate_window_started_at t1) (now' - w * SECOND)" "window_charges w bs u = Some v"
      "tok_rate_window_started_at u = now'" "tok_rate_window_used u = 1" "tok_rate_budget u = tok_rate_budget t1"
      by blast
    then show ?thesis using f
      by (intro exI[of _ "now # as"] exI[of _ now'] exI[of _ bs] exI[of _ u]) simp
  qed
qed

text \<open>The rate budget: more than twice the budget of accepted status and statistics requests of one
  token, at non-decreasing times, spread over more than the rate window less one second.  (Twice,
  because the window is fixed: one can be exhausted at its end and the next at its start.  The
  second is the resolution at which the stored texts are ordered.)\<close>

theorem rate_window_bound:
  assumes "token_ok t" "window_charges w ts t = Some v" "sorted ts"
    "int (length ts) > 2 * tok_rate_budget t"
  shows "last ts - hd ts > w * SECOND - SECOND"
proof -
  have b: "1 \<le> tok_rate_budget t" "0 \<le> tok_rate_window_used t" "tok_rate_window_used t \<le> tok_rate_budget t"
    using assms(1) by (simp_all add: token_ok_def)
  then have "int (length ts) > tok_rate_budget t - tok_rate_window_used t" using assms(4) by linarith
  from window_reset[OF assms(2) this b(3)] obtain as now bs u where one:
    "ts = as @ now # bs" "int (length as) \<le> tok_rate_budget t - tok_rate_window_used t" "window_charges w bs u = Some v"
    "tok_rate_window_started_at u = now" "tok_rate_window_used u = 1" "tok_rate_budget u = tok_rate_budget t"
    by blast
  have "int (length bs) > tok_rate_budget u - tok_rate_window_used u"
    using one(1,2,5,6) assms(4) b by simp
  moreover have "tok_rate_window_used u \<le> tok_rate_budget u" using one(5,6) b by simp
  ultimately obtain cs later ds where two: "bs = cs @ later # ds"
      "iso_le (tok_rate_window_started_at u) (later - w * SECOND)"
    using window_reset[OF one(3)] by blast
  have "now < later - w * SECOND + SECOND" using iso_le_within[OF two(2)] one(4) by simp
  moreover have "hd ts \<le> now"
    using assms(3) unfolding one(1) by (cases as) simp_all
  moreover have "later \<le> last ts"
    using assms(3) unfolding one(1) two(1) by (cases ds) (simp_all add: sorted_append)
  ultimately show ?thesis by linarith
qed

section \<open>Witnesses\<close>

lemma sample_db_ok: "cap_db_ok sample_db"
  by code_simp

theorem handle_confined_witness:
  "\<exists>g \<in> set (tokens sample_db). tok_role g = WAKER
     \<and> Start_Profile CAPABILITY_START_PROFILE \<in> set (fst (snd (handle (\<lambda>t. t) creq_id (\<lambda>_. JNull) (\<lambda>_. 10) (\<lambda>_. HOUR) (\<lambda>_. HOUR)
           sample_secret LAZYMC sample_wake sample_rpc sample_db)))"
proof -
  let ?h = "handle (\<lambda>t. t) creq_id (\<lambda>_. JNull) (\<lambda>_. 10) (\<lambda>_. HOUR) (\<lambda>_. HOUR) sample_secret LAZYMC sample_wake sample_rpc sample_db"
  have start: "Start_Profile CAPABILITY_START_PROFILE \<in> set (fst (snd ?h))" by code_simp
  have "?h = (fst ?h, fst (snd ?h), snd (snd ?h))" by simp
  from handle_confined[OF sample_db_ok this start] start show ?thesis by auto
qed

theorem accepted_request_runs_once_witness:
  "\<exists>g replay db2. begin_request (\<lambda>t. t) creq_id (\<lambda>_. HOUR) sample_secret LAZYMC sample_wake
      (cap_run sample_host [Complete (\<lambda>_. HOUR) sample_token sample_wake JNull True]
        (snd (begin_request (\<lambda>t. t) creq_id (\<lambda>_. HOUR) sample_secret LAZYMC sample_wake sample_db)))
      = (Inr (g, replay), db2) \<and> replay \<noteq> None"
proof -
  let ?b = "begin_request (\<lambda>t. t) creq_id (\<lambda>_. HOUR) sample_secret LAZYMC sample_wake sample_db"
  let ?c = "begin_request (\<lambda>t. t) creq_id (\<lambda>_. HOUR) sample_secret LAZYMC sample_wake
      (cap_run sample_host [Complete (\<lambda>_. HOUR) sample_token sample_wake JNull True] (snd ?b))"
  have "fst ?b = Inr (sample_token, None)" by code_simp
  then have b: "?b = (Inr (sample_token, None), snd ?b)" by (simp add: prod_eq_iff)
  have "case fst ?c of Inr (g, r) \<Rightarrow> tok_id g = ''t1'' | Inl _ \<Rightarrow> False" by code_simp
  then obtain g r where "fst ?c = Inr (g, r)" and id: "tok_id g = ''t1''" by (auto split: sum.splits)
  then have c: "?c = (Inr (g, r), snd ?c)" by (simp add: prod_eq_iff)
  have "creq_kind sample_wake \<noteq> Kind_Status" "tok_id g = tok_id sample_token"
    using id by (simp_all add: sample_wake_def sample_token_def)
  then have "r \<noteq> None"
    using accepted_request_runs_once[OF sample_db_ok, of sample_host "\<lambda>_. HOUR" sample_secret LAZYMC sample_wake sample_token "snd ?b" "\<lambda>_. HOUR" sample_secret LAZYMC sample_wake _ g r "snd ?c"] b c
    by (simp add: sample_host_def)
  then show ?thesis using c by blast
qed

theorem revocation_final_witness:
  "\<exists>g replay db2. begin_request (\<lambda>t. t) creq_id (\<lambda>_. HOUR) (CHR ''2'' # sample_secret) LAZYMC sample_wake
      (cap_run sample_host [] (snd (revoke (\<lambda>_. MINUTE) ''t1'' sample_db2))) = (Inr (g, replay), db2) \<and> tok_id g \<noteq> ''t1''"
proof -
  have ok: "cap_db_ok sample_db2" by code_simp
  have r: "revoke (\<lambda>_. MINUTE) ''t1'' sample_db2 = (Inr (), snd (revoke (\<lambda>_. MINUTE) ''t1'' sample_db2))"
    by (simp add: revoke_def sample_db2_def sample_token_def empty_db_def)
  let ?c = "begin_request (\<lambda>t. t) creq_id (\<lambda>_. HOUR) (CHR ''2'' # sample_secret) LAZYMC sample_wake
      (cap_run sample_host [] (snd (revoke (\<lambda>_. MINUTE) ''t1'' sample_db2)))"
  have "case fst ?c of Inr _ \<Rightarrow> True | Inl _ \<Rightarrow> False" by code_simp
  then obtain g p where "fst ?c = Inr (g, p)" by (auto split: sum.splits)
  then have c: "?c = (Inr (g, p), snd ?c)" by (simp add: prod_eq_iff)
  have "tok_id g \<noteq> ''t1''"
    using revocation_final[OF ok r, of sample_host "\<lambda>_. HOUR" "CHR ''2'' # sample_secret" LAZYMC sample_wake "[]" g p "snd ?c"] c
    by (simp add: sample_host_def)
  then show ?thesis using c by blast
qed

theorem retention_bounds_witness:
  "length (filter routine_status (requests (prune_status_retention HOUR sample_db))) \<le> 4096"
  using retention_bounds[of sample_db HOUR "''t1''"]
  by (simp add: sample_db_def empty_db_def CAPABILITY_RETENTION_MAINTENANCE_INTERVAL_def)

theorem accepted_audit_unbounded_witness:
  "accepted_count sample_host [Begin (\<lambda>_. HOUR) sample_secret LAZYMC sample_wake] sample_db = 1
    \<and> 1 \<le> length (filter request_audit (audit_log (cap_run sample_host [Begin (\<lambda>_. HOUR) sample_secret LAZYMC sample_wake] sample_db)))"
proof -
  have "accepted_count sample_host [Begin (\<lambda>_. HOUR) sample_secret LAZYMC sample_wake] sample_db = 1" by code_simp
  then show ?thesis
    using accepted_audit_unbounded[OF sample_db_ok, of sample_host "[Begin (\<lambda>_. HOUR) sample_secret LAZYMC sample_wake]"] by simp
qed

theorem rate_window_bound_witness:
  "\<exists>v. window_charges 60 [HOUR, HOUR + MINUTE, HOUR + 2 * MINUTE] sample_token = Some v
     \<and> (HOUR + 2 * MINUTE) - HOUR > 60 * SECOND - SECOND"
proof -
  have t: "token_ok sample_token" by code_simp
  have c: "case window_charges 60 [HOUR, HOUR + MINUTE, HOUR + 2 * MINUTE] sample_token of Some _ \<Rightarrow> True | None \<Rightarrow> False"
    by code_simp
  then obtain v where "window_charges 60 [HOUR, HOUR + MINUTE, HOUR + 2 * MINUTE] sample_token = Some v"
    by (auto split: option.splits)
  with rate_window_bound[OF t this] show ?thesis by (simp add: sample_token_def)
qed

end
