(* ===== verification/Control_State.thy ===== *)
theory Control_State
  imports Iso_Time
begin

text \<open>
  The durable state of the root controller (\<^verbatim>\<open>src/game_control/controller.py\<close>, tables of
  \<^verbatim>\<open>state_db.py\<close>): jobs, audit, events, confirmations, idempotent replies and the state generation, with
  the transactions that read and write them.  Every transaction runs under the controller's
  transition lock and the operation lock, so a history of the database is a sequence of these
  transactions in any order.

  Environment.  \<open>clock\<close> gives the readings of the clock inside one call.  Identifiers drawn with
  \<^verbatim>\<open>uuid4\<close> are arguments; inserting one that is stored already violates the primary key.
  \<open>rpc_codec\<close> stands for the pydantic adapter that writes and reads a response as JSON text.
  The generation is SQLite's \<^verbatim>\<open>application_id\<close>; its 32-bit limit is not modelled.
\<close>

section \<open>Errors and responses\<close>

datatype error_code =
    SLOT_CONFLICT | PROFILE_RESERVED | LOW_DISK | LOW_MEMORY | REQUIRED_FILE_MISSING
  | UPSTREAM_UNAVAILABLE | START_TIMEOUT | HEALTH_FAILED | GRACE_TIMEOUT | BACKUP_FAILED
  | RESTORE_FAILED | UPDATE_FAILED | BENCHMARK_FAILED | CONFIRMATION_EXPIRED
  | CONFIRMATION_MISMATCH | REQUEST_ID_CONFLICT | RETIREMENT_FAILED | RETIREMENT_UNAVAILABLE
  | UNAUTHORIZED_PEER | INVALID_REQUEST | INVALID_STATE | INTERNAL_ERROR

record ctl_failure =
  cf_code :: error_code
  cf_message :: string
  cf_retryable :: bool

abbreviation ctl_fail :: "error_code \<Rightarrow> string \<Rightarrow> bool \<Rightarrow> ctl_failure" where
  "ctl_fail code message retryable \<equiv> \<lparr>cf_code = code, cf_message = message, cf_retryable = retryable\<rparr>"

datatype rpc_response =
    Rpc_Success string json \<comment> \<open>request id, result\<close>
  | Rpc_Failure string error_code string bool \<comment> \<open>request id, code, message, retryable\<close>

definition rpc_failure :: "string \<Rightarrow> error_code \<Rightarrow> string \<Rightarrow> bool \<Rightarrow> rpc_response" where
  "rpc_failure request_id code message retryable = Rpc_Failure request_id code (take 512 message) retryable"

record rpc_codec =
  dump_response :: "rpc_response \<Rightarrow> string"
  load_response :: "string \<Rightarrow> rpc_response option"

section \<open>Tables\<close>

datatype job_state = Job_Accepted | Job_Running | Job_Succeeded | Job_Failed | Job_Deferred

record job_row =
  job_id :: string
  job_profile :: "string option"
  job_operation :: string
  job_status :: job_state
  job_created_at :: instant
  job_finished_at :: "instant option"
  job_seq :: "int option"
  job_detail :: "string option"

record audit_entry =
  ae_timestamp :: instant
  ae_actor :: string
  ae_action :: string
  ae_profile :: "string option"
  ae_result :: string
  ae_error :: "error_code option"
  ae_detail :: string

record event_row =
  ev_timestamp :: instant
  ev_profile :: "string option"
  ev_code :: string
  ev_message :: string

record confirmation_row =
  conf_id :: string
  conf_actor :: string
  conf_action :: string
  conf_profile :: profile_id
  conf_payload :: "(string \<times> json) list"
  conf_expires_at :: instant
  conf_consumed_at :: "instant option"
  conf_generation :: int

record replay_row =
  rep_id :: string
  rep_canonical :: string
  rep_response :: string
  rep_completed :: bool
  rep_created_at :: instant

record bench_run_row =
  bench_id :: string
  bench_running :: bool
  bench_finished_at :: "instant option"
  bench_error :: "string option"

record ctl_db =
  db_jobs :: "job_row list"
  db_audit :: "audit_entry list"
  db_events :: "event_row list"
  db_confirmations :: "confirmation_row list"
  db_replays :: "replay_row list"
  db_benchmark_runs :: "bench_run_row list option" \<comment> \<open>\<open>None\<close> when the table does not exist\<close>
  db_application_id :: int

section \<open>Generation, audit and jobs\<close>

definition current_generation :: "ctl_db \<Rightarrow> int" where
  "current_generation db = max 0 (db_application_id db)"

definition bump_generation :: "ctl_db \<Rightarrow> ctl_db" where
  "bump_generation db = db\<lparr>db_application_id := current_generation db + 1\<rparr>"

definition ctl_audit :: "instant \<Rightarrow> string \<Rightarrow> string \<Rightarrow> profile_id option \<Rightarrow> string \<Rightarrow> error_code option \<Rightarrow> string
    \<Rightarrow> ctl_db \<Rightarrow> ctl_db" where
  "ctl_audit now actor action profile result code detail db =
     db\<lparr>db_audit := db_audit db @ [\<lparr>ae_timestamp = now, ae_actor = actor, ae_action = action,
          ae_profile = map_option profile_value profile, ae_result = result, ae_error = code,
          ae_detail = take 512 detail\<rparr>]\<rparr>"

definition job_intent :: "(nat \<Rightarrow> instant) \<Rightarrow> string \<Rightarrow> string \<Rightarrow> string \<Rightarrow> profile_id option \<Rightarrow> ctl_db
    \<Rightarrow> string outcome \<times> ctl_db" where
  "job_intent clock new_id actor action profile db =
     (if list_ex (\<lambda>j. job_id j = new_id) (db_jobs db)
      then (Inl (Runtime_Error ''UNIQUE constraint failed: jobs.id''), db)
      else (Inr new_id,
        ctl_audit (clock 1) actor action profile ''accepted'' None ''job accepted''
          (db\<lparr>db_jobs := db_jobs db @ [\<lparr>job_id = new_id, job_profile = map_option profile_value profile,
             job_operation = action, job_status = Job_Accepted, job_created_at = clock 0,
             job_finished_at = None, job_seq = None, job_detail = None\<rparr>]\<rparr>)))"

text \<open>\<^verbatim>\<open>SELECT COALESCE(MAX(completion_seq), 0) + 1 FROM jobs\<close>.\<close>

definition next_seq :: "job_row list \<Rightarrow> int" where
  "next_seq js = (case List.map_filter job_seq js of [] \<Rightarrow> 0 | s # ss \<Rightarrow> fold max ss s) + 1"

record finish_call =
  fin_job :: string
  fin_actor :: string
  fin_action :: string
  fin_profile :: "profile_id option"
  fin_ok :: bool
  fin_code :: "error_code option"
  fin_detail :: string
  fin_state :: "job_state option"

definition finish_job :: "(nat \<Rightarrow> instant) \<Rightarrow> finish_call \<Rightarrow> ctl_db \<Rightarrow> ctl_db" where
  "finish_job clock f db =
     (let final_state = (case fin_state f of Some s \<Rightarrow> s | None \<Rightarrow> if fin_ok f then Job_Succeeded else Job_Failed);
          seq = next_seq (db_jobs db);
          upd = (\<lambda>j. if job_id j = fin_job f
            then j\<lparr>job_status := final_state, job_finished_at := Some (clock 0), job_seq := Some seq,
                   job_detail := Some (take 512 (fin_detail f))\<rparr> else j)
      in bump_generation
           (ctl_audit (clock 1) (fin_actor f) (fin_action f) (fin_profile f)
              (if fin_ok f then ''succeeded'' else ''failed'') (fin_code f)
              (if fin_detail f = [] then ''completed'' else fin_detail f)
              (db\<lparr>db_jobs := map upd (db_jobs db)\<rparr>)))"

section \<open>Idempotent requests\<close>

datatype claim = Claimed | Pending | Replay rpc_response

definition claim_request :: "rpc_codec \<Rightarrow> instant \<Rightarrow> string \<Rightarrow> string \<Rightarrow> ctl_db \<Rightarrow> claim \<times> ctl_db" where
  "claim_request codec now request_id canonical db =
     (case find (\<lambda>r. rep_id r = request_id) (db_replays db) of
        None \<Rightarrow>
          (Claimed, db\<lparr>db_replays := db_replays db @ [\<lparr>rep_id = request_id, rep_canonical = canonical,
             rep_response = [], rep_completed = False, rep_created_at = now\<rparr>]\<rparr>)
      | Some r \<Rightarrow>
          (if rep_canonical r \<noteq> canonical
           then Replay (rpc_failure request_id REQUEST_ID_CONFLICT ''request id was already used'' False)
           else if \<not> rep_completed r then Pending
           else if rep_response r = []
           then Replay (rpc_failure request_id INTERNAL_ERROR ''stored response unavailable'' False)
           else case load_response codec (rep_response r) of
                  Some response \<Rightarrow> Replay response
                | None \<Rightarrow> Replay (rpc_failure request_id INTERNAL_ERROR ''stored response unavailable'' False), db))"

text \<open>The polls of \<open>wait_for_replay\<close>: \<open>seen i\<close> is the database at poll \<open>i\<close> and \<open>fuel\<close> the number of polls
  left, 1000 at the start.  The result carries the database after the last poll.\<close>

definition still_in_progress :: "string \<Rightarrow> rpc_response" where
  "still_in_progress request_id = rpc_failure request_id INTERNAL_ERROR ''request is still in progress'' True"

fun poll_replay :: "nat \<Rightarrow> rpc_codec \<Rightarrow> (nat \<Rightarrow> instant) \<Rightarrow> (nat \<Rightarrow> ctl_db) \<Rightarrow> nat \<Rightarrow> string \<Rightarrow> string
    \<Rightarrow> rpc_response \<times> ctl_db" where
  "poll_replay 0 codec clock seen i request_id canonical = (still_in_progress request_id, seen i)"
| "poll_replay (Suc fuel) codec clock seen i request_id canonical =
     (case claim_request codec (clock i) request_id canonical (seen i) of
        (Pending, _) \<Rightarrow> poll_replay fuel codec clock seen (Suc i) request_id canonical
      | (Claimed, db) \<Rightarrow> (still_in_progress request_id, db)
      | (Replay response, db) \<Rightarrow> (response, db))"

definition wait_for_replay :: "rpc_codec \<Rightarrow> (nat \<Rightarrow> instant) \<Rightarrow> (nat \<Rightarrow> ctl_db) \<Rightarrow> string \<Rightarrow> string
    \<Rightarrow> rpc_response \<times> ctl_db" where
  "wait_for_replay codec clock seen request_id canonical = poll_replay 1000 codec clock seen 0 request_id canonical"

definition store_replay :: "rpc_codec \<Rightarrow> string \<Rightarrow> string \<Rightarrow> rpc_response \<Rightarrow> ctl_db \<Rightarrow> ctl_db" where
  "store_replay codec request_id canonical response db =
     db\<lparr>db_replays := map (\<lambda>r. if rep_id r = request_id \<and> rep_canonical r = canonical \<and> \<not> rep_completed r
          then r\<lparr>rep_response := dump_response codec response, rep_completed := True\<rparr> else r) (db_replays db)\<rparr>"

text \<open>\<open>prune_completed_rpc_idempotency\<close>; the maintenance calls it with 48 hours.\<close>

definition prune_replays :: "instant \<Rightarrow> int \<Rightarrow> ctl_db \<Rightarrow> nat outcome \<times> ctl_db" where
  "prune_replays now max_age_hours db =
     (if max_age_hours < 1 then (Inl (Value_Error ''max_age_hours must be positive''), db)
      else let kept = filter (\<lambda>r. \<not> (rep_completed r \<and> rep_created_at r < now - max_age_hours * HOUR)) (db_replays db)
           in (Inr (length (db_replays db) - length kept), db\<lparr>db_replays := kept\<rparr>))"

section \<open>Confirmations\<close>

text \<open>The expiry and the generation of a confirmation, read before its transaction waits for the lock.\<close>

definition confirmation_terms :: "(nat \<Rightarrow> instant) \<Rightarrow> ctl_db \<Rightarrow> instant \<times> int" where
  "confirmation_terms clock db = (clock 0 + 5 * MINUTE, current_generation db)"

text \<open>The transaction that stores the row, and the summary a preparation returns: id, expiry and generation.\<close>

definition create_confirmation :: "instant \<times> int \<Rightarrow> string \<Rightarrow> string \<Rightarrow> string \<Rightarrow> profile_id
    \<Rightarrow> (string \<times> json) list \<Rightarrow> ctl_db \<Rightarrow> (string \<times> instant \<times> int) outcome \<times> ctl_db" where
  "create_confirmation terms new_id actor action profile payload db =
     (let (expires, generation) = terms
      in if list_ex (\<lambda>c. conf_id c = new_id) (db_confirmations db)
         then (Inl (Runtime_Error ''UNIQUE constraint failed: confirmations.id''), db)
         else (Inr (new_id, expires, generation),
               db\<lparr>db_confirmations := db_confirmations db @ [\<lparr>conf_id = new_id, conf_actor = actor, conf_action = action,
                  conf_profile = profile, conf_payload = payload @ [(''profile_id'', JStr (profile_value profile))],
                  conf_expires_at = expires, conf_consumed_at = None, conf_generation = generation\<rparr>]\<rparr>))"

definition rejected :: "instant \<Rightarrow> string \<Rightarrow> string \<Rightarrow> profile_id option \<Rightarrow> error_code \<Rightarrow> string \<Rightarrow> ctl_db
    \<Rightarrow> (ctl_failure + 'a) \<times> ctl_db" where
  "rejected now actor action profile code detail db =
     (Inl (ctl_fail code detail False), ctl_audit now actor action profile ''rejected'' (Some code) detail db)"

definition consume_confirmation :: "(nat \<Rightarrow> instant) \<Rightarrow> string \<Rightarrow> string \<Rightarrow> string \<Rightarrow> ctl_db
    \<Rightarrow> (ctl_failure + (string \<times> json) list) \<times> ctl_db" where
  "consume_confirmation clock actor action confirmation_id db =
     (case find (\<lambda>c. conf_id c = confirmation_id) (db_confirmations db) of
        None \<Rightarrow> rejected (clock 0) actor action None CONFIRMATION_MISMATCH ''confirmation does not match'' db
      | Some c \<Rightarrow>
          if conf_action c \<noteq> action \<or> conf_actor c \<noteq> actor
          then rejected (clock 0) actor action None CONFIRMATION_MISMATCH ''confirmation does not match'' db
          else if conf_consumed_at c \<noteq> None
          then rejected (clock 0) actor action (Some (conf_profile c)) CONFIRMATION_MISMATCH
                 ''confirmation was already consumed'' db
          else if conf_expires_at c \<le> clock 0
          then rejected (clock 1) actor action (Some (conf_profile c)) CONFIRMATION_EXPIRED ''confirmation expired'' db
          else if conf_generation c \<noteq> current_generation db
          then rejected (clock 1) actor action (Some (conf_profile c)) CONFIRMATION_MISMATCH ''confirmation is stale'' db
          else (Inr (conf_payload c),
                db\<lparr>db_confirmations := map (\<lambda>x. if conf_id x = confirmation_id \<and> conf_consumed_at x = None
                     \<and> conf_generation x = conf_generation c
                     then x\<lparr>conf_consumed_at := Some (clock 1)\<rparr> else x) (db_confirmations db)\<rparr>))"

section \<open>Events and scheduled fires\<close>

definition record_event :: "(nat \<Rightarrow> instant) \<Rightarrow> profile_id option \<Rightarrow> string \<Rightarrow> string \<Rightarrow> ctl_db \<Rightarrow> ctl_db" where
  "record_event clock profile code message db =
     (if list_ex (\<lambda>e. ev_profile e = map_option profile_value profile \<and> ev_code e = code
            \<and> ev_message e = take 512 message \<and> iso_le (clock 0 - 5 * MINUTE) (ev_timestamp e)) (db_events db)
      then db
      else db\<lparr>db_events := db_events db @ [\<lparr>ev_timestamp = clock 1, ev_profile = map_option profile_value profile,
              ev_code = code, ev_message = take 512 message\<rparr>]\<rparr>)"

text \<open>Truth of a value, and the text of the campaign in a fire key; \<open>str_of\<close> is Python's \<^verbatim>\<open>str\<close> on values that are
  no strings, which the schedule parser lets through.\<close>

fun truthy :: "json \<Rightarrow> bool" where
  "truthy JNull = False"
| "truthy (JBool b) = b"
| "truthy (JInt n) = (n \<noteq> 0)"
| "truthy (JFloat f) = (f \<noteq> Finite 0)"
| "truthy (JStr s) = (s \<noteq> [])"
| "truthy (JArr xs) = (xs \<noteq> [])"
| "truthy (JObj kvs) = (kvs \<noteq> [])"

definition campaign_text :: "(json \<Rightarrow> string) \<Rightarrow> json \<Rightarrow> string" where
  "campaign_text str_of j =
     (if \<not> truthy j then ''none'' else case j of JStr s \<Rightarrow> s | _ \<Rightarrow> str_of j)"

definition schedule_fire_key :: "(json \<Rightarrow> string) \<Rightarrow> schedule_entry \<Rightarrow> instant \<Rightarrow> string" where
  "schedule_fire_key str_of entry observed_at =
     iso_minute observed_at @ '':'' @ profile_value (sched_profile entry) @ '':'' @ sched_operation entry @ '':''
     @ (case sched_backup_destination entry of Some d \<Rightarrow> destination_value d | None \<Rightarrow> ''none'') @ '':''
     @ sched_cron entry @ '':'' @ campaign_text str_of (sched_campaign entry)"

definition schedule_fire_seen :: "(json \<Rightarrow> string) \<Rightarrow> schedule_entry \<Rightarrow> instant \<Rightarrow> ctl_db \<Rightarrow> bool" where
  "schedule_fire_seen str_of entry observed_at db \<longleftrightarrow>
     list_ex (\<lambda>e. ev_profile e = Some (profile_value (sched_profile entry)) \<and> ev_code e = ''scheduled_fire''
        \<and> ev_message e = schedule_fire_key str_of entry observed_at) (db_events db)"

text \<open>The claim of one fire inside \<open>apply_schedules\<close>: skip it when seen, mark it otherwise.\<close>

definition claim_fire :: "(json \<Rightarrow> string) \<Rightarrow> (nat \<Rightarrow> instant) \<Rightarrow> schedule_entry \<Rightarrow> instant \<Rightarrow> ctl_db \<Rightarrow> bool \<times> ctl_db" where
  "claim_fire str_of clock entry observed_at db =
     (if schedule_fire_seen str_of entry observed_at db then (False, db)
      else (True, record_event clock (Some (sched_profile entry)) ''scheduled_fire''
              (schedule_fire_key str_of entry observed_at) db))"

section \<open>Restart\<close>

definition active_job :: "job_row \<Rightarrow> bool" where
  "active_job j \<longleftrightarrow> job_status j \<in> {Job_Accepted, Job_Running}"

text \<open>The transaction of \<open>reconcile_startup\<close>; its result is the number of interrupted jobs and runs.\<close>

definition mark_incomplete :: "rpc_codec \<Rightarrow> instant \<Rightarrow> ctl_db \<Rightarrow> nat \<times> ctl_db" where
  "mark_incomplete codec now db =
     (let jobs' = map (\<lambda>j. if active_job j then j\<lparr>job_status := Job_Failed, job_finished_at := Some now,
              job_detail := Some ''controller restarted''\<rparr> else j) (db_jobs db);
          runs' = map_option (map (\<lambda>r. if bench_running r then r\<lparr>bench_running := False, bench_finished_at := Some now,
              bench_error := Some ''controller_restarted''\<rparr> else r)) (db_benchmark_runs db);
          replays' = map (\<lambda>r. if rep_completed r then r
              else r\<lparr>rep_response := dump_response codec (rpc_failure (rep_id r) INTERNAL_ERROR
                ''request was interrupted by controller restart'' True), rep_completed := True\<rparr>) (db_replays db);
          changed = length (filter active_job (db_jobs db))
            + (case db_benchmark_runs db of None \<Rightarrow> 0 | Some rs \<Rightarrow> length (filter bench_running rs));
          db' = db\<lparr>db_jobs := jobs', db_benchmark_runs := runs', db_replays := replays'\<rparr>
      in (changed, if changed \<noteq> 0 then bump_generation db' else db'))"

text \<open>Which profile a restarted controller resumes.\<close>

definition lifecycle_job :: "job_row \<Rightarrow> bool" where
  "lifecycle_job j \<longleftrightarrow> job_operation j \<in> {''start'', ''switch'', ''stop'', ''force_stop''} \<and> job_status j = Job_Succeeded"

definition later_job :: "job_row \<Rightarrow> job_row \<Rightarrow> job_row" where
  "later_job j best = (case (job_seq j, job_seq best) of
     (Some s, Some t) \<Rightarrow> if t < s then j else best | (Some s, None) \<Rightarrow> j | (None, _) \<Rightarrow> best)"

definition resumable :: "job_row \<Rightarrow> bool" where
  "resumable j \<longleftrightarrow> lifecycle_job j \<and> job_profile j \<noteq> None"

definition last_lifecycle_job :: "ctl_db \<Rightarrow> job_row option" where
  "last_lifecycle_job db =
     (case filter resumable (db_jobs db) of
        [] \<Rightarrow> None | j # js \<Rightarrow> Some (fold later_job js j))"

definition resume_last :: "ctl_db \<Rightarrow> profile_id option" where
  "resume_last db =
     (if list_ex (\<lambda>j. lifecycle_job j \<and> job_seq j = None) (db_jobs db) then None
      else case last_lifecycle_job db of
             None \<Rightarrow> None
           | Some j \<Rightarrow> if job_operation j \<in> {''start'', ''switch''} then job_profile j \<bind> profile_of_value else None)"

definition resume_profile_id :: "string option \<Rightarrow> ctl_db \<Rightarrow> profile_id option" where
  "resume_profile_id boot_profile db =
     (case boot_profile of
        Some b \<Rightarrow> if b \<noteq> [] \<and> b \<notin> {''resume'', ''resume-last-active''} then profile_of_value b else resume_last db
      | None \<Rightarrow> resume_last db)"

section \<open>Requests\<close>

datatype action_kind =
    Act_GetStatus | Act_WaitReadiness | Act_GetPerf | Act_GetProfiles | Act_GetLogs | Act_ListBackups
  | Act_ListAggregateBackups | Act_ListEvents | Act_GetStatsSummary | Act_GetStatsHeatmap | Act_GetStatsTps
  | Act_GetProfileConfig | Act_GetBenchmarks | Act_ExportBenchmarks | Act_RunBenchmark | Act_CancelBenchmark
  | Act_SetProfileConfig | Act_GetSchedules | Act_SetSchedules | Act_ListAudit | Act_Start | Act_Stop
  | Act_Restart | Act_PrepareSwitch | Act_ConfirmSwitch | Act_PrepareForceStop | Act_ConfirmForceStop
  | Act_CreateBackup | Act_PrepareRestore | Act_ConfirmRestore | Act_PrepareWorldClone
  | Act_ConfirmWorldClone | Act_CheckUpdate | Act_PrepareUpdate | Act_ConfirmUpdate
  | Act_GetNotificationConfig | Act_GetRetirementStatus | Act_PrepareRetirement | Act_ConfirmRetirement
  | Act_Command | Act_SetNotificationRule | Act_TestNotification | Act_SetIdleStop

text \<open>The reads of \<open>ACTION_CLASSES\<close>; everything else is a mutation.\<close>

definition pure_read :: "action_kind \<Rightarrow> bool" where
  "pure_read kind \<longleftrightarrow> kind \<in> {Act_GetStatus, Act_WaitReadiness, Act_GetPerf, Act_GetProfiles, Act_GetLogs,
     Act_ListBackups, Act_ListAggregateBackups, Act_ListEvents, Act_GetStatsSummary, Act_GetStatsHeatmap,
     Act_GetStatsTps, Act_GetProfileConfig, Act_GetBenchmarks, Act_ExportBenchmarks, Act_GetSchedules,
     Act_ListAudit, Act_GetNotificationConfig, Act_GetRetirementStatus}"

text \<open>The payload that identifies a request; \<open>sha256\<close> is the hexadecimal digest.\<close>

definition without_key :: "string \<Rightarrow> (string \<times> json) list \<Rightarrow> (string \<times> json) list" where
  "without_key k kvs = filter (\<lambda>(key, _). key \<noteq> k) kvs"

definition canonical_action :: "(string \<Rightarrow> string) \<Rightarrow> (string \<times> json) list \<Rightarrow> (string \<times> json) list" where
  "canonical_action sha256 a =
     (let kind = map_of a ''kind''
      in if kind = Some (JStr ''get_status'') \<and> map_of a ''refresh'' = Some (JBool False) then without_key ''refresh'' a
         else if kind = Some (JStr ''command'')
         then without_key ''command_digest'' (without_key ''command'' a)
                @ [(''command_digest'', JStr (sha256 (case map_of a ''command'' of Some (JStr c) \<Rightarrow> c | _ \<Rightarrow> [])))]
         else if kind = Some (JStr ''create_backup'') then without_key ''reservation_capability'' a
         else a)"

definition canonical_payload :: "(string \<Rightarrow> string) \<Rightarrow> (string \<times> json) list \<Rightarrow> (string \<times> json) list" where
  "canonical_payload sha256 payload =
     map (\<lambda>(k, v). (k, if k = ''action'' then (case v of JObj a \<Rightarrow> JObj (canonical_action sha256 a) | _ \<Rightarrow> v) else v))
       (without_key ''provenance'' payload)"

text \<open>\<open>execute\<close> with the handler and the database seen while polling as arguments; the flag says whether
  the handler ran.\<close>

definition execute_request :: "rpc_codec \<Rightarrow> (nat \<Rightarrow> instant) \<Rightarrow> action_kind \<Rightarrow> string \<Rightarrow> string
    \<Rightarrow> (ctl_db \<Rightarrow> rpc_response \<times> ctl_db) \<Rightarrow> (nat \<Rightarrow> ctl_db) \<Rightarrow> ctl_db \<Rightarrow> rpc_response \<times> bool \<times> ctl_db" where
  "execute_request codec clock kind request_id canonical handler seen db =
     (if pure_read kind then (case handler db of (response, db') \<Rightarrow> (response, True, db'))
      else case claim_request codec (clock 0) request_id canonical db of
             (Replay response, db') \<Rightarrow> (response, False, db')
           | (Pending, _) \<Rightarrow>
               (case wait_for_replay codec (\<lambda>i. clock (Suc i)) seen request_id canonical of
                  (response, db') \<Rightarrow> (response, False, db'))
           | (Claimed, db') \<Rightarrow>
               (case handler db' of (response, db2) \<Rightarrow>
                  (response, True, store_replay codec request_id canonical response db2)))"

section \<open>Histories of the database\<close>

datatype ctl_call =
    Do_Claim instant string string
  | Do_Store string string rpc_response
  | Do_Prune instant int
  | Do_Intent "nat \<Rightarrow> instant" string string string "profile_id option"
  | Do_Finish "nat \<Rightarrow> instant" finish_call
  | Do_Audit instant string string "profile_id option" string "error_code option" string
  | Do_Prepare "instant \<times> int" string string string profile_id "(string \<times> json) list"
  | Do_Consume "nat \<Rightarrow> instant" string string string
  | Do_Event "nat \<Rightarrow> instant" "profile_id option" string string
  | Do_Mark_Incomplete instant
  | Do_Bump

fun ctl_step :: "rpc_codec \<Rightarrow> ctl_call \<Rightarrow> ctl_db \<Rightarrow> ctl_db" where
  "ctl_step codec (Do_Claim now rid canonical) db = snd (claim_request codec now rid canonical db)"
| "ctl_step codec (Do_Store rid canonical response) db = store_replay codec rid canonical response db"
| "ctl_step codec (Do_Prune now hours) db = snd (prune_replays now hours db)"
| "ctl_step codec (Do_Intent clock new_id actor action profile) db = snd (job_intent clock new_id actor action profile db)"
| "ctl_step codec (Do_Finish clock f) db = finish_job clock f db"
| "ctl_step codec (Do_Audit now actor action profile result code detail) db =
     ctl_audit now actor action profile result code detail db"
| "ctl_step codec (Do_Prepare terms new_id actor action profile payload) db =
     snd (create_confirmation terms new_id actor action profile payload db)"
| "ctl_step codec (Do_Consume clock actor action cid) db = snd (consume_confirmation clock actor action cid db)"
| "ctl_step codec (Do_Event clock profile code message) db = record_event clock profile code message db"
| "ctl_step codec (Do_Mark_Incomplete now) db = snd (mark_incomplete codec now db)"
| "ctl_step codec Do_Bump db = bump_generation db"

fun ctl_run :: "rpc_codec \<Rightarrow> ctl_call list \<Rightarrow> ctl_db \<Rightarrow> ctl_db" where
  "ctl_run codec [] db = db"
| "ctl_run codec (c # cs) db = ctl_run codec cs (ctl_step codec c db)"

definition ctl_db_ok :: "ctl_db \<Rightarrow> bool" where
  "ctl_db_ok db \<longleftrightarrow> distinct (map rep_id (db_replays db)) \<and> distinct (map conf_id (db_confirmations db))
     \<and> distinct (map job_id (db_jobs db))"

definition empty_ctl_db :: ctl_db where
  "empty_ctl_db = \<lparr>db_jobs = [], db_audit = [], db_events = [], db_confirmations = [], db_replays = [],
     db_benchmark_runs = None, db_application_id = 0\<rparr>"

text \<open>Retention runs that are too early for a reply created at \<open>t\<close>.\<close>

definition prunes_spare :: "instant \<Rightarrow> ctl_call list \<Rightarrow> bool" where
  "prunes_spare t calls \<longleftrightarrow>
     list_all (\<lambda>c. case c of Do_Prune now hours \<Rightarrow> now \<le> t + hours * HOUR | _ \<Rightarrow> True) calls"

text \<open>Calls that move the generation whatever the state.\<close>

fun moves_generation :: "ctl_call \<Rightarrow> bool" where
  "moves_generation (Do_Finish clock f) = True"
| "moves_generation Do_Bump = True"
| "moves_generation _ = False"

text \<open>The completions of a history, in order: the row of each job as its \<open>finish\<close> left it.\<close>

fun completions :: "rpc_codec \<Rightarrow> ctl_call list \<Rightarrow> ctl_db \<Rightarrow> job_row list" where
  "completions codec [] db = []"
| "completions codec (c # cs) db =
     (case c of Do_Finish clock f \<Rightarrow> filter (\<lambda>j. job_id j = fin_job f) (db_jobs (finish_job clock f db)) | _ \<Rightarrow> [])
     @ completions codec cs (ctl_step codec c db)"

text \<open>A job can be finished more than once, as a cancelled benchmark is; its last completion is the one that counts.\<close>

fun last_of_each :: "job_row list \<Rightarrow> job_row list" where
  "last_of_each [] = []"
| "last_of_each (j # js) = (if list_ex (\<lambda>k. job_id k = job_id j) js then last_of_each js else j # last_of_each js)"

text \<open>Every \<open>finish\<close> of a history leaves a terminal state.\<close>

definition terminal_finishes :: "ctl_call list \<Rightarrow> bool" where
  "terminal_finishes calls \<longleftrightarrow> list_all (\<lambda>c. case c of Do_Finish clock f \<Rightarrow> fin_state f \<notin> {Some Job_Accepted, Some Job_Running}
     | _ \<Rightarrow> True) calls"

text \<open>What a restart resumes, read off the history.\<close>

definition resume_spec :: "job_row list \<Rightarrow> profile_id option" where
  "resume_spec done =
     (case filter resumable done of
        [] \<Rightarrow> None
      | j # js \<Rightarrow> (let l = last (j # js) in if job_operation l \<in> {''start'', ''switch''} then job_profile l \<bind> profile_of_value
                   else None))"

section \<open>Predicates of the proofs\<close>

text \<open>The stored reply of a request id, as far as later calls depend on it.\<close>

definition holds_reply :: "string \<Rightarrow> (replay_row \<Rightarrow> bool) \<Rightarrow> ctl_db \<Rightarrow> bool" where
  "holds_reply rid P db \<longleftrightarrow> (\<exists>r \<in> set (db_replays db). rep_id r = rid \<and> P r)"

text \<open>Rows are never deleted, and only their consumption mark changes.\<close>

definition holds_conf :: "string \<Rightarrow> (confirmation_row \<Rightarrow> bool) \<Rightarrow> ctl_db \<Rightarrow> bool" where
  "holds_conf cid P db \<longleftrightarrow> (\<exists>c \<in> set (db_confirmations db). conf_id c = cid \<and> P c)"

text \<open>The rows with a sequence number are exactly the completions so far, in increasing order.\<close>

definition seq_inv :: "job_row list \<Rightarrow> ctl_db \<Rightarrow> bool" where
  "seq_inv comps db \<longleftrightarrow> set comps \<subseteq> set (db_jobs db)
     \<and> (\<forall>j \<in> set (db_jobs db). case job_seq j of None \<Rightarrow> \<not> lifecycle_job j | Some s \<Rightarrow> j \<in> set comps \<and> \<not> active_job j)
     \<and> list_all (\<lambda>j. job_seq j \<noteq> None) comps \<and> sorted_wrt (<) (map (the \<circ> job_seq) comps)"

section \<open>A sample history\<close>

definition sample_codec :: rpc_codec where
  "sample_codec = \<lparr>dump_response = (\<lambda>r. case r of Rpc_Success rid j \<Rightarrow> CHR ''s'' # rid | Rpc_Failure rid _ _ _ \<Rightarrow> CHR ''f'' # rid),
     load_response = (\<lambda>t. case t of c # rid \<Rightarrow> if c = CHR ''s'' then Some (Rpc_Success rid JNull)
        else Some (rpc_failure rid INTERNAL_ERROR ''failed'' False) | [] \<Rightarrow> None)\<rparr>"

definition sample_finish :: finish_call where
  "sample_finish = \<lparr>fin_job = ''j1'', fin_actor = ''op'', fin_action = ''start'', fin_profile = Some PZ_RISING, fin_ok = True,
     fin_code = None, fin_detail = [], fin_state = None\<rparr>"

section \<open>Frame lemmas\<close>

lemma ctl_audit_simps [simp]:
  "db_jobs (ctl_audit now actor action profile result code detail db) = db_jobs db"
  "db_events (ctl_audit now actor action profile result code detail db) = db_events db"
  "db_confirmations (ctl_audit now actor action profile result code detail db) = db_confirmations db"
  "db_replays (ctl_audit now actor action profile result code detail db) = db_replays db"
  "db_application_id (ctl_audit now actor action profile result code detail db) = db_application_id db"
  by (simp_all add: ctl_audit_def)

lemma bump_simps [simp]:
  "db_jobs (bump_generation db) = db_jobs db" "db_events (bump_generation db) = db_events db"
  "db_confirmations (bump_generation db) = db_confirmations db" "db_replays (bump_generation db) = db_replays db"
  "current_generation (bump_generation db) = current_generation db + 1"
  by (simp_all add: bump_generation_def current_generation_def)

lemma finish_simps [simp]:
  "db_events (finish_job clock f db) = db_events db"
  "db_confirmations (finish_job clock f db) = db_confirmations db"
  "db_replays (finish_job clock f db) = db_replays db"
  "map job_id (db_jobs (finish_job clock f db)) = map job_id (db_jobs db)"
  "current_generation (finish_job clock f db) = current_generation db + 1"
  by (simp_all add: finish_job_def Let_def current_generation_def bump_generation_def comp_def)

lemma event_simps [simp]:
  "db_jobs (record_event clock profile code message db) = db_jobs db"
  "db_confirmations (record_event clock profile code message db) = db_confirmations db"
  "db_replays (record_event clock profile code message db) = db_replays db"
  "current_generation (record_event clock profile code message db) = current_generation db"
  by (simp_all add: record_event_def current_generation_def)

lemma store_simps [simp]:
  "db_jobs (store_replay codec rid canonical response db) = db_jobs db"
  "db_events (store_replay codec rid canonical response db) = db_events db"
  "db_confirmations (store_replay codec rid canonical response db) = db_confirmations db"
  "map rep_id (db_replays (store_replay codec rid canonical response db)) = map rep_id (db_replays db)"
  "current_generation (store_replay codec rid canonical response db) = current_generation db"
  by (simp_all add: store_replay_def current_generation_def comp_def)

lemma claim_simps [simp]:
  "db_jobs (snd (claim_request codec now rid canonical db)) = db_jobs db"
  "db_events (snd (claim_request codec now rid canonical db)) = db_events db"
  "db_confirmations (snd (claim_request codec now rid canonical db)) = db_confirmations db"
  "current_generation (snd (claim_request codec now rid canonical db)) = current_generation db"
  by (simp_all add: claim_request_def current_generation_def split: option.split)

lemma prune_simps [simp]:
  "db_jobs (snd (prune_replays now hours db)) = db_jobs db"
  "db_events (snd (prune_replays now hours db)) = db_events db"
  "db_confirmations (snd (prune_replays now hours db)) = db_confirmations db"
  "current_generation (snd (prune_replays now hours db)) = current_generation db"
  by (simp_all add: prune_replays_def Let_def current_generation_def)

lemma intent_simps [simp]:
  "db_events (snd (job_intent clock i actor action profile db)) = db_events db"
  "db_confirmations (snd (job_intent clock i actor action profile db)) = db_confirmations db"
  "db_replays (snd (job_intent clock i actor action profile db)) = db_replays db"
  "current_generation (snd (job_intent clock i actor action profile db)) = current_generation db"
  by (simp_all add: job_intent_def current_generation_def)

lemma prepare_simps [simp]:
  "db_jobs (snd (create_confirmation terms i actor action profile payload db)) = db_jobs db"
  "db_events (snd (create_confirmation terms i actor action profile payload db)) = db_events db"
  "db_replays (snd (create_confirmation terms i actor action profile payload db)) = db_replays db"
  "current_generation (snd (create_confirmation terms i actor action profile payload db)) = current_generation db"
  by (simp_all add: create_confirmation_def Let_def current_generation_def split: prod.split)

lemma rejected_simps [simp]:
  "fst (rejected now actor action profile code detail db) = Inl (ctl_fail code detail False)"
  "db_jobs (snd (rejected now actor action profile code detail db)) = db_jobs db"
  "db_events (snd (rejected now actor action profile code detail db)) = db_events db"
  "db_confirmations (snd (rejected now actor action profile code detail db)) = db_confirmations db"
  "db_replays (snd (rejected now actor action profile code detail db)) = db_replays db"
  "db_application_id (snd (rejected now actor action profile code detail db)) = db_application_id db"
  by (simp_all add: rejected_def)

lemma consume_simps [simp]:
  "db_jobs (snd (consume_confirmation clock actor action cid db)) = db_jobs db"
  "db_events (snd (consume_confirmation clock actor action cid db)) = db_events db"
  "db_replays (snd (consume_confirmation clock actor action cid db)) = db_replays db"
  "map conf_id (db_confirmations (snd (consume_confirmation clock actor action cid db))) = map conf_id (db_confirmations db)"
  "current_generation (snd (consume_confirmation clock actor action cid db)) = current_generation db"
  by (simp_all add: consume_confirmation_def current_generation_def comp_def split: option.split)

lemma mark_simps [simp]:
  "db_events (snd (mark_incomplete codec now db)) = db_events db"
  "db_confirmations (snd (mark_incomplete codec now db)) = db_confirmations db"
  "map rep_id (db_replays (snd (mark_incomplete codec now db))) = map rep_id (db_replays db)"
  "map job_id (db_jobs (snd (mark_incomplete codec now db))) = map job_id (db_jobs db)"
  by (simp_all add: mark_incomplete_def Let_def comp_def)

lemma mark_generation: "current_generation db \<le> current_generation (snd (mark_incomplete codec now db))"
  by (auto simp: mark_incomplete_def Let_def bump_generation_def current_generation_def)

section \<open>The invariant\<close>

lemma ctl_step_ok: "ctl_db_ok db \<Longrightarrow> ctl_db_ok (ctl_step codec c db)"
proof (cases c)
  case (Do_Claim now rid canonical)
  assume "ctl_db_ok db"
  then show ?thesis unfolding Do_Claim
    by (auto simp: ctl_db_ok_def claim_request_def find_None_iff split: option.split)
next
  case (Do_Prune now hours)
  assume "ctl_db_ok db"
  then show ?thesis unfolding Do_Prune
    by (auto simp: ctl_db_ok_def prune_replays_def Let_def distinct_map_filter)
next
  case (Do_Intent clock i actor action profile)
  assume "ctl_db_ok db"
  then show ?thesis unfolding Do_Intent
    by (auto simp: ctl_db_ok_def job_intent_def list_ex_iff)
next
  case (Do_Prepare terms i actor action profile payload)
  assume "ctl_db_ok db"
  then show ?thesis unfolding Do_Prepare
    by (auto simp: ctl_db_ok_def create_confirmation_def Let_def list_ex_iff split: prod.split)
qed (simp_all add: ctl_db_ok_def)

lemma ctl_run_ok: "ctl_db_ok db \<Longrightarrow> ctl_db_ok (ctl_run codec cs db)"
  by (induction cs arbitrary: db) (auto simp: ctl_step_ok)

lemma ctl_run_append: "ctl_run codec (xs @ ys) db = ctl_run codec ys (ctl_run codec xs db)"
  by (induction xs arbitrary: db) auto

section \<open>A request runs once\<close>

lemma holds_reply_find:
  assumes "ctl_db_ok db" "holds_reply rid P db"
  shows "\<exists>r. find (\<lambda>r. rep_id r = rid) (db_replays db) = Some r \<and> P r"
proof -
  obtain r where r: "r \<in> set (db_replays db)" "rep_id r = rid" "P r" using assms(2) by (auto simp: holds_reply_def)
  then obtain x where x: "find (\<lambda>r. rep_id r = rid) (db_replays db) = Some x"
    by (cases "find (\<lambda>r. rep_id r = rid) (db_replays db)") (auto simp: find_None_iff)
  then have "x = r" using find_SomeD[OF x] r assms(1)
    by (intro distinct_map_inj_on_set[of rep_id "db_replays db"]) (simp_all add: ctl_db_ok_def)
  then show ?thesis using x r(3) by simp
qed

text \<open>A property of the stored row that completion and restart keep stays, until a retention run may
  delete the row.\<close>

lemma holds_reply_step:
  assumes "ctl_db_ok db" "holds_reply rid (\<lambda>r. rep_created_at r = t \<and> P r) db" "prunes_spare t [c]"
    "\<And>r text. P r \<Longrightarrow> \<not> rep_completed r \<Longrightarrow> P (r\<lparr>rep_response := text, rep_completed := True\<rparr>)"
  shows "holds_reply rid (\<lambda>r. rep_created_at r = t \<and> P r) (ctl_step codec c db)"
proof -
  obtain r where r: "r \<in> set (db_replays db)" "rep_id r = rid" "rep_created_at r = t" "P r"
    using assms(2) by (auto simp: holds_reply_def)
  have upd: "holds_reply rid (\<lambda>r. rep_created_at r = t \<and> P r) db'"
    if "db_replays db' = map f (db_replays db)" "f r = r \<or> (\<not> rep_completed r \<and> (\<exists>text. f r = r\<lparr>rep_response := text, rep_completed := True\<rparr>))"
    for f db'
    unfolding holds_reply_def using that r assms(4)[OF r(4)] by (intro bexI[of _ "f r"]) auto
  have same: "holds_reply rid (\<lambda>r. rep_created_at r = t \<and> P r) db'" if "set (db_replays db) \<subseteq> set (db_replays db')" for db'
    using that r unfolding holds_reply_def by blast
  show ?thesis
  proof (cases c)
    case (Do_Claim now rid' canonical)
    then show ?thesis by (intro same) (auto simp: claim_request_def split: option.split)
  next
    case (Do_Store rid' canonical response)
    then show ?thesis by (intro upd[of _ "\<lambda>r. if rep_id r = rid' \<and> rep_canonical r = canonical \<and> \<not> rep_completed r
          then r\<lparr>rep_response := dump_response codec response, rep_completed := True\<rparr> else r"])
        (auto simp: store_replay_def)
  next
    case (Do_Prune now hours)
    then have "\<not> rep_created_at r < now - hours * HOUR" using assms(3) r(3) by (simp add: prunes_spare_def)
    then show ?thesis using r Do_Prune by (auto simp: holds_reply_def prune_replays_def Let_def)
  next
    case (Do_Mark_Incomplete now)
    then show ?thesis by (intro upd[of _ "\<lambda>r. if rep_completed r then r
              else r\<lparr>rep_response := dump_response codec (rpc_failure (rep_id r) INTERNAL_ERROR
                ''request was interrupted by controller restart'' True), rep_completed := True\<rparr>"])
        (auto simp: mark_incomplete_def Let_def)
  qed (simp_all add: same)
qed

lemma holds_reply_run:
  assumes "ctl_db_ok db" "holds_reply rid (\<lambda>r. rep_created_at r = t \<and> P r) db" "prunes_spare t cs"
    "\<And>r text. P r \<Longrightarrow> \<not> rep_completed r \<Longrightarrow> P (r\<lparr>rep_response := text, rep_completed := True\<rparr>)"
  shows "holds_reply rid (\<lambda>r. rep_created_at r = t \<and> P r) (ctl_run codec cs db)"
  using assms(1-3)
proof (induction cs arbitrary: db)
  case (Cons c cs)
  then have "prunes_spare t [c]" "prunes_spare t cs" by (auto simp: prunes_spare_def)
  then show ?case
    using Cons holds_reply_step[of db rid t P c codec] assms(4) ctl_step_ok[of db codec c] by simp
qed simp

lemma claim_Claimed: "fst (claim_request codec now rid canonical db) = Claimed \<longleftrightarrow> find (\<lambda>r. rep_id r = rid) (db_replays db) = None"
  by (auto simp: claim_request_def split: option.split)

lemma claimed_once:
  assumes "ctl_db_ok db" "claim_request codec now rid canonical db = (Claimed, db1)" "prunes_spare now calls"
  shows "fst (claim_request codec now' rid canonical' (ctl_run codec calls db1)) \<noteq> Claimed"
proof -
  have "holds_reply rid (\<lambda>r. rep_created_at r = now \<and> True) db1"
    using assms(2) claim_Claimed[of codec now rid canonical db] by (auto simp: claim_request_def holds_reply_def)
  moreover have ok: "ctl_db_ok db1"
    using ctl_step_ok[OF assms(1), of codec "Do_Claim now rid canonical"] assms(2) by simp
  ultimately have "holds_reply rid (\<lambda>r. rep_created_at r = now \<and> True) (ctl_run codec calls db1)"
    using assms(3) by (intro holds_reply_run) auto
  then obtain r where "find (\<lambda>r. rep_id r = rid) (db_replays (ctl_run codec calls db1)) = Some r"
    using holds_reply_find[OF ctl_run_ok[OF ok]] by blast
  then show ?thesis by (simp add: claim_Claimed)
qed

text \<open>C12. A mutation runs at most once per request id: once a request ran its handler (any sequence of transactions),
  whatever transactions follow, no request with that id runs its handler again as long as no
  retention run comes more than its age limit (48 hours in the maintenance) after the first claim.
  In particular restarts, other requests, conflicting payloads and stored replies do not free the id.\<close>

theorem request_executes_once:
  assumes "ctl_db_ok db" "\<not> pure_read kind" "\<not> pure_read kind'"
    "execute_request codec clock kind rid canonical (\<lambda>d. (response, ctl_run codec inner d)) seen db = (reply, True, db1)"
    "prunes_spare (clock 0) (inner @ calls)"
  shows "fst (snd (execute_request codec clock' kind' rid canonical' handler seen' (ctl_run codec calls db1))) = False"
proof -
  obtain db0 where claim: "claim_request codec (clock 0) rid canonical db = (Claimed, db0)"
    and db1: "db1 = store_replay codec rid canonical response (ctl_run codec inner db0)"
    using assms(2,4) by (auto simp: execute_request_def split: prod.splits claim.splits)
  have run: "ctl_run codec calls db1 = ctl_run codec (inner @ Do_Store rid canonical response # calls) db0"
    by (simp add: db1 ctl_run_append)
  have "prunes_spare (clock 0) (inner @ Do_Store rid canonical response # calls)"
    using assms(5) by (simp add: prunes_spare_def)
  from claimed_once[OF assms(1) claim this, of "clock' 0" canonical'] show ?thesis
    using assms(3) unfolding run by (auto simp: execute_request_def split: prod.split claim.split)
qed

text \<open>Replies are replayed exactly: when the reply of a pending request was stored, every later claim
  with the same canonical request returns that reply, and every claim with another one is refused as a
  conflict, as long as retention spares the row.  The hypotheses on the codec say that it reads back
  what it wrote.\<close>

theorem replay_returns_stored_reply:
  assumes "ctl_db_ok db" "find (\<lambda>r. rep_id r = rid) (db_replays db) = Some r"
    "rep_canonical r = canonical" "\<not> rep_completed r" "prunes_spare (rep_created_at r) calls"
    "load_response codec (dump_response codec response) = Some response" "dump_response codec response \<noteq> []"
  shows "fst (claim_request codec now rid canonical' (ctl_run codec calls (store_replay codec rid canonical response db)))
    = Replay (if canonical' = canonical then response
        else rpc_failure rid REQUEST_ID_CONFLICT ''request id was already used'' False)"
proof -
  let ?db1 = "store_replay codec rid canonical response db"
  let ?P = "\<lambda>x. rep_canonical x = canonical \<and> rep_completed x \<and> rep_response x = dump_response codec response"
  have r: "r \<in> set (db_replays db)" "rep_id r = rid" using find_SomeD[OF assms(2)] by simp_all
  then have "holds_reply rid (\<lambda>x. rep_created_at x = rep_created_at r \<and> ?P x) ?db1"
    using assms(3,4) unfolding holds_reply_def
    by (intro bexI[of _ "r\<lparr>rep_response := dump_response codec response, rep_completed := True\<rparr>"])
      (auto simp: store_replay_def image_iff intro!: bexI[of _ r])
  moreover have ok: "ctl_db_ok ?db1" using assms(1) by (simp add: ctl_db_ok_def)
  ultimately have "holds_reply rid (\<lambda>x. rep_created_at x = rep_created_at r \<and> ?P x) (ctl_run codec calls ?db1)"
    using assms(5) by (intro holds_reply_run) auto
  then obtain x where "find (\<lambda>r. rep_id r = rid) (db_replays (ctl_run codec calls ?db1)) = Some x" "?P x"
    using holds_reply_find[OF ctl_run_ok[OF ok]] by blast
  then show ?thesis using assms(6,7) by (simp add: claim_request_def)
qed

section \<open>Confirmations\<close>

lemma generation_mono: "current_generation db \<le> current_generation (ctl_step codec c db)"
  by (cases c) (simp_all add: mark_generation, simp_all add: current_generation_def)

lemma generation_run: "current_generation db \<le> current_generation (ctl_run codec cs db)"
  by (induction cs arbitrary: db) (auto intro: order_trans[OF generation_mono])

lemma moves_generation_step: "moves_generation c \<Longrightarrow> current_generation db < current_generation (ctl_step codec c db)"
  by (cases c) simp_all

lemma generation_stays:
  assumes "current_generation (ctl_run codec cs db) = current_generation db"
  shows "list_all (\<lambda>c. \<not> moves_generation c) cs"
  using assms
proof (induction cs arbitrary: db)
  case (Cons c cs)
  have "current_generation (ctl_step codec c db) \<le> current_generation (ctl_run codec (c # cs) db)"
    using generation_run[of "ctl_step codec c db" codec cs] by simp
  then have eq: "current_generation (ctl_step codec c db) = current_generation db"
    using Cons.prems generation_mono[of db codec c] by simp
  then have "\<not> moves_generation c" using moves_generation_step[of c db codec] by auto
  then show ?case using Cons.IH[of "ctl_step codec c db"] Cons.prems eq by simp
qed simp

lemma consume_Inr:
  assumes "consume_confirmation clock actor action cid db = (Inr payload, db')"
  obtains c where "find (\<lambda>c. conf_id c = cid) (db_confirmations db) = Some c" "conf_action c = action"
    "conf_actor c = actor" "conf_consumed_at c = None" "clock 0 < conf_expires_at c"
    "conf_generation c = current_generation db" "payload = conf_payload c"
    "db_confirmations db' = map (\<lambda>x. if conf_id x = cid \<and> conf_consumed_at x = None \<and> conf_generation x = conf_generation c
       then x\<lparr>conf_consumed_at := Some (clock 1)\<rparr> else x) (db_confirmations db)"
proof -
  have rej: "\<not> (rejected n a b p c d db = (Inr payload, db'))" for n a b p c d
    by (simp add: rejected_def)
  show thesis
    using assms that unfolding consume_confirmation_def
    by (auto simp: rej split: option.splits if_split_asm)
qed

lemma holds_conf_find:
  assumes "ctl_db_ok db" "holds_conf cid P db" "find (\<lambda>c. conf_id c = cid) (db_confirmations db) = Some x"
  shows "P x"
proof -
  obtain c where c: "c \<in> set (db_confirmations db)" "conf_id c = cid" "P c" using assms(2) by (auto simp: holds_conf_def)
  have "x = c" using find_SomeD[OF assms(3)] c assms(1)
    by (intro distinct_map_inj_on_set[of conf_id "db_confirmations db"]) (simp_all add: ctl_db_ok_def)
  then show ?thesis using c(3) by simp
qed

lemma holds_conf_step:
  assumes "holds_conf cid P db" "\<And>c t. P c \<Longrightarrow> conf_consumed_at c = None \<Longrightarrow> P (c\<lparr>conf_consumed_at := Some t\<rparr>)"
  shows "holds_conf cid P (ctl_step codec c db)"
proof -
  obtain r where r: "r \<in> set (db_confirmations db)" "conf_id r = cid" "P r" using assms(1) by (auto simp: holds_conf_def)
  have same: "holds_conf cid P db'" if "set (db_confirmations db) \<subseteq> set (db_confirmations db')" for db'
    using that r unfolding holds_conf_def by blast
  show ?thesis
  proof (cases c)
    case (Do_Consume clock actor action cid')
    show ?thesis
    proof (cases "fst (consume_confirmation clock actor action cid' db)")
      case (Inl e)
      then have "db_confirmations (snd (consume_confirmation clock actor action cid' db)) = db_confirmations db"
        by (auto simp: consume_confirmation_def split: option.splits if_split_asm)
      then show ?thesis unfolding Do_Consume by (intro same) simp
    next
      case (Inr payload)
      then have "consume_confirmation clock actor action cid' db = (Inr payload, snd (consume_confirmation clock actor action cid' db))"
        by (simp add: prod_eq_iff)
      then obtain k :: confirmation_row where k: "db_confirmations (snd (consume_confirmation clock actor action cid' db))
          = map (\<lambda>x. if conf_id x = cid' \<and> conf_consumed_at x = None \<and> conf_generation x = conf_generation k
              then x\<lparr>conf_consumed_at := Some (clock 1)\<rparr> else x) (db_confirmations db)"
        by (elim consume_Inr) blast
      define f where "f x = (if conf_id x = cid' \<and> conf_consumed_at x = None \<and> conf_generation x = conf_generation k
              then x\<lparr>conf_consumed_at := Some (clock 1)\<rparr> else x)" for x :: confirmation_row
      have "conf_id (f r) = cid" "P (f r)" using r assms(2)[OF r(3)] by (simp_all add: f_def)
      moreover have "f r \<in> set (db_confirmations (ctl_step codec c db))"
        using r(1) by (simp add: Do_Consume k f_def[symmetric])
      ultimately show ?thesis unfolding holds_conf_def by blast
    qed
  next
    case (Do_Prepare terms i actor action profile payload)
    then show ?thesis by (intro same) (auto simp: create_confirmation_def Let_def split: prod.split)
  qed (simp_all add: same)
qed

lemma holds_conf_run:
  assumes "holds_conf cid P db" "\<And>c t. P c \<Longrightarrow> conf_consumed_at c = None \<Longrightarrow> P (c\<lparr>conf_consumed_at := Some t\<rparr>)"
  shows "holds_conf cid P (ctl_run codec cs db)"
  using assms(1) by (induction cs arbitrary: db) (auto intro: holds_conf_step assms(2))

lemma consumed_stays:
  assumes "ctl_db_ok db" "consume_confirmation clock actor action cid db = (Inr payload, db')"
  shows "fst (consume_confirmation clock' actor' action' cid (ctl_run codec cs db')) \<noteq> Inr payload'"
proof
  assume "fst (consume_confirmation clock' actor' action' cid (ctl_run codec cs db')) = Inr payload'"
  then obtain db2 where again: "consume_confirmation clock' actor' action' cid (ctl_run codec cs db') = (Inr payload', db2)"
    by (metis prod.collapse)
  have ok: "ctl_db_ok db'" using ctl_step_ok[OF assms(1), of codec "Do_Consume clock actor action cid"] assms(2) by simp
  from assms(2) obtain c where c: "find (\<lambda>c. conf_id c = cid) (db_confirmations db) = Some c" "conf_consumed_at c = None"
    "db_confirmations db' = map (\<lambda>x. if conf_id x = cid \<and> conf_consumed_at x = None \<and> conf_generation x = conf_generation c
       then x\<lparr>conf_consumed_at := Some (clock 1)\<rparr> else x) (db_confirmations db)"
    by (elim consume_Inr) blast
  have "holds_conf cid (\<lambda>x. conf_consumed_at x \<noteq> None) db'"
    using find_SomeD[OF c(1)] c(2) unfolding holds_conf_def c(3)
    by (intro bexI[of _ "c\<lparr>conf_consumed_at := Some (clock 1)\<rparr>"]) (auto simp: image_iff intro!: bexI[of _ c])
  then have held: "holds_conf cid (\<lambda>x. conf_consumed_at x \<noteq> None) (ctl_run codec cs db')"
    by (rule holds_conf_run) simp
  from again obtain k where "find (\<lambda>c. conf_id c = cid) (db_confirmations (ctl_run codec cs db')) = Some k" "conf_consumed_at k = None"
    by (elim consume_Inr) blast
  then show False using holds_conf_find[OF ctl_run_ok[OF ok] held] by simp
qed

text \<open>C13. A confirmation authorises exactly what was prepared, once: if a confirmation whose expiry and generation were read in
  one state, and which was stored after any transactions in between, is consumed after any further transactions, then the
  actor and the action are those of the preparation, less than five minutes have passed since the reading, the payload is the
  prepared one, no job has finished and no restart has completed since the reading, it was not consumed before, and
  it can never be consumed again.\<close>

theorem confirmation_single_use:
  assumes "ctl_db_ok db0"
    "create_confirmation (confirmation_terms clock db0) cid actor action profile payload (ctl_run codec between db0) = (Inr summary, db1)"
    "consume_confirmation clock' actor' action' cid (ctl_run codec calls db1) = (Inr payload', db2)"
  shows "actor' = actor \<and> action' = action \<and> clock' 0 < clock 0 + 5 * MINUTE
    \<and> payload' = payload @ [(''profile_id'', JStr (profile_value profile))]
    \<and> list_all (\<lambda>c. \<not> moves_generation c) (between @ calls)
    \<and> (\<forall>pre cl a b post p. calls = pre @ Do_Consume cl a b cid # post
         \<longrightarrow> fst (consume_confirmation cl a b cid (ctl_run codec pre db1)) \<noteq> Inr p)
    \<and> (\<forall>calls2 cl a b p. fst (consume_confirmation cl a b cid (ctl_run codec calls2 db2)) \<noteq> Inr p)"
proof -
  let ?prep = "Do_Prepare (confirmation_terms clock db0) cid actor action profile payload"
  let ?P = "\<lambda>x. conf_actor x = actor \<and> conf_action x = action
      \<and> conf_payload x = payload @ [(''profile_id'', JStr (profile_value profile))]
      \<and> conf_expires_at x = clock 0 + 5 * MINUTE \<and> conf_generation x = current_generation db0"
  have db1: "db1 = ctl_run codec (between @ [?prep]) db0" using assms(2) by (simp add: ctl_run_append)
  have ok1: "ctl_db_ok db1" unfolding db1 by (rule ctl_run_ok[OF assms(1)])
  have ok: "ctl_db_ok (ctl_run codec calls db1)" by (rule ctl_run_ok[OF ok1])
  have "holds_conf cid ?P db1"
    using assms(2) by (auto simp: holds_conf_def create_confirmation_def confirmation_terms_def Let_def split: if_split_asm)
  then have held: "holds_conf cid ?P (ctl_run codec calls db1)" by (rule holds_conf_run) simp
  from assms(3) obtain c where c: "find (\<lambda>c. conf_id c = cid) (db_confirmations (ctl_run codec calls db1)) = Some c"
    "conf_action c = action'" "conf_actor c = actor'" "clock' 0 < conf_expires_at c"
    "conf_generation c = current_generation (ctl_run codec calls db1)" "payload' = conf_payload c"
    by (elim consume_Inr) blast
  note P = holds_conf_find[OF ok held c(1)]
  have "current_generation (ctl_run codec (between @ ?prep # calls) db0) = current_generation db0"
    using P c(5) by (simp add: db1 ctl_run_append)
  then have moves: "list_all (\<lambda>c. \<not> moves_generation c) (between @ calls)" using generation_stays by fastforce
  have before: "fst (consume_confirmation cl a b cid (ctl_run codec pre db1)) \<noteq> Inr p"
    if "calls = pre @ Do_Consume cl a b cid # post" for pre cl a b post p
  proof
    assume "fst (consume_confirmation cl a b cid (ctl_run codec pre db1)) = Inr p"
    then obtain d where d: "consume_confirmation cl a b cid (ctl_run codec pre db1) = (Inr p, d)" by (metis prod.collapse)
    have "ctl_run codec calls db1 = ctl_run codec post d" using d by (simp add: that ctl_run_append)
    then show False
      using consumed_stays[OF ctl_run_ok[OF ok1] d, of clock' actor' action' codec post payload'] assms(3) by simp
  qed
  show ?thesis
    using P c moves before consumed_stays[OF ok assms(3)] by simp
qed

section \<open>Scheduled fires\<close>

lemma events_step: "set (db_events db) \<subseteq> set (db_events (ctl_step codec c db))"
proof (cases c)
  case (Do_Event clock profile code message)
  then show ?thesis by (auto simp: record_event_def)
next
  case (Do_Mark_Incomplete now)
  then show ?thesis using mark_simps(1)[of codec now db] by simp
qed simp_all

lemma events_run: "set (db_events db) \<subseteq> set (db_events (ctl_run codec cs db))"
  by (induction cs arbitrary: db) (auto dest: subsetD[OF events_step])

text \<open>A scheduled fire is executed at most once, across polls, duplicate entries and restarts: after one claim of
  the fire of an entry in a minute, no later claim with the same key succeeds.  The marker is stored
  with at most 512 characters, hence the hypothesis on the key.\<close>

theorem scheduled_fire_once:
  assumes "claim_fire str_of clock entry t db = (True, db1)" "length (schedule_fire_key str_of entry t) \<le> 512"
    "schedule_fire_key str_of entry' t' = schedule_fire_key str_of entry t" "sched_profile entry' = sched_profile entry"
  shows "fst (claim_fire str_of clock' entry' t' (ctl_run codec calls db1)) = False"
proof -
  have "db1 = record_event clock (Some (sched_profile entry)) ''scheduled_fire'' (schedule_fire_key str_of entry t) db"
    using assms(1) by (auto simp: claim_fire_def split: if_split_asm)
  then have "schedule_fire_seen str_of entry t db1"
    using assms(2) by (auto simp: schedule_fire_seen_def record_event_def list_ex_iff)
  then have "schedule_fire_seen str_of entry' t' (ctl_run codec calls db1)"
    using events_run[of db1 codec calls] assms(3,4) by (auto simp: schedule_fire_seen_def list_ex_iff)
  then show ?thesis by (simp add: claim_fire_def)
qed

section \<open>Resuming after a restart\<close>

lemma fold_max_ge: "x \<in> set (a # xs) \<Longrightarrow> x \<le> fold max xs (a::int)"
  using Max_ge[of "set (a # xs)" x] by (simp only: Max.set_eq_fold finite_set)

lemma next_seq_gt: "j \<in> set js \<Longrightarrow> job_seq j = Some s \<Longrightarrow> s < next_seq js"
proof -
  assume "j \<in> set js" "job_seq j = Some s"
  then have "s \<in> set (List.map_filter job_seq js)" by (force simp: List.map_filter_def)
  then show ?thesis
    using fold_max_ge[of s] by (cases "List.map_filter job_seq js") (simp_all add: next_seq_def)
qed

lemma seq_inv_same:
  "seq_inv comps db \<Longrightarrow> db_jobs db' = db_jobs db \<Longrightarrow> seq_inv comps db'"
  by (simp add: seq_inv_def)

lemma seq_inv_intent:
  "seq_inv comps db \<Longrightarrow> seq_inv comps (snd (job_intent clock i actor action profile db))"
  by (auto simp: seq_inv_def job_intent_def lifecycle_job_def)

lemma seq_inv_mark:
  assumes "seq_inv comps db"
  shows "seq_inv comps (snd (mark_incomplete codec now db))"
proof -
  define f where "f j = (if active_job j then j\<lparr>job_status := Job_Failed, job_finished_at := Some now,
              job_detail := Some ''controller restarted''\<rparr> else j)" for j :: job_row
  have jobs: "db_jobs (snd (mark_incomplete codec now db)) = map f (db_jobs db)"
    by (simp add: mark_incomplete_def Let_def f_def[abs_def])
  have keep: "f j = j" if "j \<in> set (db_jobs db)" "job_seq j = Some s" for j s
    using assms that by (force simp: seq_inv_def f_def)
  have none: "job_seq (f j) = job_seq j" "\<not> lifecycle_job j \<Longrightarrow> \<not> lifecycle_job (f j)" for j
    by (auto simp: f_def lifecycle_job_def)
  show ?thesis unfolding seq_inv_def jobs
  proof (intro conjI ballI)
    show "set comps \<subseteq> set (map f (db_jobs db))"
    proof
      fix j assume j: "j \<in> set comps"
      have "job_seq j \<noteq> None" "j \<in> set (db_jobs db)" using assms j by (auto simp: seq_inv_def list_all_iff)
      then show "j \<in> set (map f (db_jobs db))" using keep by force
    qed
    show "list_all (\<lambda>j. job_seq j \<noteq> None) comps" "sorted_wrt (<) (map (the \<circ> job_seq) comps)"
      using assms by (simp_all add: seq_inv_def)
    fix x assume "x \<in> set (map f (db_jobs db))"
    then obtain j where j: "j \<in> set (db_jobs db)" "x = f j" by auto
    have inv: "case job_seq j of None \<Rightarrow> \<not> lifecycle_job j | Some s \<Rightarrow> j \<in> set comps \<and> \<not> active_job j"
      using assms j(1) by (simp add: seq_inv_def)
    show "case job_seq x of None \<Rightarrow> \<not> lifecycle_job x | Some s \<Rightarrow> x \<in> set comps \<and> \<not> active_job x"
    proof (cases "job_seq j")
      case None
      then show ?thesis using inv none by (simp add: j(2))
    next
      case (Some s)
      then show ?thesis using inv keep[OF j(1) Some] by (simp add: j(2))
    qed
  qed
qed

lemma filter_key_le_1: "distinct (map key xs) \<Longrightarrow> length (filter (\<lambda>x. key x = k) xs) \<le> 1"
proof (induction xs)
  case (Cons x xs)
  have "filter (\<lambda>y. key y = k) xs = []" if "key x = k" using Cons.prems that by (auto simp: filter_empty_conv) (metis imageI)
  then show ?case using Cons by simp
qed simp

lemma seq_inv_finish:
  assumes "seq_inv comps db" "ctl_db_ok db" "fin_state f \<notin> {Some Job_Accepted, Some Job_Running}"
  shows "seq_inv (filter (\<lambda>j. job_id j \<noteq> fin_job f) comps @ filter (\<lambda>j. job_id j = fin_job f) (db_jobs (finish_job clock f db)))
     (finish_job clock f db)"
proof -
  let ?old = "filter (\<lambda>j. job_id j \<noteq> fin_job f) comps"
  define st where "st = (case fin_state f of Some s \<Rightarrow> s | None \<Rightarrow> if fin_ok f then Job_Succeeded else Job_Failed)"
  define upd where "upd j = (if job_id j = fin_job f
            then j\<lparr>job_status := st, job_finished_at := Some (clock 0), job_seq := Some (next_seq (db_jobs db)),
                   job_detail := Some (take 512 (fin_detail f))\<rparr> else j)" for j :: job_row
  have jobs: "db_jobs (finish_job clock f db) = map upd (db_jobs db)"
    by (simp add: finish_job_def Let_def upd_def[abs_def] st_def)
  have st: "st \<notin> {Job_Accepted, Job_Running}" using assms(3) by (auto simp: st_def split: option.split)
  have other: "upd j = j" if "job_id j \<noteq> fin_job f" for j using that by (simp add: upd_def)
  have comps: "set comps \<subseteq> set (db_jobs db)" using assms(1) by (simp add: seq_inv_def)
  have new: "filter (\<lambda>j. job_id j = fin_job f) (map upd (db_jobs db)) = map upd (filter (\<lambda>j. job_id j = fin_job f) (db_jobs db))"
    by (simp add: filter_map comp_def upd_def if_distrib cong: if_cong)
  have one: "length (filter (\<lambda>j. job_id j = fin_job f) (db_jobs db)) \<le> 1"
    using assms(2) by (intro filter_key_le_1) (simp add: ctl_db_ok_def)
  show ?thesis unfolding seq_inv_def jobs new
  proof (intro conjI ballI)
    show "set (?old @ map upd (filter (\<lambda>j. job_id j = fin_job f) (db_jobs db))) \<subseteq> set (map upd (db_jobs db))"
    proof -
      have "x \<in> upd ` set (db_jobs db)" if "x \<in> set ?old" for x
      proof -
        have "upd x = x" using that by (intro other) simp
        moreover have "x \<in> set (db_jobs db)" using comps that by auto
        ultimately show ?thesis by (metis imageI)
      qed
      then show ?thesis by auto
    qed
    show "list_all (\<lambda>j. job_seq j \<noteq> None) (?old @ map upd (filter (\<lambda>j. job_id j = fin_job f) (db_jobs db)))"
      using assms(1) by (auto simp: seq_inv_def list_all_iff upd_def)
    have "s < next_seq (db_jobs db)" if "j \<in> set comps" "job_seq j = Some s" for j s
      using next_seq_gt comps that by blast
    then have "\<forall>j \<in> set ?old. the (job_seq j) < next_seq (db_jobs db)"
      using assms(1) by (auto simp: seq_inv_def list_all_iff)
    moreover have "\<forall>x \<in> set (map upd (filter (\<lambda>j. job_id j = fin_job f) (db_jobs db))). job_seq x = Some (next_seq (db_jobs db))"
      by (simp add: upd_def)
    moreover have "sorted_wrt (<) (map (the \<circ> job_seq) ?old)"
      using assms(1) by (simp add: seq_inv_def sorted_wrt_map sorted_wrt_filter)
    moreover have "length (map upd (filter (\<lambda>j. job_id j = fin_job f) (db_jobs db))) \<le> 1" using one by simp
    ultimately show "sorted_wrt (<) (map (the \<circ> job_seq) (?old @ map upd (filter (\<lambda>j. job_id j = fin_job f) (db_jobs db))))"
      by (cases "map upd (filter (\<lambda>j. job_id j = fin_job f) (db_jobs db))") (simp_all add: sorted_wrt_append)
    fix x assume "x \<in> set (map upd (db_jobs db))"
    then obtain j where j: "j \<in> set (db_jobs db)" "x = upd j" by auto
    have inv: "case job_seq j of None \<Rightarrow> \<not> lifecycle_job j | Some s \<Rightarrow> j \<in> set comps \<and> \<not> active_job j"
      using assms(1) j(1) by (simp add: seq_inv_def)
    show "case job_seq x of None \<Rightarrow> \<not> lifecycle_job x
        | Some s \<Rightarrow> x \<in> set (?old @ map upd (filter (\<lambda>j. job_id j = fin_job f) (db_jobs db))) \<and> \<not> active_job x"
    proof (cases "job_id j = fin_job f")
      case True
      then show ?thesis using j st by (auto simp: upd_def active_job_def)
    next
      case False
      then show ?thesis using inv j other by (auto split: option.splits)
    qed
  qed
qed

lemma last_of_each_snoc: "last_of_each (js @ [y]) = filter (\<lambda>j. job_id j \<noteq> job_id y) (last_of_each js) @ [y]"
  by (induction js) (auto simp: list_ex_iff)

lemma last_of_each_finish:
  assumes "seq_inv (last_of_each comps) db" "ctl_db_ok db"
  shows "last_of_each (comps @ filter (\<lambda>j. job_id j = fin_job f) (db_jobs (finish_job clock f db)))
    = filter (\<lambda>j. job_id j \<noteq> fin_job f) (last_of_each comps)
      @ filter (\<lambda>j. job_id j = fin_job f) (db_jobs (finish_job clock f db))"
proof -
  let ?new = "filter (\<lambda>j. job_id j = fin_job f) (db_jobs (finish_job clock f db))"
  have "ctl_db_ok (finish_job clock f db)" using ctl_step_ok[OF assms(2), where c = "Do_Finish clock f"] by simp
  then have one: "length ?new \<le> 1" by (intro filter_key_le_1) (simp add: ctl_db_ok_def)
  show ?thesis
  proof (cases ?new)
    case Nil
    have "map job_id (db_jobs (finish_job clock f db)) = map job_id (db_jobs db)" by (simp add: finish_job_def Let_def)
    then have "job_id ` set (db_jobs (finish_job clock f db)) = job_id ` set (db_jobs db)" by (metis set_map)
    then have "fin_job f \<notin> job_id ` set (db_jobs db)" using Nil by (auto simp: filter_empty_conv) (metis imageE imageI)
    moreover have "set (last_of_each comps) \<subseteq> set (db_jobs db)" using assms(1) by (simp add: seq_inv_def)
    ultimately have "filter (\<lambda>j. job_id j \<noteq> fin_job f) (last_of_each comps) = last_of_each comps"
      by (intro filter_True) (metis imageI subsetD)
    then show ?thesis unfolding Nil by simp
  next
    case (Cons y ys)
    have "job_id y = fin_job f" using filter_eq_ConsD[OF Cons] by blast
    moreover have "ys = []" using one unfolding Cons by simp
    ultimately show ?thesis unfolding Cons by (simp add: last_of_each_snoc)
  qed
qed

lemma seq_inv_run:
  assumes "seq_inv (last_of_each comps) db" "ctl_db_ok db" "terminal_finishes cs"
  shows "seq_inv (last_of_each (comps @ completions codec cs db)) (ctl_run codec cs db)"
  using assms
proof (induction cs arbitrary: comps db)
  case (Cons c cs)
  have ok: "ctl_db_ok (ctl_step codec c db)" by (rule ctl_step_ok[OF Cons.prems(2)])
  have terminal: "terminal_finishes cs" using Cons.prems(3) by (simp add: terminal_finishes_def)
  show ?case
  proof (cases "\<exists>clock f. c = Do_Finish clock f")
    case True
    then obtain clock f where c: "c = Do_Finish clock f" by blast
    let ?new = "filter (\<lambda>j. job_id j = fin_job f) (db_jobs (finish_job clock f db))"
    have "seq_inv (last_of_each (comps @ ?new)) (finish_job clock f db)"
      unfolding last_of_each_finish[OF Cons.prems(1,2)]
      using Cons.prems c by (intro seq_inv_finish) (auto simp: terminal_finishes_def)
    then show ?thesis
      using Cons.IH[of "comps @ ?new" "finish_job clock f db"] ok terminal c by simp
  next
    case False
    have "seq_inv (last_of_each comps) (ctl_step codec c db)"
    proof (cases c)
      case (Do_Intent clock i actor action profile)
      then show ?thesis using Cons.prems(1) by (simp add: seq_inv_intent)
    next
      case (Do_Mark_Incomplete now)
      then show ?thesis using Cons.prems(1) by (simp add: seq_inv_mark)
    qed (use Cons.prems(1) False in \<open>simp_all add: seq_inv_def\<close>)
    moreover have "completions codec (c # cs) db = completions codec cs (ctl_step codec c db)"
      using False by (cases c) auto
    ultimately show ?thesis
      using Cons.IH[of comps "ctl_step codec c db"] ok terminal by simp
  qed
qed simp

lemma later_job_max:
  assumes "\<And>x. x \<in> set (j # js) \<Longrightarrow> job_seq x \<noteq> None"
  shows "fold later_job js j \<in> set (j # js) \<and> (\<forall>x \<in> set (j # js). the (job_seq x) \<le> the (job_seq (fold later_job js j)))"
  using assms
proof (induction js arbitrary: j)
  case (Cons k js)
  have l: "later_job k j \<in> {k, j}" "the (job_seq k) \<le> the (job_seq (later_job k j))" "the (job_seq j) \<le> the (job_seq (later_job k j))"
    using Cons.prems[of j] Cons.prems[of k] by (auto simp: later_job_def split: option.splits)
  have "job_seq x \<noteq> None" if "x \<in> set (later_job k j # js)" for x
    using that l(1) Cons.prems by auto
  then have ih: "fold later_job js (later_job k j) \<in> set (later_job k j # js)"
      "\<And>x. x \<in> set (later_job k j # js) \<Longrightarrow> the (job_seq x) \<le> the (job_seq (fold later_job js (later_job k j)))"
    using Cons.IH[of "later_job k j"] by blast+
  have "fold later_job js (later_job k j) \<in> set (j # k # js)" using ih(1) l(1) by auto
  moreover have "the (job_seq x) \<le> the (job_seq (fold later_job js (later_job k j)))" if "x \<in> set (j # k # js)" for x
    using that ih(2)[of x] ih(2)[of "later_job k j"] l(2,3) by auto
  ultimately show ?case by simp
qed simp

lemma last_is_max:
  assumes "sorted_wrt (<) (map g xs)" "x \<in> set xs"
  shows "g x \<le> (g (last xs) :: int)"
  using assms
proof (induction xs)
  case (Cons a xs)
  then show ?case by (cases xs) (auto intro: less_imp_le)
qed simp

lemma sorted_inj:
  assumes "sorted_wrt (<) (map g xs)" "x \<in> set xs" "y \<in> set xs" "g x = (g y :: int)"
  shows "x = y"
proof -
  have "distinct (map g xs)" using assms(1) by (simp add: strict_sorted_iff)
  then show ?thesis using assms(2-4) by (rule distinct_map_inj_on_set)
qed

lemma resume_last_history:
  assumes "terminal_finishes calls"
  shows "resume_last (ctl_run codec calls empty_ctl_db) = resume_spec (last_of_each (completions codec calls empty_ctl_db))"
proof -
  let ?db = "ctl_run codec calls empty_ctl_db" and ?cs = "last_of_each (completions codec calls empty_ctl_db)"
  have inv: "seq_inv ?cs ?db"
    using seq_inv_run[of "[]" empty_ctl_db calls codec] assms by (simp add: seq_inv_def ctl_db_ok_def empty_ctl_db_def)
  then have sub: "set ?cs \<subseteq> set (db_jobs ?db)"
    and row: "\<And>j. j \<in> set (db_jobs ?db) \<Longrightarrow>
      case job_seq j of None \<Rightarrow> \<not> lifecycle_job j | Some s \<Rightarrow> j \<in> set ?cs \<and> \<not> active_job j"
    unfolding seq_inv_def by blast+
  have some: "job_seq j \<noteq> None \<and> j \<in> set ?cs" if "j \<in> set (db_jobs ?db)" "lifecycle_job j" for j
    using row[OF that(1)] that(2) by (cases "job_seq j") simp_all
  have same: "set (filter resumable (db_jobs ?db)) = set (filter resumable ?cs)"
    unfolding set_filter using some sub resumable_def by blast
  have none: "\<not> list_ex (\<lambda>j. lifecycle_job j \<and> job_seq j = None) (db_jobs ?db)"
    unfolding list_ex_iff using some by blast
  have sorted: "sorted_wrt (<) (map (the \<circ> job_seq) (filter resumable ?cs))"
    using inv by (simp add: seq_inv_def sorted_wrt_map sorted_wrt_filter)
  show ?thesis
  proof (cases "filter resumable (db_jobs ?db)")
    case Nil
    then have "filter resumable ?cs = []" using same by (metis set_empty)
    then show ?thesis using Nil none by (simp add: resume_last_def last_lifecycle_job_def resume_spec_def)
  next
    case (Cons j js)
    then obtain k ks where cs: "filter resumable ?cs = k # ks" using same by (cases "filter resumable ?cs") auto
    let ?m = "fold later_job js j" and ?l = "last (k # ks)"
    have seqs: "job_seq x \<noteq> None" if "x \<in> set (j # js)" for x
      using that some[of x] unfolding Cons[symmetric] set_filter resumable_def by blast
    have m: "?m \<in> set (j # js)" "\<And>x. x \<in> set (j # js) \<Longrightarrow> the (job_seq x) \<le> the (job_seq ?m)"
      using later_job_max[of j js] seqs by blast+
    have l: "?l \<in> set (k # ks)" by simp
    have eq: "set (j # js) = set (k # ks)" using same unfolding Cons cs .
    have "the (job_seq ?l) \<le> the (job_seq ?m)" by (rule m(2)) (simp only: eq l)
    moreover have "(the \<circ> job_seq) ?m \<le> (the \<circ> job_seq) ?l"
      by (rule last_is_max[OF sorted[unfolded cs] m(1)[unfolded eq]])
    ultimately have "(the \<circ> job_seq) ?m = (the \<circ> job_seq) ?l" by simp
    then have "?m = ?l" by (rule sorted_inj[OF sorted[unfolded cs] m(1)[unfolded eq] l])
    then show ?thesis
      using none Cons cs by (simp add: resume_last_def last_lifecycle_job_def resume_spec_def Let_def)
  qed
qed

text \<open>C21. What a restarted controller resumes: a configured boot profile, if it names one, and nothing if it names none; otherwise
  (none is configured, or it asks to resume) the answer is read off the history.  It is then the profile of the last completed
  start or switch, and none if the last lifecycle job that succeeded was a stop.  The history is any sequence of transactions
  from an empty database, in which a job may be finished more than once, and then counts as its last completion left it.  Each finish leaves a
  terminal state.  The stored sequence numbers, not the time stamps, decide.\<close>

theorem resume_reads_history:
  assumes "terminal_finishes calls"
  shows "resume_profile_id boot (ctl_run codec calls empty_ctl_db) =
    (if boot \<in> {None, Some [], Some ''resume'', Some ''resume-last-active''}
     then resume_spec (last_of_each (completions codec calls empty_ctl_db)) else boot \<bind> profile_of_value)"
  using resume_last_history[OF assms] by (auto simp: resume_profile_id_def split: option.split)

section \<open>Witnesses\<close>

lemma empty_ctl_db_ok: "ctl_db_ok empty_ctl_db"
  by (simp add: ctl_db_ok_def empty_ctl_db_def)

theorem request_executes_once_witness:
  "fst (snd (execute_request sample_codec (\<lambda>_. HOUR) Act_Stop ''r1'' ''other'' (\<lambda>d. (Rpc_Success ''r1'' JNull, d)) (\<lambda>_. empty_ctl_db)
     (ctl_run sample_codec [Do_Mark_Incomplete HOUR, Do_Prune (2 * DAY) 48]
       (snd (snd (execute_request sample_codec (\<lambda>_. 0) Act_Start ''r1'' ''body''
          (\<lambda>d. (Rpc_Success ''r1'' JNull, ctl_run sample_codec [Do_Bump] d)) (\<lambda>_. empty_ctl_db) empty_ctl_db)))))) = False"
proof (rule request_executes_once[OF empty_ctl_db_ok])
  show "execute_request sample_codec (\<lambda>_. 0) Act_Start ''r1'' ''body''
          (\<lambda>d. (Rpc_Success ''r1'' JNull, ctl_run sample_codec [Do_Bump] d)) (\<lambda>_. empty_ctl_db) empty_ctl_db
      = (Rpc_Success ''r1'' JNull, True, snd (snd (execute_request sample_codec (\<lambda>_. 0) Act_Start ''r1'' ''body''
          (\<lambda>d. (Rpc_Success ''r1'' JNull, ctl_run sample_codec [Do_Bump] d)) (\<lambda>_. empty_ctl_db) empty_ctl_db)))"
    by (simp add: execute_request_def pure_read_def claim_request_def empty_ctl_db_def)
qed (simp_all add: pure_read_def prunes_spare_def)

theorem replay_returns_stored_reply_witness:
  "fst (claim_request sample_codec HOUR ''r1'' ''body'' (ctl_run sample_codec [Do_Mark_Incomplete HOUR]
     (store_replay sample_codec ''r1'' ''body'' (Rpc_Success ''r1'' JNull)
       (snd (claim_request sample_codec 0 ''r1'' ''body'' empty_ctl_db))))) = Replay (Rpc_Success ''r1'' JNull)"
proof -
  let ?db = "snd (claim_request sample_codec 0 ''r1'' ''body'' empty_ctl_db)"
  let ?r = "\<lparr>rep_id = ''r1'', rep_canonical = ''body'', rep_response = [], rep_completed = False, rep_created_at = 0\<rparr>"
  have "ctl_db_ok ?db" using ctl_step_ok[OF empty_ctl_db_ok, of sample_codec "Do_Claim 0 ''r1'' ''body''"] by simp
  moreover have "find (\<lambda>r. rep_id r = ''r1'') (db_replays ?db) = Some ?r"
    by (simp add: claim_request_def empty_ctl_db_def)
  ultimately have "fst (claim_request sample_codec HOUR ''r1'' ''body'' (ctl_run sample_codec [Do_Mark_Incomplete HOUR]
     (store_replay sample_codec ''r1'' ''body'' (Rpc_Success ''r1'' JNull) ?db)))
      = Replay (if ''body'' = ''body'' then Rpc_Success ''r1'' JNull
          else rpc_failure ''r1'' REQUEST_ID_CONFLICT ''request id was already used'' False)"
    by (rule replay_returns_stored_reply) (simp_all add: prunes_spare_def sample_codec_def)
  then show ?thesis by simp
qed

theorem confirmation_single_use_witness:
  "\<exists>payload db2. consume_confirmation (\<lambda>_. MINUTE) ''op'' ''force_stop'' ''c1''
      (ctl_run sample_codec [Do_Event (\<lambda>_. 1) None ''x'' ''y'']
        (snd (create_confirmation (confirmation_terms (\<lambda>_. 0) empty_ctl_db) ''c1'' ''op'' ''force_stop'' PZ_RISING []
          (ctl_run sample_codec [Do_Event (\<lambda>_. 0) None ''v'' ''w''] empty_ctl_db))))
      = (Inr payload, db2) \<and> payload = [(''profile_id'', JStr ''pz-rising'')]
    \<and> (\<forall>calls cl a b p. fst (consume_confirmation cl a b ''c1'' (ctl_run sample_codec calls db2)) \<noteq> Inr p)"
proof -
  let ?p = "create_confirmation (confirmation_terms (\<lambda>_. 0) empty_ctl_db) ''c1'' ''op'' ''force_stop'' PZ_RISING []
      (ctl_run sample_codec [Do_Event (\<lambda>_. 0) None ''v'' ''w''] empty_ctl_db)"
  let ?c = "consume_confirmation (\<lambda>_. MINUTE) ''op'' ''force_stop'' ''c1''
      (ctl_run sample_codec [Do_Event (\<lambda>_. 1) None ''x'' ''y''] (snd ?p))"
  have "fst ?p = Inr (''c1'', 5 * MINUTE, 0)" by code_simp
  then have p: "?p = (Inr (''c1'', 5 * MINUTE, 0), snd ?p)" by (simp add: prod_eq_iff)
  have "fst ?c = Inr [(''profile_id'', JStr ''pz-rising'')]" by code_simp
  then have c: "?c = (Inr [(''profile_id'', JStr ''pz-rising'')], snd ?c)" by (simp add: prod_eq_iff)
  from confirmation_single_use[OF empty_ctl_db_ok p c] c show ?thesis by blast
qed

theorem scheduled_fire_once_witness:
  "fst (claim_fire (\<lambda>_. []) (\<lambda>_. 0) nightly sunday_noon (ctl_run sample_codec [Do_Mark_Incomplete HOUR]
     (snd (claim_fire (\<lambda>_. []) (\<lambda>_. 0) nightly sunday_noon empty_ctl_db)))) = False"
proof (rule scheduled_fire_once)
  show "claim_fire (\<lambda>_. []) (\<lambda>_. 0) nightly sunday_noon empty_ctl_db
      = (True, snd (claim_fire (\<lambda>_. []) (\<lambda>_. 0) nightly sunday_noon empty_ctl_db))"
    by (simp add: claim_fire_def schedule_fire_seen_def empty_ctl_db_def)
  show "length (schedule_fire_key (\<lambda>_. []) nightly sunday_noon) \<le> 512" by code_simp
qed simp_all

theorem resume_reads_history_witness:
  "resume_profile_id (Some ''resume'') (ctl_run sample_codec [Do_Intent (\<lambda>_. 0) ''j1'' ''op'' ''start'' (Some PZ_RISING),
     Do_Finish (\<lambda>_. 1) sample_finish, Do_Finish (\<lambda>_. 2) sample_finish] empty_ctl_db) = Some PZ_RISING"
proof -
  let ?calls = "[Do_Intent (\<lambda>_. 0) ''j1'' ''op'' ''start'' (Some PZ_RISING), Do_Finish (\<lambda>_. 1) sample_finish,
    Do_Finish (\<lambda>_. 2) sample_finish]"
  have "resume_spec (last_of_each (completions sample_codec ?calls empty_ctl_db)) = Some PZ_RISING" by code_simp
  moreover have "terminal_finishes ?calls" by (simp add: terminal_finishes_def sample_finish_def)
  ultimately show ?thesis using resume_reads_history[of ?calls "Some ''resume''" sample_codec] by simp
qed

end
