(* ===== verification/Readiness.thy ===== *)
theory Readiness
  imports Horizon_Prelude "HOL-Library.AList"
begin

text \<open>
  Start readiness, \<open>ReadinessCoordinator\<close> of \<^verbatim>\<open>src/game_control/health.py\<close>: one notification slot per
  started profile, on which other requests wait for the outcome of a start.

  A slot is a mutable object that a suspended waiter still refers to after a new start has replaced it
  in the table, so the slots live in a store addressed by their generation (every generation has one
  slot).  A waiter is suspended at its \<^verbatim>\<open>await\<close>; \<open>wait_resume\<close> is what it does when it is scheduled
  again, and \<open>None\<close> says that its event is still unset and its timer has not expired.
\<close>

section \<open>State\<close>

datatype readiness_outcome = Ready_SUCCESS | Ready_FAILURE | Ready_TIMEOUT

record readiness_ticket =
  tk_profile :: string
  tk_generation :: int

record readiness_entry =
  re_event :: bool
  re_outcome :: "readiness_outcome option"
  re_active :: bool

record coordinator =
  rc_entries :: "(string \<times> int) list"
  rc_objects :: "int \<rightharpoonup> readiness_entry"
  rc_generation :: int
  rc_counts :: "readiness_outcome \<Rightarrow> nat"

definition new_coordinator :: coordinator where
  "new_coordinator = \<lparr>rc_entries = [], rc_objects = Map.empty, rc_generation = 0, rc_counts = (\<lambda>_. 0)\<rparr>"

section \<open>Operations\<close>

definition profile_key :: "json \<Rightarrow> string outcome" where
  "profile_key j =
     (case j of JStr v \<Rightarrow> if v = [] \<or> 128 < length v then Inl (Value_Error ''invalid readiness profile'') else Inr v
      | _ \<Rightarrow> Inl (Value_Error ''invalid readiness profile''))"

definition readiness_begin :: "json \<Rightarrow> coordinator \<Rightarrow> readiness_ticket outcome \<times> coordinator" where
  "readiness_begin profile s =
     (case profile_key profile of
        Inl e \<Rightarrow> (Inl e, s)
      | Inr key \<Rightarrow>
          let g = rc_generation s + 1
          in (Inr \<lparr>tk_profile = key, tk_generation = g\<rparr>,
              s\<lparr>rc_generation := g, rc_entries := AList.update key g (rc_entries s),
                rc_objects := (rc_objects s)(g \<mapsto> \<lparr>re_event = False, re_outcome = None, re_active = True\<rparr>)\<rparr>))"

definition current_entry :: "readiness_ticket \<Rightarrow> coordinator \<Rightarrow> readiness_entry option" where
  "current_entry ticket s =
     (if map_of (rc_entries s) (tk_profile ticket) = Some (tk_generation ticket)
      then rc_objects s (tk_generation ticket) else None)"

definition readiness_notify :: "readiness_ticket \<Rightarrow> readiness_outcome \<Rightarrow> coordinator \<Rightarrow> bool \<times> coordinator" where
  "readiness_notify ticket r s =
     (case current_entry ticket s of
        None \<Rightarrow> (False, s)
      | Some e \<Rightarrow>
          if re_outcome e \<noteq> None then (False, s)
          else (True, s\<lparr>rc_objects := (rc_objects s)(tk_generation ticket \<mapsto> e\<lparr>re_event := True, re_outcome := Some r\<rparr>),
                        rc_counts := (rc_counts s)(r := Suc (rc_counts s r))\<rparr>))"

text \<open>The generation a caller names may be any JSON value; a \<open>bool\<close> is refused although it equals 0 or 1.\<close>

definition readiness_latest :: "json \<Rightarrow> json option \<Rightarrow> coordinator \<Rightarrow> readiness_ticket outcome" where
  "readiness_latest profile generation s =
     and_then (profile_key profile) (\<lambda>key.
       case map_of (rc_entries s) key of
         None \<Rightarrow> Inl (Runtime_Error ''readiness notification is unavailable'')
       | Some g \<Rightarrow>
           if generation \<noteq> None \<and> generation \<noteq> Some (JInt g) \<and> generation \<noteq> Some (JFloat (Finite (of_int g)))
           then Inl (Runtime_Error ''readiness generation is stale'')
           else Inr \<lparr>tk_profile = key, tk_generation = g\<rparr>)"

definition check_timeout :: "json \<Rightarrow> unit outcome" where
  "check_timeout j =
     and_then (case j of JInt n \<Rightarrow> float_of_int n | JFloat x \<Rightarrow> Inr x | _ \<Rightarrow> Inr Not_A_Number) (\<lambda>x.
     raise_if (\<not> (case x of Finite t \<Rightarrow> 0 < t \<and> t \<le> 900 | _ \<Rightarrow> False)) (Value_Error ''invalid readiness timeout''))"

text \<open>\<open>wait\<close> up to its \<^verbatim>\<open>await\<close>: the address of the slot it waits on.\<close>

definition wait_admit :: "readiness_ticket \<Rightarrow> json \<Rightarrow> coordinator \<Rightarrow> int outcome" where
  "wait_admit ticket timeout s =
     and_then (check_timeout timeout) (\<lambda>_.
       case map_of (rc_entries s) (tk_profile ticket) of
         None \<Rightarrow> Inl (Runtime_Error ''readiness ticket is no longer active'')
       | Some g \<Rightarrow> if g \<noteq> tk_generation ticket then Inl (Runtime_Error ''readiness ticket is no longer active'') else Inr g)"

datatype wait_result = Woken readiness_outcome | Wait_Timeout | Wait_Raised py_error

definition wait_resume :: "int \<Rightarrow> bool \<Rightarrow> coordinator \<Rightarrow> wait_result option \<times> coordinator" where
  "wait_resume g expired s =
     (case rc_objects s g of
        None \<Rightarrow> (None, s)
      | Some e \<Rightarrow>
          if expired
          then (Some Wait_Timeout,
                if re_outcome e = None
                then s\<lparr>rc_counts := (rc_counts s)(Ready_TIMEOUT := Suc (rc_counts s Ready_TIMEOUT))\<rparr> else s)
          else if \<not> re_event e then (None, s)
          else (Some (case re_outcome e of
                        None \<Rightarrow> Wait_Raised (Runtime_Error ''readiness notification is unavailable'')
                      | Some r \<Rightarrow> Woken r), s))"

definition readiness_finish :: "readiness_ticket \<Rightarrow> coordinator \<Rightarrow> coordinator" where
  "readiness_finish ticket s =
     (case current_entry ticket s of
        None \<Rightarrow> s
      | Some e \<Rightarrow> s\<lparr>rc_objects := (rc_objects s)(tk_generation ticket \<mapsto> e\<lparr>re_active := False\<rparr>)\<rparr>)"

definition readiness_health :: "coordinator \<Rightarrow> nat \<times> nat \<times> nat \<times> nat" where
  "readiness_health s =
     (length (filter (\<lambda>(_, g). case rc_objects s g of Some e \<Rightarrow> re_active e | None \<Rightarrow> False) (rc_entries s)),
      rc_counts s Ready_SUCCESS, rc_counts s Ready_FAILURE, rc_counts s Ready_TIMEOUT)"

section \<open>Histories\<close>

datatype rc_call =
    Rc_Begin json
  | Rc_Notify readiness_ticket readiness_outcome
  | Rc_Finish readiness_ticket
  | Rc_Expire int \<comment> \<open>the timer of a waiter on that slot\<close>

fun rc_step :: "rc_call \<Rightarrow> coordinator \<Rightarrow> coordinator" where
  "rc_step (Rc_Begin p) s = snd (readiness_begin p s)"
| "rc_step (Rc_Notify t r) s = snd (readiness_notify t r s)"
| "rc_step (Rc_Finish t) s = readiness_finish t s"
| "rc_step (Rc_Expire g) s = snd (wait_resume g True s)"

fun rc_run :: "rc_call list \<Rightarrow> coordinator \<Rightarrow> coordinator" where
  "rc_run [] s = s"
| "rc_run (c # cs) s = rc_run cs (rc_step c s)"

text \<open>The whole \<open>wait\<close>, with the calls of other tasks made while it was suspended.\<close>

definition readiness_wait :: "readiness_ticket \<Rightarrow> json \<Rightarrow> rc_call list \<Rightarrow> bool \<Rightarrow> coordinator
    \<Rightarrow> wait_result option \<times> coordinator" where
  "readiness_wait ticket timeout meanwhile expired s =
     (case wait_admit ticket timeout s of
        Inl e \<Rightarrow> (Some (Wait_Raised e), s)
      | Inr g \<Rightarrow> wait_resume g expired (rc_run meanwhile s))"

text \<open>What a history says about a ticket: whether a newer start of the profile replaced it, and the outcome first
  notified before that.\<close>

definition begins :: "readiness_ticket \<Rightarrow> rc_call \<Rightarrow> bool" where
  "begins ticket c \<longleftrightarrow> (case c of Rc_Begin p \<Rightarrow> profile_key p = Inr (tk_profile ticket) | _ \<Rightarrow> False)"

fun first_outcome :: "readiness_ticket \<Rightarrow> rc_call list \<Rightarrow> readiness_outcome option" where
  "first_outcome ticket [] = None"
| "first_outcome ticket (c # cs) =
     (if begins ticket c then None
      else case c of
             Rc_Notify t r \<Rightarrow> if t = ticket then Some r else first_outcome ticket cs
           | _ \<Rightarrow> first_outcome ticket cs)"

text \<open>Generations only grow, and a slot's event is set exactly when it has an outcome.\<close>

definition coordinator_ok :: "coordinator \<Rightarrow> bool" where
  "coordinator_ok s \<longleftrightarrow> (\<forall>k g. map_of (rc_entries s) k = Some g \<longrightarrow> g \<le> rc_generation s \<and> rc_objects s g \<noteq> None)
     \<and> (\<forall>g e. rc_objects s g = Some e \<longrightarrow> g \<le> rc_generation s \<and> (re_event e \<longleftrightarrow> re_outcome e \<noteq> None))"

definition is_current :: "readiness_ticket \<Rightarrow> coordinator \<Rightarrow> bool" where
  "is_current ticket s \<longleftrightarrow> map_of (rc_entries s) (tk_profile ticket) = Some (tk_generation ticket)"

definition slot_outcome :: "readiness_ticket \<Rightarrow> coordinator \<Rightarrow> readiness_outcome option" where
  "slot_outcome ticket s = rc_objects s (tk_generation ticket) \<bind> re_outcome"

section \<open>Invariants\<close>

lemma current_entry_SomeD: "current_entry t s = Some e \<Longrightarrow> is_current t s \<and> rc_objects s (tk_generation t) = Some e"
  by (auto simp: current_entry_def is_current_def split: if_split_asm)

lemma readiness_begin_ok: "coordinator_ok s \<Longrightarrow> coordinator_ok (snd (readiness_begin p s))"
  by (fastforce simp: readiness_begin_def coordinator_ok_def Let_def update_conv' split: sum.split if_split_asm)

lemma notify_ok: "coordinator_ok s \<Longrightarrow> coordinator_ok (snd (readiness_notify t r s))"
  by (auto simp: readiness_notify_def coordinator_ok_def split: option.split dest!: current_entry_SomeD)

lemma finish_ok: "coordinator_ok s \<Longrightarrow> coordinator_ok (readiness_finish t s)"
  by (auto simp: readiness_finish_def coordinator_ok_def split: option.split dest!: current_entry_SomeD)

lemma resume_ok: "coordinator_ok s \<Longrightarrow> coordinator_ok (snd (wait_resume g b s))"
  by (auto simp: wait_resume_def coordinator_ok_def split: option.split)

lemma step_ok: "coordinator_ok s \<Longrightarrow> coordinator_ok (rc_step c s)"
  by (cases c) (simp_all add: readiness_begin_ok notify_ok finish_ok resume_ok)

lemma run_ok: "coordinator_ok s \<Longrightarrow> coordinator_ok (rc_run cs s)"
  by (induction cs arbitrary: s) (simp_all add: step_ok)

lemma rc_run_append: "rc_run (cs @ ds) s = rc_run ds (rc_run cs s)"
  by (induction cs arbitrary: s) simp_all

lemma new_ok: "coordinator_ok new_coordinator"
  by (simp add: coordinator_ok_def new_coordinator_def)

section \<open>The outcome of a ticket\<close>

text \<open>A slot, once allocated, stays allocated, and only its own profile can refer to it.\<close>

definition known :: "readiness_ticket \<Rightarrow> coordinator \<Rightarrow> bool" where
  "known t s \<longleftrightarrow> rc_objects s (tk_generation t) \<noteq> None
     \<and> (\<forall>k. map_of (rc_entries s) k = Some (tk_generation t) \<longrightarrow> k = tk_profile t)"

lemma known_le: "coordinator_ok s \<Longrightarrow> known t s \<Longrightarrow> tk_generation t \<le> rc_generation s"
  by (auto simp: known_def coordinator_ok_def)

lemma step_known: "coordinator_ok s \<Longrightarrow> known t s \<Longrightarrow> known t (rc_step c s)"
  using known_le [of s t]
  by (cases c) (auto simp: known_def readiness_begin_def readiness_notify_def readiness_finish_def wait_resume_def
      Let_def update_conv' split: option.split sum.split if_split_asm)

lemma current_known: "known t s \<Longrightarrow> is_current t' s \<Longrightarrow> tk_generation t' = tk_generation t \<Longrightarrow> t' = t"
  by (cases t; cases t') (auto simp: known_def is_current_def)

text \<open>One step: a newer start of the profile retires the ticket for good; otherwise only its own first notification
  counts.\<close>

lemma step_current:
  assumes "coordinator_ok s" "known t s"
  shows "is_current t (rc_step c s) \<longleftrightarrow> is_current t s \<and> \<not> begins t c"
  using known_le [OF assms]
  by (cases c) (auto simp: begins_def is_current_def readiness_begin_def readiness_notify_def readiness_finish_def
      wait_resume_def Let_def update_conv' split: option.split sum.split)

lemma notify_outcome:
  assumes "known t s"
  shows "slot_outcome t (snd (readiness_notify t' r s)) =
    (case slot_outcome t s of Some r' \<Rightarrow> Some r' | None \<Rightarrow> if is_current t s \<and> t' = t then Some r else None)"
proof (cases "is_current t' s \<and> tk_generation t' = tk_generation t")
  case True
  then have t': "t' = t" and cur: "is_current t s" using current_known [OF assms] by auto
  from assms obtain e where "rc_objects s (tk_generation t) = Some e" by (auto simp: known_def)
  with t' cur show ?thesis
    by (auto simp: slot_outcome_def readiness_notify_def current_entry_def is_current_def split: option.split)
next
  case False
  then show ?thesis
    by (auto simp: slot_outcome_def readiness_notify_def current_entry_def is_current_def split: option.split)
qed

lemma step_outcome:
  assumes "coordinator_ok s" "known t s"
  shows "slot_outcome t (rc_step c s) =
    (case slot_outcome t s of Some r \<Rightarrow> Some r | None \<Rightarrow> if is_current t s then first_outcome t [c] else None)"
proof (cases c)
  case (Rc_Begin p)
  with known_le [OF assms] show ?thesis
    by (auto simp: slot_outcome_def readiness_begin_def Let_def split: sum.split option.split)
next
  case (Rc_Notify t' r)
  then show ?thesis using notify_outcome [OF assms(2), of t' r] by (auto simp: begins_def split: option.splits)
next
  case (Rc_Finish t')
  then show ?thesis
    by (auto simp: slot_outcome_def readiness_finish_def begins_def split: option.split dest!: current_entry_SomeD)
next
  case (Rc_Expire g)
  then show ?thesis by (auto simp: slot_outcome_def wait_resume_def begins_def split: option.split)
qed

lemma run_current:
  "coordinator_ok s \<Longrightarrow> known t s \<Longrightarrow>
    known t (rc_run cs s) \<and> (is_current t (rc_run cs s) \<longleftrightarrow> is_current t s \<and> \<not> list_ex (begins t) cs)"
  by (induction cs arbitrary: s) (auto simp: step_known step_ok step_current)

lemma run_outcome:
  "coordinator_ok s \<Longrightarrow> known t s \<Longrightarrow> slot_outcome t (rc_run cs s) =
    (case slot_outcome t s of Some r \<Rightarrow> Some r | None \<Rightarrow> if is_current t s then first_outcome t cs else None)"
proof (induction cs arbitrary: s)
  case (Cons c cs)
  have "slot_outcome t (rc_run cs (rc_step c s)) = (case slot_outcome t (rc_step c s) of Some r \<Rightarrow> Some r
      | None \<Rightarrow> if is_current t (rc_step c s) then first_outcome t cs else None)"
    using Cons by (simp add: step_ok step_known)
  then show ?case
    using Cons.prems by (auto simp: step_outcome step_current split: option.splits rc_call.splits)
qed (simp split: option.split)

lemma begin_current:
  assumes "coordinator_ok s" "readiness_begin p s = (Inr t, s1)"
  shows "coordinator_ok s1" "known t s1" "is_current t s1" "slot_outcome t s1 = None"
proof -
  obtain key where key: "profile_key p = Inr key" using assms(2) by (cases "profile_key p") (auto simp: readiness_begin_def)
  have fresh: "map_of (rc_entries s) k \<noteq> Some (rc_generation s + 1)" for k
    using assms(1) by (force simp: coordinator_ok_def)
  show "coordinator_ok s1" using readiness_begin_ok [OF assms(1), of p] assms(2) by simp
  show "known t s1" "is_current t s1" "slot_outcome t s1 = None"
    using assms(2) key fresh
    by (auto simp: readiness_begin_def Let_def known_def is_current_def slot_outcome_def update_conv' split: if_split_asm)
qed

lemma resume_outcome:
  assumes "coordinator_ok s" "known t s"
  shows "fst (wait_resume (tk_generation t) False s) = map_option Woken (slot_outcome t s)"
proof -
  from assms(2) obtain e where e: "rc_objects s (tk_generation t) = Some e" by (auto simp: known_def)
  with assms(1) have "re_event e \<longleftrightarrow> re_outcome e \<noteq> None" unfolding coordinator_ok_def by blast
  with e show ?thesis by (auto simp: wait_resume_def slot_outcome_def)
qed

section \<open>Properties\<close>

text \<open>C36. A waiter learns the outcome of the start it waits for and of no other.  For the ticket of a start, after any
  calls \<open>before\<close>, a wait with an admissible timeout is refused exactly when a newer start of that profile
  has replaced the ticket; otherwise, whatever other tasks do while it is suspended, it wakes with the
  first outcome notified for its ticket before a newer start of the profile, and keeps waiting if
  there is none.\<close>

theorem wait_wakes_with_own_outcome:
  assumes "coordinator_ok s" "readiness_begin p s = (Inr ticket, s1)" "check_timeout timeout = Inr u"
  shows "fst (readiness_wait ticket timeout meanwhile False (rc_run before s1)) =
    (if list_ex (begins ticket) before
     then Some (Wait_Raised (Runtime_Error ''readiness ticket is no longer active''))
     else map_option Woken (first_outcome ticket (before @ meanwhile)))"
proof -
  let ?s = "rc_run before s1"
  note b = begin_current [OF assms(1,2)]
  have cur: "is_current ticket ?s \<longleftrightarrow> \<not> list_ex (begins ticket) before" and known: "known ticket ?s"
    and ok: "coordinator_ok ?s" using run_current [OF b(1,2)] b(3) run_ok [OF b(1)] by auto
  have out: "slot_outcome ticket (rc_run meanwhile ?s) = first_outcome ticket (before @ meanwhile)"
    using run_outcome [OF b(1,2), of "before @ meanwhile"] b(3,4) by (simp add: rc_run_append)
  have "fst (wait_resume (tk_generation ticket) False (rc_run meanwhile ?s)) = map_option Woken (first_outcome ticket (before @ meanwhile))"
    using resume_outcome [of "rc_run meanwhile ?s" ticket] run_ok [OF ok] run_current [OF ok known] out by simp
  then show ?thesis
    using cur assms(3) by (auto simp: readiness_wait_def wait_admit_def is_current_def split: option.split)
qed

theorem wait_wakes_with_own_outcome_witness:
  "fst (readiness_wait \<lparr>tk_profile = ''minecraft'', tk_generation = 1\<rparr> (JInt 60)
      [Rc_Notify \<lparr>tk_profile = ''minecraft'', tk_generation = 1\<rparr> Ready_FAILURE,
       Rc_Notify \<lparr>tk_profile = ''minecraft'', tk_generation = 1\<rparr> Ready_SUCCESS] False
      (rc_run [Rc_Begin (JStr ''pz-rising'')] (snd (readiness_begin (JStr ''minecraft'') new_coordinator))))
    = Some (Woken Ready_FAILURE)"
proof -
  have b: "readiness_begin (JStr ''minecraft'') new_coordinator = (Inr \<lparr>tk_profile = ''minecraft'', tk_generation = 1\<rparr>,
      snd (readiness_begin (JStr ''minecraft'') new_coordinator))"
    by (simp add: readiness_begin_def profile_key_def new_coordinator_def)
  have "check_timeout (JInt 60) = Inr ()" by (simp add: check_timeout_def float_of_int_def float_overflow_bound_def)
  from wait_wakes_with_own_outcome [OF new_ok b this, of
      "[Rc_Notify \<lparr>tk_profile = ''minecraft'', tk_generation = 1\<rparr> Ready_FAILURE,
        Rc_Notify \<lparr>tk_profile = ''minecraft'', tk_generation = 1\<rparr> Ready_SUCCESS]" "[Rc_Begin (JStr ''pz-rising'')]"]
  show ?thesis by (simp add: begins_def profile_key_def)
qed

end
