(* ===== verification/Status.thy ===== *)
theory Status
  imports Slot Iso_Time
begin

text \<open>
  Status projection, \<^verbatim>\<open>src/game_control/status.py\<close>: the state precedence, one sample over all profiles, the
  short-lived snapshot cache for demand reads, and the probe-free cached read with its overlay of
  accepted jobs.  The records are \<open>ProfileStatus\<close> and \<open>StatusSnapshot\<close> of \<^verbatim>\<open>protocol.py\<close>.

  Environment.  \<open>status_env\<close> holds what one sample reads: the slot observation, the job table, the update
  reservation (\<open>Slot\<close>), and per profile the answers of adapter, metrics sampler, health checker, player tracker
  and version file.  An answer is an \<open>outcome\<close>; \<open>Runtime_Error\<close> stands for \<open>AdapterError\<close> and \<open>RuntimeError\<close>,
  which the code handles, and every other error propagates.  Connection tables are read for the metrics and the
  health checker only and are part of their answers.
\<close>

section \<open>Records\<close>

datatype update_source = From_Reservation | From_Job

record update_activity =
  ua_source :: update_source
  ua_operation_id :: "string option"
  ua_expires_at :: "instant option"

record startup_estimate =
  est_sample_count :: int
  est_median_seconds :: "rat option"
  est_attempt_id :: "string option"
  est_elapsed_seconds :: "rat option"
  est_version :: "string option"

record profile_status =
  ps_profile_id :: profile_id
  ps_state :: observed_state
  ps_health :: health_state
  ps_slot_owner :: "string option"
  ps_active_job_id :: "string option"
  ps_pid :: "int option"
  ps_started_at :: "instant option"
  ps_uptime_seconds :: "int option"
  ps_cpu_percent :: "rat option"
  ps_rss_bytes :: "int option"
  ps_players_online :: "int option"
  ps_installed_version :: "string option"
  ps_restart_required :: bool
  ps_required_ports_ready :: bool
  ps_disk_free_bytes :: "int option"
  ps_disk_read_bps :: "rat option"
  ps_disk_write_bps :: "rat option"
  ps_startup_estimate :: "startup_estimate option"
  ps_update :: "update_activity option"

record status_snapshot =
  sn_generation :: int
  sn_observed_at :: instant
  sn_profiles :: "profile_status list"
  sn_initializing :: bool

section \<open>Environment and state\<close>

record observation =
  ob_running :: bool
  ob_healthy :: "bool option"
  ob_required_ports :: "bool option"
  ob_started_at :: "instant option"
  ob_players :: "int option"
  ob_names :: "string list option"
  ob_version :: "string option"

record metric_sample =
  ms_pid :: "int option"
  ms_rss :: "int option"
  ms_cpu :: "rat option"
  ms_read_bps :: "rat option"
  ms_write_bps :: "rat option"
  ms_disk_free :: "int option"

record check_result =
  ck_state :: health_state
  ck_ports :: "bool option"
  ck_alive :: "bool option"

record profile_probe =
  pr_observe :: "observation outcome"
  pr_sample :: "metric_sample option outcome"
  pr_check :: "check_result outcome option" \<comment> \<open>\<open>None\<close> when no checker is configured\<close>
  pr_count :: "int option outcome"
  pr_names :: "string list option"
  pr_direct_version :: "string option"
  pr_version_stat :: "(int \<times> int) option"
  pr_version_text :: "string option"
  pr_cached_disk :: "int option outcome"

record status_env =
  se_profiles :: "profile list"
  se_slot :: "slot_observation outcome option" \<comment> \<open>\<open>None\<close> when no observer is configured\<close>
  se_job :: "profile_id \<Rightarrow> json outcome"
  se_update_reservation :: "profile_id \<Rightarrow> reservation option outcome"
  se_metrics :: bool
  se_tracker :: bool
  se_sessions :: bool
  se_probe :: "profile_id \<Rightarrow> profile_probe"
  se_parse_version :: "string \<Rightarrow> string option"
  se_now :: instant
  se_generation :: int

datatype status_effect =
    Invalidate_Cgroup profile_id
  | Profile_Stopped profile_id
  | Tracker_Reset profile_id
  | Session_Record profile_id "string list option" "int option" string
  | Telemetry profile_id string

record status_service =
  ss_last_jobs :: "profile_id \<rightharpoonup> string option"
  ss_last_running :: "profile_id \<rightharpoonup> bool"
  ss_version_cache :: "fs_path \<rightharpoonup> (int \<times> int) \<times> string option"
  ss_cache :: "status_snapshot option"
  ss_cached_at :: "rat option"
  ss_effects :: "status_effect list"

definition new_status_service :: status_service where
  "new_status_service = \<lparr>ss_last_jobs = Map.empty, ss_last_running = Map.empty, ss_version_cache = Map.empty,
     ss_cache = None, ss_cached_at = None, ss_effects = []\<rparr>"

section \<open>State and update activity\<close>

definition derive_state :: "string option \<Rightarrow> bool \<Rightarrow> bool \<Rightarrow> observed_state" where
  "derive_state active_job process_alive conflicting =
     (if active_job = Some ''start'' then STARTING
      else if active_job = Some ''stop'' then STOPPING
      else if active_job = Some ''failed'' then FAILED
      else if process_alive then RUNNING
      else if conflicting then BLOCKED
      else STOPPED)"

definition raw_job_for :: "status_env \<Rightarrow> profile_id \<Rightarrow> string option" where
  "raw_job_for env p =
     (case se_job env p of
        Inr (JStr s) \<Rightarrow> if s = [] then None else Some s
      | _ \<Rightarrow> None)"

definition lifecycle_word :: "string option \<Rightarrow> string option" where
  "lifecycle_word job = (if job \<in> {Some ''start'', Some ''stop'', Some ''failed''} then job else None)"

definition safe_job_for :: "status_env \<Rightarrow> profile_id \<Rightarrow> string option" where
  "safe_job_for env p = lifecycle_word (raw_job_for env p)"

text \<open>\<^verbatim>\<open>datetime.fromtimestamp(t, tz=utc)\<close>: microseconds rounded half to even, \<open>None\<close> out of range.\<close>

definition round_half_even :: "rat \<Rightarrow> int" where
  "round_half_even r =
     (let f = \<lfloor>r\<rfloor>; d = r - of_int f
      in if d < 1 / 2 then f else if 1 / 2 < d then f + 1 else if even f then f else f + 1)"

definition expiry_datetime :: "rat \<Rightarrow> instant option" where
  "expiry_datetime t =
     (let i = 719162 * DAY + round_half_even (t * 1000000)
      in if 0 \<le> i \<and> i \<le> MAX_INSTANT then Some i else None)"

definition update_activity :: "status_env \<Rightarrow> profile_id \<Rightarrow> string option \<Rightarrow> update_activity option" where
  "update_activity env p job =
     (case se_update_reservation env p of
        Inr (Some r) \<Rightarrow>
          if res_kind r = ''update''
          then Some \<lparr>ua_source = From_Reservation,
                     ua_operation_id = (if res_operation_id r = [] then None else Some (res_operation_id r)),
                     ua_expires_at = expiry_datetime (res_expires_at r)\<rparr>
          else if job = Some ''update'' then Some \<lparr>ua_source = From_Job, ua_operation_id = None, ua_expires_at = None\<rparr>
          else None
      | _ \<Rightarrow> if job = Some ''update'' then Some \<lparr>ua_source = From_Job, ua_operation_id = None, ua_expires_at = None\<rparr>
             else None)"

section \<open>One sample\<close>

definition log_effect :: "status_effect \<Rightarrow> status_service \<Rightarrow> status_service" where
  "log_effect e st = st\<lparr>ss_effects := ss_effects st @ [e]\<rparr>"

text \<open>The installed version, cached by modification time and size of the version file.\<close>

definition cached_installed_version :: "status_env \<Rightarrow> profile \<Rightarrow> status_service \<Rightarrow> string option \<times> status_service" where
  "cached_installed_version env p st =
     (let pr = se_probe env (prof_id p); path = version_file (prof_paths p)
      in if pr_direct_version pr \<notin> {None, Some []} then (se_parse_version env (the (pr_direct_version pr)), st)
         else case pr_version_stat pr of
                None \<Rightarrow> (None, st)
              | Some fingerprint \<Rightarrow>
                  if map_option fst (ss_version_cache st path) = Some fingerprint
                  then (ss_version_cache st path \<bind> snd, st)
                  else let v = pr_version_text pr \<bind> se_parse_version env
                       in (v, st\<lparr>ss_version_cache := (ss_version_cache st)(path \<mapsto> (fingerprint, v))\<rparr>))"

text \<open>Sequencing of probes: the first error ends the sample, the state reached so far is kept.\<close>

definition probe_then :: "'a outcome \<times> status_service \<Rightarrow> ('a \<Rightarrow> status_service \<Rightarrow> 'b outcome \<times> status_service)
    \<Rightarrow> 'b outcome \<times> status_service" where
  "probe_then r f = (case r of (Inl e, st) \<Rightarrow> (Inl e, st) | (Inr v, st) \<Rightarrow> f v st)"

definition slot_owner_value :: "status_env \<Rightarrow> string option outcome" where
  "slot_owner_value env =
     (case se_slot env of
        None \<Rightarrow> Inr None
      | Some (Inl e) \<Rightarrow> Inl e
      | Some (Inr ob) \<Rightarrow> Inr (if obs_owner ob = Some [] then None else obs_owner ob))"

definition full_probe :: "status_env \<Rightarrow> string option \<Rightarrow> profile_id \<Rightarrow> bool" where
  "full_probe env owner p \<longleftrightarrow> se_slot env = None \<or> raw_job_for env p \<noteq> None \<or> owner = Some (profile_value p)"

definition conflicting_owner :: "string option \<Rightarrow> profile_id \<Rightarrow> bool" where
  "conflicting_owner owner p \<longleftrightarrow> owner \<noteq> None \<and> owner \<noteq> Some (profile_value p)"

definition idle_status :: "status_env \<Rightarrow> bool \<Rightarrow> string option \<Rightarrow> profile \<Rightarrow> status_service
    \<Rightarrow> profile_status outcome \<times> status_service" where
  "idle_status env persist owner p st =
     (let pid = prof_id p; job = raw_job_for env pid in
      probe_then (if se_metrics env then pr_cached_disk (se_probe env pid) else Inr None, st) (\<lambda>disk st.
      case cached_installed_version env p st of (version, st) \<Rightarrow>
        (Inr \<lparr>ps_profile_id = pid, ps_state = derive_state job False (conflicting_owner owner pid), ps_health = UNKNOWN,
              ps_slot_owner = owner, ps_active_job_id = job, ps_pid = None, ps_started_at = None, ps_uptime_seconds = None,
              ps_cpu_percent = None, ps_rss_bytes = None, ps_players_online = None, ps_installed_version = version,
              ps_restart_required = False, ps_required_ports_ready = False, ps_disk_free_bytes = disk,
              ps_disk_read_bps = None, ps_disk_write_bps = None, ps_startup_estimate = None,
              ps_update = update_activity env pid job\<rparr>,
         if persist then log_effect (Telemetry pid ''inactive'') st else st)))"

definition absent_observation :: observation where
  "absent_observation = \<lparr>ob_running = False, ob_healthy = None, ob_required_ports = None, ob_started_at = None,
     ob_players = None, ob_names = None, ob_version = None\<rparr>"

text \<open>The adapter's observation and whether it failed with a handled error.\<close>

definition observe_profile :: "status_env \<Rightarrow> profile_id \<Rightarrow> (observation \<times> bool) outcome" where
  "observe_profile env p =
     (case pr_observe (se_probe env p) of
        Inr ob \<Rightarrow> Inr (ob, False)
      | Inl (Runtime_Error m) \<Rightarrow> Inr (absent_observation, True)
      | Inl e \<Rightarrow> Inl e)"

definition note_observation :: "status_env \<Rightarrow> bool \<Rightarrow> profile_id \<Rightarrow> observation \<Rightarrow> bool \<Rightarrow> status_service \<Rightarrow> status_service" where
  "note_observation env persist p ob failed st =
     (let stopped = (\<not> failed \<and> \<not> ob_running ob); before = (ss_last_running st p = Some True);
          st1 = (if stopped \<and> persist \<and> se_sessions env \<and> before then log_effect (Profile_Stopped p) st else st);
          st2 = (if stopped \<and> se_tracker env then log_effect (Tracker_Reset p) st1 else st1)
      in st2\<lparr>ss_last_running := (ss_last_running st2)(p \<mapsto> (if \<not> failed then ob_running ob else before))\<rparr>)"

record check_view =
  cv_health :: "health_state option"
  cv_ports :: "bool option"
  cv_alive :: bool
  cv_error :: bool

definition check_profile :: "status_env \<Rightarrow> profile_id \<Rightarrow> observation \<Rightarrow> bool \<Rightarrow> check_view outcome" where
  "check_profile env p ob failed =
     (let unchecked = \<lparr>cv_health = None, cv_ports = ob_required_ports ob, cv_alive = False, cv_error = False\<rparr>
      in case pr_check (se_probe env p) of
           None \<Rightarrow> Inr unchecked
         | Some answer \<Rightarrow>
             if failed then Inr unchecked
             else (case answer of
                     Inr ck \<Rightarrow> Inr \<lparr>cv_health = Some (ck_state ck),
                        cv_ports = ck_ports ck,
                        cv_alive = (ck_alive ck = Some True), cv_error = False\<rparr>
                   | Inl (Runtime_Error m) \<Rightarrow> Inr (unchecked\<lparr>cv_error := True\<rparr>)
                   | Inl e \<Rightarrow> Inl e))"

definition final_health :: "check_view \<Rightarrow> observation \<Rightarrow> bool \<Rightarrow> health_state" where
  "final_health cv ob failed =
     (case cv_health cv of
        Some h \<Rightarrow> h
      | None \<Rightarrow> (case (if failed \<or> cv_error cv then None else ob_healthy ob) of
                  Some True \<Rightarrow> HEALTHY | Some False \<Rightarrow> UNHEALTHY | None \<Rightarrow> UNKNOWN))"

definition telemetry_state :: "bool \<Rightarrow> metric_sample option \<Rightarrow> string" where
  "telemetry_state running sampled =
     (if \<not> running then ''inactive''
      else case sampled of
             None \<Rightarrow> ''unavailable''
           | Some m \<Rightarrow> if ms_cpu m \<noteq> None \<or> ms_rss m \<noteq> None \<or> ms_read_bps m \<noteq> None \<or> ms_write_bps m \<noteq> None
                       then ''available'' else ''unavailable'')"

text \<open>The end of a full probe: the session record, the version, and the status itself.\<close>

definition report_status :: "status_env \<Rightarrow> bool \<Rightarrow> string option \<Rightarrow> profile \<Rightarrow> observation \<Rightarrow> bool \<Rightarrow> metric_sample option
    \<Rightarrow> check_view \<Rightarrow> int option \<Rightarrow> status_service \<Rightarrow> profile_status outcome \<times> status_service" where
  "report_status env persist owner p ob failed sampled cv players st =
     (let pid = prof_id p; job = raw_job_for env pid;
          names = (if ob_names ob = None \<and> se_tracker env then pr_names (se_probe env pid) else ob_names ob);
          st = (if persist \<and> ob_running ob \<and> se_sessions env
                then log_effect (Session_Record pid names players (if prof_adapter p = CRAFTY then ''crafty'' else ''log'')) st
                else st)
      in case (case ob_version ob of Some v \<Rightarrow> (Some v, st) | None \<Rightarrow> cached_installed_version env p st) of (version, st) \<Rightarrow>
        (Inr \<lparr>ps_profile_id = pid, ps_state = derive_state job (cv_alive cv) (conflicting_owner owner pid),
              ps_health = final_health cv ob failed, ps_slot_owner = owner, ps_active_job_id = job,
              ps_pid = sampled \<bind> ms_pid, ps_started_at = ob_started_at ob,
              ps_uptime_seconds = map_option (\<lambda>t. max 0 ((se_now env - t) div SECOND)) (ob_started_at ob),
              ps_cpu_percent = sampled \<bind> ms_cpu, ps_rss_bytes = sampled \<bind> ms_rss, ps_players_online = players,
              ps_installed_version = version, ps_restart_required = False, ps_required_ports_ready = (cv_ports cv = Some True),
              ps_disk_free_bytes = sampled \<bind> ms_disk_free, ps_disk_read_bps = sampled \<bind> ms_read_bps,
              ps_disk_write_bps = sampled \<bind> ms_write_bps, ps_startup_estimate = None,
              ps_update = update_activity env pid job\<rparr>,
         if persist then log_effect (Telemetry pid (telemetry_state (ob_running ob) sampled)) st else st))"

definition probed_status :: "status_env \<Rightarrow> bool \<Rightarrow> string option \<Rightarrow> profile \<Rightarrow> status_service
    \<Rightarrow> profile_status outcome \<times> status_service" where
  "probed_status env persist owner p st =
     (let pid = prof_id p; pr = se_probe env pid in
      probe_then (observe_profile env pid, st) (\<lambda>(ob, failed) st.
      probe_then (if ob_running ob \<and> se_metrics env then pr_sample pr else Inr None,
                  note_observation env persist pid ob failed st) (\<lambda>sampled st.
      probe_then (check_profile env pid ob failed, st) (\<lambda>cv st.
      probe_then (if ob_players ob = None \<and> se_tracker env then pr_count pr else Inr (ob_players ob), st) (\<lambda>players st.
      report_status env persist owner p ob failed sampled cv players st)))))"

definition profile_sample :: "status_env \<Rightarrow> bool \<Rightarrow> string option \<Rightarrow> profile \<Rightarrow> status_service
    \<Rightarrow> profile_status outcome \<times> status_service" where
  "profile_sample env persist owner p st =
     (if full_probe env owner (prof_id p) then probed_status env persist owner p st else idle_status env persist owner p st)"

fun sample_profiles :: "status_env \<Rightarrow> bool \<Rightarrow> string option \<Rightarrow> profile list \<Rightarrow> status_service
    \<Rightarrow> profile_status list outcome \<times> status_service" where
  "sample_profiles env persist owner [] st = (Inr [], st)"
| "sample_profiles env persist owner (p # ps) st =
     probe_then (profile_sample env persist owner p st) (\<lambda>x st.
     probe_then (sample_profiles env persist owner ps st) (\<lambda>xs st. (Inr (x # xs), st)))"

text \<open>A job that newly starts or stops a profile invalidates its cgroup path.\<close>

fun note_jobs :: "status_env \<Rightarrow> profile list \<Rightarrow> status_service \<Rightarrow> status_service" where
  "note_jobs env [] st = st"
| "note_jobs env (p # ps) st =
     (let pid = prof_id p; job = raw_job_for env pid;
          st1 = (if ss_last_jobs st pid \<noteq> Some job \<and> job \<in> {Some ''start'', Some ''stop''}
                 then log_effect (Invalidate_Cgroup pid) st else st)
      in note_jobs env ps (st1\<lparr>ss_last_jobs := (ss_last_jobs st1)(pid \<mapsto> job)\<rparr>))"

definition sample :: "bool \<Rightarrow> status_env \<Rightarrow> status_service \<Rightarrow> status_snapshot outcome \<times> status_service" where
  "sample persist env st =
     probe_then (slot_owner_value env, st) (\<lambda>owner st.
     probe_then (sample_profiles env persist owner (se_profiles env)
                   (if se_metrics env then note_jobs env (se_profiles env) st else st)) (\<lambda>statuses st.
     (Inr \<lparr>sn_generation = se_generation env, sn_observed_at = se_now env, sn_profiles = statuses, sn_initializing = False\<rparr>, st)))"

section \<open>Snapshots\<close>

definition STATUS_SNAPSHOT_TTL_SECONDS :: rat where "STATUS_SNAPSHOT_TTL_SECONDS = 2"

text \<open>\<open>snapshot\<close> under its refresh lock; \<open>now\<close> is the monotonic clock.\<close>

definition fresh_enough :: "rat \<Rightarrow> status_service \<Rightarrow> bool" where
  "fresh_enough now st \<longleftrightarrow>
     (case ss_cached_at st of None \<Rightarrow> False | Some t \<Rightarrow> now - t < STATUS_SNAPSHOT_TTL_SECONDS)"

definition snapshot :: "bool \<Rightarrow> bool \<Rightarrow> rat \<Rightarrow> status_env \<Rightarrow> status_service \<Rightarrow> status_snapshot outcome \<times> status_service" where
  "snapshot persist force now env st =
     (if \<not> persist \<and> \<not> force \<and> ss_cache st \<noteq> None \<and> fresh_enough now st then (Inr (the (ss_cache st)), st)
      else probe_then (sample persist env st) (\<lambda>sn st.
        (Inr sn, st\<lparr>ss_cache := Some sn, ss_cached_at := (if persist then None else Some now)\<rparr>)))"

definition overlay_status :: "status_env \<Rightarrow> profile_status \<Rightarrow> profile_status" where
  "overlay_status env status =
     (let p = ps_profile_id status; job = safe_job_for env p;
          status1 = status\<lparr>ps_update := update_activity env p (raw_job_for env p)\<rparr>
      in if job = None then status1
         else status1\<lparr>ps_state := derive_state job False False, ps_active_job_id := job\<rparr>)"

definition overlay_active_jobs :: "status_env \<Rightarrow> status_snapshot \<Rightarrow> status_snapshot" where
  "overlay_active_jobs env sn = sn\<lparr>sn_profiles := map (overlay_status env) (sn_profiles sn)\<rparr>"

definition cold_status :: "status_env \<Rightarrow> profile \<Rightarrow> profile_status" where
  "cold_status env p =
     (let pid = prof_id p; job = safe_job_for env pid; direct = pr_direct_version (se_probe env pid)
      in \<lparr>ps_profile_id = pid, ps_state = derive_state job False False, ps_health = UNKNOWN, ps_slot_owner = None,
          ps_active_job_id = job, ps_pid = None, ps_started_at = None, ps_uptime_seconds = None, ps_cpu_percent = None,
          ps_rss_bytes = None, ps_players_online = None,
          ps_installed_version = (if direct \<in> {None, Some []} then None else se_parse_version env (the direct)),
          ps_restart_required = False, ps_required_ports_ready = False, ps_disk_free_bytes = None, ps_disk_read_bps = None,
          ps_disk_write_bps = None, ps_startup_estimate = None, ps_update = update_activity env pid (raw_job_for env pid)\<rparr>)"

definition cached_snapshot :: "status_env \<Rightarrow> status_service \<Rightarrow> status_snapshot" where
  "cached_snapshot env st =
     (case ss_cache st of
        Some sn \<Rightarrow> overlay_active_jobs env sn
      | None \<Rightarrow> \<lparr>sn_generation = se_generation env, sn_observed_at = se_now env,
                 sn_profiles = map (cold_status env) (se_profiles env), sn_initializing = False\<rparr>)"

section \<open>Histories of snapshots\<close>

text \<open>A call is its flags, the monotonic time, and what it would observe.  \<open>published\<close> lists the samples that
  completed, oldest first.\<close>

type_synonym status_call = "bool \<times> bool \<times> rat \<times> status_env"

definition serves_cache :: "status_call \<Rightarrow> status_service \<Rightarrow> bool" where
  "serves_cache c st = (case c of (persist, force, now, env) \<Rightarrow>
     \<not> persist \<and> \<not> force \<and> ss_cache st \<noteq> None \<and> fresh_enough now st)"

fun status_step :: "status_call \<Rightarrow> status_service \<Rightarrow> status_service" where
  "status_step (persist, force, now, env) st = snd (snapshot persist force now env st)"

fun status_run :: "status_call list \<Rightarrow> status_service \<Rightarrow> status_service" where
  "status_run [] st = st"
| "status_run (c # cs) st = status_run cs (status_step c st)"

fun publication :: "status_call \<Rightarrow> status_service \<Rightarrow> (bool \<times> rat \<times> status_snapshot) list" where
  "publication (persist, force, now, env) st =
     (if serves_cache (persist, force, now, env) st then []
      else case fst (sample persist env st) of Inl e \<Rightarrow> [] | Inr sn \<Rightarrow> [(persist, now, sn)])"

fun published :: "status_call list \<Rightarrow> status_service \<Rightarrow> (bool \<times> rat \<times> status_snapshot) list" where
  "published [] st = []"
| "published (c # cs) st = publication c st @ published cs (status_step c st)"

section \<open>A sample environment\<close>

text \<open>Minecraft owns the slot and runs, the other profile is idle.\<close>

definition sample_status_env :: status_env where
  "sample_status_env =
     \<lparr>se_profiles = [sample_profile MINECRAFT, sample_profile PZ_RISING],
      se_slot = Some (Inr \<lparr>obs_owner = Some ''minecraft'', obs_pid = Some 7, obs_ticks = Some 1, obs_inconsistent = False\<rparr>),
      se_job = (\<lambda>_. Inr JNull), se_update_reservation = (\<lambda>_. Inr None), se_metrics = False, se_tracker = False,
      se_sessions = False,
      se_probe = (\<lambda>_. \<lparr>pr_observe = Inr (absent_observation\<lparr>ob_running := True\<rparr>), pr_sample = Inr None,
        pr_check = Some (Inr \<lparr>ck_state = HEALTHY, ck_ports = Some True, ck_alive = Some True\<rparr>), pr_count = Inr None,
        pr_names = None, pr_direct_version = None, pr_version_stat = None, pr_version_text = None, pr_cached_disk = Inr None\<rparr>),
      se_parse_version = Some, se_now = 0, se_generation = 3\<rparr>"

definition state_view :: "status_snapshot \<Rightarrow> (profile_id \<times> observed_state \<times> string option) list" where
  "state_view sn = map (\<lambda>x. (ps_profile_id x, ps_state x, ps_active_job_id x)) (sn_profiles sn)"

section \<open>Sampling\<close>

lemma probe_then_Inr: "probe_then r f = (Inr v, st') \<longleftrightarrow> (\<exists>x st. r = (Inr x, st) \<and> f x st = (Inr v, st'))"
  by (auto simp: probe_then_def split: prod.split sum.split)

lemma derive_RUNNING:
  "derive_state job alive conflicting = RUNNING \<longleftrightarrow> lifecycle_word job = None \<and> alive"
  "RUNNING = derive_state job alive conflicting \<longleftrightarrow> lifecycle_word job = None \<and> alive"
  by (auto simp: derive_state_def lifecycle_word_def)

lemma derive_BLOCKED:
  "derive_state job alive conflicting = BLOCKED \<longleftrightarrow> lifecycle_word job = None \<and> \<not> alive \<and> conflicting"
  "BLOCKED = derive_state job alive conflicting \<longleftrightarrow> lifecycle_word job = None \<and> \<not> alive \<and> conflicting"
  by (auto simp: derive_state_def lifecycle_word_def)

text \<open>What a status rests on: the job table, the slot owner, and a health check that saw the process.\<close>

definition checked_alive :: "status_env \<Rightarrow> profile_id \<Rightarrow> bool" where
  "checked_alive env p \<longleftrightarrow> (case pr_check (se_probe env p) of Some (Inr ck) \<Rightarrow> ck_alive ck = Some True | _ \<Rightarrow> False)"

definition status_basis :: "status_env \<Rightarrow> string option \<Rightarrow> profile_status \<Rightarrow> bool" where
  "status_basis env owner x \<longleftrightarrow> ps_slot_owner x = owner \<and> ps_active_job_id x = raw_job_for env (ps_profile_id x)
     \<and> (\<exists>alive. ps_state x = derive_state (ps_active_job_id x) alive (conflicting_owner owner (ps_profile_id x))
          \<and> (alive \<longrightarrow> full_probe env owner (ps_profile_id x) \<and> checked_alive env (ps_profile_id x)))"

lemma check_profile_alive: "check_profile env p ob failed = Inr cv \<Longrightarrow> cv_alive cv \<Longrightarrow> checked_alive env p"
  by (auto simp: check_profile_def checked_alive_def Let_def split: option.splits sum.splits if_split_asm py_error.splits)

lemma idle_basis:
  "idle_status env persist owner p st = (Inr x, st') \<Longrightarrow> ps_profile_id x = prof_id p \<and> status_basis env owner x"
  by (auto simp: idle_status_def Let_def probe_then_Inr status_basis_def case_prod_unfold)

lemma report_basis:
  assumes "report_status env persist owner p ob failed sampled cv players st = (Inr x, st')"
    "check_profile env (prof_id p) ob failed = Inr cv" "full_probe env owner (prof_id p)"
  shows "ps_profile_id x = prof_id p \<and> status_basis env owner x"
  using assms(1,3) check_profile_alive [OF assms(2)]
  by (auto simp: report_status_def Let_def case_prod_unfold status_basis_def)

lemma probed_basis:
  assumes "full_probe env owner (prof_id p)" "probed_status env persist owner p st = (Inr x, st')"
  shows "ps_profile_id x = prof_id p \<and> status_basis env owner x"
  using assms by (auto simp: probed_status_def Let_def probe_then_Inr dest: report_basis)

lemma profile_sample_basis:
  "profile_sample env persist owner p st = (Inr x, st') \<Longrightarrow> ps_profile_id x = prof_id p \<and> status_basis env owner x"
  using idle_basis probed_basis by (simp add: profile_sample_def split: if_split_asm)

lemma sample_profiles_basis:
  "sample_profiles env persist owner ps st = (Inr xs, st') \<Longrightarrow>
    map ps_profile_id xs = map prof_id ps \<and> list_all (status_basis env owner) xs"
  by (induction ps arbitrary: st xs st') (auto simp: probe_then_Inr dest!: profile_sample_basis)

lemma sample_basis:
  assumes "sample persist env st = (Inr sn, st')"
  obtains owner where "slot_owner_value env = Inr owner" "map ps_profile_id (sn_profiles sn) = map prof_id (se_profiles env)"
    "list_all (status_basis env owner) (sn_profiles sn)"
  using assms sample_profiles_basis by (fastforce simp: sample_def probe_then_Inr)

section \<open>The cache\<close>

text \<open>Probing leaves the published snapshot alone.\<close>

definition same_cache :: "status_service \<Rightarrow> status_service \<Rightarrow> bool" where
  "same_cache st st' \<longleftrightarrow> ss_cache st' = ss_cache st \<and> ss_cached_at st' = ss_cached_at st"

lemma same_cache_refl [simp]: "same_cache st st"
  by (simp add: same_cache_def)

lemma same_cache_trans: "same_cache a b \<Longrightarrow> same_cache b c \<Longrightarrow> same_cache a c"
  by (simp add: same_cache_def)

lemma log_effect_cache [simp]: "same_cache st (log_effect e st') \<longleftrightarrow> same_cache st st'"
  by (simp add: same_cache_def log_effect_def)

lemma probe_then_cache:
  assumes "same_cache st0 (snd r)" "\<And>x st. r = (Inr x, st) \<Longrightarrow> same_cache st (snd (f x st))"
  shows "same_cache st0 (snd (probe_then r f))"
  using assms by (auto simp: probe_then_def same_cache_def split: prod.split sum.split)

lemma version_cache: "same_cache st (snd (cached_installed_version env p st))"
  by (auto simp: cached_installed_version_def same_cache_def Let_def split: option.split)

lemma note_observation_cache [simp]: "same_cache st (note_observation env persist p ob failed st)"
  by (simp add: note_observation_def same_cache_def log_effect_def Let_def)

lemma idle_cache: "same_cache st (snd (idle_status env persist owner p st))"
  unfolding idle_status_def Let_def
  by (rule probe_then_cache) (simp_all add: case_prod_unfold version_cache)

lemma report_cache: "same_cache st (snd (report_status env persist owner p ob failed sampled cv players st))"
  by (auto simp: report_status_def Let_def case_prod_unfold split: option.split intro: same_cache_trans [OF _ version_cache])

lemma probed_cache: "same_cache st (snd (probed_status env persist owner p st))"
  unfolding probed_status_def Let_def case_prod_unfold
  by (intro probe_then_cache report_cache) simp_all

lemma profiles_cache: "same_cache st (snd (sample_profiles env persist owner ps st))"
proof (induction ps arbitrary: st)
  case (Cons p ps)
  have "same_cache st (snd (profile_sample env persist owner p st))"
    by (simp add: profile_sample_def idle_cache probed_cache)
  then show ?case by (auto intro!: probe_then_cache Cons.IH)
qed simp

lemma note_jobs_cache: "same_cache st (note_jobs env ps st)"
proof (induction ps arbitrary: st)
  case (Cons p ps)
  show ?case
    unfolding note_jobs.simps Let_def by (rule same_cache_trans [OF _ Cons.IH]) (simp add: same_cache_def log_effect_def)
qed simp

lemma sample_cache: "same_cache st (snd (sample persist env st))"
  unfolding sample_def
  by (rule probe_then_cache, simp, rule probe_then_cache)
    (auto intro: same_cache_trans [OF note_jobs_cache profiles_cache] profiles_cache)

text \<open>The cache after a history is its last published sample, dated unless it was a persisting one.\<close>

definition cache_of :: "(bool \<times> rat \<times> status_snapshot) list \<Rightarrow> status_snapshot option \<times> rat option" where
  "cache_of ps = (if ps = [] then (None, None)
     else case last ps of (persist, t, sn) \<Rightarrow> (Some sn, if persist then None else Some t))"

lemma step_cache:
  assumes "(ss_cache st, ss_cached_at st) = cache_of ps"
  shows "(ss_cache (status_step c st), ss_cached_at (status_step c st)) = cache_of (ps @ publication c st)"
proof -
  obtain persist force now env where c: "c = (persist, force, now, env)" by (cases c) auto
  obtain r st1 where r: "sample persist env st = (r, st1)" by fastforce
  then have "same_cache st st1" using sample_cache [of st persist env] by simp
  with c r assms show ?thesis
    by (cases r) (auto simp: snapshot_def serves_cache_def probe_then_def same_cache_def cache_of_def)
qed

lemma run_cache:
  "(ss_cache st, ss_cached_at st) = cache_of ps \<Longrightarrow>
    (ss_cache (status_run cs st), ss_cached_at (status_run cs st)) = cache_of (ps @ published cs st)"
proof (induction cs arbitrary: st ps)
  case (Cons c cs)
  from Cons.IH [OF step_cache [OF Cons.prems]] show ?case by simp
qed simp

section \<open>Properties\<close>



text \<open>C35. A demand snapshot is at most two seconds old.  After any history of snapshot calls, a demand read returns either a
  sample taken by this very call or the last published sample, and the latter only if it was not forced, the
  sample was itself taken for a demand read, and its probe began less than two seconds before; a persisting
  (maintenance) sample is never served again to a demand read.\<close>

theorem demand_snapshot_fresh:
  assumes "snapshot False force now env (status_run calls new_status_service) = (Inr sn, st')"
  shows "fst (sample False env (status_run calls new_status_service)) = Inr sn
    \<or> (force = False \<and> published calls new_status_service \<noteq> []
       \<and> (\<exists>t. last (published calls new_status_service) = (False, t, sn) \<and> now < t + STATUS_SNAPSHOT_TTL_SECONDS))"
proof -
  let ?st = "status_run calls new_status_service"
  have cache: "(ss_cache ?st, ss_cached_at ?st) = cache_of (published calls new_status_service)"
    using run_cache [of new_status_service "[]" calls] by (simp add: cache_of_def new_status_service_def)
  show ?thesis
  proof (cases "serves_cache (False, force, now, env) ?st")
    case True
    then have "force = False" "ss_cache ?st = Some sn" "fresh_enough now ?st"
      using assms by (auto simp: serves_cache_def snapshot_def)
    with cache show ?thesis
      by (auto simp: cache_of_def fresh_enough_def split: if_split_asm prod.splits option.splits)
  next
    case False
    then have "probe_then (sample False env ?st) (\<lambda>sn st. (Inr sn, st\<lparr>ss_cache := Some sn, ss_cached_at := Some now\<rparr>)) = (Inr sn, st')"
      using assms by (simp add: serves_cache_def snapshot_def split: if_split_asm)
    then show ?thesis by (auto simp: probe_then_Inr)
  qed
qed

theorem demand_snapshot_fresh_witness:
  "\<exists>sn st. snapshot False False 11 sample_status_env (status_run [(False, False, 10, sample_status_env)] new_status_service) = (Inr sn, st)
    \<and> (fst (sample False sample_status_env (status_run [(False, False, 10, sample_status_env)] new_status_service)) = Inr sn
       \<or> (\<exists>t. last (published [(False, False, 10, sample_status_env)] new_status_service) = (False, t, sn)
           \<and> 11 < t + STATUS_SNAPSHOT_TTL_SECONDS))"
proof -
  let ?st = "status_run [(False, False, 10, sample_status_env)] new_status_service"
  have "map_sum id state_view (fst (snapshot False False 11 sample_status_env ?st))
      = Inr [(MINECRAFT, RUNNING, None), (PZ_RISING, BLOCKED, None)]"
    by code_simp
  then obtain sn st where s: "snapshot False False 11 sample_status_env ?st = (Inr sn, st)"
    by (cases "snapshot False False 11 sample_status_env ?st"; cases "fst (snapshot False False 11 sample_status_env ?st)") auto
  from demand_snapshot_fresh [OF s] s show ?thesis by blast
qed

end
