(* ===== verification/Programs.thy ===== *)
theory Programs
  imports Horizon_Prelude
begin

text \<open>
  Programs with a state and exceptions, and a program logic for them.  A program maps a state to an exception or a value and
  the next state, which an exception does not undo.  The handlers of the controller (\<open>Handler\<close>), the payload retirement
  (\<open>Retirement\<close>) and the web sessions (\<open>Web_Auth\<close>) are programs over their own states.
\<close>

section \<open>Programs\<close>

type_synonym ('s, 'e, 'a) program = "'s \<Rightarrow> ('e + 'a) \<times> 's"

definition ret :: "'a \<Rightarrow> ('s, 'e, 'a) program" where
  "ret v w = (Inr v, w)"

definition throw :: "'e \<Rightarrow> ('s, 'e, 'a) program" where
  "throw e w = (Inl e, w)"

definition seqp :: "('s, 'e, 'a) program \<Rightarrow> ('a \<Rightarrow> ('s, 'e, 'b) program) \<Rightarrow> ('s, 'e, 'b) program" where
  "seqp p f w = (case p w of (Inl e, w') \<Rightarrow> (Inl e, w') | (Inr v, w') \<Rightarrow> f v w')"

definition thenp :: "('s, 'e, 'a) program \<Rightarrow> ('s, 'e, 'b) program \<Rightarrow> ('s, 'e, 'b) program" where
  "thenp p q = seqp p (\<lambda>_. q)"

text \<open>\<^verbatim>\<open>try: p except: h\<close>; a handler that does not match rethrows.\<close>

definition catchp :: "('s, 'e, 'a) program \<Rightarrow> ('e \<Rightarrow> ('s, 'e, 'a) program) \<Rightarrow> ('s, 'e, 'a) program" where
  "catchp p h w = (case p w of (Inl e, w') \<Rightarrow> h e w' | (Inr v, w') \<Rightarrow> (Inr v, w'))"

text \<open>\<^verbatim>\<open>try: p finally: f\<close>; \<open>f\<close> learns whether an exception is in flight, as \<^verbatim>\<open>sys.exc_info\<close> would tell it.\<close>

definition finallyp :: "('s, 'e, 'a) program \<Rightarrow> (bool \<Rightarrow> ('s, 'e, unit) program) \<Rightarrow> ('s, 'e, 'a) program" where
  "finallyp p f w = (case p w of (r, w') \<Rightarrow>
     (case f (isl r) w' of (Inl e, w'') \<Rightarrow> (Inl e, w'') | (Inr _, w'') \<Rightarrow> (r, w'')))"

definition whenp :: "bool \<Rightarrow> ('s, 'e, unit) program \<Rightarrow> ('s, 'e, unit) program" where
  "whenp b p = (if b then p else ret ())"

definition getp :: "('s \<Rightarrow> 'a) \<Rightarrow> ('s, 'e, 'a) program" where
  "getp f w = (Inr (f w), w)"

text \<open>The exception as a value.\<close>

definition attempt :: "('s, 'e, unit) program \<Rightarrow> ('s, 'e, 'e option) program" where
  "attempt p = catchp (thenp p (ret None)) (\<lambda>e. ret (Some e))"

definition raise_opt :: "'e option \<Rightarrow> 'e + unit" where
  "raise_opt x = (case x of None \<Rightarrow> Inr () | Some e \<Rightarrow> Inl e)"

text \<open>A loop over a list.\<close>

fun for_each :: "('x \<Rightarrow> ('s, 'e, unit) program) \<Rightarrow> 'x list \<Rightarrow> ('s, 'e, unit) program" where
  "for_each f [] = ret ()"
| "for_each f (x # xs) = thenp (f x) (for_each f xs)"

text \<open>How a write ends: done, failed without effect, or failed after the change took effect.\<close>

datatype io_answer = Io_Done | Io_Lost | Io_Kept

section \<open>Triples\<close>

text \<open>\<open>hoare P p Q E\<close>: from a world in \<open>P\<close> the program returns into \<open>Q\<close> or raises into \<open>E\<close>.\<close>

definition hoare :: "('s \<Rightarrow> bool) \<Rightarrow> ('s, 'e, 'a) program \<Rightarrow> ('a \<Rightarrow> 's \<Rightarrow> bool) \<Rightarrow> ('e \<Rightarrow> 's \<Rightarrow> bool) \<Rightarrow> bool" where
  "hoare P p Q E \<longleftrightarrow> (\<forall>w. P w \<longrightarrow> (case p w of (Inr v, w') \<Rightarrow> Q v w' | (Inl e, w') \<Rightarrow> E e w'))"

lemma hoareD: "hoare P p Q E \<Longrightarrow> P w \<Longrightarrow> (case p w of (Inr v, w') \<Rightarrow> Q v w' | (Inl e, w') \<Rightarrow> E e w')"
  by (simp add: hoare_def)

lemma hoare_ends: "hoare P p (\<lambda>_. Q) (\<lambda>_. Q) \<Longrightarrow> P w \<Longrightarrow> Q (snd (p w))"
  by (auto simp: hoare_def split: prod.splits sum.splits) (metis prod.exhaust_sel sum.exhaust_sel)

lemma hoare_ret: "(\<And>w. P w \<Longrightarrow> Q v w) \<Longrightarrow> hoare P (ret v) Q E"
  by (simp add: hoare_def ret_def)

lemma hoare_throw: "(\<And>w. P w \<Longrightarrow> E e w) \<Longrightarrow> hoare P (throw e) Q E"
  by (simp add: hoare_def throw_def)

lemma hoare_seqp: "hoare P p R E \<Longrightarrow> (\<And>v. hoare (R v) (f v) Q E) \<Longrightarrow> hoare P (seqp p f) Q E"
  by (fastforce simp: hoare_def seqp_def split: prod.splits sum.splits)

lemma hoare_thenp: "hoare P p (\<lambda>_. R) E \<Longrightarrow> hoare R q Q E \<Longrightarrow> hoare P (thenp p q) Q E"
  unfolding thenp_def by (rule hoare_seqp)

lemma hoare_catchp: "hoare P p Q R \<Longrightarrow> (\<And>e. hoare (R e) (h e) Q E) \<Longrightarrow> hoare P (catchp p h) Q E"
  by (fastforce simp: hoare_def catchp_def split: prod.splits sum.splits)

lemma hoare_finallyp:
  assumes "hoare P p Q' E'" "\<And>v. hoare (Q' v) (f False) (\<lambda>_. Q v) E" "\<And>e. hoare (E' e) (f True) (\<lambda>_. E e) E"
  shows "hoare P (finallyp p f) Q E"
  unfolding hoare_def
proof (intro allI impI)
  fix w assume P: "P w"
  obtain r w1 where p: "p w = (r, w1)" by fastforce
  show "case finallyp p f w of (Inl e, w') \<Rightarrow> E e w' | (Inr v, w') \<Rightarrow> Q v w'"
  proof (cases r)
    case (Inl e)
    with hoareD [OF assms(1) P] p have "E' e w1" by simp
    from hoareD [OF assms(3) this] Inl p show ?thesis
      by (auto simp: finallyp_def split: prod.splits sum.splits)
  next
    case (Inr v)
    with hoareD [OF assms(1) P] p have "Q' v w1" by simp
    from hoareD [OF assms(2) this] Inr p show ?thesis
      by (auto simp: finallyp_def split: prod.splits sum.splits)
  qed
qed

lemma hoare_whenp: "(b \<Longrightarrow> hoare P p Q E) \<Longrightarrow> (\<And>w. \<not> b \<Longrightarrow> P w \<Longrightarrow> Q () w) \<Longrightarrow> hoare P (whenp b p) Q E"
  by (simp add: hoare_def whenp_def ret_def)

lemma hoare_getp: "hoare P (getp f) (\<lambda>v w. P w \<and> v = f w) E"
  by (simp add: hoare_def getp_def)

lemma hoare_conseq:
  "hoare P p Q E \<Longrightarrow> (\<And>w. P' w \<Longrightarrow> P w) \<Longrightarrow> (\<And>v w. Q v w \<Longrightarrow> Q' v w) \<Longrightarrow> (\<And>e w. E e w \<Longrightarrow> E' e w) \<Longrightarrow> hoare P' p Q' E'"
  by (fastforce simp: hoare_def split: prod.splits sum.splits)

lemma hoare_if: "(b \<Longrightarrow> hoare P p Q E) \<Longrightarrow> (\<not> b \<Longrightarrow> hoare P q Q E) \<Longrightarrow> hoare P (if b then p else q) Q E"
  by simp

lemma hoare_option:
  "(v = None \<Longrightarrow> hoare P p Q E) \<Longrightarrow> (\<And>x. v = Some x \<Longrightarrow> hoare P (f x) Q E) \<Longrightarrow> hoare P (case v of None \<Rightarrow> p | Some x \<Rightarrow> f x) Q E"
  by (cases v) simp_all

text \<open>A fact that follows from the precondition and does not depend on the world.\<close>

lemma hoare_pure: "(\<And>w. P w \<Longrightarrow> \<phi>) \<Longrightarrow> (\<phi> \<Longrightarrow> hoare P p Q E) \<Longrightarrow> hoare P p Q E"
  by (auto simp: hoare_def)

lemma hoare_pre: "hoare P p Q E \<Longrightarrow> (\<And>w. P' w \<Longrightarrow> P w) \<Longrightarrow> hoare P' p Q E"
  by (auto simp: hoare_def)

text \<open>Programs that keep an assertion whatever they end with.\<close>

definition keeps :: "('s \<Rightarrow> bool) \<Rightarrow> ('s, 'e, 'a) program \<Rightarrow> bool" where
  "keeps P p \<longleftrightarrow> hoare P p (\<lambda>_. P) (\<lambda>_. P)"

named_theorems keeps_rules \<open>composition of programs that keep an assertion\<close>

lemma keeps_seqp [keeps_rules]: "keeps P p \<Longrightarrow> (\<And>v. keeps P (f v)) \<Longrightarrow> keeps P (seqp p f)"
  unfolding keeps_def by (rule hoare_seqp)

lemma keeps_thenp [keeps_rules]: "keeps P p \<Longrightarrow> keeps P q \<Longrightarrow> keeps P (thenp p q)"
  unfolding keeps_def by (rule hoare_thenp)

lemma keeps_catchp [keeps_rules]: "keeps P p \<Longrightarrow> (\<And>e. keeps P (h e)) \<Longrightarrow> keeps P (catchp p h)"
  unfolding keeps_def by (rule hoare_catchp)

lemma keeps_ret [keeps_rules]: "keeps P (ret v)"
  unfolding keeps_def by (rule hoare_ret)

lemma keeps_throw [keeps_rules]: "keeps P (throw e)"
  unfolding keeps_def by (rule hoare_throw)

lemma keeps_getp [keeps_rules]: "keeps P (getp f)"
  unfolding keeps_def by (simp add: hoare_def getp_def)

lemma keeps_whenp [keeps_rules]: "(b \<Longrightarrow> keeps P p) \<Longrightarrow> keeps P (whenp b p)"
  by (simp add: whenp_def keeps_ret)

lemma keeps_if [keeps_rules]: "(b \<Longrightarrow> keeps P p) \<Longrightarrow> (\<not> b \<Longrightarrow> keeps P q) \<Longrightarrow> keeps P (if b then p else q)"
  by simp

lemma keeps_option [keeps_rules]:
  "keeps P p \<Longrightarrow> (\<And>x. keeps P (f x)) \<Longrightarrow> keeps P (case v of None \<Rightarrow> p | Some x \<Rightarrow> f x)"
  by (cases v) simp_all

lemma keeps_sum [keeps_rules]:
  "(\<And>e. v = Inl e \<Longrightarrow> keeps P (f e)) \<Longrightarrow> (\<And>x. v = Inr x \<Longrightarrow> keeps P (g x)) \<Longrightarrow> keeps P (case v of Inl e \<Rightarrow> f e | Inr x \<Rightarrow> g x)"
  by (cases v) simp_all

lemma keeps_prod [keeps_rules]: "(\<And>a b. v = (a, b) \<Longrightarrow> keeps P (f a b)) \<Longrightarrow> keeps P (case v of (a, b) \<Rightarrow> f a b)"
  by (cases v) simp

lemma keeps_finallyp [keeps_rules]: "keeps P p \<Longrightarrow> (\<And>b. keeps P (f b)) \<Longrightarrow> keeps P (finallyp p f)"
  unfolding keeps_def by (rule hoare_finallyp)

lemma keepsD: "keeps P p \<Longrightarrow> hoare P p (\<lambda>_. P) (\<lambda>_. P)"
  by (simp add: keeps_def)

lemma hoare_keeps: "keeps P p \<Longrightarrow> (\<And>v w. P w \<Longrightarrow> Q v w) \<Longrightarrow> (\<And>e w. P w \<Longrightarrow> E e w) \<Longrightarrow> hoare P p Q E"
  unfolding keeps_def by (rule hoare_conseq)

lemma hoare_keeps_seq:
  "keeps P p \<Longrightarrow> (\<And>v. hoare P (f v) Q E) \<Longrightarrow> (\<And>e w. P w \<Longrightarrow> E e w) \<Longrightarrow> hoare P (seqp p f) Q E"
  by (rule hoare_seqp [where R = "\<lambda>_. P"]) (rule hoare_keeps)

lemma hoare_keeps_then:
  "keeps P p \<Longrightarrow> hoare P q Q E \<Longrightarrow> (\<And>e w. P w \<Longrightarrow> E e w) \<Longrightarrow> hoare P (thenp p q) Q E"
  unfolding thenp_def by (rule hoare_keeps_seq)

lemma hoare_conj:
  assumes "hoare P p Q E" "keeps R p"
  shows "hoare (\<lambda>w. P w \<and> R w) p (\<lambda>v w. Q v w \<and> R w) (\<lambda>e w. E e w \<and> R w)"
  unfolding hoare_def
proof (intro allI impI)
  fix w assume "P w \<and> R w"
  then show "case p w of (Inl e, w') \<Rightarrow> E e w' \<and> R w' | (Inr v, w') \<Rightarrow> Q v w' \<and> R w'"
    using hoareD [OF assms(1), of w] hoareD [OF assms(2) [unfolded keeps_def], of w] by (auto split: prod.splits sum.splits)
qed

text \<open>Only the value returned matters.\<close>

lemma hoare_returns_then: "hoare (\<lambda>_. True) q Q (\<lambda>_ _. True) \<Longrightarrow> hoare P (thenp p q) Q (\<lambda>_ _. True)"
  by (auto simp: hoare_def thenp_def seqp_def split: prod.splits sum.splits)

lemma keeps_for_each: "(\<And>x. keeps P (f x)) \<Longrightarrow> keeps P (for_each f xs)"
  by (induction xs) (auto intro!: keeps_rules)

end
