(* ===== verification/Handler.thy ===== *)
theory Handler
  imports Control_State Readiness Startup_Estimates Status Programs
begin

text \<open>
  What the controller's asynchronous handlers are made of (\<^verbatim>\<open>src/game_control/controller.py\<close>): programs over the
  controller's state that may raise, and the operations all handlers share, from the database transaction and the
  slot lease to the calls of an adapter.

  A handler is a function from a \<open>world\<close> to an exception or a value and the next world.  The world holds the
  database (\<open>Control_State\<close>), the readiness coordinator (\<open>Readiness\<close>), the startup history
  (\<open>Startup_Estimates\<close>), the local variables of the running handler that its \<^verbatim>\<open>except\<close> and \<^verbatim>\<open>finally\<close>
  clauses read, and the trace of everything done to the outside.  Each question to the outside takes one tick, and
  \<open>ctl_env\<close> says what the answer at that tick is, so an environment is one possible behaviour of the lock, the
  reservation store, the adapters, the probes and the task scheduler, including cancellation at any \<^verbatim>\<open>await\<close>.

  Another process may use the reservation store at any time; its effect is the store's answer.  Everything between
  two questions runs on one event loop without interruption.
\<close>

section \<open>Exceptions and programs\<close>

text \<open>\<open>Other_Exn\<close> and \<open>Adapter_Exn\<close> carry the \<^verbatim>\<open>returncode\<close> or \<^verbatim>\<open>code\<close> attribute; \<open>Cancelled_Exn\<close> is not an
  \<^verbatim>\<open>Exception\<close>.\<close>

datatype exn =
    Ctl_Exn ctl_failure
  | Timeout_Exn
  | Adapter_Exn bool "int option" \<comment> \<open>retryable, return code\<close>
  | Safe_Exn string string bool \<comment> \<open>\<^verbatim>\<open>SafeError\<close>: code, message, retryable\<close>
  | Other_Exn "int option"
  | Cancelled_Exn

definition ctl_exn :: "error_code \<Rightarrow> string \<Rightarrow> exn" where
  "ctl_exn code message = Ctl_Exn (ctl_fail code message False)"

definition retryable_exn :: "error_code \<Rightarrow> string \<Rightarrow> exn" where
  "retryable_exn code message = Ctl_Exn (ctl_fail code message True)"

type_synonym lease = "profile_id \<times> string \<times> int"

record startup_attempt =
  at_id :: string
  at_started :: rat
  at_version :: "string option"

text \<open>Everything done to the outside.\<close>

datatype adapter_op = Adapter_Start | Adapter_Graceful_Stop | Adapter_Force_Stop | Adapter_Command string

datatype effect =
    Eff_Db ctl_call
  | Eff_Reserved lease
  | Eff_Released lease \<comment> \<open>the release was requested\<close>
  | Eff_Transferred lease lease
  | Eff_Lost \<comment> \<open>the lease was seen lost\<close>
  | Eff_Free profile_id bool
  | Eff_Ready profile_id bool
  | Eff_Adapter adapter_op profile_id \<comment> \<open>the adapter was called\<close>
  | Eff_Returned adapter_op profile_id \<comment> \<open>the call returned normally, under the lease\<close>
  | Eff_Preflight profile_id profile_status
  | Eff_Backup profile_id
  | Eff_Work string profile_id \<comment> \<open>a maintenance service was called\<close>
  | Eff_Latency string profile_id bool

text \<open>The local variables of a handler.\<close>

record frame =
  fr_lease :: "lease option"
  fr_renewal :: bool
  fr_job :: "string option"
  fr_ticket :: "readiness_ticket option"
  fr_attempted :: bool
  fr_attempt :: "startup_attempt option"
  fr_success :: bool
  fr_rollback_lease :: "lease option"
  fr_rollback_renewal :: bool

definition empty_frame :: frame where
  "empty_frame = \<lparr>fr_lease = None, fr_renewal = False, fr_job = None, fr_ticket = None, fr_attempted = False,
     fr_attempt = None, fr_success = False, fr_rollback_lease = None, fr_rollback_renewal = False\<rparr>"

record world =
  w_time :: nat
  w_db :: ctl_db
  w_trace :: "effect list"
  w_readiness :: coordinator
  w_attempts :: "string \<rightharpoonup> startup_attempt"
  w_estimates :: estimate_store
  w_frame :: frame

type_synonym 'a prog = "(world, exn, 'a) program"

definition emit :: "effect \<Rightarrow> unit prog" where
  "emit e w = (Inr (), w\<lparr>w_trace := w_trace w @ [e]\<rparr>)"

definition set_frame :: "(frame \<Rightarrow> frame) \<Rightarrow> unit prog" where
  "set_frame f w = (Inr (), w\<lparr>w_frame := f (w_frame w)\<rparr>)"

text \<open>A question to the outside: one tick.\<close>

definition ask :: "(nat \<Rightarrow> exn + 'a) \<Rightarrow> 'a prog" where
  "ask f w = (f (w_time w), w\<lparr>w_time := Suc (w_time w)\<rparr>)"

text \<open>A handler called by another one has its own local variables.\<close>

definition in_frame :: "'a prog \<Rightarrow> 'a prog" where
  "in_frame p w = (case p (w\<lparr>w_frame := empty_frame\<rparr>) of (r, w') \<Rightarrow> (r, w'\<lparr>w_frame := w_frame w\<rparr>))"

section \<open>The environment\<close>

text \<open>\<open>Refused\<close> stands for every reservation call that raised.  The store may have written the record before it raised (a failed
  directory sync); the handler does not learn of it and gives nothing back, and the record stands until it expires.\<close>

datatype reserve_answer = Granted | Refused exn | Granted_Then_Cancelled | Refused_Then_Cancelled

datatype transfer_answer = Moved | Not_Moved exn | Moved_Then_Cancelled

record ctl_env =
  env_codec :: rpc_codec
  env_profiles :: "profile_id \<Rightarrow> profile option"
  env_adapters :: "profile_id \<Rightarrow> bool"
  env_store :: bool \<comment> \<open>a reservation store is configured\<close>
  env_inspector :: bool
  env_backups :: bool
  env_clock :: "nat \<Rightarrow> nat \<Rightarrow> instant"
  env_monotonic :: "nat \<Rightarrow> rat"
  env_uuid :: "nat \<Rightarrow> string"
  env_stamp :: "nat \<Rightarrow> string"
  env_lock :: "nat \<Rightarrow> exn option" \<comment> \<open>raised while the operation lock is taken\<close>
  env_unlock :: "nat \<Rightarrow> exn option" \<comment> \<open>raised while it is given back\<close>
  env_reserve :: "nat \<Rightarrow> reserve_answer"
  env_release :: "nat \<Rightarrow> exn option"
  env_transfer :: "nat \<Rightarrow> transfer_answer"
  env_drain :: "nat \<Rightarrow> exn option"
  env_renewal_done :: "nat \<Rightarrow> bool"
  env_renewal_first :: "nat \<Rightarrow> bool"
  env_cancel :: "nat \<Rightarrow> bool"
  env_adapter :: "nat \<Rightarrow> exn + unit"
  env_free :: "nat \<Rightarrow> exn + bool"
  env_ready :: "nat \<Rightarrow> exn + bool"
  env_status :: "nat \<Rightarrow> exn + status_snapshot option"
  env_observe :: "nat \<Rightarrow> exn + slot_observation option"
  env_backup :: "nat \<Rightarrow> exn + unit"
  env_version :: "nat \<Rightarrow> string option"
  env_estimates :: "nat \<Rightarrow> db_state"

section \<open>Transactions\<close>

text \<open>A transaction answers and makes one call on the database, or none when it violates a key.  Cancellation while the lock is given back comes after
  the commit.\<close>

definition db_effect :: "ctl_env \<Rightarrow> ctl_call \<Rightarrow> world \<Rightarrow> world" where
  "db_effect ev call w = w\<lparr>w_db := ctl_step (env_codec ev) call (w_db w), w_trace := w_trace w @ [Eff_Db call]\<rparr>"

definition transaction :: "ctl_env \<Rightarrow> ((nat \<Rightarrow> instant) \<Rightarrow> string \<Rightarrow> ctl_db \<Rightarrow> (exn + 'a) \<times> ctl_call option) \<Rightarrow> 'a prog" where
  "transaction ev body w = (
     let n = w_time w; w1 = w\<lparr>w_time := Suc n\<rparr>
     in case env_lock ev n of
          Some e \<Rightarrow> (Inl e, w1)
        | None \<Rightarrow>
            (case body (env_clock ev n) (env_uuid ev n) (w_db w) of (r, call) \<Rightarrow>
               (case env_unlock ev n of Some e \<Rightarrow> Inl e | None \<Rightarrow> r,
                case call of None \<Rightarrow> w1 | Some c \<Rightarrow> db_effect ev c w1)))"

text \<open>A commit outside the operation lock, for the audit of a rejected request.\<close>

definition audit_rejection :: "ctl_env \<Rightarrow> string \<Rightarrow> string \<Rightarrow> profile_id option \<Rightarrow> error_code \<Rightarrow> string \<Rightarrow> unit prog" where
  "audit_rejection ev actor action profile code detail w = (
     let n = w_time w
     in (Inr (), db_effect ev (Do_Audit (env_clock ev n 0) actor action profile ''rejected'' (Some code) detail)
           (w\<lparr>w_time := Suc n\<rparr>)))"

definition open_job :: "ctl_env \<Rightarrow> string \<Rightarrow> string \<Rightarrow> profile_id option \<Rightarrow> string prog" where
  "open_job ev actor action profile = transaction ev (\<lambda>clock new_id db.
     case fst (job_intent clock new_id actor action profile db) of
       Inl _ \<Rightarrow> (Inl (Other_Exn None), None)
     | Inr job \<Rightarrow> (Inr job, Some (Do_Intent clock new_id actor action profile)))"

definition finish :: "ctl_env \<Rightarrow> string \<Rightarrow> string \<Rightarrow> string \<Rightarrow> profile_id option \<Rightarrow> error_code option \<Rightarrow> string \<Rightarrow> unit prog" where
  "finish ev job actor action profile failure detail = transaction ev (\<lambda>clock _ _.
     (Inr (), Some (Do_Finish clock \<lparr>fin_job = job, fin_actor = actor, fin_action = action, fin_profile = profile,
        fin_ok = (failure = None), fin_code = failure, fin_detail = detail, fin_state = None\<rparr>)))"

definition write_event :: "ctl_env \<Rightarrow> profile_id option \<Rightarrow> string \<Rightarrow> string \<Rightarrow> unit prog" where
  "write_event ev profile code message = transaction ev (\<lambda>clock _ _. (Inr (), Some (Do_Event clock profile code message)))"

definition record_audit :: "ctl_env \<Rightarrow> string \<Rightarrow> string \<Rightarrow> profile_id option \<Rightarrow> string \<Rightarrow> error_code option \<Rightarrow> string \<Rightarrow> unit prog" where
  "record_audit ev actor action profile result code detail = transaction ev (\<lambda>clock _ _.
     (Inr (), Some (Do_Audit (clock 0) actor action profile result code detail)))"

definition prepare_confirmation :: "ctl_env \<Rightarrow> string \<Rightarrow> string \<Rightarrow> profile_id \<Rightarrow> (string \<times> json) list
    \<Rightarrow> (string \<times> instant \<times> int) prog" where
  "prepare_confirmation ev actor action profile payload =
     seqp (getp (\<lambda>w. confirmation_terms (env_clock ev (w_time w)) (w_db w))) (\<lambda>terms.
     transaction ev (\<lambda>_ new_id db.
       case fst (create_confirmation terms new_id actor action profile payload db) of
         Inl _ \<Rightarrow> (Inl (Other_Exn None), None)
       | Inr made \<Rightarrow> (Inr made, Some (Do_Prepare terms new_id actor action profile payload))))"

definition redeem_confirmation :: "ctl_env \<Rightarrow> string \<Rightarrow> string \<Rightarrow> string \<Rightarrow> (string \<times> json) list prog" where
  "redeem_confirmation ev actor action confirmation_id = transaction ev (\<lambda>clock _ db.
     (map_sum Ctl_Exn id (fst (consume_confirmation clock actor action confirmation_id db)),
      Some (Do_Consume clock actor action confirmation_id)))"

section \<open>Profiles, operations, adapters\<close>

definition require_profile :: "ctl_env \<Rightarrow> profile_id \<Rightarrow> profile prog" where
  "require_profile ev p = (case env_profiles ev p of
     None \<Rightarrow> throw (ctl_exn INVALID_REQUEST ''unknown profile'') | Some profile \<Rightarrow> ret profile)"

fun operation_value :: "operation_name \<Rightarrow> string" where
  "operation_value Op_START = ''start''"
| "operation_value Op_STOP = ''stop''"
| "operation_value Op_RESTART = ''restart''"
| "operation_value Op_FORCE_STOP = ''force_stop''"
| "operation_value Op_COMMAND = ''command''"
| "operation_value Op_BACKUP = ''backup''"
| "operation_value Op_RESTORE = ''restore''"
| "operation_value Op_CLONE_SOURCE = ''clone_source''"
| "operation_value Op_CLONE_TARGET = ''clone_target''"
| "operation_value Op_UPDATE_CHECK = ''update_check''"
| "operation_value Op_UPDATE_APPLY = ''update_apply''"
| "operation_value Op_BENCHMARK = ''benchmark''"

definition require_operation :: "ctl_env \<Rightarrow> profile \<Rightarrow> operation_name \<Rightarrow> string \<Rightarrow> unit prog" where
  "require_operation ev p op actor =
     (if op \<in> prof_operations p then ret ()
      else thenp (audit_rejection ev actor (operation_value op) (Some (prof_id p)) INVALID_REQUEST
             ''operation is not permitted for profile'')
           (throw (ctl_exn INVALID_REQUEST ''operation is not permitted for profile'')))"

section \<open>The slot lease\<close>

definition lease_lost :: exn where
  "lease_lost = ctl_exn SLOT_CONFLICT ''slot reservation was lost''"

text \<open>The renewal task only ends by an exception, and without a store it sleeps for good.\<close>

definition lost_at :: "ctl_env \<Rightarrow> nat \<Rightarrow> bool" where
  "lost_at ev n \<longleftrightarrow> env_store ev \<and> env_renewal_done ev n"

definition report_lost :: "'a prog" where
  "report_lost = thenp (emit Eff_Lost) (throw lease_lost)"

definition assert_lease :: "ctl_env \<Rightarrow> unit prog" where
  "assert_lease ev = seqp (ask (\<lambda>n. Inr (lost_at ev n))) (\<lambda>lost. if lost then report_lost else ret ())"

text \<open>\<open>await_lease\<close>: the work races with the renewal task.  \<open>work\<close> is what awaiting the work ends with, after the
  cancellation the code requests when the renewal ends first.\<close>

definition await_lease :: "ctl_env \<Rightarrow> bool \<Rightarrow> bool \<Rightarrow> (nat \<Rightarrow> exn + 'a) \<Rightarrow> 'a prog" where
  "await_lease ev renewal drain work = seqp (ask (\<lambda>n. Inr n)) (\<lambda>n.
     if env_cancel ev n then throw Cancelled_Exn
     else if \<not> renewal then (case work n of Inl e \<Rightarrow> throw e | Inr v \<Rightarrow> ret v)
     else if env_store ev \<and> env_renewal_first ev n
     then (case work n of
             Inl e \<Rightarrow> if drain \<or> e = Cancelled_Exn then report_lost else throw e
           | Inr v \<Rightarrow> report_lost)
     else (case work n of
             Inl e \<Rightarrow> throw e
           | Inr v \<Rightarrow> if lost_at ev n then report_lost else ret v))"

definition clear_reservation :: "ctl_env \<Rightarrow> lease \<Rightarrow> unit prog" where
  "clear_reservation ev l =
     (if \<not> env_store ev then ret ()
      else thenp (emit (Eff_Released l)) (ask (\<lambda>n. raise_opt (env_release ev n))))"

definition swallow :: "unit prog \<Rightarrow> unit prog" where
  "swallow p = catchp p (\<lambda>_. ret ())"

definition slot_reserved :: exn where
  "slot_reserved = ctl_exn SLOT_CONFLICT ''game slot is reserved''"

definition reserve_answered :: "ctl_env \<Rightarrow> profile \<Rightarrow> string \<Rightarrow> string \<Rightarrow> lease \<Rightarrow> reserve_answer \<Rightarrow> lease prog" where
  "reserve_answered ev p operation actor l answer =
     (case answer of
        Granted \<Rightarrow> thenp (emit (Eff_Reserved l)) (ret l)
      | Granted_Then_Cancelled \<Rightarrow>
          thenp (emit (Eff_Reserved l)) (thenp (swallow (clear_reservation ev l)) (throw Cancelled_Exn))
      | Refused_Then_Cancelled \<Rightarrow> throw Cancelled_Exn
      | Refused e \<Rightarrow>
          if e = Cancelled_Exn then throw e
          else thenp (write_event ev (Some (prof_id p)) ''slot_conflict'' ''game slot is unavailable'')
               (thenp (record_audit ev actor operation (Some (prof_id p)) ''rejected'' (Some SLOT_CONFLICT) ''game slot is reserved'')
               (throw slot_reserved)))"

definition reserve_lease :: "ctl_env \<Rightarrow> profile \<Rightarrow> string \<Rightarrow> string \<Rightarrow> string \<Rightarrow> lease prog" where
  "reserve_lease ev p operation lease_id actor =
     seqp (getp (\<lambda>w. (prof_id p, lease_id, current_generation (w_db w)))) (\<lambda>l.
     if \<not> env_store ev then ret l
     else seqp (ask (\<lambda>n. Inr (env_reserve ev n))) (reserve_answered ev p operation actor l))"

definition release_lease :: "ctl_env \<Rightarrow> bool \<Rightarrow> lease option \<Rightarrow> bool \<Rightarrow> unit prog" where
  "release_lease ev primary_active l renewal =
     seqp (if renewal then ask (\<lambda>n. Inr (env_drain ev n)) else ret None) (\<lambda>renewal_error.
     seqp (case l of None \<Rightarrow> ret None | Some x \<Rightarrow> attempt (clear_reservation ev x)) (\<lambda>cleanup_error.
     if primary_active then ret ()
     else case cleanup_error of
            Some e \<Rightarrow> throw e
          | None \<Rightarrow> (case renewal_error of Some e \<Rightarrow> throw e | None \<Rightarrow> ret ())))"

section \<open>Adapter calls and probes under a lease\<close>

definition call_adapter :: "ctl_env \<Rightarrow> bool \<Rightarrow> adapter_op \<Rightarrow> profile \<Rightarrow> unit prog" where
  "call_adapter ev renewal op p =
     (if \<not> env_adapters ev (prof_id p) then throw (ctl_exn INTERNAL_ERROR ''adapter unavailable'')
      else thenp (emit (Eff_Adapter op (prof_id p)))
        (thenp (await_lease ev renewal False (env_adapter ev)) (emit (Eff_Returned op (prof_id p)))))"

definition wait_for_free_slot :: "ctl_env \<Rightarrow> profile \<Rightarrow> bool prog" where
  "wait_for_free_slot ev p =
     seqp (await_lease ev True False (env_free ev)) (\<lambda>b. thenp (emit (Eff_Free (prof_id p) b)) (ret b))"

definition probe_start_health :: "ctl_env \<Rightarrow> profile \<Rightarrow> bool prog" where
  "probe_start_health ev p =
     seqp (await_lease ev True False (env_ready ev)) (\<lambda>b. thenp (emit (Eff_Ready (prof_id p) b)) (ret b))"

section \<open>Startup attempts and readiness\<close>

definition installed_version_hint :: "ctl_env \<Rightarrow> string option prog" where
  "installed_version_hint ev = ask (\<lambda>n. if env_cancel ev n then Inl Cancelled_Exn else Inr (env_version ev n))"

definition begin_startup_attempt :: "ctl_env \<Rightarrow> profile_id \<Rightarrow> string option \<Rightarrow> startup_attempt prog" where
  "begin_startup_attempt ev p version w = (
     let n = w_time w; a = \<lparr>at_id = env_uuid ev n, at_started = env_monotonic ev n, at_version = version\<rparr>;
         w1 = w\<lparr>w_time := Suc n\<rparr>
     in (Inr a, case normalize_profile_key (JStr (profile_value p)) of
                  None \<Rightarrow> w1 | Some key \<Rightarrow> w1\<lparr>w_attempts := (w_attempts w)(key \<mapsto> a)\<rparr>))"

text \<open>Attempts are compared by identity; ids are unique.\<close>

definition end_startup_attempt :: "profile_id \<Rightarrow> startup_attempt option \<Rightarrow> unit prog" where
  "end_startup_attempt p attempt_made w =
     (Inr (), case (normalize_profile_key (JStr (profile_value p)), attempt_made) of
                (Some key, Some a) \<Rightarrow> if w_attempts w key = Some a then w\<lparr>w_attempts := (w_attempts w)(key := None)\<rparr> else w
              | _ \<Rightarrow> w)"

definition record_startup_estimate :: "ctl_env \<Rightarrow> profile_id \<Rightarrow> startup_attempt option \<Rightarrow> unit prog" where
  "record_startup_estimate ev p attempt_made =
     (case attempt_made of
        None \<Rightarrow> ret ()
      | Some a \<Rightarrow>
          if at_version a \<in> {None, Some []} then ret ()
          else (\<lambda>w. let n = w_time w; w1 = w\<lparr>w_time := Suc n\<rparr>;
                  duration = (env_monotonic ev n - at_started a) * 1000;
                  w2 = w1\<lparr>w_estimates := snd (record_sample (env_estimates ev n) (JStr (profile_value p))
                         (JStr (the (at_version a))) (JFloat (Finite duration)) (JStr (at_id a)) (Inr (env_stamp ev n)) (w_estimates w))\<rparr>
                in case env_lock ev n of
                     Some e \<Rightarrow> (if e = Cancelled_Exn then Inl e else Inr (), w1)
                   | None \<Rightarrow> (if env_unlock ev n = Some Cancelled_Exn then Inl Cancelled_Exn else Inr (), w2)))"

definition begin_readiness :: "profile_id \<Rightarrow> readiness_ticket prog" where
  "begin_readiness p w = (case readiness_begin (JStr (profile_value p)) (w_readiness w) of
     (r, c) \<Rightarrow> (map_sum (\<lambda>_. Other_Exn None) id r, w\<lparr>w_readiness := c\<rparr>))"

definition notify_readiness :: "readiness_ticket option \<Rightarrow> readiness_outcome \<Rightarrow> unit prog" where
  "notify_readiness t r w = (Inr (), case t of
     None \<Rightarrow> w | Some ticket \<Rightarrow> w\<lparr>w_readiness := snd (readiness_notify ticket r (w_readiness w))\<rparr>)"

definition finish_readiness :: "readiness_ticket option \<Rightarrow> unit prog" where
  "finish_readiness t w = (Inr (), case t of
     None \<Rightarrow> w | Some ticket \<Rightarrow> w\<lparr>w_readiness := readiness_finish ticket (w_readiness w)\<rparr>)"

section \<open>Reasoning about programs\<close>

lemma hoare_set_frame: "(\<And>w. P w \<Longrightarrow> Q () (w\<lparr>w_frame := f (w_frame w)\<rparr>)) \<Longrightarrow> hoare P (set_frame f) Q E"
  by (simp add: hoare_def set_frame_def)

lemma hoare_emit: "(\<And>w. P w \<Longrightarrow> Q () (w\<lparr>w_trace := w_trace w @ [e]\<rparr>)) \<Longrightarrow> hoare P (emit e) Q E"
  by (simp add: hoare_def emit_def)

lemma hoare_call_adapter:
  assumes "env_adapters ev (prof_id p) \<Longrightarrow> hoare P (emit (Eff_Adapter op (prof_id p))) (\<lambda>_. R) E"
    "env_adapters ev (prof_id p)
       \<Longrightarrow> hoare R (thenp (await_lease ev renewal False (env_adapter ev)) (emit (Eff_Returned op (prof_id p)))) Q E"
    "\<And>w e. P w \<Longrightarrow> \<not> env_adapters ev (prof_id p) \<Longrightarrow> E e w"
  shows "hoare P (call_adapter ev renewal op p) Q E"
proof (cases "env_adapters ev (prof_id p)")
  case True
  then show ?thesis unfolding call_adapter_def using hoare_thenp [OF assms(1,2)] by simp
qed (simp add: call_adapter_def hoare_throw assms(3))

lemma hoare_in_frame:
  assumes "hoare P p Q E" "\<And>w. P' w \<Longrightarrow> P (w\<lparr>w_frame := empty_frame\<rparr>)"
    "\<And>v w f. Q v w \<Longrightarrow> Q' v (w\<lparr>w_frame := f\<rparr>)" "\<And>e w f. E e w \<Longrightarrow> E' e (w\<lparr>w_frame := f\<rparr>)"
  shows "hoare P' (in_frame p) Q' E'"
  using assms by (fastforce simp: hoare_def in_frame_def split: prod.splits sum.splits)

text \<open>A program that keeps the local variables and adds only effects of a kind to the trace.\<close>

definition extends :: "(effect \<Rightarrow> bool) \<Rightarrow> world \<Rightarrow> world \<Rightarrow> bool" where
  "extends S w w' \<longleftrightarrow> w_frame w' = w_frame w \<and> (\<exists>es. w_trace w' = w_trace w @ es \<and> list_all S es)"

definition emits_only :: "(effect \<Rightarrow> bool) \<Rightarrow> 'a prog \<Rightarrow> bool" where
  "emits_only S p \<longleftrightarrow> (\<forall>w. extends S w (snd (p w)))"

lemma extends_refl [simp]: "extends S w w"
  by (simp add: extends_def)

lemma extends_trans: "extends S a b \<Longrightarrow> extends S b c \<Longrightarrow> extends S a c"
  unfolding extends_def by (metis append_assoc list_all_append)

lemma emits_mono: "emits_only S p \<Longrightarrow> (\<And>e. S e \<Longrightarrow> T e) \<Longrightarrow> emits_only T p"
  unfolding emits_only_def extends_def by (meson list.pred_mono_strong)

named_theorems emits \<open>what a program adds to the trace\<close>

lemma emits_ret [emits]: "emits_only S (ret v)"
  by (simp add: emits_only_def ret_def)

lemma emits_throw [emits]: "emits_only S (throw e)"
  by (simp add: emits_only_def throw_def)

lemma emits_getp [emits]: "emits_only S (getp f)"
  by (simp add: emits_only_def getp_def)

lemma emits_ask [emits]: "emits_only S (ask f)"
  by (simp add: emits_only_def ask_def extends_def)

lemma emits_emit [emits]: "S e \<Longrightarrow> emits_only S (emit e)"
  by (simp add: emits_only_def emit_def extends_def)

lemma emits_seqp [emits]: "emits_only S p \<Longrightarrow> (\<And>v. emits_only S (f v)) \<Longrightarrow> emits_only S (seqp p f)"
  unfolding emits_only_def seqp_def by (auto split: prod.split sum.split) (metis snd_conv, metis extends_trans snd_conv)

lemma emits_thenp [emits]: "emits_only S p \<Longrightarrow> emits_only S q \<Longrightarrow> emits_only S (thenp p q)"
  unfolding thenp_def by (rule emits_seqp)

lemma emits_catchp [emits]: "emits_only S p \<Longrightarrow> (\<And>e. emits_only S (h e)) \<Longrightarrow> emits_only S (catchp p h)"
  unfolding emits_only_def catchp_def by (auto split: prod.split sum.split) (metis extends_trans snd_conv, metis snd_conv)

lemma emits_whenp [emits]: "(b \<Longrightarrow> emits_only S p) \<Longrightarrow> emits_only S (whenp b p)"
  by (simp add: whenp_def emits_ret)

lemma emits_if [emits]: "(b \<Longrightarrow> emits_only S p) \<Longrightarrow> (\<not> b \<Longrightarrow> emits_only S q) \<Longrightarrow> emits_only S (if b then p else q)"
  by simp

lemma emits_option [emits]:
  "emits_only S p \<Longrightarrow> (\<And>x. emits_only S (f x)) \<Longrightarrow> emits_only S (case v of None \<Rightarrow> p | Some x \<Rightarrow> f x)"
  by (cases v) simp_all

lemma emits_sum [emits]:
  "(\<And>x. emits_only S (f x)) \<Longrightarrow> (\<And>x. emits_only S (g x)) \<Longrightarrow> emits_only S (case v of Inl x \<Rightarrow> f x | Inr x \<Rightarrow> g x)"
  by (cases v) simp_all

lemma emits_transaction:
  assumes "\<And>clock new_id db c. snd (body clock new_id db) = Some c \<Longrightarrow> S (Eff_Db c)"
  shows "emits_only S (transaction ev body)"
proof -
  have "extends S w (snd (transaction ev body w))" for w
    using assms [of "env_clock ev (w_time w)" "env_uuid ev (w_time w)" "w_db w"]
    by (auto simp: transaction_def Let_def extends_def db_effect_def split: option.split prod.split)
  then show ?thesis by (simp add: emits_only_def)
qed

lemma emits_open_job [emits]:
  "(\<And>clock new_id. S (Eff_Db (Do_Intent clock new_id actor action profile))) \<Longrightarrow> emits_only S (open_job ev actor action profile)"
  unfolding open_job_def by (rule emits_transaction) (auto split: sum.splits)

lemma emits_finish [emits]:
  "(\<And>clock f. fin_job f = job \<Longrightarrow> fin_ok f = (failure = None) \<Longrightarrow> S (Eff_Db (Do_Finish clock f)))
    \<Longrightarrow> emits_only S (finish ev job actor action profile failure detail)"
  unfolding finish_def by (rule emits_transaction) auto

lemma emits_write_event [emits]:
  "(\<And>clock. S (Eff_Db (Do_Event clock profile code message))) \<Longrightarrow> emits_only S (write_event ev profile code message)"
  unfolding write_event_def by (rule emits_transaction) auto

lemma emits_record_audit [emits]:
  "(\<And>now. S (Eff_Db (Do_Audit now actor action profile result code detail)))
    \<Longrightarrow> emits_only S (record_audit ev actor action profile result code detail)"
  unfolding record_audit_def by (rule emits_transaction) auto

lemma emits_redeem [emits]:
  "(\<And>clock. S (Eff_Db (Do_Consume clock actor action cid))) \<Longrightarrow> emits_only S (redeem_confirmation ev actor action cid)"
  unfolding redeem_confirmation_def by (rule emits_transaction) auto

lemma emits_audit_rejection [emits]:
  "(\<And>now. S (Eff_Db (Do_Audit now actor action profile ''rejected'' (Some code) detail)))
    \<Longrightarrow> emits_only S (audit_rejection ev actor action profile code detail)"
  by (simp add: emits_only_def audit_rejection_def Let_def extends_def db_effect_def)

lemma emits_state [emits]:
  "emits_only S (begin_startup_attempt ev p version)" "emits_only S (end_startup_attempt p a)"
  "emits_only S (begin_readiness p)" "emits_only S (notify_readiness t r)" "emits_only S (finish_readiness t)"
  "emits_only S (record_startup_estimate ev p a)" "emits_only S (installed_version_hint ev)" "emits_only S (require_profile ev q)"
  by (auto simp: emits_only_def begin_startup_attempt_def end_startup_attempt_def begin_readiness_def notify_readiness_def
      finish_readiness_def record_startup_estimate_def installed_version_hint_def require_profile_def ask_def ret_def throw_def
      Let_def extends_def split: option.split prod.split)

lemma emits_require_operation [emits]:
  "(\<And>now code detail. S (Eff_Db (Do_Audit now actor (operation_value op) (Some (prof_id p)) ''rejected'' (Some code) detail)))
    \<Longrightarrow> emits_only S (require_operation ev p op actor)"
  unfolding require_operation_def by (intro emits)

lemma emits_assert_lease [emits]: "S Eff_Lost \<Longrightarrow> emits_only S (assert_lease ev)"
  unfolding assert_lease_def report_lost_def by (intro emits)

lemma emits_await_lease [emits]: "S Eff_Lost \<Longrightarrow> emits_only S (await_lease ev renewal drain work)"
  unfolding await_lease_def report_lost_def by (intro emits)

lemma emits_call_adapter [emits]:
  "S Eff_Lost \<Longrightarrow> S (Eff_Adapter op (prof_id p)) \<Longrightarrow> S (Eff_Returned op (prof_id p)) \<Longrightarrow> emits_only S (call_adapter ev renewal op p)"
  unfolding call_adapter_def by (intro emits)

lemma emits_wait_for_free_slot [emits]:
  "S Eff_Lost \<Longrightarrow> (\<And>b. S (Eff_Free (prof_id p) b)) \<Longrightarrow> emits_only S (wait_for_free_slot ev p)"
  unfolding wait_for_free_slot_def by (intro emits)

lemma emits_probe_start_health [emits]:
  "S Eff_Lost \<Longrightarrow> (\<And>b. S (Eff_Ready (prof_id p) b)) \<Longrightarrow> emits_only S (probe_start_health ev p)"
  unfolding probe_start_health_def by (intro emits)

text \<open>Assertions about what a monitor computed from the trace, and about the local variables, are kept by programs whose
  effects do not move the monitor.\<close>

definition monitored :: "('s \<Rightarrow> effect \<Rightarrow> 's) \<Rightarrow> 's \<Rightarrow> world \<Rightarrow> 's" where
  "monitored step ini w = foldl step ini (w_trace w)"

definition ignored :: "('s \<Rightarrow> effect \<Rightarrow> 's) \<Rightarrow> effect \<Rightarrow> bool" where
  "ignored step e \<longleftrightarrow> (\<forall>s. step s e = s)"

lemma monitored_frame [simp]:
  "monitored step ini (w\<lparr>w_frame := f\<rparr>) = monitored step ini w"
  "monitored step ini (w\<lparr>w_trace := w_trace w @ [e]\<rparr>) = step (monitored step ini w) e"
  by (simp_all add: monitored_def)

lemma foldl_ignored: "list_all (ignored step) es \<Longrightarrow> foldl step s es = s"
  by (induction es) (simp_all add: ignored_def)

lemma hoare_ignored:
  assumes "emits_only (ignored step) p"
  shows "hoare (\<lambda>w. P (monitored step ini w) (w_frame w)) p (\<lambda>_ w. P (monitored step ini w) (w_frame w))
    (\<lambda>_ w. P (monitored step ini w) (w_frame w))"
proof -
  have "monitored step ini (snd (p w)) = monitored step ini w \<and> w_frame (snd (p w)) = w_frame w" for w
    using assms by (auto simp: emits_only_def extends_def monitored_def foldl_ignored dest!: spec [of _ w])
  then show ?thesis by (auto simp: hoare_def split: prod.split sum.split) (metis snd_conv)+
qed

text \<open>The same as a step of a longer program.\<close>

lemma hoare_ignored_seq:
  assumes "emits_only (ignored step) p" "\<And>v. hoare (\<lambda>w. P (monitored step ini w) (w_frame w)) (f v) Q E"
    "\<And>e w. P (monitored step ini w) (w_frame w) \<Longrightarrow> E e w"
  shows "hoare (\<lambda>w. P (monitored step ini w) (w_frame w)) (seqp p f) Q E"
proof (rule hoare_seqp)
  show "hoare (\<lambda>w. P (monitored step ini w) (w_frame w)) p (\<lambda>_ w. P (monitored step ini w) (w_frame w)) E"
    by (rule hoare_conseq [OF hoare_ignored [OF assms(1), of P ini]]) (simp_all add: assms(3))
qed (rule assms(2))

lemma hoare_ignored_then:
  assumes "emits_only (ignored step) p" "hoare (\<lambda>w. P (monitored step ini w) (w_frame w)) q Q E"
    "\<And>e w. P (monitored step ini w) (w_frame w) \<Longrightarrow> E e w"
  shows "hoare (\<lambda>w. P (monitored step ini w) (w_frame w)) (thenp p q) Q E"
  unfolding thenp_def using assms by (rule hoare_ignored_seq)

text \<open>Bookkeeping never raises.\<close>

definition never_raises :: "'a prog \<Rightarrow> bool" where
  "never_raises p \<longleftrightarrow> (\<forall>w. \<not> isl (fst (p w)))"

lemma never_raises_state [simp]:
  "never_raises (finish_readiness t)" "never_raises (notify_readiness t r)" "never_raises (end_startup_attempt p a)"
  "never_raises (begin_startup_attempt ev p version)" "never_raises (emit e)" "never_raises (set_frame g)"
  by (simp_all add: never_raises_def finish_readiness_def notify_readiness_def end_startup_attempt_def begin_startup_attempt_def
      Let_def emit_def set_frame_def)

lemma hoare_never_raises:
  assumes "never_raises p" "hoare P p Q E"
  shows "hoare P p Q E'"
  unfolding hoare_def
proof (intro allI impI)
  fix w assume "P w"
  from hoareD [OF assms(2) this] show "case p w of (Inl e, w') \<Rightarrow> E' e w' | (Inr v, w') \<Rightarrow> Q v w'"
    using assms(1) by (auto simp: never_raises_def split: prod.splits sum.splits dest!: spec [of _ w])
qed

lemma hoare_quiet_then:
  assumes "emits_only (ignored step) p" "never_raises p" "hoare (\<lambda>w. P (monitored step ini w) (w_frame w)) q Q E"
  shows "hoare (\<lambda>w. P (monitored step ini w) (w_frame w)) (thenp p q) Q E"
  by (rule hoare_thenp [OF hoare_never_raises [OF assms(2) hoare_ignored [OF assms(1)]] assms(3)])

lemma hoare_ask: "(\<And>w v. P w \<Longrightarrow> f (w_time w) = Inr v \<Longrightarrow> Q v (w\<lparr>w_time := Suc (w_time w)\<rparr>))
    \<Longrightarrow> (\<And>w e. P w \<Longrightarrow> f (w_time w) = Inl e \<Longrightarrow> E e (w\<lparr>w_time := Suc (w_time w)\<rparr>)) \<Longrightarrow> hoare P (ask f) Q E"
  by (auto simp: hoare_def ask_def split: sum.split)

lemma monitored_time [simp]: "monitored step ini (w\<lparr>w_time := n\<rparr>) = monitored step ini w"
  by (simp add: monitored_def)

lemma keeps_ignored:
  "emits_only (ignored step) p \<Longrightarrow> keeps (\<lambda>w. P (monitored step ini w) (w_frame w)) p"
  unfolding keeps_def by (rule hoare_ignored)

lemma keeps_set_frame: "(\<And>w. P w \<Longrightarrow> P (w\<lparr>w_frame := f (w_frame w)\<rparr>)) \<Longrightarrow> keeps P (set_frame f)"
  unfolding keeps_def by (rule hoare_set_frame)

lemma keeps_in_frame:
  "keeps P p \<Longrightarrow> (\<And>w f. P (w\<lparr>w_frame := f\<rparr>) = P w) \<Longrightarrow> keeps P (in_frame p)"
  unfolding keeps_def by (erule hoare_in_frame) simp_all

lemma emits_clear_reservation [emits]: "S (Eff_Released l) \<Longrightarrow> emits_only S (clear_reservation ev l)"
  unfolding clear_reservation_def by (intro emits)

lemma emits_release_lease [emits]: "(\<And>x. l = Some x \<Longrightarrow> S (Eff_Released x)) \<Longrightarrow> emits_only S (release_lease ev primary l renewal)"
  unfolding release_lease_def attempt_def by (cases l) (auto intro!: emits)

lemma emits_reserve_lease [emits]:
  "(\<And>l. S (Eff_Reserved l)) \<Longrightarrow> (\<And>l. S (Eff_Released l)) \<Longrightarrow> (\<And>clock q c m. S (Eff_Db (Do_Event clock q c m)))
    \<Longrightarrow> (\<And>now a b q r c d. S (Eff_Db (Do_Audit now a b q r c d))) \<Longrightarrow> emits_only S (reserve_lease ev p operation lease_id actor)"
  unfolding reserve_lease_def reserve_answered_def swallow_def
  by (intro emits, rename_tac answer, case_tac answer) (auto intro!: emits)

lemma keeps_extends:
  "emits_only S p \<Longrightarrow> (\<And>w w'. extends S w w' \<Longrightarrow> P w \<Longrightarrow> P w') \<Longrightarrow> keeps P p"
  unfolding keeps_def hoare_def emits_only_def by (auto split: prod.split sum.split) (metis snd_conv)+

text \<open>Environments without cancellation, and programs that are not cancelled in them.\<close>

definition uncancelled :: "ctl_env \<Rightarrow> bool" where
  "uncancelled ev \<longleftrightarrow> (\<forall>n. \<not> env_cancel ev n \<and> env_lock ev n \<noteq> Some Cancelled_Exn \<and> env_unlock ev n \<noteq> Some Cancelled_Exn
     \<and> env_reserve ev n \<notin> {Granted_Then_Cancelled, Refused_Then_Cancelled, Refused Cancelled_Exn}
     \<and> env_adapter ev n \<noteq> Inl Cancelled_Exn \<and> env_free ev n \<noteq> Inl Cancelled_Exn \<and> env_ready ev n \<noteq> Inl Cancelled_Exn
     \<and> env_status ev n \<noteq> Inl Cancelled_Exn \<and> env_observe ev n \<noteq> Inl Cancelled_Exn \<and> env_backup ev n \<noteq> Inl Cancelled_Exn
     \<and> env_transfer ev n \<notin> {Moved_Then_Cancelled, Not_Moved Cancelled_Exn})"

definition not_cancelled :: "'a prog \<Rightarrow> bool" where
  "not_cancelled p \<longleftrightarrow> (\<forall>w. fst (p w) \<noteq> Inl Cancelled_Exn)"

named_theorems uncancelled_rules \<open>programs that are not cancelled\<close>

lemma not_cancelled_seqp [uncancelled_rules]:
  "not_cancelled p \<Longrightarrow> (\<And>v. not_cancelled (f v)) \<Longrightarrow> not_cancelled (seqp p f)"
  by (auto simp: not_cancelled_def seqp_def split: prod.split sum.split) (metis fst_conv)

lemma not_cancelled_thenp [uncancelled_rules]: "not_cancelled p \<Longrightarrow> not_cancelled q \<Longrightarrow> not_cancelled (thenp p q)"
  unfolding thenp_def by (rule not_cancelled_seqp)

lemma not_cancelled_catchp [uncancelled_rules]: "(\<And>e. not_cancelled (h e)) \<Longrightarrow> not_cancelled (catchp p h)"
  by (auto simp: not_cancelled_def catchp_def split: prod.split sum.split)

lemma not_cancelled_basic [uncancelled_rules]:
  "not_cancelled (ret v)" "not_cancelled (getp g)" "not_cancelled (emit x)" "not_cancelled (set_frame h)"
  "e \<noteq> Cancelled_Exn \<Longrightarrow> not_cancelled (throw e)" "(\<And>n. k n \<noteq> Inl Cancelled_Exn) \<Longrightarrow> not_cancelled (ask k)"
  "(b \<Longrightarrow> not_cancelled p) \<Longrightarrow> not_cancelled (whenp b p)"
  "(b \<Longrightarrow> not_cancelled q) \<Longrightarrow> (\<not> b \<Longrightarrow> not_cancelled q') \<Longrightarrow> not_cancelled (if b then q else q')"
  "(o' = None \<Longrightarrow> not_cancelled r) \<Longrightarrow> (\<And>x. o' = Some x \<Longrightarrow> not_cancelled (r' x))
    \<Longrightarrow> not_cancelled (case o' of None \<Rightarrow> r | Some x \<Rightarrow> r' x)"
  by (auto simp: not_cancelled_def ret_def getp_def emit_def set_frame_def throw_def ask_def whenp_def split: option.split)

lemma not_cancelled_begin_readiness [uncancelled_rules]: "not_cancelled (begin_readiness p)"
proof -
  have "map_sum (\<lambda>_. Other_Exn None) id x \<noteq> Inl Cancelled_Exn" for x :: "readiness_ticket outcome"
    by (cases x) simp_all
  then show ?thesis by (simp add: not_cancelled_def begin_readiness_def split: prod.split)
qed

lemma not_cancelled_state [uncancelled_rules]:
  "not_cancelled (notify_readiness t r)" "not_cancelled (finish_readiness t)"
  "not_cancelled (begin_startup_attempt ev p version)" "not_cancelled (end_startup_attempt p a)"
  "not_cancelled (audit_rejection ev actor action profile code detail)"
  "not_cancelled (require_profile ev p)" "not_cancelled (require_operation ev q op actor)" "not_cancelled (assert_lease ev)"
  by (auto simp: not_cancelled_def notify_readiness_def finish_readiness_def begin_startup_attempt_def
      end_startup_attempt_def audit_rejection_def require_profile_def require_operation_def assert_lease_def report_lost_def lease_lost_def
      ctl_exn_def thenp_def seqp_def ask_def emit_def throw_def ret_def Let_def split: prod.split option.split sum.split)

lemma not_cancelled_transaction:
  assumes "uncancelled ev" "\<And>clock new_id db. fst (body clock new_id db) \<noteq> Inl Cancelled_Exn"
  shows "not_cancelled (transaction ev body)"
proof -
  have "fst (transaction ev body w) \<noteq> Inl Cancelled_Exn" for w
    using assms(1) assms(2) [of "env_clock ev (w_time w)" "env_uuid ev (w_time w)" "w_db w"]
    by (auto simp: transaction_def uncancelled_def Let_def split: option.split prod.split)
  then show ?thesis by (simp add: not_cancelled_def)
qed

lemma not_cancelled_transactions [uncancelled_rules]:
  "uncancelled ev \<Longrightarrow> not_cancelled (open_job ev actor action profile)"
  "uncancelled ev \<Longrightarrow> not_cancelled (finish ev job actor action profile failure detail)"
  "uncancelled ev \<Longrightarrow> not_cancelled (write_event ev profile event message)"
  "uncancelled ev \<Longrightarrow> not_cancelled (record_audit ev actor action profile result code detail)"
  unfolding open_job_def finish_def write_event_def record_audit_def
  by (rule not_cancelled_transaction; auto split: sum.split)+

lemma not_cancelled_await [uncancelled_rules]:
  "uncancelled ev \<Longrightarrow> (\<And>n. work n \<noteq> Inl Cancelled_Exn) \<Longrightarrow> not_cancelled (await_lease ev renewal drain work)"
  by (auto simp: not_cancelled_def await_lease_def uncancelled_def report_lost_def lease_lost_def ctl_exn_def thenp_def seqp_def ask_def
      emit_def throw_def ret_def split: sum.split)

lemma not_cancelled_leased [uncancelled_rules]:
  "uncancelled ev \<Longrightarrow> not_cancelled (call_adapter ev renewal op p)"
  "uncancelled ev \<Longrightarrow> not_cancelled (wait_for_free_slot ev p)"
  "uncancelled ev \<Longrightarrow> not_cancelled (probe_start_health ev p)"
  "uncancelled ev \<Longrightarrow> not_cancelled (installed_version_hint ev)"
  unfolding call_adapter_def wait_for_free_slot_def probe_start_health_def installed_version_hint_def ctl_exn_def
  by (intro uncancelled_rules; simp add: uncancelled_def)+

lemma not_cancelled_estimate [uncancelled_rules]: "uncancelled ev \<Longrightarrow> not_cancelled (record_startup_estimate ev p a)"
  by (auto simp: not_cancelled_def record_startup_estimate_def uncancelled_def ret_def Let_def split: option.split)

lemma not_cancelled_ask_seq: "(\<And>n. not_cancelled (f (g n))) \<Longrightarrow> not_cancelled (seqp (ask (\<lambda>n. Inr (g n))) f)"
  by (simp add: not_cancelled_def seqp_def ask_def)

lemma not_cancelled_reserve [uncancelled_rules]:
  assumes "uncancelled ev"
  shows "not_cancelled (reserve_lease ev p operation lease_id actor)"
proof -
  have "not_cancelled (reserve_answered ev p operation actor l (env_reserve ev n))" for l n
    using assms
    by (cases "env_reserve ev n")
      (auto simp: reserve_answered_def uncancelled_def slot_reserved_def ctl_exn_def intro!: uncancelled_rules assms dest: spec [of _ n])
  then show ?thesis unfolding reserve_lease_def by (intro not_cancelled_ask_seq uncancelled_rules)
qed

section \<open>Leases held\<close>

definition held_step :: "lease set \<Rightarrow> effect \<Rightarrow> lease set" where
  "held_step H e = (case e of
     Eff_Reserved l \<Rightarrow> insert l H | Eff_Released l \<Rightarrow> H - {l} | Eff_Transferred a b \<Rightarrow> insert b (H - {a}) | _ \<Rightarrow> H)"

text \<open>The leases reserved and neither given back nor transferred, by the trace.\<close>

abbreviation held :: "world \<Rightarrow> lease set" where
  "held \<equiv> monitored held_step {}"

lemma ignored_held [simp]:
  "ignored held_step (Eff_Db c)" "ignored held_step Eff_Lost" "ignored held_step (Eff_Free p b)"
  "ignored held_step (Eff_Ready p b)" "ignored held_step (Eff_Adapter op p)" "ignored held_step (Eff_Returned op p)" "ignored held_step (Eff_Preflight p x)"
  "ignored held_step (Eff_Backup p)" "ignored held_step (Eff_Work m p)" "ignored held_step (Eff_Latency m p b)"
  by (simp_all add: ignored_def held_step_def)

lemma held_step_simps [simp]:
  "held_step H (Eff_Reserved l) = insert l H" "held_step H (Eff_Released l) = H - {l}"
  "held_step H (Eff_Transferred a b) = insert b (H - {a})"
  by (simp_all add: held_step_def)

lemma clear_held:
  "hoare (\<lambda>w. held w = H \<and> w_frame w = f) (clear_reservation ev l)
     (\<lambda>_ w. held w = (if env_store ev then H - {l} else H) \<and> w_frame w = f)
     (\<lambda>_ w. held w = (if env_store ev then H - {l} else H) \<and> w_frame w = f)"
  unfolding clear_reservation_def thenp_def
  by (auto simp: hoare_def seqp_def emit_def ask_def ret_def raise_opt_def split: sum.split option.split)

lemma answered_held:
  assumes "env_store ev" "fst l = prof_id p"
  shows "hoare (\<lambda>w. held w = {} \<and> w_frame w = f) (reserve_answered ev p operation actor l answer)
     (\<lambda>l w. held w = {l} \<and> w_frame w = f \<and> fst l = prof_id p) (\<lambda>_ w. held w = {} \<and> w_frame w = f)"
proof (cases answer)
  case Granted
  with assms(2) show ?thesis
    by (auto simp: reserve_answered_def intro!: hoare_thenp [where R = "\<lambda>w. held w = {l} \<and> w_frame w = f"] hoare_emit hoare_ret)
next
  case (Refused e)
  have "hoare (\<lambda>w. held w = {} \<and> w_frame w = f)
      (thenp (write_event ev (Some (prof_id p)) ''slot_conflict'' ''game slot is unavailable'')
      (thenp (record_audit ev actor operation (Some (prof_id p)) ''rejected'' (Some SLOT_CONFLICT) ''game slot is reserved'')
      (throw slot_reserved)))
      (\<lambda>l w. held w = {l} \<and> w_frame w = f \<and> fst l = prof_id p) (\<lambda>_ w. held w = {} \<and> w_frame w = f)"
    by (intro hoare_ignored_then [where P = "\<lambda>H g. H = {} \<and> g = f"] hoare_throw emits) simp_all
  with Refused show ?thesis by (simp add: reserve_answered_def hoare_throw)
next
  case Granted_Then_Cancelled
  have "hoare (\<lambda>w. held w = {l} \<and> w_frame w = f) (thenp (swallow (clear_reservation ev l)) (throw Cancelled_Exn))
      (\<lambda>l w. held w = {l} \<and> w_frame w = f \<and> fst l = prof_id p) (\<lambda>_ w. held w = {} \<and> w_frame w = f)"
    unfolding swallow_def
    by (rule hoare_thenp, rule hoare_catchp, rule clear_held, rule hoare_ret, assumption, rule hoare_throw) (simp add: assms(1))
  with Granted_Then_Cancelled show ?thesis
    by (auto simp: reserve_answered_def intro!: hoare_thenp [where R = "\<lambda>w. held w = {l} \<and> w_frame w = f"] hoare_emit)
qed (simp add: reserve_answered_def hoare_throw)

lemma reserve_held:
  "hoare (\<lambda>w. held w = {} \<and> w_frame w = f) (reserve_lease ev p operation lease_id actor)
     (\<lambda>l w. held w = (if env_store ev then {l} else {}) \<and> w_frame w = f \<and> fst l = prof_id p)
     (\<lambda>_ w. held w = {} \<and> w_frame w = f)"
  unfolding reserve_lease_def
proof (rule hoare_seqp [OF hoare_getp], rule hoare_pure)
  fix l :: lease
  let ?I = "\<lambda>w. held w = {} \<and> w_frame w = f"
  assume l: "fst l = prof_id p"
  have "hoare ?I (seqp (ask (\<lambda>n. Inr (env_reserve ev n))) (reserve_answered ev p operation actor l))
      (\<lambda>l w. held w = {l} \<and> w_frame w = f \<and> fst l = prof_id p) (\<lambda>_. ?I)" if "env_store ev"
    by (rule hoare_seqp [where R = "\<lambda>_. ?I"]) (auto intro!: hoare_ask answered_held that l)
  then show "hoare (\<lambda>w. (held w = {} \<and> w_frame w = f) \<and> l = (prof_id p, lease_id, current_generation (w_db w)))
      (if \<not> env_store ev then ret l else seqp (ask (\<lambda>n. Inr (env_reserve ev n))) (reserve_answered ev p operation actor l))
      (\<lambda>l w. held w = (if env_store ev then {l} else {}) \<and> w_frame w = f \<and> fst l = prof_id p) (\<lambda>_. ?I)"
    using l by (auto intro!: hoare_ret elim!: hoare_pre)
qed simp

text \<open>A reservation as the first step of a longer program.\<close>

lemma hoare_reserve:
  assumes "\<And>l. fst l = prof_id p \<Longrightarrow> hoare (\<lambda>w. held w = (if env_store ev then {l} else {}) \<and> w_frame w = f) (g l) Q E"
    "\<And>e w. held w = {} \<Longrightarrow> w_frame w = f \<Longrightarrow> E e w"
  shows "hoare (\<lambda>w. held w = {} \<and> w_frame w = f) (seqp (reserve_lease ev p operation lease_id actor) g) Q E"
proof (rule hoare_seqp)
  show "hoare (\<lambda>w. held w = {} \<and> w_frame w = f) (reserve_lease ev p operation lease_id actor)
     (\<lambda>l w. held w = (if env_store ev then {l} else {}) \<and> w_frame w = f \<and> fst l = prof_id p) E"
    by (rule hoare_conseq [OF reserve_held [of f]]) (simp_all add: assms(2))
  show "hoare (\<lambda>w. held w = (if env_store ev then {l} else {}) \<and> w_frame w = f \<and> fst l = prof_id p) (g l) Q E" for l
    by (rule hoare_pure [where \<phi> = "fst l = prof_id p"], simp, rule hoare_pre [OF assms(1)]) auto
qed

lemma release_held:
  "hoare (\<lambda>w. held w = H \<and> w_frame w = f) (release_lease ev primary l renewal)
     (\<lambda>_ w. held w = (if env_store ev then H - set_option l else H) \<and> w_frame w = f)
     (\<lambda>_ w. held w = (if env_store ev then H - set_option l else H) \<and> w_frame w = f)"
proof -
  let ?R = "\<lambda>w. held w = (if env_store ev then H - set_option l else H) \<and> w_frame w = f"
  have drain: "hoare (\<lambda>w. held w = H \<and> w_frame w = f) (if renewal then ask (\<lambda>n. Inr (env_drain ev n)) else ret None)
      (\<lambda>_ w. held w = H \<and> w_frame w = f) (\<lambda>_. ?R)"
    by (auto intro!: hoare_ret hoare_ask)
  have clear: "hoare (\<lambda>w. held w = H \<and> w_frame w = f) (case l of None \<Rightarrow> ret None | Some x \<Rightarrow> attempt (clear_reservation ev x))
      (\<lambda>_. ?R) (\<lambda>_. ?R)"
  proof (cases l)
    case (Some x)
    have "hoare (\<lambda>w. held w = H \<and> w_frame w = f) (attempt (clear_reservation ev x)) (\<lambda>_. ?R) (\<lambda>_. ?R)"
      unfolding attempt_def
      by (rule hoare_catchp, rule hoare_thenp, rule clear_held, rule hoare_ret) (auto simp: Some intro!: hoare_ret)
    with Some show ?thesis by simp
  qed (auto intro!: hoare_ret)
  show ?thesis
    unfolding release_lease_def
    by (rule hoare_seqp [OF drain], rule hoare_seqp [OF clear])
      (auto intro!: hoare_if hoare_option hoare_ret hoare_throw)
qed

text \<open>The held leases are among the given ones; without a store none is held.\<close>

definition backed :: "ctl_env \<Rightarrow> lease set \<Rightarrow> lease set \<Rightarrow> bool" where
  "backed ev A H \<longleftrightarrow> (if env_store ev then H \<subseteq> A else H = {})"

lemma release_backed:
  "hoare (\<lambda>w. backed ev A (held w)) (release_lease ev primary l renewal)
     (\<lambda>_ w. backed ev (A - set_option l) (held w)) (\<lambda>_ w. backed ev (A - set_option l) (held w))"
  unfolding hoare_def
proof (intro allI impI)
  fix w assume "backed ev A (held w)"
  then show "case release_lease ev primary l renewal w of (Inl e, w') \<Rightarrow> backed ev (A - set_option l) (held w')
      | (Inr v, w') \<Rightarrow> backed ev (A - set_option l) (held w')"
    using hoareD [OF release_held [of "held w" "w_frame w" ev primary l renewal], of w]
    by (auto simp: backed_def split: prod.splits sum.splits)
qed

lemma backed_mono: "backed ev A H \<Longrightarrow> A \<subseteq> B \<Longrightarrow> backed ev B H"
  unfolding backed_def by (metis order_trans)

lemma backed_nothing [simp]: "backed ev A {}"
  by (simp add: backed_def)

lemma backed_empty [simp]: "backed ev {} H \<longleftrightarrow> H = {}"
  by (simp add: backed_def)

lemma release_primary_quiet: "never_raises (release_lease ev True l renewal)"
  by (auto simp: never_raises_def release_lease_def attempt_def seqp_def thenp_def catchp_def ret_def ask_def
      split: prod.split sum.split option.split)

lemma hoare_frame_cases: "(\<And>f. hoare (\<lambda>w. P w \<and> w_frame w = f) p Q E) \<Longrightarrow> hoare P p Q E"
  by (simp add: hoare_def)

end
