(* ===== verification/Lifecycle.thy ===== *)
theory Lifecycle
  imports Handler
begin

text \<open>
  The lifecycle handlers of \<^verbatim>\<open>src/game_control/controller.py\<close>: start with its cleanup, stop and force stop behind a
  fence, restart, console command, and the confirmed switch between two profiles with its rollback.  Each is a
  program of \<open>Handler\<close>, clause by clause as in the source.

  Details attached to a failure for display (\<^verbatim>\<open>SafeDetails\<close>) are left out.
\<close>

section \<open>Start\<close>

record job_accepted =
  ja_job :: string
  ja_readiness :: "(int \<times> readiness_outcome) option"

definition benchmark_active :: "ctl_db \<Rightarrow> bool" where
  "benchmark_active db \<longleftrightarrow> list_ex (\<lambda>j. job_operation j = ''benchmark'' \<and> active_job j) (db_jobs db)"

text \<open>Best effort: the result never replaces the failure of the start.\<close>

definition cleanup_failed_start :: "ctl_env \<Rightarrow> profile \<Rightarrow> unit prog" where
  "cleanup_failed_start ev p =
     seqp (catchp (thenp (assert_lease ev) (thenp (call_adapter ev True Adapter_Force_Stop p) (ret True)))
             (\<lambda>e. if e = Cancelled_Exn then throw e else ret False)) (\<lambda>ok.
     catchp (if ok
             then write_event ev (Some (prof_id p)) ''start_cleanup_succeeded''
                    ''Horizon stopped the process left by a failed start.''
             else write_event ev (Some (prof_id p)) ''start_cleanup_failed''
                    ''Failed start left a process that Horizon could not stop automatically.'')
       (\<lambda>e. if e = Cancelled_Exn then throw e else ret ()))"

definition start_body :: "ctl_env \<Rightarrow> profile \<Rightarrow> string \<Rightarrow> string \<Rightarrow> job_accepted prog" where
  "start_body ev p actor request_id =
     (let pid = prof_id p in
      seqp (reserve_lease ev p ''start'' request_id actor) (\<lambda>l.
      thenp (set_frame (\<lambda>f. f\<lparr>fr_lease := Some l, fr_renewal := True\<rparr>))
      (seqp (open_job ev actor ''start'' (Some pid)) (\<lambda>job.
      thenp (set_frame (\<lambda>f. f\<lparr>fr_job := Some job\<rparr>))
      (seqp (wait_for_free_slot ev p) (\<lambda>free.
      thenp (whenp (\<not> free) (throw (ctl_exn SLOT_CONFLICT ''slot is occupied'')))
      (seqp (begin_readiness pid) (\<lambda>ticket.
      thenp (set_frame (\<lambda>f. f\<lparr>fr_ticket := Some ticket, fr_attempted := True\<rparr>))
      (seqp (installed_version_hint ev) (\<lambda>version.
      seqp (begin_startup_attempt ev pid version) (\<lambda>a.
      thenp (set_frame (\<lambda>f. f\<lparr>fr_attempt := Some a\<rparr>))
      (thenp (call_adapter ev True Adapter_Start p)
      (thenp (assert_lease ev)
      (seqp (probe_start_health ev p) (\<lambda>ready.
      thenp (whenp (\<not> ready) (throw (Other_Exn None)))
      (thenp (finish ev job actor ''start'' (Some pid) None [])
      (thenp (set_frame (\<lambda>f. f\<lparr>fr_success := True\<rparr>))
      (thenp (record_startup_estimate ev pid (Some a))
      (thenp (notify_readiness (Some ticket) Ready_SUCCESS)
      (ret \<lparr>ja_job = job, ja_readiness = Some (tk_generation ticket, Ready_SUCCESS)\<rparr>))))))))))))))))))))"

text \<open>The code and the detail a failed handler reports.\<close>

definition exn_code :: "error_code \<Rightarrow> exn \<Rightarrow> error_code" where
  "exn_code otherwise e = (case e of Ctl_Exn f \<Rightarrow> cf_code f | _ \<Rightarrow> otherwise)"

definition exn_detail :: "string \<Rightarrow> exn \<Rightarrow> string" where
  "exn_detail otherwise e = (case e of Ctl_Exn f \<Rightarrow> cf_message f | _ \<Rightarrow> otherwise)"

definition finish_opened :: "ctl_env \<Rightarrow> string option \<Rightarrow> string \<Rightarrow> string \<Rightarrow> profile_id \<Rightarrow> error_code \<Rightarrow> string \<Rightarrow> unit prog" where
  "finish_opened ev job actor action p code detail =
     (case job of None \<Rightarrow> ret () | Some j \<Rightarrow> finish ev j actor action (Some p) (Some code) detail)"

definition start_failed :: "ctl_env \<Rightarrow> profile \<Rightarrow> string \<Rightarrow> exn \<Rightarrow> job_accepted prog" where
  "start_failed ev p actor e =
     (if e = Cancelled_Exn then throw e
      else seqp (getp w_frame) (\<lambda>f.
        thenp (whenp (fr_attempted f) (cleanup_failed_start ev p))
        (thenp (notify_readiness (fr_ticket f) (if e = Timeout_Exn then Ready_TIMEOUT else Ready_FAILURE))
        (if e = Timeout_Exn
         then thenp (finish_opened ev (fr_job f) actor ''start'' (prof_id p) START_TIMEOUT ''start timed out'')
                (throw (retryable_exn START_TIMEOUT ''start timed out''))
         else let code = exn_code HEALTH_FAILED e; detail = exn_detail ''start failed'' e
              in thenp (finish_opened ev (fr_job f) actor ''start'' (prof_id p) code detail)
                   (throw (Ctl_Exn (ctl_fail code detail (code = HEALTH_FAILED))))))))"

definition start_finally :: "ctl_env \<Rightarrow> profile_id \<Rightarrow> bool \<Rightarrow> unit prog" where
  "start_finally ev p primary =
     seqp (getp w_frame) (\<lambda>f.
     thenp (finish_readiness (fr_ticket f))
     (thenp (end_startup_attempt p (fr_attempt f))
     (thenp (emit (Eff_Latency ''wake_duration'' p (fr_success f)))
     (release_lease ev primary (fr_lease f) (fr_renewal f)))))"

definition start :: "ctl_env \<Rightarrow> profile_id \<Rightarrow> string \<Rightarrow> string \<Rightarrow> job_accepted prog" where
  "start ev profile_id actor request_id = in_frame (
     seqp (require_profile ev profile_id) (\<lambda>p.
     thenp (require_operation ev p Op_START actor)
     (seqp (getp (\<lambda>w. benchmark_active (w_db w))) (\<lambda>busy.
     if busy
     then thenp (audit_rejection ev actor ''start'' (Some (prof_id p)) INVALID_STATE ''benchmark owns the idle game slot'')
            (throw (retryable_exn INVALID_STATE ''a benchmark is using the idle game slot''))
     else finallyp (catchp (start_body ev p actor request_id) (start_failed ev p actor)) (start_finally ev (prof_id p))))))"

section \<open>Stop\<close>

definition preflight_error :: "string \<Rightarrow> exn" where
  "preflight_error message = ctl_exn SLOT_CONFLICT message"

text \<open>The evidence a stop needs; \<open>None\<close> when it suffices.\<close>

definition stop_evidence :: "profile_id \<Rightarrow> bool \<Rightarrow> profile_status \<Rightarrow> exn option" where
  "stop_evidence p allow_players current =
     (if ps_state current \<noteq> RUNNING then Some (preflight_error ''stop preflight profile is not running'')
      else if ps_slot_owner current \<noteq> Some (profile_value p) then Some (preflight_error ''stop preflight slot owner changed'')
      else if ps_active_job_id current \<noteq> None then Some (preflight_error ''stop preflight found an active job'')
      else if \<not> allow_players \<and> ps_players_online current \<noteq> Some 0
      then Some (preflight_error ''stop preflight found active players'')
      else if \<not> allow_players \<and> \<not> ps_required_ports_ready current
      then Some (preflight_error ''stop preflight listener is not ready'')
      else None)"

definition stop_status_unavailable :: exn where
  "stop_status_unavailable = retryable_exn HEALTH_FAILED ''stop preflight status unavailable''"

definition fresh_stop_preflight :: "ctl_env \<Rightarrow> profile \<Rightarrow> bool \<Rightarrow> unit prog" where
  "fresh_stop_preflight ev p allow_players =
     seqp (ask (env_status ev)) (\<lambda>fresh.
     case fresh of
       None \<Rightarrow> throw stop_status_unavailable
     | Some sn \<Rightarrow>
         (case find (\<lambda>s. ps_profile_id s = prof_id p) (sn_profiles sn) of
            None \<Rightarrow> throw (preflight_error ''stop preflight profile is not observed'')
          | Some current \<Rightarrow>
              (case stop_evidence (prof_id p) allow_players current of
                 Some e \<Rightarrow> throw e
               | None \<Rightarrow>
                   thenp (if \<not> env_inspector ev then ret ()
                          else seqp (ask (env_observe ev)) (\<lambda>observed.
                            case observed of
                              None \<Rightarrow> throw (preflight_error ''stop preflight slot ownership changed'')
                            | Some ob \<Rightarrow>
                                whenp (obs_inconsistent ob \<or> obs_owner ob \<noteq> Some (profile_value (prof_id p)))
                                  (throw (preflight_error ''stop preflight slot ownership changed''))))
                     (emit (Eff_Preflight (prof_id p) current)))))"

definition acquire_stop_fence :: "ctl_env \<Rightarrow> profile \<Rightarrow> string \<Rightarrow> string \<Rightarrow> bool \<Rightarrow> (lease option \<times> bool) prog" where
  "acquire_stop_fence ev p actor request_id allow_players =
     (if \<not> env_store ev then ret (None, False)
      else seqp (reserve_lease ev p ''stop'' request_id actor) (\<lambda>l.
        catchp (thenp (assert_lease ev)
               (thenp (fresh_stop_preflight ev p allow_players)
               (thenp (assert_lease ev)
               (ret (Some l, True)))))
          (\<lambda>e. thenp (release_lease ev True (Some l) True) (throw e))))"

definition stop_body :: "ctl_env \<Rightarrow> profile \<Rightarrow> string \<Rightarrow> string \<Rightarrow> bool \<Rightarrow> bool \<Rightarrow> job_accepted prog" where
  "stop_body ev p actor request_id force allow_players =
     (let operation = (if force then ''force_stop'' else ''stop''); pid = prof_id p in
      seqp (acquire_stop_fence ev p actor request_id allow_players) (\<lambda>(l, renewal).
      thenp (set_frame (\<lambda>f. f\<lparr>fr_lease := l, fr_renewal := renewal\<rparr>))
      (seqp (open_job ev actor operation (Some pid)) (\<lambda>job.
      thenp (set_frame (\<lambda>f. f\<lparr>fr_job := Some job\<rparr>))
      (thenp (call_adapter ev renewal (if force then Adapter_Force_Stop else Adapter_Graceful_Stop) p)
      (thenp (finish ev job actor operation (Some pid) None [])
      (thenp (set_frame (\<lambda>f. f\<lparr>fr_success := True\<rparr>))
      (ret \<lparr>ja_job = job, ja_readiness = None\<rparr>))))))))"

definition stop_failed :: "ctl_env \<Rightarrow> profile \<Rightarrow> string \<Rightarrow> bool \<Rightarrow> exn \<Rightarrow> job_accepted prog" where
  "stop_failed ev p actor force e =
     (let operation = (if force then ''force_stop'' else ''stop'') in
      if e = Cancelled_Exn then throw e
      else seqp (getp w_frame) (\<lambda>f.
        if e = Timeout_Exn
        then thenp (finish_opened ev (fr_job f) actor operation (prof_id p) GRACE_TIMEOUT ''graceful stop timed out'')
               (throw (ctl_exn GRACE_TIMEOUT ''graceful stop timed out''))
        else let detail = exn_detail (if force then ''force stop failed'' else ''stop failed'') e
             in thenp (finish_opened ev (fr_job f) actor operation (prof_id p) (exn_code INTERNAL_ERROR e) detail)
                  (throw (case e of Ctl_Exn x \<Rightarrow> e | _ \<Rightarrow> ctl_exn INTERNAL_ERROR detail))))"

definition stop_finally :: "ctl_env \<Rightarrow> profile_id \<Rightarrow> bool \<Rightarrow> unit prog" where
  "stop_finally ev p primary =
     seqp (getp w_frame) (\<lambda>f.
     thenp (emit (Eff_Latency ''stop_duration'' p (fr_success f)))
     (release_lease ev primary (fr_lease f) (fr_renewal f)))"

definition stop_with_fence :: "ctl_env \<Rightarrow> profile \<Rightarrow> string \<Rightarrow> string \<Rightarrow> bool \<Rightarrow> bool \<Rightarrow> job_accepted prog" where
  "stop_with_fence ev p actor request_id force allow_players = in_frame (
     finallyp (catchp (stop_body ev p actor request_id force allow_players) (stop_failed ev p actor force))
       (stop_finally ev (prof_id p)))"

definition stop :: "ctl_env \<Rightarrow> profile_id \<Rightarrow> string \<Rightarrow> string \<Rightarrow> job_accepted prog" where
  "stop ev profile_id actor request_id =
     seqp (require_profile ev profile_id) (\<lambda>p.
     thenp (require_operation ev p Op_STOP actor)
     (stop_with_fence ev p actor request_id False False))"

definition restart :: "ctl_env \<Rightarrow> profile_id \<Rightarrow> string \<Rightarrow> string \<Rightarrow> job_accepted prog" where
  "restart ev profile_id actor request_id =
     thenp (stop ev profile_id actor request_id) (start ev profile_id actor request_id)"

definition prepare_force_stop :: "ctl_env \<Rightarrow> profile_id \<Rightarrow> string \<Rightarrow> (string \<times> instant \<times> int) prog" where
  "prepare_force_stop ev profile_id actor =
     seqp (require_profile ev profile_id) (\<lambda>p.
     thenp (require_operation ev p Op_FORCE_STOP actor)
     (prepare_confirmation ev actor ''force_stop'' profile_id []))"

text \<open>\<^verbatim>\<open>ProfileId(payload[key])\<close>.\<close>

definition payload_profile :: "(string \<times> json) list \<Rightarrow> string \<Rightarrow> profile_id prog" where
  "payload_profile payload key =
     (case map_of payload key \<bind> as_str \<bind> profile_of_value of None \<Rightarrow> throw (Other_Exn None) | Some p \<Rightarrow> ret p)"

definition confirm_force_stop :: "ctl_env \<Rightarrow> string \<Rightarrow> string \<Rightarrow> string \<Rightarrow> job_accepted prog" where
  "confirm_force_stop ev confirmation_id actor request_id =
     seqp (redeem_confirmation ev actor ''force_stop'' confirmation_id) (\<lambda>payload.
     seqp (payload_profile payload ''profile_id'') (\<lambda>profile_id.
     seqp (require_profile ev profile_id) (\<lambda>p.
     thenp (require_operation ev p Op_FORCE_STOP actor)
     (stop_with_fence ev p actor request_id True True))))"

section \<open>Console command\<close>

datatype provenance = Service | Web_Human

definition command_failed :: "ctl_env \<Rightarrow> profile_id \<Rightarrow> string \<Rightarrow> string \<Rightarrow> exn \<Rightarrow> unit prog" where
  "command_failed ev p actor job e =
     (case e of
        Cancelled_Exn \<Rightarrow> throw e
      | Adapter_Exn retryable returncode \<Rightarrow>
          (let code = (if retryable then UPSTREAM_UNAVAILABLE else INVALID_REQUEST);
               detail = (if retryable then ''command transport failed'' else ''command unsupported'')
           in thenp (finish ev job actor ''command'' (Some p) (Some code) detail)
                (throw (Ctl_Exn (ctl_fail code detail retryable))))
      | _ \<Rightarrow> thenp (finish ev job actor ''command'' (Some p) (Some INTERNAL_ERROR) ''command failed'')
              (throw (ctl_exn INTERNAL_ERROR ''command failed'')))"

definition command :: "ctl_env \<Rightarrow> profile_id \<Rightarrow> string \<Rightarrow> string \<Rightarrow> provenance \<Rightarrow> job_accepted prog" where
  "command ev profile_id text actor provenance =
     seqp (require_profile ev profile_id) (\<lambda>p.
     thenp (require_operation ev p Op_COMMAND actor)
     (if prof_id p = MINECRAFT_SUNLIT_COBBLEMON \<and> provenance \<noteq> Web_Human
      then thenp (audit_rejection ev actor ''command'' (Some (prof_id p)) INVALID_REQUEST ''authenticated browser command required'')
             (throw (ctl_exn INVALID_REQUEST ''authenticated browser command required''))
      else seqp (open_job ev actor ''command'' (Some (prof_id p))) (\<lambda>job.
        thenp (catchp (call_adapter ev False (Adapter_Command text) p) (command_failed ev (prof_id p) actor job))
        (thenp (finish ev job actor ''command'' (Some (prof_id p)) None [])
        (ret \<lparr>ja_job = job, ja_readiness = None\<rparr>)))))"

section \<open>Switch\<close>

definition exit_code :: "exn \<Rightarrow> int option" where
  "exit_code e = (case e of Adapter_Exn r c \<Rightarrow> c | Other_Exn c \<Rightarrow> c | _ \<Rightarrow> None)"

text \<open>A start that reports exit code 75 found the slot lock taken; it is tried once more when the slot is free.\<close>

definition start_with_free_retry :: "ctl_env \<Rightarrow> profile \<Rightarrow> unit prog" where
  "start_with_free_retry ev p =
     catchp (call_adapter ev True Adapter_Start p) (\<lambda>e.
       if e = Cancelled_Exn \<or> exit_code e \<noteq> Some 75 then throw e
       else seqp (wait_for_free_slot ev p) (\<lambda>free.
         thenp (whenp (\<not> free) (throw (ctl_exn SLOT_CONFLICT ''slot did not become free'')))
         (call_adapter ev True Adapter_Start p)))"

definition payload_flag :: "(string \<times> json) list \<Rightarrow> string \<Rightarrow> bool \<Rightarrow> bool" where
  "payload_flag payload key otherwise = (case map_of payload key of None \<Rightarrow> otherwise | Some j \<Rightarrow> truthy j)"

definition prepare_switch :: "ctl_env \<Rightarrow> profile_id \<Rightarrow> profile_id \<Rightarrow> bool \<Rightarrow> bool \<Rightarrow> bool \<Rightarrow> string \<Rightarrow> (string \<times> instant \<times> int) prog" where
  "prepare_switch ev current target create_backup force_after_timeout rollback_on_failure actor =
     (if current = target then throw (ctl_exn INVALID_REQUEST ''profiles must differ'')
      else seqp (require_profile ev current) (\<lambda>source_profile.
        seqp (require_profile ev target) (\<lambda>target_profile.
        thenp (require_operation ev source_profile Op_STOP actor)
        (thenp (require_operation ev target_profile Op_START actor)
        (prepare_confirmation ev actor ''switch'' current
           [(''source_profile_id'', JStr (profile_value current)), (''target_profile_id'', JStr (profile_value target)),
            (''create_backup'', JBool create_backup), (''force_after_timeout'', JBool force_after_timeout),
            (''rollback_on_failure'', JBool rollback_on_failure)])))))"

text \<open>Stopping a profile within the switch: gracefully, by force after a timeout when asked for.\<close>

definition stop_for_switch :: "ctl_env \<Rightarrow> profile \<Rightarrow> bool \<Rightarrow> exn \<Rightarrow> unit prog" where
  "stop_for_switch ev p force_after_timeout timeout_error =
     catchp (call_adapter ev True Adapter_Graceful_Stop p) (\<lambda>e.
       if e \<noteq> Timeout_Exn then throw e
       else if \<not> force_after_timeout then throw timeout_error
       else call_adapter ev True Adapter_Force_Stop p)"

definition switch_backup :: "ctl_env \<Rightarrow> profile \<Rightarrow> unit prog" where
  "switch_backup ev source_profile =
     (if \<not> env_backups ev then throw (ctl_exn BACKUP_FAILED ''backup service unavailable'')
      else thenp (await_lease ev True False (env_backup ev))
        (thenp (emit (Eff_Backup (prof_id source_profile))) (assert_lease ev)))"

definition switch_body :: "ctl_env \<Rightarrow> profile \<Rightarrow> profile \<Rightarrow> (string \<times> json) list \<Rightarrow> string \<Rightarrow> string \<Rightarrow> string \<Rightarrow> job_accepted prog" where
  "switch_body ev source_profile target_profile payload actor confirmation_id job =
     (let target = prof_id target_profile in
      seqp (reserve_lease ev target_profile ''switch'' confirmation_id actor) (\<lambda>l.
      thenp (set_frame (\<lambda>f. f\<lparr>fr_lease := Some l, fr_renewal := True\<rparr>))
      (thenp (stop_for_switch ev source_profile (payload_flag payload ''force_after_timeout'' False)
                (ctl_exn GRACE_TIMEOUT ''graceful stop timed out''))
      (thenp (assert_lease ev)
      (seqp (wait_for_free_slot ev source_profile) (\<lambda>free.
      thenp (whenp (\<not> free) (throw (ctl_exn SLOT_CONFLICT ''slot did not become free'')))
      (thenp (assert_lease ev)
      (thenp (whenp (payload_flag payload ''create_backup'' False) (switch_backup ev source_profile))
      (thenp (set_frame (\<lambda>f. f\<lparr>fr_attempted := True\<rparr>))
      (seqp (installed_version_hint ev) (\<lambda>version.
      seqp (begin_startup_attempt ev target version) (\<lambda>a.
      thenp (set_frame (\<lambda>f. f\<lparr>fr_attempt := Some a\<rparr>))
      (thenp (start_with_free_retry ev target_profile)
      (thenp (assert_lease ev)
      (seqp (probe_start_health ev target_profile) (\<lambda>ready.
      thenp (whenp (\<not> ready) (throw (Other_Exn None)))
      (thenp (finish ev job actor ''switch'' (Some target) None [])
      (thenp (set_frame (\<lambda>f. f\<lparr>fr_success := True\<rparr>))
      (thenp (record_startup_estimate ev target (Some a))
      (ret \<lparr>ja_job = job, ja_readiness = None\<rparr>))))))))))))))))))))"

text \<open>The lease for the rollback: the transferred lease of the switch, or a new one when there is none.\<close>

definition transfer_lease :: "ctl_env \<Rightarrow> lease \<Rightarrow> lease \<Rightarrow> unit prog" where
  "transfer_lease ev l moved =
     seqp (ask (\<lambda>n. Inr (env_transfer ev n))) (\<lambda>answer.
     case answer of
       Not_Moved e \<Rightarrow> throw e
     | Moved_Then_Cancelled \<Rightarrow>
         thenp (emit (Eff_Transferred l moved)) (thenp (swallow (clear_reservation ev moved)) (throw Cancelled_Exn))
     | Moved \<Rightarrow>
         thenp (emit (Eff_Transferred l moved)) (set_frame (\<lambda>f. f\<lparr>fr_rollback_lease := Some moved, fr_lease := None\<rparr>)))"

definition new_rollback_lease :: "ctl_env \<Rightarrow> profile \<Rightarrow> string \<Rightarrow> string \<Rightarrow> unit prog" where
  "new_rollback_lease ev source_profile rollback_id actor =
     seqp (reserve_lease ev source_profile ''rollback'' rollback_id actor) (\<lambda>r.
     set_frame (\<lambda>f. f\<lparr>fr_rollback_lease := Some r\<rparr>))"

definition rollback_lease :: "ctl_env \<Rightarrow> profile \<Rightarrow> string \<Rightarrow> unit prog" where
  "rollback_lease ev source_profile actor =
     seqp (ask (\<lambda>n. Inr (env_uuid ev n))) (\<lambda>rollback_id.
     seqp (getp (fr_lease \<circ> w_frame)) (\<lambda>current.
     case current of
       Some l \<Rightarrow>
         if env_store ev then transfer_lease ev l (prof_id source_profile, rollback_id, snd (snd l))
         else thenp (clear_reservation ev l)
                (thenp (set_frame (\<lambda>f. f\<lparr>fr_lease := None\<rparr>))
                (new_rollback_lease ev source_profile rollback_id actor))
     | None \<Rightarrow> new_rollback_lease ev source_profile rollback_id actor))"

definition rollback_steps :: "ctl_env \<Rightarrow> profile \<Rightarrow> profile \<Rightarrow> (string \<times> json) list \<Rightarrow> string \<Rightarrow> unit prog" where
  "rollback_steps ev source_profile target_profile payload actor =
     seqp (getp (fr_attempted \<circ> w_frame)) (\<lambda>target_started.
     thenp (whenp target_started
              (stop_for_switch ev target_profile (payload_flag payload ''force_after_timeout'' False) Timeout_Exn))
     (thenp (rollback_lease ev source_profile actor)
     (thenp (set_frame (\<lambda>f. f\<lparr>fr_rollback_renewal := True\<rparr>))
     (seqp (wait_for_free_slot ev source_profile) (\<lambda>free.
     thenp (whenp (\<not> free) (throw (Other_Exn None)))
     (thenp (start_with_free_retry ev source_profile)
     (seqp (probe_start_health ev source_profile) (\<lambda>ready.
      whenp (\<not> ready) (throw (Other_Exn None))))))))))"

definition rollback :: "ctl_env \<Rightarrow> profile \<Rightarrow> profile \<Rightarrow> (string \<times> json) list \<Rightarrow> string \<Rightarrow> unit prog" where
  "rollback ev source_profile target_profile payload actor =
     (let source = Some (prof_id source_profile) in
      thenp (write_event ev source ''rollback_attempt'' ''attempting to restore previous profile'')
      (thenp (record_audit ev actor ''rollback'' source ''accepted'' None ''rollback attempt started'')
      (seqp (attempt (rollback_steps ev source_profile target_profile payload actor)) (\<lambda>failed.
      case failed of
        Some Cancelled_Exn \<Rightarrow> throw Cancelled_Exn
      | Some e \<Rightarrow>
          thenp (write_event ev source ''rollback_failed'' ''rollback did not restore the previous profile'')
            (record_audit ev actor ''rollback'' source ''failed'' (Some HEALTH_FAILED) ''rollback failed'')
      | None \<Rightarrow>
          thenp (write_event ev source ''rollback_succeeded'' ''previous profile restored'')
            (record_audit ev actor ''rollback'' source ''succeeded'' None ''rollback completed'')))))"

definition switch_failed :: "ctl_env \<Rightarrow> profile \<Rightarrow> profile \<Rightarrow> (string \<times> json) list \<Rightarrow> string \<Rightarrow> string \<Rightarrow> exn \<Rightarrow> job_accepted prog" where
  "switch_failed ev source_profile target_profile payload actor job e =
     (if e = Cancelled_Exn then throw e
      else thenp (whenp (payload_flag payload ''rollback_on_failure'' True)
               (rollback ev source_profile target_profile payload actor))
        (let code = exn_code HEALTH_FAILED e; detail = exn_detail ''switch failed'' e
         in thenp (finish ev job actor ''switch'' (Some (prof_id target_profile)) (Some code) detail)
              (throw (ctl_exn code detail))))"

definition switch_finally :: "ctl_env \<Rightarrow> profile_id \<Rightarrow> bool \<Rightarrow> unit prog" where
  "switch_finally ev target primary =
     seqp (getp w_frame) (\<lambda>f.
     thenp (end_startup_attempt target (fr_attempt f))
     (thenp (emit (Eff_Latency ''switch_duration'' target (fr_success f)))
     (thenp (release_lease ev primary (fr_lease f) (fr_renewal f))
     (release_lease ev primary (fr_rollback_lease f) (fr_rollback_renewal f)))))"

definition confirm_switch :: "ctl_env \<Rightarrow> string \<Rightarrow> string \<Rightarrow> job_accepted prog" where
  "confirm_switch ev confirmation_id actor = in_frame (
     seqp (redeem_confirmation ev actor ''switch'' confirmation_id) (\<lambda>payload.
     seqp (payload_profile payload ''source_profile_id'') (\<lambda>source.
     seqp (payload_profile payload ''target_profile_id'') (\<lambda>target.
     seqp (require_profile ev source) (\<lambda>source_profile.
     seqp (require_profile ev target) (\<lambda>target_profile.
     seqp (open_job ev actor ''switch'' (Some target)) (\<lambda>job.
     finallyp (catchp (switch_body ev source_profile target_profile payload actor confirmation_id job)
                 (switch_failed ev source_profile target_profile payload actor job))
       (switch_finally ev (prof_id target_profile)))))))))"

section \<open>Requests\<close>

datatype lifecycle_request =
    Req_Start profile_id
  | Req_Stop profile_id
  | Req_Restart profile_id
  | Req_Command profile_id string provenance
  | Req_Confirm_Force_Stop string
  | Req_Confirm_Switch string

fun handle_request :: "ctl_env \<Rightarrow> lifecycle_request \<Rightarrow> string \<Rightarrow> string \<Rightarrow> job_accepted prog" where
  "handle_request ev (Req_Start p) actor request_id = start ev p actor request_id"
| "handle_request ev (Req_Stop p) actor request_id = stop ev p actor request_id"
| "handle_request ev (Req_Restart p) actor request_id = restart ev p actor request_id"
| "handle_request ev (Req_Command p text provenance) actor request_id = command ev p text actor provenance"
| "handle_request ev (Req_Confirm_Force_Stop cid) actor request_id = confirm_force_stop ev cid actor request_id"
| "handle_request ev (Req_Confirm_Switch cid) actor request_id = confirm_switch ev cid actor"

section \<open>Leases are given back\<close>

text \<open>Every held lease is in a local variable that the \<^verbatim>\<open>finally\<close> clause releases: the lease of the handler, and in a
  rollback the one of the rollback.\<close>

definition covered_by :: "ctl_env \<Rightarrow> lease set \<Rightarrow> frame \<Rightarrow> bool" where
  "covered_by ev H f \<longleftrightarrow> backed ev (set_option (fr_lease f)) H \<and> fr_rollback_lease f = None"

definition covered_by_both :: "ctl_env \<Rightarrow> lease set \<Rightarrow> frame \<Rightarrow> bool" where
  "covered_by_both ev H f \<longleftrightarrow> backed ev (set_option (fr_lease f) \<union> set_option (fr_rollback_lease f)) H"

abbreviation covered :: "ctl_env \<Rightarrow> world \<Rightarrow> bool" where
  "covered ev \<equiv> \<lambda>w. covered_by ev (held w) (w_frame w)"

abbreviation covered_both :: "ctl_env \<Rightarrow> world \<Rightarrow> bool" where
  "covered_both ev \<equiv> \<lambda>w. covered_by_both ev (held w) (w_frame w)"

lemma covered_imp_both: "covered_by ev H f \<Longrightarrow> covered_by_both ev H f"
  by (simp add: covered_by_def covered_by_both_def)

text \<open>Operations that do not touch the lease keep every assertion on the held leases.\<close>

lemma held_ops:
  "keeps (\<lambda>w. P (held w) (w_frame w)) (open_job ev actor action profile)"
  "keeps (\<lambda>w. P (held w) (w_frame w)) (finish ev job actor action profile failure detail)"
  "keeps (\<lambda>w. P (held w) (w_frame w)) (write_event ev profile code message)"
  "keeps (\<lambda>w. P (held w) (w_frame w)) (record_audit ev actor action profile result ecode detail)"
  "keeps (\<lambda>w. P (held w) (w_frame w)) (audit_rejection ev actor action profile rcode detail)"
  "keeps (\<lambda>w. P (held w) (w_frame w)) (redeem_confirmation ev actor action cid)"
  "keeps (\<lambda>w. P (held w) (w_frame w)) (require_profile ev pid)"
  "keeps (\<lambda>w. P (held w) (w_frame w)) (require_operation ev p op actor)"
  "keeps (\<lambda>w. P (held w) (w_frame w)) (wait_for_free_slot ev p)"
  "keeps (\<lambda>w. P (held w) (w_frame w)) (probe_start_health ev p)"
  "keeps (\<lambda>w. P (held w) (w_frame w)) (begin_readiness pid)"
  "keeps (\<lambda>w. P (held w) (w_frame w)) (notify_readiness t r)"
  "keeps (\<lambda>w. P (held w) (w_frame w)) (installed_version_hint ev)"
  "keeps (\<lambda>w. P (held w) (w_frame w)) (begin_startup_attempt ev pid version)"
  "keeps (\<lambda>w. P (held w) (w_frame w)) (record_startup_estimate ev pid a)"
  "keeps (\<lambda>w. P (held w) (w_frame w)) (call_adapter ev renewal aop p)"
  "keeps (\<lambda>w. P (held w) (w_frame w)) (await_lease ev renewal drain work)"
  "keeps (\<lambda>w. P (held w) (w_frame w)) (assert_lease ev)"
  "keeps (\<lambda>w. P (held w) (w_frame w)) (emit (Eff_Backup pid))"
  "keeps (\<lambda>w. P (held w) (w_frame w)) (ask f)"
  "keeps (\<lambda>w. P (held w) (w_frame w)) (payload_profile payload key)"
  unfolding payload_profile_def
  by (rule keeps_ignored; intro emits; simp)+

lemma held_finish_opened: "keeps (\<lambda>w. P (held w) (w_frame w)) (finish_opened ev job actor action p code detail)"
  unfolding finish_opened_def by (intro keeps_rules held_ops)

lemmas held_rules = keeps_rules held_ops held_finish_opened

lemma held_set_frame:
  "(\<And>H f. P H f \<Longrightarrow> P H (g f)) \<Longrightarrow> keeps (\<lambda>w. P (held w) (w_frame w)) (set_frame g)"
  by (rule keeps_set_frame) simp

lemma covered_frames:
  "keeps (covered ev) (set_frame (fr_job_update g))" "keeps (covered ev) (set_frame (fr_attempt_update h))"
  "keeps (covered ev) (set_frame (fr_success_update k))" "keeps (covered ev) (set_frame (fr_attempted_update k))"
  "keeps (covered ev) (set_frame (\<lambda>f. f\<lparr>fr_ticket := t, fr_attempted := b\<rparr>))"
  by (rule held_set_frame; simp add: covered_by_def)+

text \<open>Taking a lease into the frame.\<close>

lemma reserve_covered:
  assumes "\<And>l. keeps (covered ev) (q l)"
  shows "hoare (\<lambda>w. held w = {} \<and> w_frame w = empty_frame)
    (seqp (reserve_lease ev p operation lease_id actor)
       (\<lambda>l. thenp (set_frame (\<lambda>f. f\<lparr>fr_lease := Some l, fr_renewal := True\<rparr>)) (q l)))
    (\<lambda>_. covered ev) (\<lambda>_. covered ev)"
proof (rule hoare_reserve)
  show "hoare (\<lambda>w. held w = (if env_store ev then {l} else {}) \<and> w_frame w = empty_frame)
      (thenp (set_frame (\<lambda>f. f\<lparr>fr_lease := Some l, fr_renewal := True\<rparr>)) (q l)) (\<lambda>_. covered ev) (\<lambda>_. covered ev)" for l
    by (rule hoare_thenp [OF hoare_set_frame assms [of l, unfolded keeps_def]])
      (simp add: covered_by_def backed_def empty_frame_def)
qed (simp add: covered_by_def backed_def empty_frame_def)

lemma start_body_covered:
  "hoare (\<lambda>w. held w = {} \<and> w_frame w = empty_frame) (start_body ev p actor rid) (\<lambda>_. covered ev) (\<lambda>_. covered ev)"
  unfolding start_body_def Let_def
  by (rule reserve_covered) (intro held_rules covered_frames)+

lemma start_failed_covered: "keeps (covered ev) (start_failed ev p actor e)"
  unfolding start_failed_def Let_def cleanup_failed_start_def by (intro held_rules)

text \<open>The \<^verbatim>\<open>finally\<close> clauses release the leases of the frame they read.\<close>

lemma release_frame:
  "hoare (\<lambda>w. backed ev (set_option l) (held w)) (release_lease ev primary l renewal) (\<lambda>_ w. held w = {}) (\<lambda>_ w. held w = {})"
  using release_backed [of ev "set_option l" primary l renewal] by simp

lemma start_finally_clears:
  "hoare (covered ev) (start_finally ev pid primary) (\<lambda>_ w. held w = {}) (\<lambda>_ w. held w = {})"
  unfolding start_finally_def
proof (rule hoare_seqp [OF hoare_getp])
  fix f :: frame
  show "hoare (\<lambda>w. covered ev w \<and> f = w_frame w)
    (thenp (finish_readiness (fr_ticket f)) (thenp (end_startup_attempt pid (fr_attempt f))
      (thenp (emit (Eff_Latency ''wake_duration'' pid (fr_success f)))
        (release_lease ev primary (fr_lease f) (fr_renewal f)))))
    (\<lambda>_ w. held w = {}) (\<lambda>_ w. held w = {})"
    by (rule hoare_pre [where P = "\<lambda>w. backed ev (set_option (fr_lease f)) (held w)"],
        intro hoare_quiet_then [where P = "\<lambda>H g. backed ev (set_option (fr_lease f)) H"] emits release_frame)
      (auto simp: covered_by_def)
qed

text \<open>Before its first reservation a handler holds nothing and its local variables are unset.\<close>

definition fresh_by :: "lease set \<Rightarrow> frame \<Rightarrow> bool" where
  "fresh_by H f \<longleftrightarrow> H = {} \<and> f = empty_frame"

abbreviation fresh :: "world \<Rightarrow> bool" where
  "fresh \<equiv> \<lambda>w. fresh_by (held w) (w_frame w)"

lemma fresh_held: "fresh w \<Longrightarrow> held w = {}"
  by (simp add: fresh_by_def)

lemma hoare_fresh_frame:
  "hoare fresh p (\<lambda>_ w. held w = {}) (\<lambda>_ w. held w = {}) \<Longrightarrow> hoare (\<lambda>w. held w = {}) (in_frame p) (\<lambda>_ w. held w = {}) (\<lambda>_ w. held w = {})"
  by (erule hoare_in_frame) (simp_all add: fresh_by_def)

lemma start_clears: "hoare (\<lambda>w. held w = {}) (start ev pid actor rid) (\<lambda>_ w. held w = {}) (\<lambda>_ w. held w = {})"
proof -
  have body: "hoare fresh (finallyp (catchp (start_body ev p actor rid) (start_failed ev p actor)) (start_finally ev (prof_id p)))
      (\<lambda>_ w. held w = {}) (\<lambda>_ w. held w = {})" for p
    unfolding fresh_by_def
    by (rule hoare_finallyp [OF hoare_catchp [OF start_body_covered start_failed_covered [unfolded keeps_def]]])
      (rule start_finally_clears)+
  show ?thesis
    unfolding start_def
    by (intro hoare_fresh_frame hoare_keeps_seq hoare_keeps_then hoare_if held_rules body fresh_held hoare_keeps hoare_throw)
qed

section \<open>Stop\<close>

lemma emits_preflight [emits]:
  "(\<And>x. S (Eff_Preflight (prof_id p) x)) \<Longrightarrow> emits_only S (fresh_stop_preflight ev p allow)"
  unfolding fresh_stop_preflight_def by (intro emits)

lemma fence_held:
  "hoare fresh (acquire_stop_fence ev p actor rid allow)
     (\<lambda>x w. backed ev (set_option (fst x)) (held w) \<and> w_frame w = empty_frame) (\<lambda>_. fresh)"
proof -
  have "hoare (\<lambda>w. held w = {l} \<and> w_frame w = empty_frame)
      (catchp (thenp (assert_lease ev) (thenp (fresh_stop_preflight ev p allow) (thenp (assert_lease ev) (ret (Some l, True)))))
          (\<lambda>e. thenp (release_lease ev True (Some l) True) (throw e)))
      (\<lambda>x w. backed ev (set_option (fst x)) (held w) \<and> w_frame w = empty_frame) (\<lambda>_. fresh)" if "env_store ev" for l
  proof (rule hoare_catchp)
    show "hoare (\<lambda>w. held w = {l} \<and> w_frame w = empty_frame)
      (thenp (assert_lease ev) (thenp (fresh_stop_preflight ev p allow) (thenp (assert_lease ev) (ret (Some l, True)))))
      (\<lambda>x w. backed ev (set_option (fst x)) (held w) \<and> w_frame w = empty_frame) (\<lambda>_ w. held w = {l} \<and> w_frame w = empty_frame)"
      by (intro hoare_ignored_then [where P = "\<lambda>H f. H = {l} \<and> f = empty_frame"] emits hoare_ret)
        (simp_all add: backed_def that)
    show "hoare (\<lambda>w. held w = {l} \<and> w_frame w = empty_frame) (thenp (release_lease ev True (Some l) True) (throw e))
      (\<lambda>x w. backed ev (set_option (fst x)) (held w) \<and> w_frame w = empty_frame) (\<lambda>_. fresh)" for e
      by (rule hoare_thenp [OF hoare_conseq [OF release_held [where H = "{l}" and f = empty_frame]] hoare_throw [where P = fresh]])
        (simp_all add: that fresh_by_def)
  qed
  then show ?thesis
    unfolding acquire_stop_fence_def fresh_by_def
    by (auto intro!: hoare_ret hoare_reserve simp: backed_def)
qed

lemma stop_body_covered: "hoare fresh (stop_body ev p actor rid force allow) (\<lambda>_. covered ev) (\<lambda>_. covered ev)"
proof -
  have fence: "hoare fresh (acquire_stop_fence ev p actor rid allow)
     (\<lambda>x w. backed ev (set_option (fst x)) (held w) \<and> w_frame w = empty_frame) (\<lambda>_. covered ev)"
    by (rule hoare_conseq [OF fence_held]) (simp_all add: fresh_by_def covered_by_def empty_frame_def)
  show ?thesis
    unfolding stop_body_def Let_def case_prod_unfold
    by (rule hoare_seqp [OF fence], rule hoare_thenp [where R = "covered ev", OF hoare_set_frame keepsD])
      (simp add: covered_by_def empty_frame_def, intro held_rules covered_frames)
qed

lemma stop_failed_covered: "keeps (covered ev) (stop_failed ev p actor force e)"
  unfolding stop_failed_def Let_def by (intro held_rules)

lemma stop_finally_clears:
  "hoare (covered ev) (stop_finally ev pid primary) (\<lambda>_ w. held w = {}) (\<lambda>_ w. held w = {})"
  unfolding stop_finally_def
proof (rule hoare_seqp [OF hoare_getp])
  fix f :: frame
  show "hoare (\<lambda>w. covered ev w \<and> f = w_frame w)
    (thenp (emit (Eff_Latency ''stop_duration'' pid (fr_success f))) (release_lease ev primary (fr_lease f) (fr_renewal f)))
    (\<lambda>_ w. held w = {}) (\<lambda>_ w. held w = {})"
    by (rule hoare_pre [where P = "\<lambda>w. backed ev (set_option (fr_lease f)) (held w)"],
        intro hoare_quiet_then [where P = "\<lambda>H g. backed ev (set_option (fr_lease f)) H"] emits release_frame)
      (auto simp: covered_by_def)
qed

lemma fence_clears:
  "hoare (\<lambda>w. held w = {}) (stop_with_fence ev p actor rid force allow) (\<lambda>_ w. held w = {}) (\<lambda>_ w. held w = {})"
  unfolding stop_with_fence_def
  by (rule hoare_fresh_frame, rule hoare_finallyp [OF hoare_catchp [OF stop_body_covered stop_failed_covered [THEN keepsD]]])
    (rule stop_finally_clears)+

lemma empty_ops:
  "keeps (\<lambda>w. held w = {}) (require_profile ev pid)" "keeps (\<lambda>w. held w = {}) (require_operation ev p op actor)"
  "keeps (\<lambda>w. held w = {}) (redeem_confirmation ev actor action cid)" "keeps (\<lambda>w. held w = {}) (payload_profile payload key)"
  "keeps (\<lambda>w. held w = {}) (open_job ev actor action profile)" "keeps (\<lambda>w. held w = {}) (call_adapter ev renewal aop p)"
  "keeps (\<lambda>w. held w = {}) (finish ev job actor action profile failure detail)"
  "keeps (\<lambda>w. held w = {}) (audit_rejection ev actor action profile rcode detail)"
  unfolding payload_profile_def
  by (rule keeps_ignored [where P = "\<lambda>H f. H = {}"]; intro emits; simp)+

lemma stop_clears: "hoare (\<lambda>w. held w = {}) (stop ev pid actor rid) (\<lambda>_ w. held w = {}) (\<lambda>_ w. held w = {})"
  unfolding stop_def by (intro hoare_keeps_seq hoare_keeps_then empty_ops fence_clears)

lemma force_stop_clears:
  "hoare (\<lambda>w. held w = {}) (confirm_force_stop ev cid actor rid) (\<lambda>_ w. held w = {}) (\<lambda>_ w. held w = {})"
  unfolding confirm_force_stop_def by (intro hoare_keeps_seq hoare_keeps_then empty_ops fence_clears)

lemma restart_clears: "hoare (\<lambda>w. held w = {}) (restart ev pid actor rid) (\<lambda>_ w. held w = {}) (\<lambda>_ w. held w = {})"
  unfolding restart_def by (rule hoare_thenp [OF stop_clears start_clears])

lemma command_clears: "hoare (\<lambda>w. held w = {}) (command ev pid text actor prov) (\<lambda>_ w. held w = {}) (\<lambda>_ w. held w = {})"
proof -
  have "keeps (\<lambda>w. held w = {}) (command_failed ev q actor job e)" for q job e
    unfolding command_failed_def Let_def by (cases e) (auto intro!: keeps_rules empty_ops)
  then have "keeps (\<lambda>w. held w = {}) (command ev pid text actor prov)"
    unfolding command_def by (intro keeps_rules empty_ops)
  then show ?thesis by (rule keepsD)
qed

section \<open>Switch\<close>

lemma held_switch_ops:
  "keeps (\<lambda>w. P (held w) (w_frame w)) (stop_for_switch ev p b e)"
  "keeps (\<lambda>w. P (held w) (w_frame w)) (switch_backup ev p)"
  "keeps (\<lambda>w. P (held w) (w_frame w)) (start_with_free_retry ev p)"
  unfolding stop_for_switch_def switch_backup_def start_with_free_retry_def by (intro held_rules)+

lemma switch_body_covered:
  "hoare fresh (switch_body ev s t payload actor cid job) (\<lambda>_. covered ev) (\<lambda>_. covered ev)"
  unfolding switch_body_def Let_def fresh_by_def
  by (rule reserve_covered) (intro held_rules held_switch_ops covered_frames)+

text \<open>The rollback takes the lease of the switch over, or a new one.\<close>

lemma new_rollback_lease_covered:
  "hoare (\<lambda>w. held w = {}) (new_rollback_lease ev s rid actor) (\<lambda>_. covered_both ev) (\<lambda>_. covered_both ev)"
  unfolding new_rollback_lease_def
proof (rule hoare_frame_cases, rule hoare_reserve)
  fix f l
  show "hoare (\<lambda>w. held w = (if env_store ev then {l} else {}) \<and> w_frame w = f) (set_frame (\<lambda>f. f\<lparr>fr_rollback_lease := Some l\<rparr>))
     (\<lambda>_. covered_both ev) (\<lambda>_. covered_both ev)"
    by (rule hoare_set_frame) (auto simp: covered_by_both_def backed_def)
qed (simp add: covered_by_both_def backed_def)

lemma transfer_lease_covered:
  assumes "env_store ev"
  shows "hoare (\<lambda>w. covered ev w \<and> fr_lease (w_frame w) = Some l) (transfer_lease ev l moved)
    (\<lambda>_. covered_both ev) (\<lambda>_. covered_both ev)"
proof -
  let ?I = "\<lambda>w. covered ev w \<and> fr_lease (w_frame w) = Some l"
  let ?J = "\<lambda>w. held w = {moved}"
  have moved: "hoare ?I (emit (Eff_Transferred l moved)) (\<lambda>_. ?J) (\<lambda>_. covered_both ev)"
    by (rule hoare_emit) (auto simp: covered_by_def backed_def assms)
  have cleared: "hoare ?J (clear_reservation ev moved) (\<lambda>_ w. held w = {}) (\<lambda>_ w. held w = {})"
    by (rule hoare_frame_cases, rule hoare_conseq [OF clear_held [where H = "{moved}"]]) (auto simp: assms)
  have "hoare ?J (thenp (swallow (clear_reservation ev moved)) (throw Cancelled_Exn)) (\<lambda>_. covered_both ev) (\<lambda>_. covered_both ev)"
    unfolding swallow_def
    by (rule hoare_thenp [OF hoare_catchp [OF cleared hoare_ret] hoare_throw]) (auto simp: covered_by_both_def backed_def)
  moreover have "hoare ?J (set_frame (\<lambda>f. f\<lparr>fr_rollback_lease := Some moved, fr_lease := None\<rparr>)) (\<lambda>_. covered_both ev) (\<lambda>_. covered_both ev)"
    by (rule hoare_set_frame) (simp add: covered_by_both_def backed_def assms)
  ultimately have answer: "hoare ?I (case answer of
       Not_Moved e \<Rightarrow> throw e
     | Moved_Then_Cancelled \<Rightarrow>
         thenp (emit (Eff_Transferred l moved)) (thenp (swallow (clear_reservation ev moved)) (throw Cancelled_Exn))
     | Moved \<Rightarrow> thenp (emit (Eff_Transferred l moved)) (set_frame (\<lambda>f. f\<lparr>fr_rollback_lease := Some moved, fr_lease := None\<rparr>)))
     (\<lambda>_. covered_both ev) (\<lambda>_. covered_both ev)" for answer
    by (cases answer) (auto intro!: hoare_thenp [OF moved] hoare_throw covered_imp_both)
  show ?thesis
    unfolding transfer_lease_def by (rule hoare_seqp [where R = "\<lambda>_. ?I"]) (auto intro!: hoare_ask answer)
qed

lemma rollback_lease_covered:
  "hoare (covered ev) (rollback_lease ev s actor) (\<lambda>_. covered_both ev) (\<lambda>_. covered_both ev)"
  unfolding rollback_lease_def
proof (rule hoare_keeps_seq [OF held_ops(20)], rule hoare_seqp [OF hoare_getp], rule hoare_option)
  fix rid and current :: "lease option"
  show "hoare (\<lambda>w. covered ev w \<and> current = (fr_lease \<circ> w_frame) w) (new_rollback_lease ev s rid actor)
      (\<lambda>_. covered_both ev) (\<lambda>_. covered_both ev)" if "current = None"
    by (rule hoare_pre [OF new_rollback_lease_covered]) (use that in \<open>auto simp: covered_by_def\<close>)
  fix l assume current: "current = Some l"
  have pre: "hoare (\<lambda>w. covered ev w \<and> fr_lease (w_frame w) = Some l) q Q E \<Longrightarrow>
      hoare (\<lambda>w. covered ev w \<and> current = (fr_lease \<circ> w_frame) w) q Q E" for q and Q :: "unit \<Rightarrow> world \<Rightarrow> bool" and E
    by (erule hoare_pre) (simp add: current)
  have storeless: "hoare (\<lambda>w. held w = {}) (thenp (clear_reservation ev l) (thenp (set_frame (\<lambda>f. f\<lparr>fr_lease := None\<rparr>))
      (new_rollback_lease ev s rid actor))) (\<lambda>_. covered_both ev) (\<lambda>_. covered_both ev)" if "\<not> env_store ev"
    unfolding clear_reservation_def using that
    by (auto intro!: hoare_thenp [OF hoare_ret [where Q = "\<lambda>_ w. held w = {}"]]
        hoare_thenp [OF hoare_set_frame new_rollback_lease_covered])
  show "hoare (\<lambda>w. covered ev w \<and> current = (fr_lease \<circ> w_frame) w)
     (if env_store ev then transfer_lease ev l (prof_id s, rid, snd (snd l))
      else thenp (clear_reservation ev l) (thenp (set_frame (\<lambda>f. f\<lparr>fr_lease := None\<rparr>)) (new_rollback_lease ev s rid actor)))
     (\<lambda>_. covered_both ev) (\<lambda>_. covered_both ev)"
  proof (cases "env_store ev")
    case True
    with pre [OF transfer_lease_covered [OF True]] show ?thesis by simp
  next
    case False
    with storeless show ?thesis by (auto elim!: hoare_pre simp: covered_by_def backed_def)
  qed
qed (rule covered_imp_both)

lemma rollback_steps_covered:
  "hoare (covered ev) (rollback_steps ev s t payload actor) (\<lambda>_. covered_both ev) (\<lambda>_. covered_both ev)"
proof -
  have "keeps (covered_both ev) (set_frame (fr_rollback_renewal_update k))" for k
    by (rule held_set_frame) (simp add: covered_by_both_def)
  then show ?thesis
    unfolding rollback_steps_def
    by (intro hoare_keeps_seq hoare_keeps_then hoare_thenp [OF rollback_lease_covered keepsD] held_rules held_switch_ops covered_imp_both)
qed

lemma rollback_covered:
  "hoare (covered ev) (rollback ev s t payload actor) (\<lambda>_. covered_both ev) (\<lambda>_. covered_both ev)"
proof -
  have steps: "hoare (covered ev) (attempt (rollback_steps ev s t payload actor)) (\<lambda>_. covered_both ev) (\<lambda>_. covered_both ev)"
    unfolding attempt_def
    by (rule hoare_catchp [OF hoare_thenp [OF rollback_steps_covered hoare_ret]]) (auto intro: hoare_ret)
  show ?thesis
    unfolding rollback_def Let_def
    by (intro hoare_keeps_then hoare_seqp [OF steps keepsD] held_rules covered_imp_both)
      (auto intro!: held_rules split: exn.split)
qed

lemma switch_failed_covered:
  "hoare (covered ev) (switch_failed ev s t payload actor job e) Q (\<lambda>_. covered_both ev)"
proof -
  have "hoare (covered ev) (whenp b (rollback ev s t payload actor)) (\<lambda>_. covered_both ev) (\<lambda>_. covered_both ev)" for b
    by (rule hoare_whenp [OF rollback_covered]) (rule covered_imp_both)
  then show ?thesis
    unfolding switch_failed_def Let_def
    by (intro hoare_if hoare_throw hoare_thenp [OF _ hoare_keeps_then] held_ops) (auto intro: held_ops covered_imp_both)
qed

text \<open>After a success the second release has nothing to do; after a failure the first one does not raise.\<close>

lemma switch_finally_clears:
  "hoare (if primary then covered_both ev else covered ev) (switch_finally ev pid primary) (\<lambda>_ w. held w = {}) (\<lambda>_ w. held w = {})"
proof -
  have first: "hoare (\<lambda>w. backed ev (set_option l \<union> (if primary then set_option r else {})) (held w))
      (release_lease ev primary l renewal)
      (\<lambda>_ w. backed ev (if primary then set_option r else {}) (held w)) (\<lambda>_ w. held w = {})" for l r renewal
  proof (cases primary)
    case True
    show ?thesis
      by (simp add: True, rule hoare_never_raises [OF release_primary_quiet hoare_conseq [OF release_backed
          [of ev "set_option l \<union> set_option r"]]]) (auto elim: backed_mono)
  next
    case False
    then show ?thesis using release_frame [of ev l False renewal] by simp
  qed
  have second: "hoare (\<lambda>w. backed ev (if primary then set_option r else {}) (held w)) (release_lease ev primary r renewal)
      (\<lambda>_ w. held w = {}) (\<lambda>_ w. held w = {})" for r renewal
    by (rule hoare_pre [OF release_frame]) (auto elim: backed_mono split: if_split_asm)
  show ?thesis
    unfolding switch_finally_def
  proof (rule hoare_seqp [OF hoare_getp])
    fix f :: frame
    let ?A = "set_option (fr_lease f) \<union> (if primary then set_option (fr_rollback_lease f) else {})"
    show "hoare (\<lambda>w. (if primary then covered_both ev else covered ev) w \<and> f = w_frame w)
      (thenp (end_startup_attempt pid (fr_attempt f)) (thenp (emit (Eff_Latency ''switch_duration'' pid (fr_success f)))
        (thenp (release_lease ev primary (fr_lease f) (fr_renewal f))
          (release_lease ev primary (fr_rollback_lease f) (fr_rollback_renewal f)))))
      (\<lambda>_ w. held w = {}) (\<lambda>_ w. held w = {})"
      by (rule hoare_pre [where P = "\<lambda>w. backed ev ?A (held w)"],
          intro hoare_quiet_then [where P = "\<lambda>H g. backed ev ?A H"] emits hoare_thenp [OF first second])
        (auto simp: covered_by_def covered_by_both_def split: if_split_asm)
  qed
qed

lemma switch_clears:
  "hoare (\<lambda>w. held w = {}) (confirm_switch ev cid actor) (\<lambda>_ w. held w = {}) (\<lambda>_ w. held w = {})"
proof -
  have "hoare fresh (finallyp (catchp (switch_body ev s t payload actor cid job) (switch_failed ev s t payload actor job))
      (switch_finally ev pid)) (\<lambda>_ w. held w = {}) (\<lambda>_ w. held w = {})" for s t payload job pid
  proof (rule hoare_finallyp)
    show "hoare fresh (catchp (switch_body ev s t payload actor cid job) (switch_failed ev s t payload actor job))
        (\<lambda>_. covered ev) (\<lambda>_. covered_both ev)"
      by (rule hoare_catchp [OF switch_body_covered switch_failed_covered])
  qed (use switch_finally_clears [where primary = False] switch_finally_clears [where primary = True] in simp_all)
  then show ?thesis
    unfolding confirm_switch_def
    by (intro hoare_fresh_frame hoare_keeps_seq held_rules fresh_held)
qed

section \<open>A sample environment\<close>

text \<open>A store that grants, adapters that answer, a slot that is free and a server without players.\<close>

definition sample_status :: profile_status where
  "sample_status = \<lparr>ps_profile_id = PZ_RISING, ps_state = RUNNING, ps_health = HEALTHY, ps_slot_owner = Some (profile_value PZ_RISING),
     ps_active_job_id = None, ps_pid = None, ps_started_at = None, ps_uptime_seconds = None, ps_cpu_percent = None,
     ps_rss_bytes = None, ps_players_online = Some 0, ps_installed_version = None, ps_restart_required = False,
     ps_required_ports_ready = True, ps_disk_free_bytes = None, ps_disk_read_bps = None, ps_disk_write_bps = None,
     ps_startup_estimate = None, ps_update = None\<rparr>"

definition sample_ctl_env :: ctl_env where
  "sample_ctl_env = \<lparr>env_codec = sample_codec, env_profiles = (\<lambda>p. Some (sample_profile p)), env_adapters = (\<lambda>_. True),
     env_store = True, env_inspector = False, env_backups = False, env_clock = (\<lambda>n k. int (n + k)), env_monotonic = of_nat,
     env_uuid = (\<lambda>n. replicate n CHR ''u''), env_stamp = (\<lambda>_. []), env_lock = (\<lambda>_. None), env_unlock = (\<lambda>_. None),
     env_reserve = (\<lambda>_. Granted), env_release = (\<lambda>_. None), env_transfer = (\<lambda>_. Moved), env_drain = (\<lambda>_. None),
     env_renewal_done = (\<lambda>_. False), env_renewal_first = (\<lambda>_. False), env_cancel = (\<lambda>_. False),
     env_adapter = (\<lambda>_. Inr ()), env_free = (\<lambda>_. Inr True), env_ready = (\<lambda>_. Inr True),
     env_status = (\<lambda>_. Inr (Some \<lparr>sn_generation = 0, sn_observed_at = 0, sn_profiles = [sample_status], sn_initializing = False\<rparr>)),
     env_observe = (\<lambda>_. Inr None), env_backup = (\<lambda>_. Inr ()), env_version = (\<lambda>_. None), env_estimates = (\<lambda>_. Db_Ok)\<rparr>"

definition sample_world :: world where
  "sample_world = \<lparr>w_time = 0, w_db = empty_ctl_db, w_trace = [], w_readiness = new_coordinator, w_attempts = Map.empty,
     w_estimates = \<lparr>min_samples = 3, max_samples = 20, max_version_buckets = 5, rows = [], next_row_id = 1, cache = []\<rparr>,
     w_frame = empty_frame\<rparr>"

text \<open>Symbolic execution of a handler in the sample environment.\<close>

lemma sample_env_simps:
  "env_profiles sample_ctl_env q = Some (sample_profile q)" "env_adapters sample_ctl_env q" "env_store sample_ctl_env"
  "\<not> env_inspector sample_ctl_env" "env_lock sample_ctl_env n = None" "env_unlock sample_ctl_env n = None"
  "env_reserve sample_ctl_env n = Granted" "env_release sample_ctl_env n = None" "env_drain sample_ctl_env n = None"
  "\<not> env_renewal_done sample_ctl_env n" "\<not> env_renewal_first sample_ctl_env n" "\<not> env_cancel sample_ctl_env n"
  "env_adapter sample_ctl_env n = Inr ()" "env_free sample_ctl_env n = Inr True" "env_ready sample_ctl_env n = Inr True"
  "env_status sample_ctl_env n = Inr (Some \<lparr>sn_generation = 0, sn_observed_at = 0, sn_profiles = [sample_status], sn_initializing = False\<rparr>)"
  "env_version sample_ctl_env n = None" "prof_id (sample_profile q) = q" "Op_START \<in> prof_operations (sample_profile q)"
  "Op_STOP \<in> prof_operations (sample_profile q)"
  by (simp_all add: sample_ctl_env_def sample_profile_def)

lemma sample_key: "normalize_profile_key (JStr ''pz-rising'') = Some ''pz-rising''"
  by code_simp

lemma sample_world_simps:
  "w_time sample_world = 0" "w_trace sample_world = []" "db_jobs (w_db sample_world) = []"
  by (simp_all add: sample_world_def empty_ctl_db_def)

lemmas run_simps = seqp_def thenp_def catchp_def finallyp_def whenp_def getp_def emit_def set_frame_def ask_def in_frame_def ret_def throw_def
  raise_opt_def transaction_def db_effect_def open_job_def job_intent_def finish_def require_profile_def require_operation_def
  reserve_lease_def reserve_answered_def release_lease_def clear_reservation_def attempt_def await_lease_def call_adapter_def
  assert_lease_def lost_at_def wait_for_free_slot_def probe_start_health_def installed_version_hint_def
  record_startup_estimate_def begin_startup_attempt_def end_startup_attempt_def begin_readiness_def readiness_begin_def profile_key_def
  notify_readiness_def finish_readiness_def start_body_def start_finally_def start_def stop_body_def stop_finally_def
  stop_with_fence_def stop_def acquire_stop_fence_def fresh_stop_preflight_def stop_evidence_def benchmark_active_def
  sample_env_simps sample_world_simps sample_key

section \<open>Properties\<close>

text \<open>C5. No lifecycle request leaks the game slot: whatever the lock, the store, the adapters, the probes and the scheduler
  answer, with cancellation possible at every await, a handler that starts without a lease ends, by a result or by an
  exception, after having asked the store to release every lease it was granted or took over.\<close>

theorem leases_given_back:
  assumes "held w = {}"
  shows "held (snd (handle_request ev req actor rid w)) = {}"
proof -
  have "hoare (\<lambda>w. held w = {}) (handle_request ev req actor rid) (\<lambda>_ w. held w = {}) (\<lambda>_ w. held w = {})"
    by (cases req) (simp_all add: start_clears stop_clears restart_clears command_clears force_stop_clears switch_clears)
  from hoare_ends [OF this] assms show ?thesis .
qed

theorem leases_given_back_witness:
  "held (snd (handle_request sample_ctl_env (Req_Start PZ_RISING) ''op'' ''r1'' sample_world)) = {}"
  by (rule leases_given_back) (simp add: sample_world_def monitored_def)

end
