(* ===== verification/Lifecycle_Guards.thy ===== *)
theory Lifecycle_Guards
  imports Lifecycle
begin

text \<open>
  What the lifecycle handlers do before they start a server: a monitor of the trace shows that a server is started only
  with the slot reserved for it and reported free.
\<close>

section \<open>Starts are guarded\<close>

text \<open>A monitor of the trace: the leases held, whether the slot was reported free since the last start, and whether every
  start so far was issued with the slot reported free and, given a store, under a lease of its profile.\<close>

definition guard_step :: "bool \<Rightarrow> lease set \<times> bool \<times> bool \<Rightarrow> effect \<Rightarrow> lease set \<times> bool \<times> bool" where
  "guard_step store s e = (case s of (H, free, ok) \<Rightarrow>
     (case e of
        Eff_Free p b \<Rightarrow> (H, b, ok)
      | Eff_Adapter op p \<Rightarrow>
          if op = Adapter_Start then (H, False, ok \<and> free \<and> (store \<longrightarrow> p \<in> fst ` H)) else s
      | _ \<Rightarrow> (held_step H e, free, ok)))"

definition guard_state :: "ctl_env \<Rightarrow> world \<Rightarrow> lease set \<times> bool \<times> bool" where
  "guard_state ev w = monitored (guard_step (env_store ev)) ({}, False, True) w"

abbreviation starts_guarded :: "ctl_env \<Rightarrow> world \<Rightarrow> bool" where
  "starts_guarded ev w \<equiv> snd (snd (guard_state ev w))"

definition armed :: "ctl_env \<Rightarrow> profile_id \<Rightarrow> world \<Rightarrow> bool" where
  "armed ev p w \<longleftrightarrow> starts_guarded ev w \<and> (env_store ev \<longrightarrow> p \<in> fst ` fst (guard_state ev w))"

definition cleared_to_start :: "ctl_env \<Rightarrow> profile_id \<Rightarrow> world \<Rightarrow> bool" where
  "cleared_to_start ev p w \<longleftrightarrow> armed ev p w \<and> fst (snd (guard_state ev w))"

lemma guard_frame [simp]:
  "guard_state ev (w\<lparr>w_frame := f\<rparr>) = guard_state ev w"
  "guard_state ev (w\<lparr>w_trace := w_trace w @ [e]\<rparr>) = guard_step (env_store ev) (guard_state ev w) e"
  by (simp_all add: guard_state_def)

definition start_effect :: "effect \<Rightarrow> bool" where
  "start_effect e \<longleftrightarrow> (case e of Eff_Adapter op p \<Rightarrow> op = Adapter_Start | _ \<Rightarrow> False)"

definition lease_effect :: "effect \<Rightarrow> bool" where
  "lease_effect e \<longleftrightarrow> (case e of Eff_Reserved l \<Rightarrow> True | Eff_Released l \<Rightarrow> True | Eff_Transferred a b \<Rightarrow> True | _ \<Rightarrow> False)"

definition free_effect :: "effect \<Rightarrow> bool" where
  "free_effect e \<longleftrightarrow> (case e of Eff_Free p b \<Rightarrow> True | _ \<Rightarrow> False)"

lemma extends_guarded:
  assumes "extends S w w'"
  shows "(\<And>e. S e \<Longrightarrow> \<not> start_effect e) \<Longrightarrow> starts_guarded ev w \<Longrightarrow> starts_guarded ev w'"
    "(\<And>e. S e \<Longrightarrow> \<not> start_effect e \<and> \<not> lease_effect e) \<Longrightarrow> armed ev p w \<Longrightarrow> armed ev p w'"
    "(\<And>e. S e \<Longrightarrow> \<not> start_effect e \<and> \<not> lease_effect e \<and> \<not> free_effect e) \<Longrightarrow> cleared_to_start ev p w \<Longrightarrow> cleared_to_start ev p w'"
proof -
  obtain es where es: "w_trace w' = w_trace w @ es" "list_all S es" using assms by (auto simp: extends_def)
  have 1: "snd (snd (foldl (guard_step b) s es)) = snd (snd s)" if "list_all (\<lambda>e. \<not> start_effect e) es" for s b es
    using that
    by (induction es arbitrary: s) (auto simp: guard_step_def start_effect_def split: effect.split prod.split)
  have 2: "fst (foldl (guard_step b) s es) = fst s" if "list_all (\<lambda>e. \<not> lease_effect e) es" for s b es
    using that
    by (induction es arbitrary: s) (auto simp: guard_step_def lease_effect_def held_step_def split: effect.split prod.split)
  have 3: "fst (snd (foldl (guard_step b) s es)) = fst (snd s)" if "list_all (\<lambda>e. \<not> start_effect e \<and> \<not> free_effect e) es" for s b es
    using that
    by (induction es arbitrary: s) (auto simp: guard_step_def start_effect_def free_effect_def split: effect.split prod.split)
  have mono: "list_all T es" if "\<And>e. S e \<Longrightarrow> T e" for T
    using es(2) that by (auto simp: list_all_iff)
  show "(\<And>e. S e \<Longrightarrow> \<not> start_effect e) \<Longrightarrow> starts_guarded ev w \<Longrightarrow> starts_guarded ev w'"
    by (simp add: guard_state_def monitored_def es(1) 1 mono)
  show "(\<And>e. S e \<Longrightarrow> \<not> start_effect e \<and> \<not> lease_effect e) \<Longrightarrow> armed ev p w \<Longrightarrow> armed ev p w'"
    by (simp add: armed_def guard_state_def monitored_def es(1) 1 2 mono)
  show "(\<And>e. S e \<Longrightarrow> \<not> start_effect e \<and> \<not> lease_effect e \<and> \<not> free_effect e) \<Longrightarrow> cleared_to_start ev p w \<Longrightarrow> cleared_to_start ev p w'"
    by (simp add: cleared_to_start_def armed_def guard_state_def monitored_def es(1) 1 2 3 mono)
qed

text \<open>Operations other than starts.\<close>

lemma guarded_op: "emits_only (\<lambda>e. \<not> start_effect e) p \<Longrightarrow> keeps (starts_guarded ev) p"
  by (erule keeps_extends) (rule extends_guarded(1))

lemma armed_op: "emits_only (\<lambda>e. \<not> start_effect e \<and> \<not> lease_effect e) p \<Longrightarrow> keeps (armed ev q) p"
  by (erule keeps_extends) (rule extends_guarded(2))

lemma cleared_op:
  "emits_only (\<lambda>e. \<not> start_effect e \<and> \<not> lease_effect e \<and> \<not> free_effect e) p \<Longrightarrow> keeps (cleared_to_start ev q) p"
  by (erule keeps_extends) (rule extends_guarded(3))

lemmas effect_kinds = start_effect_def lease_effect_def free_effect_def

lemma armed_guarded: "armed ev p w \<Longrightarrow> starts_guarded ev w"
  by (simp add: armed_def)

lemma cleared_armed: "cleared_to_start ev p w \<Longrightarrow> armed ev p w"
  by (simp add: cleared_to_start_def)

lemma guard_set_frame:
  "keeps (starts_guarded ev) (set_frame f)" "keeps (armed ev p) (set_frame f)" "keeps (cleared_to_start ev p) (set_frame f)"
  by (rule keeps_set_frame; simp add: armed_def cleared_to_start_def)+

text \<open>What clears a start: the reservation, then the slot reported free.\<close>

lemma reserve_holds:
  "hoare (\<lambda>_. True) (reserve_lease ev p operation lease_id actor) (\<lambda>_ w. env_store ev \<longrightarrow> prof_id p \<in> fst ` held w) (\<lambda>_ _. True)"
proof -
  let ?R = "\<lambda>_ w. env_store ev \<longrightarrow> prof_id p \<in> fst ` held w"
  have "hoare (\<lambda>_. True) (thenp (emit (Eff_Reserved l)) (ret l)) ?R (\<lambda>_ _. True)" if "fst l = prof_id p" for l
    using that by (auto simp: hoare_def thenp_def seqp_def emit_def ret_def)
  then have answered: "hoare (\<lambda>_. True) (reserve_answered ev p operation actor l answer) ?R (\<lambda>_ _. True)" if "fst l = prof_id p" for l answer
    unfolding reserve_answered_def using that
    by (cases answer) (auto intro!: hoare_throw hoare_returns_then)
  show ?thesis
    unfolding reserve_lease_def
  proof (rule hoare_seqp [OF hoare_getp], rule hoare_pure)
    fix l :: lease
    assume l: "fst l = prof_id p"
    show "hoare (\<lambda>w. True \<and> l = (prof_id p, lease_id, current_generation (w_db w)))
      (if \<not> env_store ev then ret l else seqp (ask (\<lambda>n. Inr (env_reserve ev n))) (reserve_answered ev p operation actor l))
      ?R (\<lambda>_ _. True)"
      by (rule hoare_if, rule hoare_ret, simp, rule hoare_seqp [OF hoare_ask answered [OF l]]) simp_all
  qed simp
qed

lemma guard_leases: "fst (guard_state ev w) = held w"
proof -
  have "fst (foldl (guard_step b) s es) = foldl held_step (fst s) es" for b s es
    by (induction es arbitrary: s) (auto simp: guard_step_def held_step_def split: effect.split prod.split)
  then show ?thesis by (simp add: guard_state_def monitored_def)
qed

lemma reserve_armed:
  "hoare (starts_guarded ev) (reserve_lease ev p operation lease_id actor) (\<lambda>_. armed ev (prof_id p)) (\<lambda>_. starts_guarded ev)"
proof -
  have "keeps (starts_guarded ev) (reserve_lease ev p operation lease_id actor)"
    by (rule guarded_op, intro emits) (simp_all add: effect_kinds)
  from hoare_conj [OF reserve_holds this] show ?thesis
    by (rule hoare_conseq) (auto simp: armed_def guard_leases)
qed

lemma free_clears:
  "hoare (armed ev q) (wait_for_free_slot ev p) (\<lambda>b w. armed ev q w \<and> (b \<longrightarrow> cleared_to_start ev q w)) (\<lambda>_. armed ev q)"
proof -
  have wait: "hoare (armed ev q) (await_lease ev True False (env_free ev)) (\<lambda>_. armed ev q) (\<lambda>_. armed ev q)"
    by (rule keepsD, rule armed_op, intro emits) (simp add: effect_kinds)
  have "hoare (armed ev q) (emit (Eff_Free (prof_id p) b)) (\<lambda>_ w. armed ev q w \<and> (b \<longrightarrow> cleared_to_start ev q w)) E" for b E
    by (rule hoare_emit) (auto simp: armed_def cleared_to_start_def guard_step_def split: prod.split)
  then show ?thesis
    unfolding wait_for_free_slot_def by (auto intro!: hoare_seqp [OF wait] hoare_thenp hoare_ret)
qed

lemma start_call_guarded:
  "hoare (cleared_to_start ev (prof_id p)) (call_adapter ev renewal Adapter_Start p) (\<lambda>_. armed ev (prof_id p)) (\<lambda>_. armed ev (prof_id p))"
proof -
  have "hoare (cleared_to_start ev (prof_id p)) (emit (Eff_Adapter Adapter_Start (prof_id p))) (\<lambda>_. armed ev (prof_id p)) E" for E
    by (rule hoare_emit) (auto simp: armed_def cleared_to_start_def guard_step_def split: prod.splits)
  moreover have "keeps (armed ev (prof_id p)) (thenp (await_lease ev renewal False (env_adapter ev)) (emit (Eff_Returned Adapter_Start (prof_id p))))"
    by (rule armed_op, intro emits) (simp_all add: effect_kinds)
  ultimately show ?thesis
    by (intro hoare_call_adapter [where R = "armed ev (prof_id p)"] keepsD cleared_armed)
qed

lemma retry_guarded:
  "hoare (cleared_to_start ev (prof_id p)) (start_with_free_retry ev p) (\<lambda>_. armed ev (prof_id p)) (\<lambda>_. armed ev (prof_id p))"
proof -
  have retry: "hoare (armed ev (prof_id p)) (seqp (wait_for_free_slot ev p) (\<lambda>free.
         thenp (whenp (\<not> free) (throw e)) (call_adapter ev True Adapter_Start p)))
       (\<lambda>_. armed ev (prof_id p)) (\<lambda>_. armed ev (prof_id p))" for e
    by (rule hoare_seqp [OF free_clears], rule hoare_thenp [where R = "cleared_to_start ev (prof_id p)", OF _ start_call_guarded])
      (auto intro!: hoare_whenp hoare_throw)
  show ?thesis
    unfolding start_with_free_retry_def
    by (rule hoare_catchp [OF start_call_guarded]) (auto intro!: hoare_if hoare_throw retry)
qed

section \<open>Start\<close>

lemma guarded_ops:
  "keeps (starts_guarded ev) (open_job ev actor action profile)"
  "keeps (starts_guarded ev) (finish ev job actor action profile failure detail)"
  "keeps (starts_guarded ev) (write_event ev profile code message)"
  "keeps (starts_guarded ev) (record_audit ev actor action profile result ecode detail)"
  "keeps (starts_guarded ev) (audit_rejection ev actor action profile rcode detail)"
  "keeps (starts_guarded ev) (redeem_confirmation ev actor action cid)"
  "keeps (starts_guarded ev) (require_profile ev pid)"
  "keeps (starts_guarded ev) (require_operation ev p op actor)"
  "keeps (starts_guarded ev) (payload_profile payload key)"
  "keeps (starts_guarded ev) (wait_for_free_slot ev p)"
  "keeps (starts_guarded ev) (probe_start_health ev p)"
  "keeps (starts_guarded ev) (notify_readiness t r)"
  "keeps (starts_guarded ev) (finish_readiness t)"
  "keeps (starts_guarded ev) (end_startup_attempt pid a)"
  "keeps (starts_guarded ev) (record_startup_estimate ev pid a)"
  "keeps (starts_guarded ev) (call_adapter ev renewal Adapter_Graceful_Stop p)"
  "keeps (starts_guarded ev) (call_adapter ev renewal Adapter_Force_Stop p)"
  "keeps (starts_guarded ev) (call_adapter ev renewal (Adapter_Command text) p)"
  "keeps (starts_guarded ev) (assert_lease ev)"
  "keeps (starts_guarded ev) (release_lease ev primary l renewal)"
  "keeps (starts_guarded ev) (emit (Eff_Latency m pid b))"
  "keeps (starts_guarded ev) (ask f)"
  "keeps (starts_guarded ev) (stop_for_switch ev p b e)"
  "keeps (starts_guarded ev) (acquire_stop_fence ev p actor rid b)"
  unfolding payload_profile_def stop_for_switch_def acquire_stop_fence_def
  by (rule guarded_op; intro emits; simp add: effect_kinds)+

lemma guarded_finish_opened: "keeps (starts_guarded ev) (finish_opened ev job actor action p code detail)"
  unfolding finish_opened_def by (intro keeps_rules guarded_ops)

lemmas guarded_rules = keeps_rules guarded_ops guarded_finish_opened guard_set_frame(1)

lemma armed_ops:
  "keeps (armed ev q) (open_job ev actor action profile)"
  "keeps (armed ev q) (assert_lease ev)"
  "keeps (armed ev q) (stop_for_switch ev p b e)"
  unfolding stop_for_switch_def by (rule armed_op; intro emits; simp add: effect_kinds)+

lemma cleared_ops:
  "keeps (cleared_to_start ev q) (begin_readiness pid)"
  "keeps (cleared_to_start ev q) (installed_version_hint ev)"
  "keeps (cleared_to_start ev q) (begin_startup_attempt ev pid version)"
  "keeps (cleared_to_start ev q) (assert_lease ev)"
  "keeps (cleared_to_start ev q) (switch_backup ev p)"
  unfolding switch_backup_def by (rule cleared_op; intro emits; simp add: effect_kinds)+

text \<open>Steps on the way to a start.\<close>

lemma armed_step:
  "keeps (armed ev q) p \<Longrightarrow> hoare (armed ev q) r Q (\<lambda>_. starts_guarded ev) \<Longrightarrow> hoare (armed ev q) (thenp p r) Q (\<lambda>_. starts_guarded ev)"
  "keeps (armed ev q) p' \<Longrightarrow> (\<And>v. hoare (armed ev q) (f v) Q (\<lambda>_. starts_guarded ev)) \<Longrightarrow> hoare (armed ev q) (seqp p' f) Q (\<lambda>_. starts_guarded ev)"
  by (erule hoare_keeps_then hoare_keeps_seq; auto dest: armed_guarded)+

lemma cleared_step:
  "keeps (cleared_to_start ev q) p \<Longrightarrow> hoare (cleared_to_start ev q) r Q (\<lambda>_. starts_guarded ev)
    \<Longrightarrow> hoare (cleared_to_start ev q) (thenp p r) Q (\<lambda>_. starts_guarded ev)"
  "keeps (cleared_to_start ev q) p' \<Longrightarrow> (\<And>v. hoare (cleared_to_start ev q) (f v) Q (\<lambda>_. starts_guarded ev))
    \<Longrightarrow> hoare (cleared_to_start ev q) (seqp p' f) Q (\<lambda>_. starts_guarded ev)"
  by (erule hoare_keeps_then hoare_keeps_seq; auto dest: armed_guarded cleared_armed)+

lemma free_step:
  assumes "hoare (cleared_to_start ev q) r Q (\<lambda>_. starts_guarded ev)"
  shows "hoare (armed ev q) (seqp (wait_for_free_slot ev p) (\<lambda>free. thenp (whenp (\<not> free) (throw e)) r)) Q (\<lambda>_. starts_guarded ev)"
proof (rule hoare_seqp)
  show "hoare (armed ev q) (wait_for_free_slot ev p) (\<lambda>b w. armed ev q w \<and> (b \<longrightarrow> cleared_to_start ev q w)) (\<lambda>_. starts_guarded ev)"
    by (rule hoare_conseq [OF free_clears]) (auto dest: armed_guarded)
  show "hoare (\<lambda>w. armed ev q w \<and> (b \<longrightarrow> cleared_to_start ev q w)) (thenp (whenp (\<not> b) (throw e)) r) Q (\<lambda>_. starts_guarded ev)" for b
    by (rule hoare_thenp [OF _ assms]) (auto intro!: hoare_whenp hoare_throw dest: armed_guarded)
qed

lemma started_step:
  "keeps (starts_guarded ev) r \<Longrightarrow> hoare (cleared_to_start ev (prof_id p)) (thenp (call_adapter ev renewal Adapter_Start p) r)
     (\<lambda>_. starts_guarded ev) (\<lambda>_. starts_guarded ev)"
  "keeps (starts_guarded ev) r \<Longrightarrow> hoare (cleared_to_start ev (prof_id p)) (thenp (start_with_free_retry ev p) r)
     (\<lambda>_. starts_guarded ev) (\<lambda>_. starts_guarded ev)"
  by (rule hoare_thenp [OF hoare_conseq [OF start_call_guarded] keepsD] hoare_thenp [OF hoare_conseq [OF retry_guarded] keepsD];
      auto dest: armed_guarded)+

lemma start_body_guarded: "keeps (starts_guarded ev) (start_body ev p actor rid)"
  unfolding keeps_def start_body_def Let_def
  by (rule hoare_seqp [OF reserve_armed])
    (rule armed_step guard_set_frame armed_ops free_step cleared_step cleared_ops started_step | intro guarded_rules)+

lemma start_guarded: "keeps (starts_guarded ev) (start ev pid actor rid)"
  unfolding start_def start_failed_def start_finally_def cleanup_failed_start_def Let_def
  by (rule keeps_in_frame, intro guarded_rules start_body_guarded) simp

section \<open>Stop and command\<close>

lemma fence_guarded: "keeps (starts_guarded ev) (stop_with_fence ev p actor rid force allow)"
proof -
  have "keeps (starts_guarded ev) (call_adapter ev renewal (if force then Adapter_Force_Stop else Adapter_Graceful_Stop) p)" for renewal
    by (simp add: guarded_ops)
  then have "keeps (starts_guarded ev) (stop_body ev p actor rid force allow)"
    unfolding stop_body_def Let_def case_prod_unfold by (intro guarded_rules)
  then show ?thesis
    unfolding stop_with_fence_def stop_failed_def stop_finally_def Let_def
    by (intro keeps_in_frame guarded_rules) simp_all
qed

lemma command_failed_guarded: "keeps (starts_guarded ev) (command_failed ev q actor job e)"
  unfolding command_failed_def Let_def by (cases e) (auto intro!: guarded_rules)

section \<open>Switch\<close>

lemma switch_body_guarded: "keeps (starts_guarded ev) (switch_body ev s t payload actor cid job)"
  unfolding keeps_def switch_body_def Let_def
  by (rule hoare_seqp [OF reserve_armed])
    (rule armed_step guard_set_frame armed_ops free_step cleared_step cleared_ops keeps_whenp started_step | intro guarded_rules)+

lemma new_rollback_armed:
  "hoare (starts_guarded ev) (new_rollback_lease ev s rid actor) (\<lambda>_. armed ev (prof_id s)) (\<lambda>_. starts_guarded ev)"
  unfolding new_rollback_lease_def
  by (rule hoare_seqp [OF reserve_armed], rule hoare_set_frame) (simp add: armed_def)

lemma transfer_armed:
  assumes "fst moved = prof_id s"
  shows "hoare (starts_guarded ev) (transfer_lease ev l moved) (\<lambda>_. armed ev (prof_id s)) (\<lambda>_. starts_guarded ev)"
proof -
  have moved: "hoare (starts_guarded ev) (emit (Eff_Transferred l moved)) (\<lambda>_. armed ev (prof_id s)) E" for E
    using assms by (intro hoare_emit) (auto simp: armed_def guard_step_def split: prod.splits)
  have cleared: "hoare (armed ev (prof_id s)) (thenp (swallow (clear_reservation ev moved)) (throw Cancelled_Exn))
      (\<lambda>_. armed ev (prof_id s)) (\<lambda>_. starts_guarded ev)"
    unfolding swallow_def
    by (rule hoare_pre [where P = "starts_guarded ev"], rule hoare_keeps_then, rule guarded_op, intro emits)
      (auto intro!: hoare_throw simp: effect_kinds dest: armed_guarded)
  have "hoare (starts_guarded ev) (case answer of
       Not_Moved e \<Rightarrow> throw e
     | Moved_Then_Cancelled \<Rightarrow>
         thenp (emit (Eff_Transferred l moved)) (thenp (swallow (clear_reservation ev moved)) (throw Cancelled_Exn))
     | Moved \<Rightarrow> thenp (emit (Eff_Transferred l moved)) (set_frame (\<lambda>f. f\<lparr>fr_rollback_lease := Some moved, fr_lease := None\<rparr>)))
     (\<lambda>_. armed ev (prof_id s)) (\<lambda>_. starts_guarded ev)" for answer
    by (cases answer) (auto intro!: hoare_throw hoare_thenp [OF moved cleared] hoare_thenp [OF moved hoare_set_frame] simp: armed_def)
  then show ?thesis
    unfolding transfer_lease_def by (intro hoare_keeps_seq guarded_ops)
qed

lemma rollback_lease_armed:
  "hoare (starts_guarded ev) (rollback_lease ev s actor) (\<lambda>_. armed ev (prof_id s)) (\<lambda>_. starts_guarded ev)"
proof -
  have "keeps (starts_guarded ev) (clear_reservation ev l)" for l
    by (rule guarded_op, intro emits) (simp add: effect_kinds)
  then show ?thesis
    unfolding rollback_lease_def
    by (intro hoare_keeps_seq hoare_keeps_then keeps_getp guarded_ops guard_set_frame hoare_option hoare_if transfer_armed new_rollback_armed)
      simp_all
qed

lemma rollback_guarded: "keeps (starts_guarded ev) (rollback ev s t payload actor)"
proof -
  have "hoare (starts_guarded ev) (rollback_steps ev s t payload actor) (\<lambda>_. starts_guarded ev) (\<lambda>_. starts_guarded ev)"
    unfolding rollback_steps_def
    apply (rule hoare_keeps_seq, rule keeps_getp)
     apply (rule hoare_keeps_then, intro guarded_rules)
      apply (rule hoare_thenp [OF rollback_lease_armed])
      apply (rule free_step armed_step guard_set_frame started_step | intro guarded_rules | assumption)+
    done
  then have "keeps (starts_guarded ev) (attempt (rollback_steps ev s t payload actor))"
    unfolding attempt_def keeps_def by (intro keeps_rules [unfolded keeps_def])
  then show ?thesis
    unfolding rollback_def Let_def by (intro guarded_rules) (auto intro!: guarded_rules split: exn.split)
qed

lemma switch_guarded: "keeps (starts_guarded ev) (confirm_switch ev cid actor)"
  unfolding confirm_switch_def switch_failed_def switch_finally_def Let_def
  by (intro keeps_in_frame guarded_rules switch_body_guarded rollback_guarded) simp

section \<open>Properties\<close>

text \<open>C6. A game server is started only with the slot.  In every run of a lifecycle request, under any answers of the
  environment, each start an adapter is asked for (the first, the retry after exit code 75, and the start of a rollback)
  was preceded by a fresh report that the slot is free, not used for another start, and happens while the handler
  holds a lease for the very profile that is started.\<close>

theorem starts_only_with_slot:
  assumes "w_trace w = []"
  shows "starts_guarded ev (snd (handle_request ev req actor rid w))"
proof -
  have "keeps (starts_guarded ev) (handle_request ev req actor rid)"
  proof (cases req)
    case (Req_Command p line prov)
    then show ?thesis by (simp add: command_def) (intro guarded_rules command_failed_guarded)
  qed (auto simp: stop_def restart_def confirm_force_stop_def intro!: guarded_rules fence_guarded start_guarded switch_guarded)
  moreover have "starts_guarded ev w" using assms by (simp add: guard_state_def monitored_def)
  ultimately show ?thesis by (rule hoare_ends [OF keepsD])
qed

theorem starts_only_with_slot_witness:
  "starts_guarded sample_ctl_env (snd (handle_request sample_ctl_env (Req_Start PZ_RISING) ''op'' ''r1'' sample_world))
   \<and> list_ex start_effect (w_trace (snd (handle_request sample_ctl_env (Req_Start PZ_RISING) ''op'' ''r1'' sample_world)))"
proof
  show "starts_guarded sample_ctl_env (snd (handle_request sample_ctl_env (Req_Start PZ_RISING) ''op'' ''r1'' sample_world))"
    by (rule starts_only_with_slot) (simp add: sample_world_def)
  show "list_ex start_effect (w_trace (snd (handle_request sample_ctl_env (Req_Start PZ_RISING) ''op'' ''r1'' sample_world)))"
    by (simp add: run_simps start_effect_def Let_def)
qed

end
