(* ===== verification/Lifecycle_Outcomes.thy ===== *)
theory Lifecycle_Outcomes
  imports Lifecycle_Guards
begin

text \<open>
  What the lifecycle handlers leave behind: a failed start is cleaned up or its failed cleanup put on record, and an unforced stop
  reaches the adapter only after a fresh preflight under the lease of its profile.
\<close>

section \<open>A failed start is cleaned up\<close>

text \<open>A monitor of one profile, since its last adapter start: whether a forced stop has neither returned since nor the lease been seen
  lost, whether a job of the profile was finished as a success, whether a forced stop was issued, and whether the event
  of a failed cleanup was recorded after it.\<close>

record start_view =
  sv_orphan :: bool
  sv_succeeded :: bool
  sv_tried :: bool
  sv_reported :: bool

definition nothing_started :: start_view where
  "nothing_started = \<lparr>sv_orphan = False, sv_succeeded = False, sv_tried = False, sv_reported = False\<rparr>"

definition start_step :: "profile_id \<Rightarrow> start_view \<Rightarrow> effect \<Rightarrow> start_view" where
  "start_step q s e = (case e of
     Eff_Adapter op p \<Rightarrow>
       (if p \<noteq> q then s
        else if op = Adapter_Start then nothing_started\<lparr>sv_orphan := True\<rparr>
        else if op = Adapter_Force_Stop then s\<lparr>sv_tried := True\<rparr> else s)
   | Eff_Returned op p \<Rightarrow> (if p = q \<and> op = Adapter_Force_Stop then s\<lparr>sv_orphan := False\<rparr> else s)
   | Eff_Lost \<Rightarrow> s\<lparr>sv_orphan := False\<rparr>
   | Eff_Db c \<Rightarrow>
       (case c of
          Do_Finish clock f \<Rightarrow> (if fin_ok f \<and> fin_profile f = Some q then s\<lparr>sv_succeeded := True\<rparr> else s)
        | Do_Event clock profile code message \<Rightarrow>
            (if sv_tried s \<and> profile = Some q \<and> code = ''start_cleanup_failed'' then s\<lparr>sv_reported := True\<rparr> else s)
        | _ \<Rightarrow> s)
   | _ \<Rightarrow> s)"

abbreviation start_seen :: "profile_id \<Rightarrow> world \<Rightarrow> start_view" where
  "start_seen q w \<equiv> monitored (start_step q) nothing_started w"

abbreviation orphan :: "profile_id \<Rightarrow> world \<Rightarrow> bool" where
  "orphan q w \<equiv> sv_orphan (start_seen q w)"

abbreviation succeeded :: "profile_id \<Rightarrow> world \<Rightarrow> bool" where
  "succeeded q w \<equiv> sv_succeeded (start_seen q w)"

abbreviation stop_tried :: "profile_id \<Rightarrow> world \<Rightarrow> bool" where
  "stop_tried q w \<equiv> sv_tried (start_seen q w)"

abbreviation stop_reported :: "profile_id \<Rightarrow> world \<Rightarrow> bool" where
  "stop_reported q w \<equiv> sv_reported (start_seen q w)"

text \<open>Other effects than an adapter start of the profile only settle the account.\<close>

definition view_grows :: "start_view \<Rightarrow> start_view \<Rightarrow> bool" where
  "view_grows s t \<longleftrightarrow> (sv_orphan t \<longrightarrow> sv_orphan s) \<and> (sv_succeeded s \<longrightarrow> sv_succeeded t) \<and> (sv_tried s \<longrightarrow> sv_tried t)
     \<and> (sv_reported s \<longrightarrow> sv_reported t)"

lemma start_foldl: "list_all (\<lambda>e. e \<noteq> Eff_Adapter Adapter_Start q) es \<Longrightarrow> view_grows s (foldl (start_step q) s es)"
proof (induction es arbitrary: s)
  case (Cons e es)
  have "view_grows s (start_step q s e)"
    using Cons.prems by (cases e) (auto simp: view_grows_def start_step_def split: ctl_call.splits)
  then show ?case using Cons.IH [of "start_step q s e"] Cons.prems by (simp add: view_grows_def)
qed (simp add: view_grows_def)

text \<open>A server that was started is accounted for by a successful job, or a forced stop was issued for it and its failure
  recorded (unless a transaction could not run), or it will still be cleaned up by the handler of \<open>start\<close>; in the end the last is
  excluded.\<close>

definition settled :: "ctl_env \<Rightarrow> profile_id \<Rightarrow> world \<Rightarrow> bool" where
  "settled ev q w \<longleftrightarrow> succeeded q w \<or> stop_tried q w \<and> (stop_reported q w \<or> (\<exists>n. env_lock ev n \<noteq> None))"

definition accounted :: "bool \<Rightarrow> ctl_env \<Rightarrow> profile \<Rightarrow> profile_id \<Rightarrow> world \<Rightarrow> bool" where
  "accounted pending ev p q w \<longleftrightarrow>
     (orphan q w \<longrightarrow> settled ev q w \<or> pending \<and> q = prof_id p \<and> fr_attempted (w_frame w) \<and> env_adapters ev (prof_id p))"

lemma accounted_op:
  assumes "emits_only (\<lambda>e. e \<noteq> Eff_Adapter Adapter_Start q) r"
  shows "keeps (accounted b ev p q) r" "keeps (\<lambda>w. accounted b ev p q w \<and> fr_attempted (w_frame w)) r" "keeps (succeeded q) r"
    "keeps (\<lambda>w. \<not> orphan q w) r" "keeps (stop_tried q) r"
proof -
  have *: "(orphan q w' \<longrightarrow> orphan q w) \<and> (succeeded q w \<longrightarrow> succeeded q w') \<and> (stop_tried q w \<longrightarrow> stop_tried q w')
      \<and> (stop_reported q w \<longrightarrow> stop_reported q w') \<and> w_frame w' = w_frame w"
    if "extends (\<lambda>e. e \<noteq> Eff_Adapter Adapter_Start q) w w'" for w w'
    using that start_foldl [of q _ "start_seen q w"] unfolding extends_def view_grows_def by (auto simp: monitored_def)
  show "keeps (accounted b ev p q) r"
    by (rule keeps_extends [OF assms], unfold accounted_def settled_def) (use * in metis)
  show "keeps (\<lambda>w. accounted b ev p q w \<and> fr_attempted (w_frame w)) r"
    by (rule keeps_extends [OF assms], unfold accounted_def settled_def) (use * in metis)
  show "keeps (succeeded q) r" "keeps (\<lambda>w. \<not> orphan q w) r" "keeps (stop_tried q) r"
    by (rule keeps_extends [OF assms]; use * in blast)+
qed

lemma accounted_set_frame:
  "(\<And>f. fr_attempted (g f) = fr_attempted f) \<Longrightarrow> keeps (accounted b ev p q) (set_frame g)"
  "(\<And>f. fr_attempted (g f) = fr_attempted f) \<Longrightarrow> keeps (\<lambda>w. accounted b ev p q w \<and> fr_attempted (w_frame w)) (set_frame g)"
  "keeps (succeeded q) (set_frame g)"
  by (rule keeps_set_frame; auto simp: accounted_def settled_def)+

lemma attempted_start:
  "hoare (\<lambda>w. accounted True ev p q w \<and> fr_attempted (w_frame w)) (call_adapter ev renewal Adapter_Start p)
     (\<lambda>_. accounted True ev p q) (\<lambda>_. accounted True ev p q)"
proof (rule hoare_call_adapter [where R = "accounted True ev p q"])
  show "hoare (\<lambda>w. accounted True ev p q w \<and> fr_attempted (w_frame w)) (emit (Eff_Adapter Adapter_Start (prof_id p)))
      (\<lambda>_. accounted True ev p q) (\<lambda>_. accounted True ev p q)" if "env_adapters ev (prof_id p)"
    using that by (intro hoare_emit) (auto simp: accounted_def settled_def start_step_def)
  show "hoare (accounted True ev p q) (thenp (await_lease ev renewal False (env_adapter ev)) (emit (Eff_Returned Adapter_Start (prof_id p))))
      (\<lambda>_. accounted True ev p q) (\<lambda>_. accounted True ev p q)"
    by (rule keepsD, rule accounted_op, intro emits) (simp_all add: effect_kinds)
qed simp

text \<open>A job finished as a success.\<close>

lemma finish_succeeds:
  "hoare P (finish ev job actor action (Some q) None detail) (\<lambda>_. succeeded q) (\<lambda>_ _. True)"
  by (auto simp: hoare_def finish_def transaction_def db_effect_def monitored_def start_step_def Let_def split: option.splits)

lemma finish_step:
  assumes "keeps (succeeded (prof_id p)) r"
  shows "hoare (accounted True ev p (prof_id p)) (thenp (finish ev job actor action (Some (prof_id p)) None detail) r)
     (\<lambda>_. accounted False ev p (prof_id p)) (\<lambda>_. accounted True ev p (prof_id p))"
proof -
  let ?q = "prof_id p"
  have "keeps (accounted True ev p ?q) (finish ev job actor action (Some ?q) None detail)"
    by (rule accounted_op, intro emits) (simp add: effect_kinds)
  from hoare_conj [OF finish_succeeds [of "\<lambda>_. True"] this]
  have "hoare (accounted True ev p ?q) (finish ev job actor action (Some ?q) None detail) (\<lambda>_. succeeded ?q) (\<lambda>_. accounted True ev p ?q)"
    by (rule hoare_conseq) simp_all
  then show ?thesis
    by (rule hoare_thenp) (rule hoare_keeps [OF assms]; simp add: accounted_def settled_def)
qed

lemma accounted_ops:
  "keeps (accounted b ev p q) (open_job ev actor action profile)"
  "keeps (accounted b ev p q) (finish ev job actor action profile failure detail)"
  "keeps (accounted b ev p q) (write_event ev profile code message)"
  "keeps (accounted b ev p q) (audit_rejection ev actor action profile rcode detail)"
  "keeps (accounted b ev p q) (reserve_lease ev r operation lid actor)"
  "keeps (accounted b ev p q) (wait_for_free_slot ev r)"
  "keeps (accounted b ev p q) (probe_start_health ev r)"
  "keeps (accounted b ev p q) (begin_readiness pid)"
  "keeps (accounted b ev p q) (notify_readiness t x)"
  "keeps (accounted b ev p q) (finish_readiness t)"
  "keeps (accounted b ev p q) (end_startup_attempt pid a)"
  "keeps (accounted b ev p q) (assert_lease ev)"
  "keeps (accounted b ev p q) (release_lease ev primary l renewal)"
  "keeps (accounted b ev p q) (emit (Eff_Latency m pid s))"
  "keeps (accounted b ev p q) (require_profile ev pid)"
  "keeps (accounted b ev p q) (require_operation ev r op actor)"
  by (rule accounted_op; intro emits; simp add: effect_kinds)+

lemma attempted_ops:
  "keeps (\<lambda>w. accounted b ev p q w \<and> fr_attempted (w_frame w)) (installed_version_hint ev)"
  "keeps (\<lambda>w. accounted b ev p q w \<and> fr_attempted (w_frame w)) (begin_startup_attempt ev pid version)"
  by (rule accounted_op; intro emits)+

lemma succeeded_ops:
  "keeps (succeeded q) (record_startup_estimate ev pid a)" "keeps (succeeded q) (notify_readiness t r)"
  by (rule accounted_op; intro emits)+

text \<open>Steps of the body of \<open>start\<close>.\<close>

abbreviation attempted :: "ctl_env \<Rightarrow> profile \<Rightarrow> world \<Rightarrow> bool" where
  "attempted ev p \<equiv> \<lambda>w. accounted True ev p (prof_id p) w \<and> fr_attempted (w_frame w)"

abbreviation start_outcome :: "ctl_env \<Rightarrow> profile \<Rightarrow> 'a prog \<Rightarrow> (world \<Rightarrow> bool) \<Rightarrow> bool" where
  "start_outcome ev p r P \<equiv> hoare P r (\<lambda>_. accounted False ev p (prof_id p)) (\<lambda>_. accounted True ev p (prof_id p))"

lemma accounted_step:
  "keeps (accounted True ev p (prof_id p)) q \<Longrightarrow> start_outcome ev p r (accounted True ev p (prof_id p)) \<Longrightarrow> start_outcome ev p (thenp q r) (accounted True ev p (prof_id p))"
  "keeps (accounted True ev p (prof_id p)) q' \<Longrightarrow> (\<And>v. start_outcome ev p (f v) (accounted True ev p (prof_id p))) \<Longrightarrow> start_outcome ev p (seqp q' f) (accounted True ev p (prof_id p))"
  by (erule hoare_keeps_then hoare_keeps_seq; simp)+

lemma attempted_step:
  "keeps (attempted ev p) q \<Longrightarrow> start_outcome ev p r (attempted ev p) \<Longrightarrow> start_outcome ev p (thenp q r) (attempted ev p)"
  "keeps (attempted ev p) q' \<Longrightarrow> (\<And>v. start_outcome ev p (f v) (attempted ev p)) \<Longrightarrow> start_outcome ev p (seqp q' f) (attempted ev p)"
  by (erule hoare_keeps_then hoare_keeps_seq; simp)+

lemma attempting_step:
  "start_outcome ev p r (attempted ev p)
    \<Longrightarrow> start_outcome ev p (thenp (set_frame (\<lambda>f. f\<lparr>fr_ticket := t, fr_attempted := True\<rparr>)) r) (accounted True ev p (prof_id p))"
  by (rule hoare_thenp [where R = "attempted ev p"], rule hoare_set_frame) (auto simp: accounted_def settled_def)

lemma started_account:
  "start_outcome ev p r (accounted True ev p (prof_id p)) \<Longrightarrow> start_outcome ev p (thenp (call_adapter ev renewal Adapter_Start p) r) (attempted ev p)"
  by (rule hoare_thenp [OF attempted_start])

lemma start_body_accounted: "start_outcome ev p (start_body ev p actor rid) (accounted True ev p (prof_id p))"
  unfolding start_body_def Let_def
  by (rule attempting_step attempted_step attempted_ops started_account finish_step accounted_step accounted_ops
      succeeded_ops accounted_set_frame keeps_rules | simp)+

text \<open>The cleanup of a failed start: afterwards the server is stopped, or the lease lost, or the failure of the forced stop is on record.\<close>

lemma assert_lease_accounts:
  "hoare (accounted b ev p q) (assert_lease ev) (\<lambda>_. accounted b ev p q) (\<lambda>_ w. \<not> orphan q w)"
  by (auto simp: hoare_def assert_lease_def report_lost_def seqp_def thenp_def ask_def emit_def throw_def ret_def
      accounted_def settled_def monitored_def start_step_def)

lemma force_stop_accounts:
  "hoare (accounted True ev p (prof_id p)) (call_adapter ev renewal Adapter_Force_Stop p)
     (\<lambda>_ w. \<not> orphan (prof_id p) w) (\<lambda>_ w. accounted False ev p (prof_id p) w \<or> stop_tried (prof_id p) w)"
proof (rule hoare_call_adapter [where R = "stop_tried (prof_id p)"])
  let ?tried = "\<lambda>_ w. accounted False ev p (prof_id p) w \<or> stop_tried (prof_id p) w"
  show "hoare (accounted True ev p (prof_id p)) (emit (Eff_Adapter Adapter_Force_Stop (prof_id p))) (\<lambda>_. stop_tried (prof_id p)) ?tried"
    by (rule hoare_emit) (simp add: start_step_def)
  have "keeps (stop_tried (prof_id p)) (await_lease ev renewal False (env_adapter ev))"
    by (rule accounted_op, intro emits) (simp add: effect_kinds)
  then have "hoare (stop_tried (prof_id p)) (await_lease ev renewal False (env_adapter ev)) (\<lambda>_. stop_tried (prof_id p)) ?tried"
    by (rule hoare_keeps) simp_all
  then show "hoare (stop_tried (prof_id p)) (thenp (await_lease ev renewal False (env_adapter ev)) (emit (Eff_Returned Adapter_Force_Stop (prof_id p))))
      (\<lambda>_ w. \<not> orphan (prof_id p) w) ?tried"
    by (rule hoare_thenp) (rule hoare_emit, simp add: start_step_def)
qed (simp add: accounted_def)

text \<open>The event is recorded whenever transactions run.\<close>

lemma report_settles:
  "hoare (\<lambda>w. accounted False ev p q w \<or> stop_tried q w) (write_event ev (Some q) ''start_cleanup_failed'' message)
     (\<lambda>_. accounted False ev p q) (\<lambda>_. accounted False ev p q)"
  by (auto simp: hoare_def write_event_def transaction_def db_effect_def monitored_def start_step_def accounted_def settled_def Let_def
      split: option.splits)

lemma cleanup_accounts:
  "hoare (accounted True ev p (prof_id p)) (cleanup_failed_start ev p)
     (\<lambda>_. accounted False ev p (prof_id p)) (\<lambda>e w. e \<noteq> Cancelled_Exn \<longrightarrow> accounted False ev p (prof_id p) w)"
proof -
  let ?q = "prof_id p"
  let ?tried = "\<lambda>w. accounted False ev p ?q w \<or> stop_tried ?q w"
  have stopped: "hoare (accounted True ev p ?q) (catchp (thenp (assert_lease ev) (thenp (call_adapter ev True Adapter_Force_Stop p) (ret True)))
      (\<lambda>e. if e = Cancelled_Exn then throw e else ret False))
      (\<lambda>ok w. if ok then accounted False ev p ?q w else ?tried w) (\<lambda>e w. e \<noteq> Cancelled_Exn \<longrightarrow> accounted False ev p ?q w)"
  proof (rule hoare_catchp [where R = "\<lambda>_. ?tried"])
    have lease: "hoare (accounted True ev p ?q) (assert_lease ev) (\<lambda>_. accounted True ev p ?q) (\<lambda>_. ?tried)"
      by (rule hoare_conseq [OF assert_lease_accounts [of True ev p ?q]]) (simp_all add: accounted_def)
    show "hoare (accounted True ev p ?q) (thenp (assert_lease ev) (thenp (call_adapter ev True Adapter_Force_Stop p) (ret True)))
        (\<lambda>ok w. if ok then accounted False ev p ?q w else ?tried w) (\<lambda>_. ?tried)"
      by (rule hoare_thenp [OF lease], rule hoare_thenp [OF force_stop_accounts], rule hoare_ret) (simp add: accounted_def)
  qed (auto intro!: hoare_throw hoare_ret)
  have report: "hoare (\<lambda>w. if ok then accounted False ev p ?q w else ?tried w)
      (catchp (if ok then write_event ev (Some ?q) ''start_cleanup_succeeded'' m else write_event ev (Some ?q) ''start_cleanup_failed'' m')
         (\<lambda>e. if e = Cancelled_Exn then throw e else ret ()))
      (\<lambda>_. accounted False ev p ?q) (\<lambda>e w. e \<noteq> Cancelled_Exn \<longrightarrow> accounted False ev p ?q w)" for ok m m'
    by (rule hoare_catchp [where R = "\<lambda>_. accounted False ev p ?q"])
      (auto intro!: hoare_throw hoare_ret report_settles keepsD accounted_ops)
  show ?thesis
    unfolding cleanup_failed_start_def by (rule hoare_seqp [OF stopped report])
qed

lemma hoare_not_cancelled: "not_cancelled p \<Longrightarrow> hoare P p Q E \<Longrightarrow> hoare P p Q (\<lambda>e w. e \<noteq> Cancelled_Exn \<and> E e w)"
  by (auto simp: hoare_def not_cancelled_def split: prod.split sum.split) (metis fst_conv)+

lemma not_cancelled_passing:
  "not_cancelled r \<Longrightarrow> not_cancelled (catchp r (\<lambda>e. if e = Cancelled_Exn then throw e else ret v))"
  by (auto simp: not_cancelled_def catchp_def throw_def ret_def split: prod.split sum.split) (metis fst_conv)

lemma cleanup_settles:
  assumes "uncancelled ev"
  shows "hoare (accounted True ev p (prof_id p)) (cleanup_failed_start ev p) (\<lambda>_. accounted False ev p (prof_id p)) (\<lambda>_. accounted False ev p (prof_id p))"
proof -
  have "not_cancelled (cleanup_failed_start ev p)"
    unfolding cleanup_failed_start_def by (intro not_cancelled_seqp not_cancelled_passing uncancelled_rules assms)
  from hoare_not_cancelled [OF this cleanup_accounts] show ?thesis by (rule hoare_conseq) simp_all
qed

lemma start_failed_accounts:
  assumes "uncancelled ev" "e \<noteq> Cancelled_Exn"
  shows "hoare (accounted True ev p (prof_id p)) (start_failed ev p actor e) (\<lambda>_. accounted False ev p (prof_id p)) (\<lambda>_. accounted False ev p (prof_id p))"
proof -
  let ?q = "prof_id p"
  have opened: "keeps (accounted b ev p ?q) (finish_opened ev job actor action q code detail)" for b job action q code detail
    unfolding finish_opened_def by (intro keeps_rules accounted_ops)
  have clean: "hoare (\<lambda>w. accounted True ev p ?q w \<and> f = w_frame w) (whenp (fr_attempted f) (cleanup_failed_start ev p))
      (\<lambda>_. accounted False ev p ?q) (\<lambda>_. accounted False ev p ?q)" for f
    by (rule hoare_whenp, rule hoare_pre [OF cleanup_settles [OF assms(1)]]) (auto simp: accounted_def)
  show ?thesis
    using assms(2) unfolding start_failed_def Let_def
    by (simp, intro impI conjI hoare_seqp [OF hoare_getp] hoare_thenp [OF clean] keepsD keeps_rules opened accounted_ops)
qed

lemma start_body_not_cancelled:
  assumes "uncancelled ev"
  shows "not_cancelled (start_body ev p actor rid)"
  unfolding start_body_def Let_def ctl_exn_def by (intro uncancelled_rules assms) simp_all

abbreviation start_run :: "ctl_env \<Rightarrow> profile \<Rightarrow> string \<Rightarrow> string \<Rightarrow> job_accepted prog" where
  "start_run ev p actor rid \<equiv> finallyp (catchp (start_body ev p actor rid) (start_failed ev p actor)) (start_finally ev (prof_id p))"

lemma start_run_own:
  assumes "uncancelled ev"
  shows "hoare (accounted True ev p (prof_id p)) (start_run ev p actor rid)
    (\<lambda>_. accounted False ev p (prof_id p)) (\<lambda>_. accounted False ev p (prof_id p))"
proof (rule hoare_finallyp)
  let ?q = "prof_id p"
  show "hoare (accounted True ev p ?q) (catchp (start_body ev p actor rid) (start_failed ev p actor))
      (\<lambda>_. accounted False ev p ?q) (\<lambda>_. accounted False ev p ?q)"
  proof (rule hoare_catchp [OF hoare_not_cancelled [OF start_body_not_cancelled [OF assms] start_body_accounted]])
    show "hoare (\<lambda>w. e \<noteq> Cancelled_Exn \<and> accounted True ev p ?q w) (start_failed ev p actor e)
        (\<lambda>_. accounted False ev p ?q) (\<lambda>_. accounted False ev p ?q)" for e
      by (rule hoare_pure [where \<phi> = "e \<noteq> Cancelled_Exn"], simp, rule hoare_pre [OF start_failed_accounts [OF assms]]) simp_all
  qed
qed (simp_all add: start_finally_def, (intro keepsD keeps_rules accounted_ops)+)

text \<open>No other profile is started.\<close>

lemma start_run_other:
  assumes "q \<noteq> prof_id p"
  shows "keeps (\<lambda>w. \<not> orphan q w) (start_run ev p actor rid)"
proof -
  have frame: "keeps (\<lambda>w. \<not> orphan q w) (set_frame g)" for g by (rule keeps_set_frame) simp
  show ?thesis
    unfolding start_body_def start_failed_def start_finally_def cleanup_failed_start_def finish_opened_def Let_def
    by (intro keeps_rules frame; rule accounted_op(4); intro emits; use assms in simp)
qed

lemma start_accounts:
  assumes "uncancelled ev"
  shows "hoare (\<lambda>w. \<not> orphan q w) (start ev pid actor rid)
    (\<lambda>_ w. orphan q w \<longrightarrow> settled ev q w) (\<lambda>_ w. orphan q w \<longrightarrow> settled ev q w)"
proof -
  have body: "hoare (\<lambda>w. \<not> orphan q w) (start_run ev p actor rid)
      (\<lambda>_ w. orphan q w \<longrightarrow> settled ev q w) (\<lambda>_ w. orphan q w \<longrightarrow> settled ev q w)" for p
  proof (cases "q = prof_id p")
    case True
    show ?thesis unfolding True by (rule hoare_conseq [OF start_run_own [OF assms]]) (simp_all add: accounted_def)
  next
    case False
    show ?thesis by (rule hoare_conseq [OF keepsD [OF start_run_other [OF False]]]) simp_all
  qed
  have ops: "keeps (\<lambda>w. \<not> orphan q w) (require_profile ev r)" "keeps (\<lambda>w. \<not> orphan q w) (require_operation ev p op actor)"
    "keeps (\<lambda>w. \<not> orphan q w) (audit_rejection ev actor action profile rcode detail)" for r p op action profile rcode detail
    by (rule accounted_op; intro emits; simp add: effect_kinds)+
  show ?thesis
    unfolding start_def
    by (rule hoare_in_frame [where P = "\<lambda>w. \<not> orphan q w" and Q = "\<lambda>_ w. orphan q w \<longrightarrow> settled ev q w"
          and E = "\<lambda>_ w. orphan q w \<longrightarrow> settled ev q w"], intro hoare_keeps_seq hoare_keeps_then ops body keeps_getp hoare_if hoare_throw)
      (simp_all add: settled_def)
qed


text \<open>A concrete failure.\<close>

definition broken_env :: ctl_env where
  "broken_env = sample_ctl_env\<lparr>env_adapter := (\<lambda>_. Inl (Other_Exn None))\<rparr>"

lemmas broken_simps = run_simps broken_env_def start_failed_def cleanup_failed_start_def finish_opened_def write_event_def
  exn_code_def exn_detail_def catchp_def whenp_def

section \<open>Stops are checked\<close>

text \<open>A monitor: the leases held, the profile that passed a preflight since the last stop, and whether every graceful stop
  so far was issued right for such a profile and under its lease.\<close>

definition stoppable :: "profile_id \<Rightarrow> profile_status \<Rightarrow> bool" where
  "stoppable p st \<longleftrightarrow> ps_profile_id st = p \<and> ps_state st = RUNNING \<and> ps_slot_owner st = Some (profile_value p)
     \<and> ps_active_job_id st = None \<and> ps_players_online st = Some 0 \<and> ps_required_ports_ready st"

definition stop_step :: "lease set \<times> profile_id option \<times> bool \<Rightarrow> effect \<Rightarrow> lease set \<times> profile_id option \<times> bool" where
  "stop_step s e = (case s of (H, checked, ok) \<Rightarrow>
     (case e of
        Eff_Preflight p st \<Rightarrow> (H, if stoppable p st then Some p else None, ok)
      | Eff_Adapter op p \<Rightarrow> if op = Adapter_Graceful_Stop then (H, None, ok \<and> checked = Some p \<and> p \<in> fst ` H) else s
      | _ \<Rightarrow> (held_step H e, checked, ok)))"

abbreviation stop_state :: "world \<Rightarrow> lease set \<times> profile_id option \<times> bool" where
  "stop_state w \<equiv> monitored stop_step ({}, None, True) w"

abbreviation stops_checked :: "world \<Rightarrow> bool" where
  "stops_checked w \<equiv> snd (snd (stop_state w))"

definition fenced :: "profile_id \<Rightarrow> world \<Rightarrow> bool" where
  "fenced p w \<longleftrightarrow> stops_checked w \<and> p \<in> fst ` fst (stop_state w)"

definition cleared_to_stop :: "profile_id \<Rightarrow> world \<Rightarrow> bool" where
  "cleared_to_stop p w \<longleftrightarrow> fenced p w \<and> fst (snd (stop_state w)) = Some p"

definition stop_effect :: "effect \<Rightarrow> bool" where
  "stop_effect e \<longleftrightarrow> (case e of Eff_Adapter op p \<Rightarrow> op = Adapter_Graceful_Stop | _ \<Rightarrow> False)"

definition preflight_effect :: "effect \<Rightarrow> bool" where
  "preflight_effect e \<longleftrightarrow> (case e of Eff_Preflight p st \<Rightarrow> True | _ \<Rightarrow> False)"

lemmas stop_effect_kinds = stop_effect_def preflight_effect_def lease_effect_def

lemma stop_leases: "fst (stop_state w) = held w"
proof -
  have "fst (foldl stop_step s es) = foldl held_step (fst s) es" for s es
    by (induction es arbitrary: s) (auto simp: stop_step_def held_step_def split: effect.split prod.split)
  then show ?thesis by (simp add: monitored_def)
qed

lemma stop_foldl:
  "list_all (\<lambda>e. \<not> stop_effect e) es \<Longrightarrow> snd (snd (foldl stop_step s es)) = snd (snd s)"
  "list_all (\<lambda>e. \<not> lease_effect e) es \<Longrightarrow> fst (foldl stop_step s es) = fst s"
  "list_all (\<lambda>e. \<not> stop_effect e \<and> \<not> preflight_effect e) es \<Longrightarrow> fst (snd (foldl stop_step s es)) = fst (snd s)"
  by (induction es arbitrary: s) (auto simp: stop_step_def stop_effect_kinds held_step_def split: effect.split prod.split)

lemma checked_op: "emits_only (\<lambda>e. \<not> stop_effect e) q \<Longrightarrow> keeps stops_checked q"
  by (erule keeps_extends) (auto simp: extends_def monitored_def stop_foldl)

lemma fenced_op: "emits_only (\<lambda>e. \<not> stop_effect e \<and> \<not> lease_effect e) q \<Longrightarrow> keeps (fenced p) q"
  by (erule keeps_extends) (auto simp: extends_def monitored_def fenced_def stop_foldl list_all_iff)

lemma cleared_stop_op:
  "emits_only (\<lambda>e. \<not> stop_effect e \<and> \<not> preflight_effect e \<and> \<not> lease_effect e) q \<Longrightarrow> keeps (cleared_to_stop p) q"
  by (erule keeps_extends) (auto simp: extends_def monitored_def fenced_def cleared_to_stop_def stop_foldl list_all_iff)

lemma fenced_checked: "fenced p w \<Longrightarrow> stops_checked w"
  by (simp add: fenced_def)

lemma cleared_fenced: "cleared_to_stop p w \<Longrightarrow> fenced p w"
  by (simp add: cleared_to_stop_def)

lemma stop_set_frame: "keeps stops_checked (set_frame f)" "keeps (cleared_to_stop p) (set_frame f)"
  by (rule keeps_set_frame; simp add: fenced_def cleared_to_stop_def)+

lemma reserve_fences:
  assumes "env_store ev"
  shows "hoare stops_checked (reserve_lease ev p operation lease_id actor) (\<lambda>_. fenced (prof_id p)) (\<lambda>_. stops_checked)"
proof -
  have "keeps stops_checked (reserve_lease ev p operation lease_id actor)"
    by (rule checked_op, intro emits) (simp_all add: stop_effect_kinds)
  from hoare_conj [OF reserve_holds this] show ?thesis
    by (rule hoare_conseq) (auto simp: fenced_def stop_leases assms)
qed

lemma evidence_stoppable: "stop_evidence p False st = None \<Longrightarrow> ps_profile_id st = p \<Longrightarrow> stoppable p st"
  by (auto simp: stop_evidence_def stoppable_def split: if_split_asm)

lemma preflight_clears:
  "hoare (fenced (prof_id p)) (fresh_stop_preflight ev p False) (\<lambda>_. cleared_to_stop (prof_id p)) (\<lambda>_. fenced (prof_id p))"
proof -
  have observe: "keeps (fenced q) (if \<not> env_inspector ev then ret () else seqp (ask (env_observe ev)) (\<lambda>observed.
        case observed of
          None \<Rightarrow> throw (preflight_error ''stop preflight slot ownership changed'')
        | Some ob \<Rightarrow> whenp (obs_inconsistent ob \<or> obs_owner ob \<noteq> Some (profile_value (prof_id p)))
            (throw (preflight_error ''stop preflight slot ownership changed''))))" for q
    by (intro keeps_rules fenced_op emits)
  have seen: "hoare (fenced (prof_id p)) (emit (Eff_Preflight (prof_id p) st)) (\<lambda>_. cleared_to_stop (prof_id p)) E"
    if "stoppable (prof_id p) st" for st E
    using that by (intro hoare_emit) (auto simp: fenced_def cleared_to_stop_def stop_step_def split: prod.splits)
  have found: "ps_profile_id st = q" if "find (\<lambda>s. ps_profile_id s = q) xs = Some st" for st q xs
    using that by (auto simp: find_Some_iff)
  show ?thesis
    unfolding fresh_stop_preflight_def
    by (intro hoare_keeps_seq fenced_op emits hoare_option hoare_throw hoare_keeps_then observe seen evidence_stoppable) (auto dest: found)
qed

lemma fence_clears_to_stop:
  assumes "env_store ev"
  shows "hoare stops_checked (acquire_stop_fence ev p actor rid False) (\<lambda>_. cleared_to_stop (prof_id p)) (\<lambda>_. stops_checked)"
proof -
  have lost: "keeps (fenced q) (assert_lease ev)" "keeps (cleared_to_stop q) (assert_lease ev)" for q
    by (rule fenced_op cleared_stop_op; intro emits; simp add: stop_effect_kinds)+
  have ended: "hoare stops_checked (thenp (release_lease ev True (Some l) True) (throw e)) Q (\<lambda>_. stops_checked)" for l e Q
    by (rule hoare_keeps_then, rule checked_op, intro emits) (auto intro!: hoare_throw simp: stop_effect_kinds)
  have "hoare (fenced (prof_id p)) (thenp (assert_lease ev) (thenp (fresh_stop_preflight ev p False) (thenp (assert_lease ev) (ret r))))
      (\<lambda>_. cleared_to_stop (prof_id p)) (\<lambda>_. stops_checked)" for r :: "lease option \<times> bool"
    by (rule hoare_keeps_then [OF lost(1) hoare_thenp [OF hoare_conseq [OF preflight_clears] hoare_keeps_then [OF lost(2)]]])
      (auto intro!: hoare_ret dest: fenced_checked cleared_fenced)
  with assms show ?thesis
    unfolding acquire_stop_fence_def by (auto intro!: hoare_seqp [OF reserve_fences] hoare_catchp ended)
qed

lemma checked_ops:
  "keeps stops_checked (finish ev job actor action profile failure detail)"
  "keeps stops_checked (require_profile ev pid)"
  "keeps stops_checked (require_operation ev p op actor)"
  "keeps stops_checked (release_lease ev primary l renewal)"
  "keeps stops_checked (emit (Eff_Latency m pid b))"
  "keeps stops_checked (await_lease ev renewal drain work)"
  by (rule checked_op; intro emits; simp add: stop_effect_kinds)+

lemma checked_finish_opened: "keeps stops_checked (finish_opened ev job actor action p code detail)"
  unfolding finish_opened_def by (intro keeps_rules checked_ops)

lemmas checked_rules = keeps_rules checked_ops checked_finish_opened stop_set_frame(1)

lemma stop_call_checked: "hoare (cleared_to_stop (prof_id p)) (call_adapter ev renewal Adapter_Graceful_Stop p) (\<lambda>_. stops_checked) (\<lambda>_. stops_checked)"
proof -
  have "hoare (cleared_to_stop (prof_id p)) (emit (Eff_Adapter Adapter_Graceful_Stop (prof_id p))) (\<lambda>_. stops_checked) E" for E
    by (rule hoare_emit) (auto simp: fenced_def cleared_to_stop_def stop_step_def split: prod.splits)
  moreover have "keeps stops_checked (thenp (await_lease ev renewal False (env_adapter ev)) (emit (Eff_Returned Adapter_Graceful_Stop (prof_id p))))"
    by (rule checked_op, intro emits) (simp_all add: stop_effect_kinds)
  ultimately show ?thesis
    by (intro hoare_call_adapter [where R = stops_checked] keepsD) (auto dest: cleared_fenced fenced_checked)
qed

lemma stop_body_checked:
  assumes "env_store ev"
  shows "keeps stops_checked (stop_body ev p actor rid False False)"
proof -
  have opened: "keeps (cleared_to_stop q) (open_job ev actor action profile)" for q action profile
    by (rule cleared_stop_op, intro emits) (simp add: stop_effect_kinds)
  have rest: "hoare (cleared_to_stop (prof_id p)) (thenp (call_adapter ev renewal Adapter_Graceful_Stop p) r) (\<lambda>_. stops_checked) (\<lambda>_. stops_checked)"
    if "keeps stops_checked r" for renewal and r :: "job_accepted prog"
    by (rule hoare_thenp [OF stop_call_checked keepsD [OF that]])
  have failed: "cleared_to_stop q w \<Longrightarrow> stops_checked w" for q w
    by (auto dest: cleared_fenced fenced_checked)
  show ?thesis
    unfolding keeps_def stop_body_def Let_def case_prod_unfold
    by (simp, rule hoare_seqp [OF fence_clears_to_stop [OF assms]])
      (intro hoare_keeps_then hoare_keeps_seq stop_set_frame opened rest checked_rules | erule failed)+
qed

lemma stop_checked:
  assumes "env_store ev"
  shows "keeps stops_checked (stop ev pid actor rid)"
  unfolding stop_def stop_with_fence_def stop_failed_def stop_finally_def Let_def
  by (intro keeps_in_frame checked_rules stop_body_checked assms) simp_all

section \<open>Properties\<close>

text \<open>C7. No failed start is left alone.  When nobody cancels the request, then after \<open>start\<close>, whatever it ended with, every profile
  for which an adapter start was issued since is in one of these cases: a forced stop of it returned normally after that start; the lease
  was seen lost (the slot is no longer the handler's to clean); a job of the profile was finished as a success; or a forced stop was
  issued and did not return normally, and then the event that tells the operator about the left process was handed to the database (which
  stores it unless the same event of the last five minutes is there), unless the lock of a transaction raised at some tick.\<close>

theorem failed_start_cleaned_up:
  assumes "uncancelled ev" "w_trace w = []" "orphan q (snd (start ev p actor rid w))"
  shows "succeeded q (snd (start ev p actor rid w))
    \<or> stop_tried q (snd (start ev p actor rid w))
      \<and> (stop_reported q (snd (start ev p actor rid w)) \<or> (\<exists>n. env_lock ev n \<noteq> None))"
  using hoare_ends [OF start_accounts [OF assms(1)], of q w] assms(2,3) by (simp add: monitored_def settled_def nothing_started_def)

text \<open>C9. A graceful stop is issued only on fresh evidence.  With a reservation store, each graceful stop the handler of a
  stop request asks an adapter for was preceded, since the last one, by a preflight that saw the very profile running, owner
  of the slot, with its ports ready, no players and no active job, and it happens while the handler holds a lease for
  that profile.\<close>

theorem stops_only_when_idle:
  assumes "env_store ev" "w_trace w = []"
  shows "stops_checked (snd (stop ev p actor rid w))"
  using hoare_ends [OF keepsD [OF stop_checked [OF assms(1)]], of w] assms(2) by (simp add: monitored_def)

theorem stops_only_when_idle_witness:
  "stops_checked (snd (stop sample_ctl_env PZ_RISING ''op'' ''r1'' sample_world))
   \<and> list_ex stop_effect (w_trace (snd (stop sample_ctl_env PZ_RISING ''op'' ''r1'' sample_world)))"
proof
  show "stops_checked (snd (stop sample_ctl_env PZ_RISING ''op'' ''r1'' sample_world))"
    by (rule stops_only_when_idle) (simp_all add: sample_world_def sample_ctl_env_def)
  show "list_ex stop_effect (w_trace (snd (stop sample_ctl_env PZ_RISING ''op'' ''r1'' sample_world)))"
    by (simp add: run_simps sample_status_def stop_effect_def Let_def)
qed

text \<open>An adapter that fails on every call: the forced stop of the cleanup fails as well, and that is reported.\<close>

theorem failed_start_cleaned_up_witness:
  "\<not> succeeded PZ_RISING (snd (start broken_env PZ_RISING ''op'' ''r1'' sample_world))
   \<and> stop_reported PZ_RISING (snd (start broken_env PZ_RISING ''op'' ''r1'' sample_world))"
proof -
  have run: "orphan PZ_RISING (snd (start broken_env PZ_RISING ''op'' ''r1'' sample_world))"
    "\<not> succeeded PZ_RISING (snd (start broken_env PZ_RISING ''op'' ''r1'' sample_world))"
    by (simp_all add: broken_simps monitored_def start_step_def nothing_started_def Let_def)
  moreover have "uncancelled broken_env" "\<And>n. env_lock broken_env n = None"
    by (simp_all add: uncancelled_def broken_env_def sample_ctl_env_def)
  ultimately show ?thesis using failed_start_cleaned_up [of broken_env sample_world PZ_RISING PZ_RISING "''op''" "''r1''"]
    by (simp add: sample_world_def)
qed

end
