(* ===== verification/Log_Paging.thy ===== *)
theory Log_Paging
  imports Handler "HOL-Library.Sublist"
begin

text \<open>
  Log access: \<open>LogService\<close> of \<^verbatim>\<open>src/game_control/logs.py\<close>, its facade in \<^verbatim>\<open>src/game_control/service_wiring.py\<close>, and
  the paging of \<open>get_logs\<close> in \<^verbatim>\<open>src/game_control/controller.py\<close>, whose cursor is a decimal offset into the
  bounded result.

  Environment.  \<open>log_env\<close> answers for the adapter, the log files, the redactor and the parser of timestamps; \<open>enc\<close> is
  the number of bytes \<^verbatim>\<open>json.dumps\<close> writes for one line.  The bytes of the page around its lines are written out.
\<close>

section \<open>Lines\<close>

datatype severity = Sev_Debug | Sev_Info | Sev_Warning | Sev_Error

record log_line =
  ll_time :: instant
  ll_aware :: bool
  ll_severity :: severity
  ll_message :: string

definition MAX_BYTES :: nat where "MAX_BYTES = 256 * 1024"

definition MAX_LINES :: nat where "MAX_LINES = 5000"

definition MAX_AGE :: int where "MAX_AGE = DAY"

definition MAX_MESSAGE :: nat where "MAX_MESSAGE = 8192"

definition clamp_limit :: "int \<Rightarrow> nat" where
  "clamp_limit v = nat (max 1 (min v (int MAX_LINES)))"

definition clamp_since :: "instant \<Rightarrow> instant option \<Rightarrow> instant option" where
  "clamp_since now since = map_option (\<lambda>t. max t (now - MAX_AGE)) since"

text \<open>\<^verbatim>\<open>xs[-n:]\<close> for a positive \<open>n\<close>.\<close>

definition last_n :: "nat \<Rightarrow> 'a list \<Rightarrow> 'a list" where
  "last_n n xs = drop (length xs - n) xs"

section \<open>Files\<close>

text \<open>The end of a file; a window that starts within the file loses everything up to its first newline.\<close>

definition read_tail :: "string \<Rightarrow> nat \<Rightarrow> string" where
  "read_tail content maximum =
     (let offset = length content - maximum; window = drop offset content
      in if offset \<noteq> 0 then snd (partition_on (CHR ''\<newline>'') window) else window)"

definition browser_markers :: "string list" where
  "browser_markers = [''/.mozilla/'', ''/.config/google-chrome/'', ''/.config/chromium/'', ''/Cookies'', ''/Local State'']"

definition contains_text :: "string \<Rightarrow> string \<Rightarrow> bool" where
  "contains_text part s \<longleftrightarrow> list_ex (\<lambda>i. take (length part) (drop i s) = part) [0..<Suc (length s)]"

record log_env =
  lg_now :: instant
  lg_adapter :: "(exn + log_line list) option" \<comment> \<open>\<open>None\<close> without an adapter; a handled error is \<open>Inl\<close>\<close>
  lg_redact_records :: "string list \<Rightarrow> string list"
  lg_read :: "string \<Rightarrow> string option" \<comment> \<open>content of a regular file\<close>
  lg_redact :: "string \<Rightarrow> string"
  lg_lines :: "string \<Rightarrow> string list" \<comment> \<open>\<^verbatim>\<open>str.splitlines\<close>\<close>
  lg_timestamp :: "string \<Rightarrow> instant option"

definition file_line :: "log_env \<Rightarrow> instant option \<Rightarrow> string \<Rightarrow> log_line option" where
  "file_line ev cutoff line =
     (let t = lg_timestamp ev line
      in if (case cutoff of None \<Rightarrow> False | Some c \<Rightarrow> (case t of None \<Rightarrow> True | Some x \<Rightarrow> x < c)) then None
         else Some \<lparr>ll_time = (case t of None \<Rightarrow> lg_now ev | Some x \<Rightarrow> x), ll_aware = True, ll_severity = Sev_Info,
                    ll_message = take MAX_MESSAGE line\<rparr>)"

definition path_lines :: "log_env \<Rightarrow> nat \<Rightarrow> instant option \<Rightarrow> string \<Rightarrow> log_line list" where
  "path_lines ev limit cutoff path =
     (if list_ex (\<lambda>m. contains_text m path) browser_markers then []
      else case lg_read ev path of
             None \<Rightarrow> []
           | Some content \<Rightarrow>
               List.map_filter (file_line ev cutoff) (last_n limit (lg_lines ev (lg_redact ev (read_tail content MAX_BYTES)))))"

definition tail_from_paths :: "log_env \<Rightarrow> string list \<Rightarrow> int \<Rightarrow> instant option \<Rightarrow> log_line list" where
  "tail_from_paths ev paths limit since =
     (let n = clamp_limit limit; cutoff = clamp_since (lg_now ev) since
      in last_n n (concat (map (path_lines ev n cutoff) (take 32 paths))))"

section \<open>Tail\<close>

text \<open>The loop over the adapter's lines.  A redacted message that is too long raises \<^verbatim>\<open>ValidationError\<close>, which ends
  the loop with what was collected.\<close>

fun collect_lines :: "instant option \<Rightarrow> instant option \<Rightarrow> (log_line \<times> string) list \<Rightarrow> log_line list" where
  "collect_lines cutoff until [] = []"
| "collect_lines cutoff until ((line, message) # rest) =
     (if \<not> ll_aware line then collect_lines cutoff until rest
      else if (case cutoff of None \<Rightarrow> False | Some c \<Rightarrow> ll_time line < c) then collect_lines cutoff until rest
      else if (case until of None \<Rightarrow> False | Some u \<Rightarrow> u < ll_time line) then collect_lines cutoff until rest
      else if MAX_MESSAGE < length message then []
      else line\<lparr>ll_message := message\<rparr> # collect_lines cutoff until rest)"

definition adapter_lines :: "log_env \<Rightarrow> instant option \<Rightarrow> instant option \<Rightarrow> log_line list" where
  "adapter_lines ev cutoff until =
     (case lg_adapter ev of
        Some (Inr source) \<Rightarrow> collect_lines cutoff until (zip source (lg_redact_records ev (map ll_message source)))
      | _ \<Rightarrow> [])"

definition log_tail :: "log_env \<Rightarrow> string list \<Rightarrow> int \<Rightarrow> instant option \<Rightarrow> instant option \<Rightarrow> log_line list" where
  "log_tail ev paths limit since until =
     (let n = clamp_limit limit;
          output = adapter_lines ev (clamp_since (lg_now ev) since) until;
          lines = (if output = [] then tail_from_paths ev paths (int n) since else output)
      in last_n n (sort_key ll_time lines))"

text \<open>\<open>_LogsFacade.page\<close>; \<open>None\<close> asks for every severity.\<close>

record log_options =
  lo_cursor :: "string option"
  lo_limit :: int
  lo_severity :: "severity option"
  lo_since :: "instant option"
  lo_until :: "instant option"

definition facade_page :: "log_env \<Rightarrow> string list \<Rightarrow> log_options \<Rightarrow> log_line list" where
  "facade_page ev paths options =
     (let lines = log_tail ev paths (lo_limit options) (lo_since options) (lo_until options)
      in case lo_severity options of None \<Rightarrow> lines | Some s \<Rightarrow> filter (\<lambda>l. ll_severity l = s) lines)"

section \<open>Pages\<close>

record 'a page =
  pg_items :: "'a list"
  pg_next :: "string option"

definition MAX_RESPONSE_BYTES :: nat where "MAX_RESPONSE_BYTES = 1024 * 1024"

text \<open>\<^verbatim>\<open>str(n)\<close> of a natural number.\<close>

fun show_nat :: "nat \<Rightarrow> string" where
  "show_nat n = (if n < 10 then [digit_char (int n)] else show_nat (n div 10) @ [digit_char (int (n mod 10))])"

declare show_nat.simps [simp del]

definition log_offset :: "string option \<Rightarrow> nat outcome" where
  "log_offset cursor =
     (case cursor of
        None \<Rightarrow> Inr 0
      | Some [] \<Rightarrow> Inr 0
      | Some c \<Rightarrow>
          if length c > 4 \<or> list_ex (\<lambda>x. digit_value x = None) c \<or> (length c > 1 \<and> hd c = CHR ''0'')
          then Inl (Value_Error ''invalid log cursor'')
          else let v = nat (decimal (map (the \<circ> digit_value) c))
               in if v > 5000 then Inl (Value_Error ''invalid log cursor'') else Inr v)"

text \<open>Bytes of \<^verbatim>\<open>{"items":[...],"next_cursor":...}\<close>.\<close>

definition page_bytes :: "('a \<Rightarrow> nat) \<Rightarrow> 'a list \<Rightarrow> string option \<Rightarrow> nat" where
  "page_bytes enc items cursor =
     10 + (sum_list (map enc items) + (length items - 1)) + 16 + (case cursor of None \<Rightarrow> 4 | Some c \<Rightarrow> length c + 2) + 1"

fun select_items :: "('a \<Rightarrow> nat) \<Rightarrow> nat \<Rightarrow> nat \<Rightarrow> 'a list \<Rightarrow> 'a list" where
  "select_items enc used count [] = []"
| "select_items enc used count (x # xs) =
     (if 32 + used + count + enc x > MAX_RESPONSE_BYTES - 2048 then []
      else x # select_items enc (used + enc x) (Suc count) xs)"

function trim_page :: "('a \<Rightarrow> nat) \<Rightarrow> nat \<Rightarrow> 'a list \<Rightarrow> string option \<Rightarrow> 'a page" where
  "trim_page enc start selected cursor =
     (if selected \<noteq> [] \<and> page_bytes enc selected cursor > MAX_RESPONSE_BYTES
      then trim_page enc start (butlast selected) (Some (show_nat (start + (length selected - 1))))
      else \<lparr>pg_items = selected, pg_next = cursor\<rparr>)"
  by pat_completeness auto
termination
  by (relation "measure (\<lambda>(enc, start, selected, cursor). length selected)") auto

declare trim_page.simps [simp del]

definition bound_log_page :: "('a \<Rightarrow> nat) \<Rightarrow> nat \<Rightarrow> 'a list \<Rightarrow> 'a page" where
  "bound_log_page enc start items =
     (let selected = select_items enc 0 0 items
      in trim_page enc start selected (if length selected < length items then Some (show_nat (start + length selected)) else None))"

text \<open>\<open>get_logs\<close> with the logs service; the offset is checked before the service is asked.\<close>

definition get_logs :: "('a \<Rightarrow> nat) \<Rightarrow> 'a list \<Rightarrow> string option \<Rightarrow> exn + 'a page" where
  "get_logs enc service_items cursor =
     (case log_offset cursor of
        Inl e \<Rightarrow> Inl (ctl_exn INVALID_REQUEST ''invalid log cursor'')
      | Inr offset \<Rightarrow> Inr (bound_log_page enc offset (drop offset service_items)))"

text \<open>The other path of \<open>get_logs\<close>, without the service: the adapter is asked for the newest lines.\<close>

definition fallback_logs :: "('a \<Rightarrow> nat) \<Rightarrow> (nat \<Rightarrow> 'a list) \<Rightarrow> nat \<Rightarrow> string option \<Rightarrow> exn + 'a page" where
  "fallback_logs enc recent limit cursor =
     (case log_offset cursor of
        Inl e \<Rightarrow> Inl (ctl_exn INVALID_REQUEST ''invalid log cursor'')
      | Inr offset \<Rightarrow> Inr (bound_log_page enc offset (drop offset (recent (min 5000 (limit + offset))))))"

text \<open>A client that asks again with the cursor it was given, as long as it is given one.  The service reads the log anew for each
  request: \<open>answers i\<close> are its lines at request \<open>i\<close>.  The result is the lines the client collects and the number of its last request,
  \<open>None\<close> when the requests do not end in time or one is refused.\<close>

fun walk_pages :: "('a \<Rightarrow> nat) \<Rightarrow> (nat \<Rightarrow> 'a list) \<Rightarrow> nat \<Rightarrow> nat \<Rightarrow> string option \<Rightarrow> ('a list \<times> nat) option" where
  "walk_pages enc answers 0 i cursor = None"
| "walk_pages enc answers (Suc n) i cursor =
     (case get_logs enc (answers i) cursor of
        Inl e \<Rightarrow> None
      | Inr page \<Rightarrow>
          (case pg_next page of
             None \<Rightarrow> Some (pg_items page, i)
           | Some c \<Rightarrow> map_option (\<lambda>(rest, m). (pg_items page @ rest, m)) (walk_pages enc answers n (Suc i) (Some c))))"

section \<open>Decimal cursors\<close>

lemma digit_char_value: "d < 10 \<Longrightarrow> digit_value (digit_char (int d)) = Some d"
proof -
  assume "d < 10"
  then have "d \<in> set [0..<10]" by simp
  moreover have "list_all (\<lambda>d. digit_value (digit_char (int d)) = Some d) [0..<10]" by code_simp
  ultimately show ?thesis by (simp only: list_all_iff)
qed

lemma digit_char_nonzero: "0 < d \<Longrightarrow> d < 10 \<Longrightarrow> digit_char (int d) \<noteq> CHR ''0''"
  using digit_char_value [of d] digit_char_value [of 0] by (auto simp: digit_char_def)

lemma show_nat_digits: "map digit_value (show_nat n) = map Some (map (the \<circ> digit_value) (show_nat n))"
  by (induction n rule: show_nat.induct) (subst (1 2) show_nat.simps, auto simp: digit_char_value)

lemma decimal_snoc: "decimal (ds @ [d]) = 10 * decimal ds + int d"
  by (simp add: decimal_def)

lemma show_nat_value: "decimal (map (the \<circ> digit_value) (show_nat n)) = int n"
proof (induction n rule: show_nat.induct)
  case (1 n)
  show ?case
  proof (cases "n < 10")
    case True
    then show ?thesis by (simp add: show_nat.simps [of n] decimal_def digit_char_value)
  next
    case False
    moreover have "10 * int (n div 10) + int (n mod 10) = int n" by presburger
    ultimately show ?thesis using 1 by (simp add: show_nat.simps [of n] decimal_snoc digit_char_value)
  qed
qed

lemma show_nat_length: "n < 10 ^ Suc k \<Longrightarrow> length (show_nat n) \<le> Suc k"
proof (induction k arbitrary: n)
  case 0
  then show ?case by (simp add: show_nat.simps [of n])
next
  case (Suc k)
  have "n div 10 < 10 ^ Suc k" using Suc.prems by (simp add: less_mult_imp_div_less)
  with Suc.IH [of "n div 10"] show ?case by (simp add: show_nat.simps [of n])
qed

lemma show_nat_hd: "0 < n \<Longrightarrow> hd (show_nat n) \<noteq> CHR ''0'' \<and> show_nat n \<noteq> []"
proof (induction n rule: show_nat.induct)
  case (1 n)
  show ?case
  proof (cases "n < 10")
    case True
    with 1 show ?thesis by (auto simp: show_nat.simps [of n] digit_char_nonzero)
  next
    case False
    with 1 show ?thesis by (simp add: show_nat.simps [of n])
  qed
qed

text \<open>Every offset up to the limit survives the round trip through a cursor.\<close>

lemma log_offset_show: "n \<le> 5000 \<Longrightarrow> log_offset (Some (show_nat n)) = Inr n"
proof -
  assume n: "n \<le> 5000"
  let ?c = "show_nat n"
  have len: "length ?c \<le> 4" using show_nat_length [of n 3] n by simp
  have "?c \<noteq> []" by (simp add: show_nat.simps [of n])
  moreover have "\<not> list_ex (\<lambda>x. digit_value x = None) ?c"
    using arg_cong [OF show_nat_digits [of n], of set] by (force simp: list_ex_iff image_iff)
  moreover have "\<not> (length ?c > 1 \<and> hd ?c = CHR ''0'')"
    using show_nat_hd [of n] by (cases "n = 0") (simp_all add: show_nat.simps [of 0])
  ultimately show ?thesis
    using n len show_nat_value [of n] by (cases ?c) (simp_all add: log_offset_def Let_def)
qed

section \<open>Bounded pages\<close>

lemma select_prefix: "select_items enc used count xs = take (length (select_items enc used count xs)) xs"
  by (induction xs arbitrary: used count) auto

lemma select_budget:
  "select_items enc used count xs \<noteq> [] \<Longrightarrow>
     33 + used + count + sum_list (map enc (select_items enc used count xs)) + length (select_items enc used count xs)
       \<le> Suc (Suc (MAX_RESPONSE_BYTES - 2048))"
proof (induction xs arbitrary: used count)
  case (Cons x xs)
  then show ?case
    using Cons.IH [of "used + enc x" "Suc count"] by (cases "select_items enc (used + enc x) (Suc count) xs = []") (auto split: if_split_asm)
qed simp

text \<open>The envelope and the cursor fit in the reserve, so the trimming loop has nothing to do.\<close>

lemma page_in_budget:
  assumes "start \<le> 5000" "selected = select_items enc 0 0 items" "cursor = None \<or> cursor = Some (show_nat (start + length selected))"
  shows "page_bytes enc selected cursor \<le> MAX_RESPONSE_BYTES"
proof -
  have len: "length selected \<le> MAX_RESPONSE_BYTES"
    using select_budget [of enc 0 0 items] assms(2) by (cases "selected = []") (auto simp: MAX_RESPONSE_BYTES_def)
  have "length (show_nat (start + length selected)) \<le> 7"
    using show_nat_length [of "start + length selected" 6] len assms(1) by (simp add: MAX_RESPONSE_BYTES_def)
  then have "(case cursor of None \<Rightarrow> 4 | Some c \<Rightarrow> length c + 2) \<le> 9" using assms(3) by auto
  moreover have "sum_list (map enc selected) + (length selected - 1) \<le> MAX_RESPONSE_BYTES - 2048"
    using select_budget [of enc 0 0 items] assms(2) by (cases "selected = []") (auto simp: MAX_RESPONSE_BYTES_def)
  ultimately show ?thesis by (simp add: page_bytes_def MAX_RESPONSE_BYTES_def)
qed

lemma bound_log_page_eq:
  assumes "start \<le> 5000"
  shows "bound_log_page enc start items =
    (let selected = select_items enc 0 0 items
     in \<lparr>pg_items = selected, pg_next = (if length selected < length items then Some (show_nat (start + length selected)) else None)\<rparr>)"
proof -
  let ?s = "select_items enc 0 0 items"
  let ?c = "if length ?s < length items then Some (show_nat (start + length ?s)) else None"
  have "page_bytes enc ?s ?c \<le> MAX_RESPONSE_BYTES" by (rule page_in_budget [OF assms]) auto
  then show ?thesis by (simp add: bound_log_page_def Let_def trim_page.simps [of enc start ?s ?c])
qed

text \<open>Where the lines of a walk come from, and what they are when the answers only grow.\<close>

definition from_answers :: "(nat \<Rightarrow> 'a list) \<Rightarrow> nat \<Rightarrow> nat \<Rightarrow> nat \<Rightarrow> 'a list \<Rightarrow> bool" where
  "from_answers answers k i m ls \<longleftrightarrow>
     (\<forall>j < length ls. \<exists>r. i \<le> r \<and> r \<le> m \<and> k + j < length (answers r) \<and> ls ! j = answers r ! (k + j))"

definition growing :: "(nat \<Rightarrow> 'a list) \<Rightarrow> bool" where
  "growing answers \<longleftrightarrow> (\<forall>i. prefix (answers i) (answers (Suc i)))"

lemma growing_prefix: "growing answers \<Longrightarrow> i \<le> m \<Longrightarrow> prefix (answers i) (answers m)"
  unfolding growing_def by (rule prefix_order.lift_Suc_mono_le) simp_all

lemma from_answers_take:
  "from_answers answers k i i (take n (drop k (answers i)))"
  by (auto simp: from_answers_def)

lemma from_answers_append:
  assumes "from_answers answers k i i xs" "from_answers answers (k + length xs) (Suc i) m ys" "i \<le> m"
  shows "from_answers answers k i m (xs @ ys)"
  unfolding from_answers_def
proof (intro allI impI)
  fix j assume j: "j < length (xs @ ys)"
  show "\<exists>r. i \<le> r \<and> r \<le> m \<and> k + j < length (answers r) \<and> (xs @ ys) ! j = answers r ! (k + j)"
  proof (cases "j < length xs")
    case True
    with assms(1) obtain r where "i \<le> r" "r \<le> i" "k + j < length (answers r)" "xs ! j = answers r ! (k + j)"
      unfolding from_answers_def by blast
    with True assms(3) show ?thesis by (intro exI [of _ r]) (simp add: nth_append)
  next
    case False
    with assms(2) j obtain r where "Suc i \<le> r" "r \<le> m" "k + length xs + (j - length xs) < length (answers r)"
      "ys ! (j - length xs) = answers r ! (k + length xs + (j - length xs))"
      unfolding from_answers_def by (metis add_diff_inverse_nat length_append nat_add_left_cancel_less)
    with False show ?thesis by (intro exI [of _ r]) (simp add: nth_append)
  qed
qed

lemma walk_from:
  assumes "\<And>r. length (answers r) \<le> 5000" "\<And>r x. x \<in> set (answers r) \<Longrightarrow> 32 + enc x \<le> MAX_RESPONSE_BYTES - 2048"
  shows "log_offset cursor = Inr k \<Longrightarrow> k \<le> 5000 \<Longrightarrow> 5000 - k < n \<Longrightarrow>
    \<exists>ls m. walk_pages enc answers n i cursor = Some (ls, m) \<and> i \<le> m \<and> m < i + n \<and> from_answers answers k i m ls
      \<and> (growing answers \<longrightarrow> ls = drop k (answers m))"
proof (induction n arbitrary: cursor k i)
  case (Suc n)
  let ?rest = "drop k (answers i)"
  let ?s = "select_items enc 0 0 ?rest"
  have page: "get_logs enc (answers i) cursor = Inr \<lparr>pg_items = ?s,
      pg_next = (if length ?s < length ?rest then Some (show_nat (k + length ?s)) else None)\<rparr>"
    using Suc.prems by (simp add: get_logs_def bound_log_page_eq Let_def)
  have s: "?s = take (length ?s) ?rest" by (rule select_prefix)
  then have own: "from_answers answers k i i ?s" by (metis from_answers_take)
  show ?case
  proof (cases "length ?s < length ?rest")
    case False
    with s have "?s = ?rest" by simp
    with page False own show ?thesis by simp
  next
    case True
    then obtain x xs where x: "?rest = x # xs" by (cases ?rest) auto
    then have "x \<in> set (answers i)" by (metis in_set_dropD list.set_intros(1))
    with assms(2) x have "?s \<noteq> []" by fastforce
    with True Suc.prems assms(1) [of i] have k: "k + length ?s \<le> 5000" "5000 - (k + length ?s) < n"
      by (auto simp: length_greater_0_conv [symmetric] simp del: length_greater_0_conv)
    from Suc.IH [OF log_offset_show k, of "Suc i"] k(1) obtain ls m where
      ls: "walk_pages enc answers n (Suc i) (Some (show_nat (k + length ?s))) = Some (ls, m)" "Suc i \<le> m" "m < Suc i + n"
        "from_answers answers (k + length ?s) (Suc i) m ls" "growing answers \<longrightarrow> ls = drop (k + length ?s) (answers m)" by auto
    have "?s @ ls = drop k (answers m)" if grows: "growing answers"
    proof -
      obtain more where more: "answers m = answers i @ more" using growing_prefix [OF grows, of i m] ls(2) by (auto simp: prefix_def)
      have "k + length ?s \<le> length (answers i)" using True by simp
      with s have "?s = take (length ?s) (drop k (answers m))" by (simp add: more)
      then show ?thesis using ls(5) grows by (metis add.commute append_take_drop_id drop_drop)
    qed
    with ls page True from_answers_append [OF own ls(4)] show ?thesis by auto
  qed
qed simp

section \<open>What a tail holds\<close>

lemma last_n_length: "length (last_n n xs) \<le> n"
  by (simp add: last_n_def)

lemma last_n_set: "set (last_n n xs) \<subseteq> set xs"
  by (simp add: last_n_def set_drop_subset)

lemma last_n_sorted: "sorted (map f xs) \<Longrightarrow> sorted (map f (last_n n xs))"
  by (simp add: last_n_def drop_map [symmetric] sorted_wrt_drop)

text \<open>A line as the service may return it.\<close>

definition log_line_ok :: "instant option \<Rightarrow> log_line \<Rightarrow> bool" where
  "log_line_ok cutoff l \<longleftrightarrow> ll_aware l \<and> length (ll_message l) \<le> MAX_MESSAGE \<and> (\<forall>c. cutoff = Some c \<longrightarrow> c \<le> ll_time l)"

lemma collect_lines_ok: "l \<in> set (collect_lines cutoff until xs) \<Longrightarrow> log_line_ok cutoff l \<and> (\<forall>u. until = Some u \<longrightarrow> ll_time l \<le> u)"
  by (induction cutoff until xs rule: collect_lines.induct)
    (auto simp: log_line_ok_def split: if_split_asm option.splits)

lemma file_line_ok: "file_line ev cutoff line = Some l \<Longrightarrow> log_line_ok cutoff l"
  by (auto simp: file_line_def log_line_ok_def Let_def split: if_split_asm option.splits)

lemma paths_ok: "l \<in> set (tail_from_paths ev paths limit since) \<Longrightarrow> log_line_ok (clamp_since (lg_now ev) since) l"
  using last_n_set
  by (fastforce simp: tail_from_paths_def path_lines_def Let_def List.map_filter_def dest: file_line_ok split: if_split_asm option.splits)

lemma log_tail_ok:
  "length (log_tail ev paths limit since until) \<le> clamp_limit limit"
  "sorted (map ll_time (log_tail ev paths limit since until))"
  "l \<in> set (log_tail ev paths limit since until) \<Longrightarrow> log_line_ok (clamp_since (lg_now ev) since) l"
proof -
  show "length (log_tail ev paths limit since until) \<le> clamp_limit limit"
    by (simp add: log_tail_def Let_def last_n_length)
  show "sorted (map ll_time (log_tail ev paths limit since until))"
    by (simp add: log_tail_def Let_def last_n_sorted)
  have *: "m \<in> set (adapter_lines ev cutoff until) \<Longrightarrow> log_line_ok cutoff m" for m cutoff
    by (auto simp: adapter_lines_def dest: collect_lines_ok split: option.splits sum.splits)
  show "log_line_ok (clamp_since (lg_now ev) since) l" if "l \<in> set (log_tail ev paths limit since until)"
    using that last_n_set [of "clamp_limit limit"] paths_ok [of l ev paths _ since]
    by (fastforce simp: log_tail_def Let_def intro: * split: if_split_asm)
qed

lemma clamp_limit_le: "clamp_limit v \<le> 5000"
  by (simp add: clamp_limit_def MAX_LINES_def)

lemma facade_page_ok:
  "length (facade_page ev paths options) \<le> 5000"
  "l \<in> set (facade_page ev paths options) \<Longrightarrow> log_line_ok (clamp_since (lg_now ev) (lo_since options)) l"
proof -
  show "length (facade_page ev paths options) \<le> 5000"
    using le_trans [OF log_tail_ok(1) [of ev paths "lo_limit options" "lo_since options" "lo_until options"] clamp_limit_le]
    by (auto simp: facade_page_def Let_def intro: le_trans [OF length_filter_le] split: option.split)
qed (auto simp: facade_page_def Let_def split: option.splits dest: log_tail_ok(3))

text \<open>The path of \<open>get_logs\<close> without the service does not page: the adapter returns the newest lines, oldest first, so a
  larger request grows at the front, and dropping the offset gives back the window of the first page.\<close>

lemma fallback_page_repeats:
  assumes "\<And>n. recent n = last_n n journal" "log_offset cursor = Inr offset" "limit + offset \<le> 5000" "limit + offset \<le> length journal"
  shows "map_sum id pg_items (fallback_logs enc recent limit cursor) = map_sum id pg_items (fallback_logs enc recent limit None)"
proof -
  have "drop offset (last_n (limit + offset) journal) = last_n limit journal"
    using assms(4) by (simp add: last_n_def)
  then show ?thesis
    using assms(1-3) by (simp add: fallback_logs_def log_offset_def bound_log_page_eq Let_def)
qed

section \<open>Properties\<close>

text \<open>C28. Paging through a log that may change between requests.  When one encoded line takes at most twelve bytes per character and 200
  more (each character is at most a pair of escapes), a client that follows the cursors from the first page on is never refused and
  needs at most 5001 requests, whatever the service finds in the log at each of them; the line it collects at position \<open>j\<close> is the line at
  position \<open>j\<close> of the answer to one of its requests; and each response keeps within the frame budget.  If the answers do not change, or grow only at the
  end, it collects exactly the lines of the last answer.  (When the window of the service is full and moves, lines can be
  skipped: \<open>moving_window_skips\<close> below.)\<close>

theorem log_walk_ends:
  fixes ev :: "nat \<Rightarrow> log_env" and paths :: "string list" and options :: "nat \<Rightarrow> log_options"
  assumes "\<And>l. enc l \<le> 12 * length (ll_message l) + 200"
  defines "answers \<equiv> (\<lambda>i. facade_page (ev i) paths (options i))"
  shows "(\<exists>ls m. walk_pages enc answers 5001 0 None = Some (ls, m)
      \<and> (\<forall>j < length ls. \<exists>r \<le> m. j < length (answers r) \<and> ls ! j = answers r ! j)
      \<and> ((\<forall>i. prefix (answers i) (answers (Suc i))) \<longrightarrow> ls = answers m))
    \<and> (\<forall>i cursor page. get_logs enc (answers i) cursor = Inr page \<longrightarrow>
         page_bytes enc (pg_items page) (pg_next page) \<le> MAX_RESPONSE_BYTES)"
proof (intro conjI allI impI)
  have "32 + enc l \<le> MAX_RESPONSE_BYTES - 2048" if "l \<in> set (answers i)" for l i
    using assms(1) [of l] facade_page_ok(2) [OF that [unfolded answers_def]]
    by (simp add: log_line_ok_def MAX_MESSAGE_def MAX_RESPONSE_BYTES_def)
  from walk_from [where answers = answers and enc = enc and cursor = None and k = 0 and n = 5001 and i = 0, OF _ this]
  show "\<exists>ls m. walk_pages enc answers 5001 0 None = Some (ls, m)
      \<and> (\<forall>j < length ls. \<exists>r \<le> m. j < length (answers r) \<and> ls ! j = answers r ! j)
      \<and> ((\<forall>i. prefix (answers i) (answers (Suc i))) \<longrightarrow> ls = answers m)"
    using facade_page_ok(1) by (fastforce simp: answers_def log_offset_def from_answers_def growing_def)
  fix i cursor page
  assume page: "get_logs enc (answers i) cursor = Inr page"
  then obtain k where k: "log_offset cursor = Inr k" "page = bound_log_page enc k (drop k (answers i))"
    by (auto simp: get_logs_def split: sum.splits)
  have "k \<le> 5000"
    using k(1) by (auto simp: log_offset_def Let_def split: option.splits list.splits if_split_asm)
  with k(2) page_in_budget [of k _ enc] show "page_bytes enc (pg_items page) (pg_next page) \<le> MAX_RESPONSE_BYTES"
    by (simp add: bound_log_page_eq Let_def)
qed

text \<open>A full window of three lines, two to a page: between the requests a fourth line arrives, the window moves, and the third line is skipped.\<close>

lemma moving_window_skips:
  "walk_pages (\<lambda>_. 500000) (\<lambda>i. last_n 3 (if i = 0 then [1, 2, 3] else [1, 2, 3, 4 :: nat])) (Suc (Suc 0)) 0 None = Some ([1, 2, 4], 1)"
  by (simp add: get_logs_def log_offset_def bound_log_page_eq last_n_def MAX_RESPONSE_BYTES_def Let_def show_nat.simps
      digit_char_def digit_value_def decimal_def)

definition sample_log_env :: log_env where
  "sample_log_env = \<lparr>lg_now = DAY, lg_adapter = Some (Inr (map (\<lambda>t. \<lparr>ll_time = t, ll_aware = True, ll_severity = Sev_Info,
     ll_message = ''joined''\<rparr>) [3, 1, 2])), lg_redact_records = id, lg_read = (\<lambda>_. None), lg_redact = id, lg_lines = (\<lambda>s. [s]),
     lg_timestamp = (\<lambda>_. None)\<rparr>"

definition sample_log_options :: log_options where
  "sample_log_options = \<lparr>lo_cursor = None, lo_limit = 2, lo_severity = None, lo_since = None, lo_until = None\<rparr>"

theorem log_walk_ends_witness:
  "\<exists>ls m. walk_pages (\<lambda>l. length (ll_message l) + 100) (\<lambda>_. facade_page sample_log_env [] sample_log_options) 5001 0 None = Some (ls, m)
     \<and> map ll_time ls = [2, 3]"
proof -
  have "map ll_time (facade_page sample_log_env [] sample_log_options) = [2, 3]" by code_simp
  then show ?thesis
    using log_walk_ends [of "\<lambda>l. length (ll_message l) + 100" "\<lambda>_. sample_log_env" "[]" "\<lambda>_. sample_log_options"] by auto
qed

end
