(* ===== verification/Watch_Hub.thy ===== *)
theory Watch_Hub
  imports Horizon_Prelude Py_Text
begin

text \<open>
  The watch hub, \<^verbatim>\<open>src/game_control/push.py\<close>: an event broker with bounded queues, replay from a bounded history, and
  full-resync markers for slow clients.

  Client objects live in a store addressed by their number; the hub's map says which of them are subscribed.  Every
  operation runs under the write lock of the hub, so a history of the hub is a sequence of operations.  \<open>visit\<close> is the order in
  which a publication iterates over the set of clients, which Python leaves open.
\<close>

section \<open>Events, cursors, clients\<close>

record watch_event =
  we_sequence :: int
  we_generation :: int
  we_kind :: string
  we_payload :: json
  we_full :: bool

definition event_ok :: "watch_event \<Rightarrow> bool" where
  "event_ok e \<longleftrightarrow> 0 \<le> we_sequence e \<and> 0 \<le> we_generation e \<and> we_kind e \<noteq> [] \<and> length (we_kind e) \<le> 64
     \<and> \<not> list_ex is_space (we_kind e)"

text \<open>\<open>WatchProtocolError\<close> is a \<open>ValueError\<close>.\<close>

definition make_event :: "watch_event \<Rightarrow> watch_event outcome" where
  "make_event e =
     (if we_sequence e < 0 \<or> we_generation e < 0
      then Inl (Value_Error ''watch sequence and generation must be non-negative'')
      else if we_kind e = [] \<or> length (we_kind e) > 64 \<or> list_ex is_space (we_kind e)
      then Inl (Value_Error ''invalid watch event kind'')
      else Inr e)"

record watch_cursor =
  cu_sequence :: int
  cu_generation :: int

definition make_cursor :: "int \<Rightarrow> int \<Rightarrow> watch_cursor outcome" where
  "make_cursor s g =
     (if s < 0 \<or> g < 0 then Inl (Value_Error ''watch cursor must be non-negative'')
      else Inr \<lparr>cu_sequence = s, cu_generation = g\<rparr>)"

record watch_client =
  wc_queue :: "watch_event list"
  wc_cursor :: watch_cursor
  wc_overflows :: nat
  wc_disconnected :: bool
  wc_resync :: bool

record watch_hub =
  hb_queue_size :: nat
  hb_history_size :: nat
  hb_max_overflows :: nat
  hb_history :: "watch_event list"
  hb_members :: "nat list" \<comment> \<open>the set of client numbers\<close>
  hb_subscribed :: "nat set" \<comment> \<open>the keys of the client map\<close>
  hb_objects :: "nat \<Rightarrow> watch_client"
  hb_next :: nat
  hb_sequence :: int
  hb_generation :: int
  hb_snapshot :: "watch_event option"

definition new_client :: "watch_cursor \<Rightarrow> watch_client" where
  "new_client cursor = \<lparr>wc_queue = [], wc_cursor = cursor, wc_overflows = 0, wc_disconnected = False, wc_resync = False\<rparr>"

definition new_hub :: "nat \<Rightarrow> nat \<Rightarrow> nat \<Rightarrow> watch_hub outcome" where
  "new_hub queue_size history_size max_overflows =
     (if \<not> (1 \<le> queue_size \<and> queue_size \<le> 1024) \<or> \<not> (1 \<le> history_size \<and> history_size \<le> 4096)
      then Inl (Value_Error ''watch bounds out of range'')
      else if \<not> (1 \<le> max_overflows \<and> max_overflows \<le> 32) then Inl (Value_Error ''overflow bound out of range'')
      else Inr \<lparr>hb_queue_size = queue_size, hb_history_size = history_size, hb_max_overflows = max_overflows,
        hb_history = [], hb_members = [], hb_subscribed = {},
        hb_objects = (\<lambda>_. new_client \<lparr>cu_sequence = 0, cu_generation = 0\<rparr>), hb_next = 0, hb_sequence = 0, hb_generation = 0,
        hb_snapshot = None\<rparr>)"

section \<open>Delivery\<close>

definition cursor_at :: "watch_event \<Rightarrow> watch_cursor" where
  "cursor_at e = \<lparr>cu_sequence = we_sequence e, cu_generation = we_generation e\<rparr>"

definition set_client :: "nat \<Rightarrow> watch_client \<Rightarrow> watch_hub \<Rightarrow> watch_hub" where
  "set_client i c h = h\<lparr>hb_objects := (hb_objects h)(i := c)\<rparr>"

definition resync_marker :: "int \<Rightarrow> int \<Rightarrow> watch_event" where
  "resync_marker s g = \<lparr>we_sequence = s, we_generation = g, we_kind = ''full_resync'', we_payload = JObj [], we_full = True\<rparr>"

definition enqueue :: "nat \<Rightarrow> watch_event \<Rightarrow> watch_hub \<Rightarrow> watch_hub" where
  "enqueue i item h =
     (let c = hb_objects h i in
      if wc_disconnected c then h
      else if length (wc_queue c) < hb_queue_size h
      then set_client i (c\<lparr>wc_queue := wc_queue c @ [item], wc_cursor := cursor_at item\<rparr>) h
      else let s = hb_sequence h + 1; overflows = wc_overflows c + 1;
               c1 = c\<lparr>wc_overflows := overflows, wc_resync := True, wc_queue := [resync_marker s (we_generation item)],
                      wc_cursor := cursor_at item, wc_disconnected := (hb_max_overflows h \<le> overflows)\<rparr>
           in set_client i c1 (h\<lparr>hb_sequence := s\<rparr>))"

definition enqueue_resync :: "nat \<Rightarrow> watch_hub \<Rightarrow> watch_hub" where
  "enqueue_resync i h =
     (case hb_snapshot h of
        Some e \<Rightarrow> enqueue i e h
      | None \<Rightarrow> (let s = hb_sequence h + 1 in enqueue i (resync_marker s (hb_generation h)) (h\<lparr>hb_sequence := s\<rparr>)))"

section \<open>Operations\<close>

definition replay_after :: "watch_cursor \<Rightarrow> watch_hub \<Rightarrow> watch_event list" where
  "replay_after cursor h = filter (\<lambda>e. cu_sequence cursor < we_sequence e) (hb_history h)"

text \<open>A full snapshot newer than the cursor stands for all earlier events.\<close>

definition backlog :: "watch_cursor \<Rightarrow> watch_hub \<Rightarrow> watch_event list" where
  "backlog cursor h =
     (case hb_snapshot h of
        Some e \<Rightarrow> if cu_sequence cursor < we_sequence e
                  then e # filter (\<lambda>x. we_sequence e < we_sequence x) (replay_after cursor h)
                  else replay_after cursor h
      | None \<Rightarrow> replay_after cursor h)"

definition must_resync :: "watch_cursor \<Rightarrow> watch_hub \<Rightarrow> bool" where
  "must_resync cursor h \<longleftrightarrow>
     (case replay_after cursor h of [] \<Rightarrow> False | e # _ \<Rightarrow> cu_sequence cursor + 1 < we_sequence e)
     \<or> hb_generation h < cu_generation cursor"

definition subscribe :: "watch_cursor \<Rightarrow> watch_hub \<Rightarrow> nat \<times> watch_hub" where
  "subscribe cursor h =
     (let i = hb_next h + 1;
          h1 = set_client i (new_client cursor)
                 (h\<lparr>hb_next := i, hb_members := hb_members h @ [i], hb_subscribed := insert i (hb_subscribed h)\<rparr>)
      in (i, if must_resync cursor h then enqueue_resync i h1
             else if replay_after cursor h \<noteq> []
             then fold (enqueue i) (drop (length (backlog cursor h) - hb_queue_size h) (backlog cursor h)) h1
             else case hb_snapshot h of
                    Some e \<Rightarrow> if cu_generation cursor < we_generation e then enqueue i e h1 else h1
                  | None \<Rightarrow> h1))"

definition unsubscribe :: "nat \<Rightarrow> watch_hub \<Rightarrow> watch_hub" where
  "unsubscribe i h =
     (let h1 = set_client i ((hb_objects h i)\<lparr>wc_disconnected := True\<rparr>) h
      in if i \<in> hb_subscribed h
         then h1\<lparr>hb_members := removeAll i (hb_members h), hb_subscribed := hb_subscribed h - {i}\<rparr> else h1)"

text \<open>One client of a publication.\<close>

definition publish_to :: "watch_event \<Rightarrow> nat \<Rightarrow> watch_hub \<Rightarrow> watch_hub" where
  "publish_to item i h =
     (if i \<notin> hb_subscribed h \<or> wc_disconnected (hb_objects h i) then h\<lparr>hb_members := removeAll i (hb_members h)\<rparr>
      else let h1 = enqueue i item h
           in if wc_disconnected (hb_objects h1 i)
              then h1\<lparr>hb_members := removeAll i (hb_members h1), hb_subscribed := hb_subscribed h1 - {i}\<rparr> else h1)"

definition last_events :: "nat \<Rightarrow> watch_event list \<Rightarrow> watch_event list" where
  "last_events n es = drop (length es - n) es"

definition publish :: "nat list \<Rightarrow> string \<Rightarrow> json \<Rightarrow> int \<Rightarrow> bool \<Rightarrow> watch_hub \<Rightarrow> watch_event outcome \<times> watch_hub" where
  "publish visit kind payload generation full h =
     (if generation < hb_generation h then (Inl (Value_Error ''stale generation''), h)
      else let s = hb_sequence h + 1; h1 = h\<lparr>hb_sequence := s, hb_generation := generation\<rparr>
           in case make_event \<lparr>we_sequence = s, we_generation = generation, we_kind = kind, we_payload = payload, we_full = full\<rparr> of
                Inl e \<Rightarrow> (Inl e, h1)
              | Inr item \<Rightarrow>
                  let h2 = h1\<lparr>hb_history := last_events (hb_history_size h) (hb_history h @ [item]),
                              hb_snapshot := (if full then Some item else hb_snapshot h)\<rparr>
                  in (Inr item, fold (publish_to item) visit h2))"

text \<open>The consumer takes the next event, or a heartbeat when its wait times out.\<close>

definition take_event :: "nat \<Rightarrow> watch_hub \<Rightarrow> watch_event \<times> watch_hub" where
  "take_event i h =
     (case wc_queue (hb_objects h i) of
        e # es \<Rightarrow> (e, set_client i ((hb_objects h i)\<lparr>wc_queue := es\<rparr>) h)
      | [] \<Rightarrow> (\<lparr>we_sequence = hb_sequence h, we_generation = hb_generation h, we_kind = ''heartbeat'', we_payload = JObj [],
                we_full = False\<rparr>, h))"

definition heartbeat :: "rat \<Rightarrow> nat \<Rightarrow> watch_hub \<Rightarrow> watch_event outcome \<times> watch_hub" where
  "heartbeat timeout i h =
     (if timeout \<le> 0 \<or> 300 < timeout then (Inl (Value_Error ''heartbeat timeout out of range''), h)
      else case take_event i h of (e, h') \<Rightarrow> (Inr e, h'))"

section \<open>Histories\<close>

datatype hub_op =
    Hub_Subscribe watch_cursor
  | Hub_Unsubscribe nat
  | Hub_Publish "nat list" string json int bool
  | Hub_Take nat

text \<open>The hub with what its clients took and what was published.  A visiting order that is none of the client set is no step.\<close>

record hub_world =
  hw_hub :: watch_hub
  hw_taken :: "nat \<Rightarrow> watch_event list"
  hw_published :: "watch_event list"

fun hub_step :: "hub_op \<Rightarrow> hub_world \<Rightarrow> hub_world" where
  "hub_step (Hub_Subscribe cursor) w = w\<lparr>hw_hub := snd (subscribe cursor (hw_hub w))\<rparr>"
| "hub_step (Hub_Unsubscribe i) w = w\<lparr>hw_hub := unsubscribe i (hw_hub w)\<rparr>"
| "hub_step (Hub_Publish visit kind payload generation full) w =
     (if distinct visit \<and> set visit = set (hb_members (hw_hub w))
      then case publish visit kind payload generation full (hw_hub w) of
             (Inl e, h) \<Rightarrow> w\<lparr>hw_hub := h\<rparr>
           | (Inr item, h) \<Rightarrow> w\<lparr>hw_hub := h, hw_published := hw_published w @ [item]\<rparr>
      else w)"
| "hub_step (Hub_Take i) w =
     (if wc_queue (hb_objects (hw_hub w) i) = [] then w
      else w\<lparr>hw_hub := snd (take_event i (hw_hub w)), hw_taken := (hw_taken w)(i := hw_taken w i @ [fst (take_event i (hw_hub w))])\<rparr>)"

definition hub_run :: "hub_op list \<Rightarrow> hub_world \<Rightarrow> hub_world" where
  "hub_run ops w = fold hub_step ops w"

text \<open>What a client gets: what it took, then what is queued.\<close>

definition stream :: "hub_world \<Rightarrow> nat \<Rightarrow> watch_event list" where
  "stream w i = hw_taken w i @ wc_queue (hb_objects (hw_hub w) i)"

definition later :: "watch_event \<Rightarrow> watch_event \<Rightarrow> bool" where
  "later a b \<longleftrightarrow> we_sequence a < we_sequence b \<and> we_generation a \<le> we_generation b"

abbreviation ordered :: "watch_event list \<Rightarrow> bool" where
  "ordered \<equiv> sorted_wrt later"

definition known_to :: "watch_hub \<Rightarrow> watch_event \<Rightarrow> bool" where
  "known_to h e \<longleftrightarrow> we_sequence e \<le> hb_sequence h \<and> we_generation e \<le> hb_generation h"

text \<open>The hub and its clients are consistent with what was published.\<close>

definition queues_ok :: "hub_world \<Rightarrow> bool" where
  "queues_ok w \<longleftrightarrow> (\<forall>i. ordered (stream w i) \<and> list_all (known_to (hw_hub w)) (stream w i)
     \<and> length (wc_queue (hb_objects (hw_hub w) i)) \<le> hb_queue_size (hw_hub w))"

definition log_ok :: "hub_world \<Rightarrow> bool" where
  "log_ok w \<longleftrightarrow> ordered (hw_published w) \<and> list_all (known_to (hw_hub w)) (hw_published w)
     \<and> hb_history (hw_hub w) = last_events (hb_history_size (hw_hub w)) (hw_published w)
     \<and> (\<forall>e. hb_snapshot (hw_hub w) = Some e \<longrightarrow> e \<in> set (hw_published w) \<and> we_full e)"

definition members_ok :: "hub_world \<Rightarrow> bool" where
  "members_ok w \<longleftrightarrow> 1 \<le> hb_queue_size (hw_hub w) \<and> 0 \<notin> set (hb_members (hw_hub w))
     \<and> (\<forall>i. hb_next (hw_hub w) < i \<longrightarrow> stream w i = [] \<and> i \<notin> hb_subscribed (hw_hub w) \<and> i \<notin> set (hb_members (hw_hub w)))
     \<and> (\<forall>i. i \<le> hb_next (hw_hub w) \<and> 0 < i \<and> \<not> wc_disconnected (hb_objects (hw_hub w) i)
          \<longrightarrow> i \<in> hb_subscribed (hw_hub w) \<and> i \<in> set (hb_members (hw_hub w)))"

section \<open>Delivery keeps the order\<close>

lemma later_trans: "later a b \<Longrightarrow> later b c \<Longrightarrow> later a c"
  by (simp add: later_def)

lemma enqueue_fields [simp]:
  "hb_queue_size (enqueue i e h) = hb_queue_size h" "hb_history_size (enqueue i e h) = hb_history_size h"
  "hb_max_overflows (enqueue i e h) = hb_max_overflows h" "hb_history (enqueue i e h) = hb_history h"
  "hb_members (enqueue i e h) = hb_members h" "hb_subscribed (enqueue i e h) = hb_subscribed h"
  "hb_next (enqueue i e h) = hb_next h" "hb_generation (enqueue i e h) = hb_generation h" "hb_snapshot (enqueue i e h) = hb_snapshot h"
  "hb_sequence h \<le> hb_sequence (enqueue i e h)" "j \<noteq> i \<Longrightarrow> hb_objects (enqueue i e h) j = hb_objects h j"
  by (simp_all add: enqueue_def set_client_def Let_def)

text \<open>The three outcomes of a delivery.\<close>

lemma enqueue_cases:
  obtains (gone) "wc_disconnected (hb_objects h i)" "enqueue i e h = h"
  | (put) "\<not> wc_disconnected (hb_objects h i)" "length (wc_queue (hb_objects h i)) < hb_queue_size h"
      "wc_queue (hb_objects (enqueue i e h) i) = wc_queue (hb_objects h i) @ [e]"
      "\<not> wc_disconnected (hb_objects (enqueue i e h) i)" "hb_sequence (enqueue i e h) = hb_sequence h"
  | (marker) "\<not> wc_disconnected (hb_objects h i)" "hb_queue_size h \<le> length (wc_queue (hb_objects h i))"
      "wc_queue (hb_objects (enqueue i e h) i) = [resync_marker (hb_sequence h + 1) (we_generation e)]"
      "hb_sequence (enqueue i e h) = hb_sequence h + 1"
  by (cases "wc_disconnected (hb_objects h i)"; cases "length (wc_queue (hb_objects h i)) < hb_queue_size h")
    (simp_all add: enqueue_def set_client_def Let_def)

lemma known_to_mono: "known_to h e \<Longrightarrow> hb_sequence h \<le> hb_sequence h' \<Longrightarrow> hb_generation h \<le> hb_generation h' \<Longrightarrow> known_to h' e"
  by (simp add: known_to_def)

lemma enqueue_stream_other: "j \<noteq> i \<Longrightarrow> stream (w\<lparr>hw_hub := enqueue i e (hw_hub w)\<rparr>) j = stream w j"
  by (simp add: stream_def)

lemma ordered_snoc: "ordered (xs @ [e]) \<longleftrightarrow> ordered xs \<and> list_all (\<lambda>x. later x e) xs"
  by (auto simp: sorted_wrt_append list_all_iff)

lemma enqueue_queues:
  assumes "queues_ok w" "list_all (\<lambda>x. later x e) (stream w i)" "known_to (hw_hub w) e" "1 \<le> hb_queue_size (hw_hub w)"
  shows "queues_ok (w\<lparr>hw_hub := enqueue i e (hw_hub w)\<rparr>)"
proof -
  let ?h = "hw_hub w" and ?h' = "enqueue i e (hw_hub w)"
  have mono: "known_to ?h x \<Longrightarrow> known_to ?h' x" for x by (erule known_to_mono) simp_all
  have all: "ordered (stream w j)" "list_all (known_to ?h) (stream w j)" "length (wc_queue (hb_objects ?h j)) \<le> hb_queue_size ?h" for j
    using assms(1) by (simp_all add: queues_ok_def)
  have "ordered (stream (w\<lparr>hw_hub := ?h'\<rparr>) i) \<and> list_all (known_to ?h') (stream (w\<lparr>hw_hub := ?h'\<rparr>) i)
      \<and> length (wc_queue (hb_objects ?h' i)) \<le> hb_queue_size ?h'"
  proof (cases rule: enqueue_cases [of ?h i e])
    case gone
    with all [of i] show ?thesis by (simp add: stream_def)
  next
    case put
    then have "stream (w\<lparr>hw_hub := ?h'\<rparr>) i = stream w i @ [e]" by (simp add: stream_def)
    with put all [of i] assms(2,3) mono show ?thesis by (simp add: ordered_snoc list_all_iff)
  next
    case marker
    let ?m = "resync_marker (hb_sequence ?h + 1) (we_generation e)"
    have stream: "stream (w\<lparr>hw_hub := ?h'\<rparr>) i = hw_taken w i @ [?m]" using marker by (simp add: stream_def)
    have taken: "ordered (hw_taken w i)" "list_all (known_to ?h) (hw_taken w i)" "list_all (\<lambda>x. later x e) (hw_taken w i)"
      using all [of i] assms(2) by (simp_all add: stream_def sorted_wrt_append)
    then have "list_all (\<lambda>x. later x ?m) (hw_taken w i)"
      by (auto simp: list_all_iff later_def known_to_def resync_marker_def)
    moreover have "known_to ?h' ?m" using marker assms(3) by (simp add: known_to_def resync_marker_def)
    ultimately show ?thesis using taken stream marker assms(4) mono by (simp add: ordered_snoc list_all_iff)
  qed
  moreover have "ordered (stream (w\<lparr>hw_hub := ?h'\<rparr>) j) \<and> list_all (known_to ?h') (stream (w\<lparr>hw_hub := ?h'\<rparr>) j)
      \<and> length (wc_queue (hb_objects ?h' j)) \<le> hb_queue_size ?h'" if "j \<noteq> i" for j
    using that all [of j] mono by (simp add: enqueue_stream_other list_all_iff)
  ultimately show ?thesis unfolding queues_ok_def by (metis hub_world.select_convs(1) hub_world.surjective hub_world.update_convs(1))
qed

text \<open>Fields that deliveries do not read.\<close>

lemma stream_fields [simp]:
  "stream (w\<lparr>hw_hub := h\<lparr>hb_members := m\<rparr>\<rparr>) i = stream (w\<lparr>hw_hub := h\<rparr>) i"
  "stream (w\<lparr>hw_hub := h\<lparr>hb_subscribed := n\<rparr>\<rparr>) i = stream (w\<lparr>hw_hub := h\<rparr>) i"
  "stream (w\<lparr>hw_published := p\<rparr>) i = stream w i"
  by (simp_all add: stream_def)

lemma queues_ok_fields [simp]:
  "queues_ok (w\<lparr>hw_hub := h\<lparr>hb_members := m\<rparr>\<rparr>) = queues_ok (w\<lparr>hw_hub := h\<rparr>)"
  "queues_ok (w\<lparr>hw_hub := h\<lparr>hb_subscribed := n\<rparr>\<rparr>) = queues_ok (w\<lparr>hw_hub := h\<rparr>)"
  "queues_ok (w\<lparr>hw_published := p\<rparr>) = queues_ok w"
  by (simp_all add: queues_ok_def known_to_def [abs_def])

lemma publish_to_fields [simp]:
  "hb_queue_size (publish_to e i h) = hb_queue_size h" "hb_history_size (publish_to e i h) = hb_history_size h"
  "hb_history (publish_to e i h) = hb_history h" "hb_next (publish_to e i h) = hb_next h"
  "hb_generation (publish_to e i h) = hb_generation h" "hb_snapshot (publish_to e i h) = hb_snapshot h"
  "hb_sequence h \<le> hb_sequence (publish_to e i h)" "j \<noteq> i \<Longrightarrow> hb_objects (publish_to e i h) j = hb_objects h j"
  by (simp_all add: publish_to_def Let_def)

lemma publish_to_queues:
  assumes "queues_ok w" "list_all (\<lambda>x. later x e) (stream w i)" "known_to (hw_hub w) e" "1 \<le> hb_queue_size (hw_hub w)"
  shows "queues_ok (w\<lparr>hw_hub := publish_to e i (hw_hub w)\<rparr>)"
  using enqueue_queues [OF assms] assms(1) by (simp add: publish_to_def Let_def)

lemma publish_fold_queues:
  assumes "queues_ok w" "distinct visit" "\<forall>i\<in>set visit. list_all (\<lambda>x. later x e) (stream w i)" "known_to (hw_hub w) e"
    "1 \<le> hb_queue_size (hw_hub w)"
  shows "queues_ok (w\<lparr>hw_hub := fold (publish_to e) visit (hw_hub w)\<rparr>)"
  using assms
proof (induction visit arbitrary: w)
  case (Cons i js)
  let ?w = "w\<lparr>hw_hub := publish_to e i (hw_hub w)\<rparr>"
  have "stream ?w j = stream w j" if "j \<in> set js" for j
  proof -
    from that Cons.prems(2) have "j \<noteq> i" by auto
    then show ?thesis by (simp add: stream_def)
  qed
  moreover have "known_to (hw_hub ?w) e" using Cons.prems(4) by (auto intro: known_to_mono)
  ultimately have "queues_ok (?w\<lparr>hw_hub := fold (publish_to e) js (hw_hub ?w)\<rparr>)"
    using Cons.prems by (intro Cons.IH publish_to_queues) auto
  then show ?case by simp
qed simp

lemma fold_enqueue:
  assumes "\<not> wc_disconnected (hb_objects h i)" "length (wc_queue (hb_objects h i)) + length ys \<le> hb_queue_size h"
  shows "wc_queue (hb_objects (fold (enqueue i) ys h) i) = wc_queue (hb_objects h i) @ ys
    \<and> \<not> wc_disconnected (hb_objects (fold (enqueue i) ys h) i) \<and> hb_sequence (fold (enqueue i) ys h) = hb_sequence h"
  using assms
proof (induction ys arbitrary: h)
  case (Cons y ys)
  show ?case
  proof (cases rule: enqueue_cases [of h i y])
    case put
    with Cons.IH [of "enqueue i y h"] Cons.prems show ?thesis by simp
  qed (use Cons.prems in auto)
qed simp

lemma fold_enqueue_fields [simp]:
  "hb_queue_size (fold (enqueue i) ys h) = hb_queue_size h" "hb_history_size (fold (enqueue i) ys h) = hb_history_size h"
  "hb_history (fold (enqueue i) ys h) = hb_history h" "hb_members (fold (enqueue i) ys h) = hb_members h"
  "hb_subscribed (fold (enqueue i) ys h) = hb_subscribed h" "hb_next (fold (enqueue i) ys h) = hb_next h"
  "hb_generation (fold (enqueue i) ys h) = hb_generation h" "hb_snapshot (fold (enqueue i) ys h) = hb_snapshot h"
  "j \<noteq> i \<Longrightarrow> hb_objects (fold (enqueue i) ys h) j = hb_objects h j"
  by (induction ys arbitrary: h) simp_all

lemma publish_fold_fields [simp]:
  "hb_queue_size (fold (publish_to e) js h) = hb_queue_size h" "hb_history_size (fold (publish_to e) js h) = hb_history_size h"
  "hb_history (fold (publish_to e) js h) = hb_history h" "hb_next (fold (publish_to e) js h) = hb_next h"
  "hb_generation (fold (publish_to e) js h) = hb_generation h" "hb_snapshot (fold (publish_to e) js h) = hb_snapshot h"
  by (induction js arbitrary: h) simp_all

lemma publish_fold_sequence: "hb_sequence h \<le> hb_sequence (fold (publish_to e) js h)"
  by (induction js arbitrary: h) (auto intro: order_trans [OF publish_to_fields(7)])

text \<open>The hub right after a client was added, before anything is queued for it.\<close>

definition joined :: "watch_cursor \<Rightarrow> watch_hub \<Rightarrow> watch_hub" where
  "joined cursor h = set_client (hb_next h + 1) (new_client cursor)
     (h\<lparr>hb_next := hb_next h + 1, hb_members := hb_members h @ [hb_next h + 1],
        hb_subscribed := insert (hb_next h + 1) (hb_subscribed h)\<rparr>)"

lemma joined_fields [simp]:
  "hb_queue_size (joined c h) = hb_queue_size h" "hb_history_size (joined c h) = hb_history_size h"
  "hb_history (joined c h) = hb_history h" "hb_generation (joined c h) = hb_generation h" "hb_snapshot (joined c h) = hb_snapshot h"
  "hb_sequence (joined c h) = hb_sequence h" "hb_next (joined c h) = Suc (hb_next h)"
  "hb_members (joined c h) = hb_members h @ [Suc (hb_next h)]" "hb_subscribed (joined c h) = insert (Suc (hb_next h)) (hb_subscribed h)"
  "hb_objects (joined c h) (Suc (hb_next h)) = new_client c" "j \<noteq> Suc (hb_next h) \<Longrightarrow> hb_objects (joined c h) j = hb_objects h j"
  by (simp_all add: joined_def set_client_def)

lemma new_client_fields [simp]: "wc_queue (new_client c) = []" "\<not> wc_disconnected (new_client c)"
  by (simp_all add: new_client_def)

text \<open>What a new client finds in its queue.\<close>

definition greeting :: "watch_cursor \<Rightarrow> watch_hub \<Rightarrow> watch_event list" where
  "greeting cursor h =
     (if must_resync cursor h
      then (case hb_snapshot h of Some e \<Rightarrow> [e] | None \<Rightarrow> [resync_marker (hb_sequence h + 1) (hb_generation h)])
      else if replay_after cursor h \<noteq> [] then drop (length (backlog cursor h) - hb_queue_size h) (backlog cursor h)
      else case hb_snapshot h of Some e \<Rightarrow> if cu_generation cursor < we_generation e then [e] else [] | None \<Rightarrow> [])"

definition greeted :: "watch_cursor \<Rightarrow> watch_hub \<Rightarrow> watch_hub" where
  "greeted cursor h = (if must_resync cursor h \<and> hb_snapshot h = None then h\<lparr>hb_sequence := hb_sequence h + 1\<rparr> else h)"

lemma joined_greeted: "(joined c h)\<lparr>hb_sequence := n\<rparr> = joined c (h\<lparr>hb_sequence := n\<rparr>)"
  by (simp add: joined_def set_client_def)

lemma subscribe_eq:
  "subscribe cursor h = (Suc (hb_next h), fold (enqueue (Suc (hb_next h))) (greeting cursor h) (joined cursor (greeted cursor h)))"
proof -
  have "subscribe cursor h = (Suc (hb_next h),
      if must_resync cursor h then enqueue_resync (Suc (hb_next h)) (joined cursor h)
      else if replay_after cursor h \<noteq> []
      then fold (enqueue (Suc (hb_next h))) (drop (length (backlog cursor h) - hb_queue_size h) (backlog cursor h)) (joined cursor h)
      else case hb_snapshot h of
             Some e \<Rightarrow> if cu_generation cursor < we_generation e then enqueue (Suc (hb_next h)) e (joined cursor h) else joined cursor h
           | None \<Rightarrow> joined cursor h)"
    by (simp add: subscribe_def joined_def Let_def split: option.split)
  then show ?thesis
    by (auto simp: greeting_def greeted_def enqueue_resync_def joined_greeted Let_def split: option.split)
qed

lemma greeting_fits: "1 \<le> hb_queue_size h \<Longrightarrow> length (greeting cursor h) \<le> hb_queue_size h"
  by (auto simp: greeting_def split: option.split)

section \<open>Invariants\<close>

lemma last_events_set: "set (last_events n es) \<subseteq> set es"
  by (simp add: last_events_def set_drop_subset)

lemma last_events_ordered: "ordered es \<Longrightarrow> ordered (last_events n es)"
  by (simp add: last_events_def sorted_wrt_drop)

lemma last_events_snoc: "last_events n (last_events n es @ [e]) = last_events n (es @ [e])"
  by (cases "length es \<le> n") (auto simp: last_events_def Suc_diff_le)

definition hub_ok :: "hub_world \<Rightarrow> bool" where
  "hub_ok w \<longleftrightarrow> queues_ok w \<and> log_ok w \<and> members_ok w"

lemma ordered_append_ord: "ordered xs \<Longrightarrow> a \<in> set xs \<Longrightarrow> b \<in> set xs \<Longrightarrow> we_sequence a < we_sequence b \<Longrightarrow> later a b"
  by (auto simp: sorted_wrt_iff_nth_less in_set_conv_nth later_def) (metis linorder_neqE_nat order_less_asym)

lemma backlog_ok:
  assumes "log_ok w"
  shows "ordered (backlog cursor (hw_hub w)) \<and> list_all (known_to (hw_hub w)) (backlog cursor (hw_hub w))
    \<and> set (backlog cursor (hw_hub w)) \<subseteq> set (hw_published w)"
proof -
  let ?r = "replay_after cursor (hw_hub w)"
  have r: "ordered ?r" "set ?r \<subseteq> set (hw_published w)"
    using assms last_events_set last_events_ordered by (auto simp: log_ok_def replay_after_def intro!: sorted_wrt_filter dest!: subsetD [OF last_events_set])
  have pb: "ordered (hw_published w)" "list_all (known_to (hw_hub w)) (hw_published w)"
    and snap: "\<And>e. hb_snapshot (hw_hub w) = Some e \<Longrightarrow> e \<in> set (hw_published w)"
    using assms by (auto simp: log_ok_def)
  have "ordered (backlog cursor (hw_hub w)) \<and> set (backlog cursor (hw_hub w)) \<subseteq> set (hw_published w)"
    using r snap ordered_append_ord [OF pb(1)]
    by (auto simp: backlog_def sorted_wrt_filter split: option.split)
  with pb(2) show ?thesis by (auto simp: list_all_iff)
qed

lemma greeting_ok:
  assumes "log_ok w"
  shows "ordered (greeting cursor (hw_hub w)) \<and> list_all (known_to (greeted cursor (hw_hub w))) (greeting cursor (hw_hub w))"
proof -
  let ?h = "hw_hub w"
  have snap: "known_to ?h e" if "hb_snapshot ?h = Some e" for e
    using assms that by (auto simp: log_ok_def list_all_iff)
  have "known_to (?h\<lparr>hb_sequence := hb_sequence ?h + 1\<rparr>) (resync_marker (hb_sequence ?h + 1) (hb_generation ?h))"
    by (simp add: known_to_def resync_marker_def)
  with snap backlog_ok [OF assms, of cursor] show ?thesis
    by (auto simp: greeting_def greeted_def sorted_wrt_drop list_all_iff dest: in_set_dropD split: option.split)
qed

lemma subscribe_queues:
  assumes "hub_ok w"
  shows "queues_ok (w\<lparr>hw_hub := snd (subscribe cursor (hw_hub w))\<rparr>)"
proof -
  let ?h = "hw_hub w" and ?g = "greeting cursor (hw_hub w)" and ?i = "Suc (hb_next (hw_hub w))"
  let ?j = "joined cursor (greeted cursor ?h)"
  let ?f = "fold (enqueue ?i) ?g ?j"
  have qs: "1 \<le> hb_queue_size ?h" and fresh: "hw_taken w ?i = []" using assms by (simp_all add: hub_ok_def members_ok_def stream_def)
  have next_same [simp]: "hb_next (greeted cursor ?h) = hb_next ?h" "hb_queue_size (greeted cursor ?h) = hb_queue_size ?h"
    "hb_generation (greeted cursor ?h) = hb_generation ?h" "hb_objects (greeted cursor ?h) = hb_objects ?h" "hb_sequence ?h \<le> hb_sequence (greeted cursor ?h)"
    by (simp_all add: greeted_def)
  have i: "hb_objects ?j ?i = new_client cursor" using joined_fields(10) [of cursor "greeted cursor ?h"] by simp
  have other: "hb_objects ?f k = hb_objects ?h k" if "k \<noteq> ?i" for k
    using that joined_fields(11) [of k "greeted cursor ?h" cursor] by simp
  have fold: "wc_queue (hb_objects ?f ?i) = ?g" "hb_sequence ?f = hb_sequence (greeted cursor ?h)"
    using fold_enqueue [of ?j ?i ?g] greeting_fits [OF qs, of cursor] i by simp_all
  have mono: "known_to ?h e \<Longrightarrow> known_to ?f e" "known_to (greeted cursor ?h) e \<Longrightarrow> known_to ?f e" for e
    by (erule known_to_mono; simp add: fold)+
  have "ordered (stream (w\<lparr>hw_hub := ?f\<rparr>) k) \<and> list_all (known_to ?f) (stream (w\<lparr>hw_hub := ?f\<rparr>) k)
      \<and> length (wc_queue (hb_objects ?f k)) \<le> hb_queue_size ?f" for k
  proof (cases "k = ?i")
    case True
    then show ?thesis
      using fresh fold greeting_ok [of w cursor] greeting_fits [OF qs, of cursor] assms mono(2)
      by (simp add: stream_def hub_ok_def list_all_iff)
  next
    case False
    have "stream (w\<lparr>hw_hub := ?f\<rparr>) k = stream w k" using False by (simp add: stream_def other)
    with assms other [OF False] mono(1) show ?thesis
      by (auto simp: hub_ok_def queues_ok_def list_all_iff)
  qed
  then show ?thesis by (simp add: queues_ok_def subscribe_eq)
qed

lemma publish_queues:
  assumes "hub_ok w" "distinct visit" "publish visit kind payload g full (hw_hub w) = (r, h)"
  shows "queues_ok (w\<lparr>hw_hub := h\<rparr>)"
proof -
  let ?h = "hw_hub w" and ?s = "hb_sequence (hw_hub w) + 1"
  let ?item = "\<lparr>we_sequence = ?s, we_generation = g, we_kind = kind, we_payload = payload, we_full = full\<rparr>"
  have ok: "queues_ok w" and qs: "1 \<le> hb_queue_size ?h" using assms(1) by (simp_all add: hub_ok_def members_ok_def)
  have stale: ?thesis if "g < hb_generation ?h" using assms(3) ok that by (auto simp: publish_def)
  show ?thesis
  proof (cases "g < hb_generation ?h")
    case False
    have grown: "queues_ok (w\<lparr>hw_hub := h'\<rparr>)" "stream (w\<lparr>hw_hub := h'\<rparr>) i = stream w i"
      if "hb_objects h' = hb_objects ?h" "hb_queue_size h' = hb_queue_size ?h" "hb_sequence h' = ?s" "hb_generation h' = g" for h' i
      using that ok known_to_mono [of ?h _ h'] False by (simp_all add: queues_ok_def stream_def list_all_iff)
    let ?h2 = "?h\<lparr>hb_sequence := ?s, hb_generation := g, hb_history := last_events (hb_history_size ?h) (hb_history ?h @ [?item]),
        hb_snapshot := (if full then Some ?item else hb_snapshot ?h)\<rparr>"
    have "list_all (\<lambda>x. later x ?item) (stream w i)" for i
      using ok False by (fastforce simp: queues_ok_def list_all_iff later_def known_to_def)
    then have "queues_ok (w\<lparr>hw_hub := ?h2, hw_hub := fold (publish_to ?item) visit ?h2\<rparr>)"
      using publish_fold_queues [of "w\<lparr>hw_hub := ?h2\<rparr>" visit ?item] grown [of ?h2] assms(2) qs by (simp add: known_to_def)
    with grown [of "?h\<lparr>hb_sequence := ?s, hb_generation := g\<rparr>"] assms(3) False show ?thesis
      by (auto simp: publish_def Let_def make_event_def split: if_split_asm)
  qed (rule stale)
qed

lemma publish_cases:
  obtains (refused) e where "publish visit kind payload g full h = (Inl e, h)"
  | (malformed) e where "hb_generation h \<le> g" "publish visit kind payload g full h = (Inl e, h\<lparr>hb_sequence := hb_sequence h + 1, hb_generation := g\<rparr>)"
  | (published) item where "hb_generation h \<le> g" "we_sequence item = hb_sequence h + 1" "we_generation item = g" "we_full item = full"
      "publish visit kind payload g full h = (Inr item, fold (publish_to item) visit
         (h\<lparr>hb_sequence := hb_sequence h + 1, hb_generation := g, hb_history := last_events (hb_history_size h) (hb_history h @ [item]),
            hb_snapshot := (if full then Some item else hb_snapshot h)\<rparr>))"
  by (cases "g < hb_generation h"; cases "make_event \<lparr>we_sequence = hb_sequence h + 1, we_generation = g, we_kind = kind, we_payload = payload, we_full = full\<rparr>")
    (auto simp: publish_def Let_def make_event_def split: if_split_asm)

lemma if_both: "P a \<Longrightarrow> P b \<Longrightarrow> P (if c then a else b)"
  by simp

lemma log_ok_cong: "hw_hub w = hw_hub w' \<Longrightarrow> hw_published w = hw_published w' \<Longrightarrow> log_ok w = log_ok w'"
  by (simp add: log_ok_def)

lemma queues_ok_cong: "hw_hub w = hw_hub w' \<Longrightarrow> hw_taken w = hw_taken w' \<Longrightarrow> queues_ok w = queues_ok w'"
  by (simp add: queues_ok_def stream_def)

lemma log_ok_hub:
  assumes "log_ok w" "hb_history h = hb_history (hw_hub w)" "hb_history_size h = hb_history_size (hw_hub w)"
    "hb_snapshot h = hb_snapshot (hw_hub w)" "hb_sequence (hw_hub w) \<le> hb_sequence h" "hb_generation (hw_hub w) \<le> hb_generation h"
  shows "log_ok (w\<lparr>hw_hub := h\<rparr>)"
  using assms by (auto simp: log_ok_def list_all_iff intro: known_to_mono)

lemma step_log:
  assumes "hub_ok w"
  shows "log_ok (hub_step op w)"
proof -
  have ok: "log_ok w" using assms by (simp add: hub_ok_def)
  show ?thesis
  proof (cases op)
    case (Hub_Subscribe cursor)
    have seq: "hb_sequence (hw_hub w) \<le> hb_sequence (fold (enqueue i) g (joined cursor (greeted cursor (hw_hub w))))" for i g
      by (induction g rule: rev_induct) (auto simp: greeted_def intro: order_trans [OF _ enqueue_fields(10)])
    show ?thesis
      by (simp add: Hub_Subscribe subscribe_eq, rule log_ok_hub [OF ok]) (use seq in \<open>simp_all add: greeted_def\<close>)
  next
    case (Hub_Unsubscribe i)
    then show ?thesis by (simp, intro log_ok_hub [OF ok]) (simp_all add: unsubscribe_def set_client_def Let_def)
  next
    case (Hub_Publish visit kind payload g full)
    let ?h = "hw_hub w"
    show ?thesis
    proof (cases rule: publish_cases [of visit kind payload g full ?h])
      case (published item)
      let ?h2 = "?h\<lparr>hb_sequence := hb_sequence ?h + 1, hb_generation := g, hb_history := last_events (hb_history_size ?h) (hb_history ?h @ [item]),
            hb_snapshot := (if full then Some item else hb_snapshot ?h)\<rparr>"
      have "log_ok (w\<lparr>hw_hub := ?h2, hw_published := hw_published w @ [item]\<rparr>)"
        using ok published(1-4)
        by (auto simp: log_ok_def last_events_snoc ordered_snoc list_all_iff later_def known_to_def)
      then have "log_ok (w\<lparr>hw_hub := ?h2, hw_published := hw_published w @ [item], hw_hub := fold (publish_to item) visit ?h2\<rparr>)"
        by (rule log_ok_hub) (use publish_fold_sequence [of ?h2 item visit] in simp_all)
      then have after: "log_ok (w\<lparr>hw_hub := fold (publish_to item) visit ?h2, hw_published := hw_published w @ [item]\<rparr>)"
        by (rule log_ok_cong [THEN iffD1, rotated 2]) simp_all
      show ?thesis unfolding Hub_Publish hub_step.simps published(5) prod.case sum.case using after ok by (rule if_both)
    qed (use ok in \<open>auto simp: Hub_Publish intro: log_ok_hub\<close>)
  next
    case (Hub_Take i)
    then show ?thesis
      using ok log_ok_hub [OF ok, of "snd (take_event i (hw_hub w))"]
      by (auto simp: take_event_def set_client_def log_ok_def list_all_iff known_to_def split: list.split)
  qed
qed

lemma step_queues:
  assumes "hub_ok w"
  shows "queues_ok (hub_step op w)"
proof -
  have ok: "queues_ok w" using assms by (simp add: hub_ok_def)
  show ?thesis
  proof (cases op)
    case (Hub_Subscribe cursor)
    with subscribe_queues [OF assms] show ?thesis by simp
  next
    case (Hub_Unsubscribe i)
    have "stream (w\<lparr>hw_hub := unsubscribe i (hw_hub w)\<rparr>) k = stream w k"
      "wc_queue (hb_objects (unsubscribe i (hw_hub w)) k) = wc_queue (hb_objects (hw_hub w) k)" for k
      by (simp_all add: stream_def unsubscribe_def set_client_def Let_def)
    moreover have "known_to (unsubscribe i (hw_hub w)) = known_to (hw_hub w)" "hb_queue_size (unsubscribe i (hw_hub w)) = hb_queue_size (hw_hub w)"
      by (simp_all add: fun_eq_iff known_to_def unsubscribe_def set_client_def Let_def)
    ultimately show ?thesis using ok by (simp add: Hub_Unsubscribe queues_ok_def)
  next
    case (Hub_Publish visit kind payload g full)
    obtain r h where p: "publish visit kind payload g full (hw_hub w) = (r, h)" by (cases "publish visit kind payload g full (hw_hub w)")
    have "queues_ok (w\<lparr>hw_hub := h, hw_published := es\<rparr>)" if "distinct visit" for es
      using publish_queues [OF assms that p] by (rule queues_ok_cong [THEN iffD1, rotated 2]) simp_all
    then show ?thesis using publish_queues [OF assms _ p] ok by (simp add: Hub_Publish p split: sum.split)
  next
    case (Hub_Take i)
    show ?thesis
    proof (cases "wc_queue (hb_objects (hw_hub w) i)")
      case (Cons e es)
      have "stream (hub_step op w) k = stream w k" "hb_queue_size (hw_hub (hub_step op w)) = hb_queue_size (hw_hub w)"
        "length (wc_queue (hb_objects (hw_hub (hub_step op w)) k)) \<le> length (wc_queue (hb_objects (hw_hub w) k))" for k
        using Cons by (simp_all add: Hub_Take stream_def take_event_def set_client_def)
      moreover have "known_to (hw_hub (hub_step op w)) = known_to (hw_hub w)"
        using Cons by (simp add: Hub_Take take_event_def set_client_def known_to_def fun_eq_iff)
      ultimately show ?thesis using ok by (auto simp: queues_ok_def intro: order_trans)
    qed (use ok in \<open>simp add: Hub_Take\<close>)
  qed
qed

lemma members_ok_cong:
  assumes "members_ok w" "hb_queue_size (hw_hub w') = hb_queue_size (hw_hub w)" "hb_next (hw_hub w') = hb_next (hw_hub w)"
    "\<And>i. hb_next (hw_hub w) < i \<Longrightarrow> stream w i = [] \<Longrightarrow> stream w' i = []"
    "hb_subscribed (hw_hub w') \<subseteq> hb_subscribed (hw_hub w)" "set (hb_members (hw_hub w')) \<subseteq> set (hb_members (hw_hub w))"
    "\<And>i. \<not> wc_disconnected (hb_objects (hw_hub w') i) \<Longrightarrow> \<not> wc_disconnected (hb_objects (hw_hub w) i)
       \<and> (i \<in> hb_subscribed (hw_hub w) \<longrightarrow> i \<in> hb_subscribed (hw_hub w'))
       \<and> (i \<in> set (hb_members (hw_hub w)) \<longrightarrow> i \<in> set (hb_members (hw_hub w')))"
  shows "members_ok w'"
  using assms unfolding members_ok_def by (metis subsetD)

lemma enqueue_connected: "\<not> wc_disconnected (hb_objects (enqueue i e h) j) \<Longrightarrow> \<not> wc_disconnected (hb_objects h j)"
  by (auto simp: enqueue_def set_client_def Let_def split: if_split_asm)

lemma publish_to_members:
  assumes "i \<in> hb_subscribed h \<or> wc_disconnected (hb_objects h i)"
  shows "hb_subscribed (publish_to e i h) \<subseteq> hb_subscribed h" "set (hb_members (publish_to e i h)) \<subseteq> set (hb_members h)"
    "\<not> wc_disconnected (hb_objects (publish_to e i h) j) \<Longrightarrow> \<not> wc_disconnected (hb_objects h j)
       \<and> (j \<in> hb_subscribed h \<longrightarrow> j \<in> hb_subscribed (publish_to e i h)) \<and> (j \<in> set (hb_members h) \<longrightarrow> j \<in> set (hb_members (publish_to e i h)))"
  using assms enqueue_connected [of i e h j]
  by (auto simp: publish_to_def Let_def split: if_split_asm)

lemma fold_publish_members:
  assumes "members_ok (w\<lparr>hw_hub := h\<rparr>)" "\<forall>i\<in>set js. 0 < i \<and> i \<le> hb_next h"
  shows "members_ok (w\<lparr>hw_hub := fold (publish_to e) js h\<rparr>)"
  using assms
proof (induction js arbitrary: h)
  case (Cons i js)
  have i: "i \<in> hb_subscribed h \<or> wc_disconnected (hb_objects h i)" "i \<le> hb_next h"
    using Cons.prems by (auto simp: members_ok_def)
  have "members_ok (w\<lparr>hw_hub := publish_to e i h\<rparr>)"
    using Cons.prems(1) by (rule members_ok_cong) (use i publish_to_members [OF i(1)] in \<open>auto simp: stream_def\<close>)
  then show ?case using Cons by simp
qed simp

lemma step_members:
  assumes "hub_ok w"
  shows "members_ok (hub_step op w)"
proof -
  have ok: "members_ok w" using assms by (simp add: hub_ok_def)
  show ?thesis
  proof (cases op)
    case (Hub_Subscribe cursor)
    let ?f = "fold (enqueue (Suc (hb_next (hw_hub w)))) (greeting cursor (hw_hub w)) (joined cursor (greeted cursor (hw_hub w)))"
    have "hb_objects ?f k = hb_objects (hw_hub w) k" if "k \<noteq> Suc (hb_next (hw_hub w))" for k
      using that joined_fields(11) [of k "greeted cursor (hw_hub w)" cursor] by (simp add: greeted_def)
    then show ?thesis using ok
      by (auto simp: Hub_Subscribe subscribe_eq members_ok_def stream_def greeted_def less_Suc_eq_le le_Suc_eq)
  next
    case (Hub_Unsubscribe i)
    show ?thesis using ok
      by (rule members_ok_cong) (auto simp: Hub_Unsubscribe unsubscribe_def set_client_def Let_def stream_def split: if_split_asm)
  next
    case (Hub_Publish visit kind payload g full)
    let ?h = "hw_hub w"
    have other: "members_ok (w\<lparr>hw_hub := h', hw_published := es\<rparr>)" if "members_ok (w\<lparr>hw_hub := h'\<rparr>)" for h' es
      using that by (simp add: members_ok_def stream_def)
    have visited: "\<forall>i\<in>set (hb_members ?h). 0 < i \<and> i \<le> hb_next ?h"
      using ok unfolding members_ok_def by (metis gr0I leI)
    have same: "members_ok (w\<lparr>hw_hub := h'\<rparr>)" if "hb_queue_size h' = hb_queue_size ?h" "hb_next h' = hb_next ?h" "hb_objects h' = hb_objects ?h"
      "hb_subscribed h' = hb_subscribed ?h" "hb_members h' = hb_members ?h" for h'
      using that ok by (simp add: members_ok_def stream_def)
    show ?thesis
    proof (cases rule: publish_cases [of visit kind payload g full ?h])
      case (published item)
      let ?h2 = "?h\<lparr>hb_sequence := hb_sequence ?h + 1, hb_generation := g, hb_history := last_events (hb_history_size ?h) (hb_history ?h @ [item]),
            hb_snapshot := (if full then Some item else hb_snapshot ?h)\<rparr>"
      have "members_ok (w\<lparr>hw_hub := fold (publish_to item) visit ?h2, hw_published := hw_published w @ [item]\<rparr>)"
        if "set visit = set (hb_members ?h)"
        using visited that by (intro other fold_publish_members same) simp_all
      with ok published show ?thesis by (simp add: Hub_Publish)
    qed (use ok same in \<open>auto simp: Hub_Publish\<close>)
  next
    case (Hub_Take i)
    then show ?thesis
      using ok by (auto intro!: members_ok_cong [OF ok] simp: take_event_def set_client_def stream_def split: list.split if_split_asm)
  qed
qed

lemma hub_step_ok: "hub_ok w \<Longrightarrow> hub_ok (hub_step op w)"
  using step_queues step_log step_members by (simp add: hub_ok_def)

lemma hub_run_ok: "hub_ok w \<Longrightarrow> hub_ok (hub_run ops w)"
  unfolding hub_run_def by (induction ops arbitrary: w) (simp_all add: hub_step_ok)

definition start_world :: "watch_hub \<Rightarrow> hub_world" where
  "start_world h = \<lparr>hw_hub = h, hw_taken = (\<lambda>_. []), hw_published = []\<rparr>"

lemma start_ok: "new_hub q n m = Inr h \<Longrightarrow> hub_ok (start_world h)"
  by (auto simp: new_hub_def start_world_def hub_ok_def queues_ok_def log_ok_def members_ok_def stream_def last_events_def split: if_split_asm)

section \<open>Nothing published is lost in silence\<close>

text \<open>A client has the event, or a later full view that stands for it, or it was dropped.\<close>

definition reached :: "hub_world \<Rightarrow> nat \<Rightarrow> watch_event \<Rightarrow> bool" where
  "reached w i e \<longleftrightarrow> e \<in> set (stream w i) \<or> list_ex (\<lambda>x. we_full x \<and> we_sequence e < we_sequence x) (stream w i)
     \<or> wc_disconnected (hb_objects (hw_hub w) i)"

lemma reached_same:
  assumes "reached w i e" "stream w' i = stream w i"
    "wc_disconnected (hb_objects (hw_hub w) i) \<longrightarrow> wc_disconnected (hb_objects (hw_hub w') i)"
  shows "reached w' i e"
  using assms by (auto simp: reached_def)

lemma enqueue_reached:
  assumes "reached (w\<lparr>hw_hub := h\<rparr>) i e" "we_sequence e \<le> hb_sequence h"
  shows "reached (w\<lparr>hw_hub := enqueue j x h\<rparr>) i e"
proof (cases "j = i")
  case True
  show ?thesis
    by (cases rule: enqueue_cases [of h i x])
      (use True assms in \<open>auto simp: reached_def stream_def resync_marker_def\<close>)
next
  case False
  show ?thesis using assms(1) by (rule reached_same) (use False in \<open>simp_all add: stream_def\<close>)
qed

lemma enqueue_reaches:
  assumes "we_sequence e \<le> hb_sequence h"
  shows "reached (w\<lparr>hw_hub := enqueue i e h\<rparr>) i e"
  by (cases rule: enqueue_cases [of h i e]) (use assms in \<open>auto simp: reached_def stream_def resync_marker_def\<close>)

lemma publish_to_reached:
  assumes "reached (w\<lparr>hw_hub := h\<rparr>) i e" "we_sequence e \<le> hb_sequence h"
  shows "reached (w\<lparr>hw_hub := publish_to x j h\<rparr>) i e"
  using assms enqueue_reached [OF assms, of j x]
  by (simp add: publish_to_def Let_def reached_def stream_def)

lemma fold_publish_reached:
  assumes "reached (w\<lparr>hw_hub := h\<rparr>) i e" "we_sequence e \<le> hb_sequence h"
  shows "reached (w\<lparr>hw_hub := fold (publish_to x) js h\<rparr>) i e"
  using assms
proof (induction js arbitrary: h)
  case (Cons j js)
  then show ?case using publish_to_reached order_trans [OF _ publish_to_fields(7)] by simp
qed simp

lemma fold_enqueue_reached:
  assumes "reached (w\<lparr>hw_hub := h\<rparr>) i e" "we_sequence e \<le> hb_sequence h"
  shows "reached (w\<lparr>hw_hub := fold (enqueue j) xs h\<rparr>) i e"
  using assms
proof (induction xs arbitrary: h)
  case (Cons x xs)
  then show ?case using enqueue_reached order_trans [OF _ enqueue_fields(10)] by simp
qed simp

lemma fold_publish_reaches:
  assumes "i \<in> set js" "we_sequence e \<le> hb_sequence h" "i \<in> hb_subscribed h \<or> wc_disconnected (hb_objects h i)"
  shows "reached (w\<lparr>hw_hub := fold (publish_to e) js h\<rparr>) i e"
  using assms
proof (induction js arbitrary: h)
  case (Cons j js)
  have seq: "we_sequence e \<le> hb_sequence (publish_to e j h)" using Cons.prems(2) order_trans publish_to_fields(7) by blast
  show ?case
  proof (cases "j = i")
    case True
    have "reached (w\<lparr>hw_hub := publish_to e i h\<rparr>) i e"
      using Cons.prems(2,3) enqueue_reaches [where e = e and h = h and w = w and i = i]
      by (auto simp: publish_to_def Let_def reached_def stream_def)
    with seq True fold_publish_reached show ?thesis by simp
  next
    case False
    with Cons seq show ?thesis by (auto simp: publish_to_def Let_def)
  qed
qed simp

lemma step_reached:
  assumes "hub_ok w" "we_sequence e \<le> hb_sequence (hw_hub w)" "i \<le> hb_next (hw_hub w)" "reached w i e"
  shows "reached (hub_step op w) i e"
proof (cases op)
  case (Hub_Subscribe cursor)
  let ?j = "joined cursor (greeted cursor (hw_hub w))"
  have "reached (w\<lparr>hw_hub := ?j\<rparr>) i e"
    using assms(4) by (rule reached_same) (use assms(3) in \<open>simp_all add: stream_def greeted_def\<close>)
  moreover have "we_sequence e \<le> hb_sequence ?j" using assms(2) by (simp add: greeted_def)
  ultimately show ?thesis by (simp add: Hub_Subscribe subscribe_eq fold_enqueue_reached)
next
  case (Hub_Unsubscribe j)
  show ?thesis using assms(4) by (rule reached_same) (simp_all add: Hub_Unsubscribe stream_def unsubscribe_def set_client_def Let_def)
next
  case (Hub_Publish visit kind payload g full)
  have other: "reached (w\<lparr>hw_hub := h', hw_published := es\<rparr>) i e" if "reached (w\<lparr>hw_hub := h'\<rparr>) i e" for h' es
    using that by (simp add: reached_def stream_def)
  show ?thesis
  proof (cases rule: publish_cases [of visit kind payload g full "hw_hub w"])
    case (published item)
    show ?thesis unfolding Hub_Publish hub_step.simps published(5) prod.case sum.case
      by (rule if_both, intro other fold_publish_reached)
        (use assms(2,4) in \<open>simp_all add: reached_def stream_def\<close>)
  qed (use assms(4) in \<open>auto simp: Hub_Publish reached_def stream_def\<close>)
next
  case (Hub_Take j)
  show ?thesis using assms(4)
    by (rule reached_same) (auto simp: Hub_Take stream_def take_event_def set_client_def split: list.split)
qed

lemma step_published:
  assumes "hub_ok w"
  shows "hw_published (hub_step op w) = hw_published w
    \<or> (\<exists>item. hw_published (hub_step op w) = hw_published w @ [item]
         \<and> (\<forall>i. 0 < i \<and> i \<le> hb_next (hw_hub w) \<longrightarrow> reached (hub_step op w) i item))"
proof (cases op)
  case (Hub_Publish visit kind payload g full)
  let ?h = "hw_hub w"
  show ?thesis
  proof (cases rule: publish_cases [of visit kind payload g full ?h])
    case (published item)
    let ?h2 = "?h\<lparr>hb_sequence := hb_sequence ?h + 1, hb_generation := g, hb_history := last_events (hb_history_size ?h) (hb_history ?h @ [item]),
            hb_snapshot := (if full then Some item else hb_snapshot ?h)\<rparr>"
    have "reached (w\<lparr>hw_hub := fold (publish_to item) visit ?h2\<rparr>) i item"
      if "0 < i" "i \<le> hb_next ?h" "set visit = set (hb_members ?h)" for i
    proof (cases "wc_disconnected (hb_objects ?h i)")
      case True
      then have "reached (w\<lparr>hw_hub := ?h2\<rparr>) i item" by (simp add: reached_def)
      then show ?thesis by (rule fold_publish_reached) (use published in simp)
    next
      case False
      with that assms have "i \<in> hb_subscribed ?h" "i \<in> set visit" by (auto simp: hub_ok_def members_ok_def)
      then show ?thesis by (intro fold_publish_reaches) (use published in simp_all)
    qed
    then show ?thesis using published by (simp add: Hub_Publish reached_def stream_def)
  qed (simp_all add: Hub_Publish)
qed simp_all

lemma step_next: "hb_next (hw_hub w) \<le> hb_next (hw_hub (hub_step op w))"
proof (cases op)
  case (Hub_Publish visit kind payload g full)
  then show ?thesis by (cases rule: publish_cases [of visit kind payload g full "hw_hub w"]) simp_all
qed (simp_all add: subscribe_eq unsubscribe_def set_client_def take_event_def greeted_def Let_def split: list.split)

lemma run_snoc [simp]: "hub_run (ops @ [op]) w = hub_step op (hub_run ops w)" "hub_run [] w = w"
  by (simp_all add: hub_run_def)

lemma run_reached:
  assumes "hub_ok w" "0 < i" "i \<le> hb_next (hw_hub w)"
  shows "i \<le> hb_next (hw_hub (hub_run ops w)) \<and> length (hw_published w) \<le> length (hw_published (hub_run ops w))
    \<and> (\<forall>e \<in> set (drop (length (hw_published w)) (hw_published (hub_run ops w))). reached (hub_run ops w) i e)"
proof (induction ops rule: rev_induct)
  case (snoc op ops)
  let ?w = "hub_run ops w"
  have ok: "hub_ok ?w" using assms(1) by (rule hub_run_ok)
  have "we_sequence e \<le> hb_sequence (hw_hub ?w)" if "e \<in> set (hw_published ?w)" for e
    using ok that by (auto simp: hub_ok_def log_ok_def list_all_iff known_to_def)
  then have "reached (hub_step op ?w) i e" if "e \<in> set (drop (length (hw_published w)) (hw_published ?w))" for e
    using that snoc step_reached [OF ok] by (meson in_set_dropD)
  then show ?case
    using step_published [OF ok, of op] step_next [of ?w op] snoc assms(2) by auto
qed (use assms in simp)

lemma step_sizes:
  "hb_queue_size (hw_hub (hub_step op w)) = hb_queue_size (hw_hub w) \<and> hb_history_size (hw_hub (hub_step op w)) = hb_history_size (hw_hub w)"
proof (cases op)
  case (Hub_Publish visit kind payload g full)
  then show ?thesis by (cases rule: publish_cases [of visit kind payload g full "hw_hub w"]) simp_all
qed (simp_all add: subscribe_eq unsubscribe_def set_client_def take_event_def greeted_def Let_def split: list.split)

lemma run_sizes:
  "hb_queue_size (hw_hub (hub_run ops w)) = hb_queue_size (hw_hub w) \<and> hb_history_size (hw_hub (hub_run ops w)) = hb_history_size (hw_hub w)"
  by (induction ops rule: rev_induct) (simp_all add: step_sizes)

lemma start_sizes: "new_hub q n m = Inr h \<Longrightarrow> hb_queue_size (hw_hub (start_world h)) = q \<and> hb_history_size (hw_hub (start_world h)) = n"
  by (auto simp: new_hub_def start_world_def split: if_split_asm)

text \<open>A subscription whose cursor has fallen out of the history is resynchronised from the last full snapshot alone: the deltas
  after that snapshot, though still in the history, are not sent.\<close>

definition sample_log :: "bool list \<Rightarrow> hub_op list" where
  "sample_log fulls = map (Hub_Publish [] ''state'' (JObj []) 0) fulls"

definition sample_hub :: "nat \<Rightarrow> nat \<Rightarrow> hub_world" where
  "sample_hub q n = (case new_hub q n 2 of Inr h \<Rightarrow> start_world h)"

lemma resync_skips_deltas:
  "let w = hub_run (sample_log [True, False, False, False] @ [Hub_Subscribe \<lparr>cu_sequence = 1, cu_generation = 0\<rparr>]) (sample_hub 8 2)
   in map we_sequence (hb_history (hw_hub w)) = [3, 4] \<and> map we_sequence (stream w 1) = [1]"
  by code_simp

text \<open>A backlog longer than the queue loses its oldest events with no resync marker.\<close>

lemma long_backlog_cut:
  "let w = hub_run (sample_log [False, False, False] @ [Hub_Subscribe \<lparr>cu_sequence = 0, cu_generation = 0\<rparr>]) (sample_hub 2 8)
   in map we_sequence (hb_history (hw_hub w)) = [1, 2, 3] \<and> map we_sequence (stream w 1) = [2, 3] \<and> \<not> list_ex we_full (stream w 1)"
  by code_simp

text \<open>After an overflow the cursor stands at the dropped event, one before the marker that replaced the queue.\<close>

lemma overflow_cursor_before_marker:
  "let w = hub_run [Hub_Subscribe \<lparr>cu_sequence = 0, cu_generation = 0\<rparr>, Hub_Publish [1] ''state'' (JObj []) 0 False,
                    Hub_Publish [1] ''state'' (JObj []) 0 False] (sample_hub 1 8)
   in map we_sequence (stream w 1) = [3] \<and> cu_sequence (wc_cursor (hb_objects (hw_hub w) 1)) = 2"
  by code_simp

text \<open>C29. Whatever is published after a client number was handed out, that client has the event, or a later full view that
  replaces it, or was disconnected; its stream has strictly increasing sequence numbers and generations that never fall back;
  its queue and the history stay within their bounds.\<close>

theorem watch_no_silent_loss:
  assumes "new_hub q n m = Inr h"
    and "w = hub_run before (start_world h)" "1 \<le> i" "i \<le> hb_next (hw_hub w)"
    and "w' = hub_run after w"
  shows "(\<forall>e \<in> set (drop (length (hw_published w)) (hw_published w')).
        e \<in> set (stream w' i) \<or> list_ex (\<lambda>x. we_full x \<and> we_sequence e < we_sequence x) (stream w' i)
        \<or> wc_disconnected (hb_objects (hw_hub w') i))
    \<and> sorted_wrt (\<lambda>a b. we_sequence a < we_sequence b \<and> we_generation a \<le> we_generation b) (stream w' i)
    \<and> length (wc_queue (hb_objects (hw_hub w') i)) \<le> q \<and> length (hb_history (hw_hub w')) \<le> n"
proof -
  have ok: "hub_ok w" "hub_ok w'" using start_ok [OF assms(1)] assms(2,5) hub_run_ok by simp_all
  have sizes: "hb_queue_size (hw_hub w') = q" "hb_history_size (hw_hub w') = n"
    using start_sizes [OF assms(1)] run_sizes assms(2,5) by simp_all
  have "sorted_wrt (\<lambda>a b. we_sequence a < we_sequence b \<and> we_generation a \<le> we_generation b) (stream w' i)"
    using ok(2) by (simp add: hub_ok_def queues_ok_def later_def [abs_def])
  then show ?thesis
    using run_reached [OF ok(1), of i after] assms(3-5) ok(2) sizes
    by (auto simp: reached_def hub_ok_def queues_ok_def log_ok_def last_events_def)
qed

theorem watch_no_silent_loss_witness:
  "let w = hub_run [Hub_Subscribe \<lparr>cu_sequence = 0, cu_generation = 0\<rparr>] (sample_hub 1 8);
       w' = hub_run [Hub_Publish [1] ''state'' (JObj []) 0 False, Hub_Publish [1] ''state'' (JObj []) 0 False] w
   in map we_sequence (hw_published w') = [1, 2] \<and> \<not> wc_disconnected (hb_objects (hw_hub w') 1) \<and> length (stream w' 1) = 1
      \<and> list_all (\<lambda>e. e \<in> set (stream w' 1) \<or> list_ex (\<lambda>x. we_full x \<and> we_sequence e < we_sequence x) (stream w' 1)) (hw_published w')"
proof -
  define w where "w = hub_run [Hub_Subscribe \<lparr>cu_sequence = 0, cu_generation = 0\<rparr>] (sample_hub 1 8)"
  define w' where "w' = hub_run [Hub_Publish [1] ''state'' (JObj []) 0 False, Hub_Publish [1] ''state'' (JObj []) 0 False] w"
  obtain h where h: "new_hub 1 8 2 = Inr h" by (simp add: new_hub_def)
  have w: "w = hub_run [Hub_Subscribe \<lparr>cu_sequence = 0, cu_generation = 0\<rparr>] (start_world h)" using h by (simp add: w_def sample_hub_def)
  have eval: "hb_next (hw_hub w) = 1 \<and> hw_published w = [] \<and> map we_sequence (hw_published w') = [1, 2]
      \<and> \<not> wc_disconnected (hb_objects (hw_hub w') 1) \<and> length (stream w' 1) = 1"
    unfolding w'_def w_def by code_simp
  have "\<forall>e \<in> set (hw_published w'). e \<in> set (stream w' 1) \<or> list_ex (\<lambda>x. we_full x \<and> we_sequence e < we_sequence x) (stream w' 1)"
    using watch_no_silent_loss [OF h w _ _ w'_def, of 1] eval by simp
  with eval show ?thesis unfolding Let_def list_all_iff w'_def w_def by blast
qed

end
