(* ===== verification/Player_Sessions.thy ===== *)
theory Player_Sessions
  imports Control_State "HOL-Library.List_Lexorder" "HOL-Library.Char_ord"
begin

text \<open>
  Player sessions: the diff engine of \<^verbatim>\<open>sessions.py\<close> and its persistence in \<^verbatim>\<open>session_store.py\<close>.

  The tracker keeps the open sessions of each profile in memory; the store writes the resulting events, player-count samples and the
  retention statements in one transaction.  A transaction that fails rolls the tables back and keeps what memory already holds.
  Session ids are successive draws of \<open>uuid\<close>.  A time stamp is the text of an instant, or a text that is none.
\<close>

section \<open>The tracker\<close>

datatype stamp = At instant | Ill_Formed

datatype session_kind = Opened | Closed

record session_event =
  sv_kind :: session_kind
  sv_id :: string
  sv_profile :: string
  sv_player :: string
  sv_at :: stamp

record tracker =
  tr_open :: "string \<Rightarrow> (string \<times> string) list" \<comment> \<open>player and session id, per profile\<close>
  tr_drawn :: nat

definition arrivals :: "string list \<Rightarrow> (string \<times> string) list \<Rightarrow> string list" where
  "arrivals names current = sort (remdups (filter (\<lambda>n. n \<notin> fst ` set current) names))"

definition departures :: "string list \<Rightarrow> (string \<times> string) list \<Rightarrow> (string \<times> string) list" where
  "departures names current = sort_key fst (filter (\<lambda>e. fst e \<notin> set names) current)"

definition fresh_ids :: "(nat \<Rightarrow> string) \<Rightarrow> nat \<Rightarrow> nat \<Rightarrow> string list" where
  "fresh_ids uuid drawn n = map uuid [drawn..<drawn + n]"

definition tracker_observe :: "(nat \<Rightarrow> string) \<Rightarrow> string \<Rightarrow> string list option \<Rightarrow> stamp \<Rightarrow> tracker \<Rightarrow> session_event list \<times> tracker" where
  "tracker_observe uuid p names now tr =
     (case names of
        None \<Rightarrow> ([], tr)
      | Some ns \<Rightarrow>
          let current = tr_open tr p;
              new = zip (arrivals ns current) (fresh_ids uuid (tr_drawn tr) (length (arrivals ns current)));
              gone = departures ns current
          in (map (\<lambda>(n, i). \<lparr>sv_kind = Opened, sv_id = i, sv_profile = p, sv_player = n, sv_at = now\<rparr>) new
                @ map (\<lambda>(n, i). \<lparr>sv_kind = Closed, sv_id = i, sv_profile = p, sv_player = n, sv_at = now\<rparr>) gone,
              tr\<lparr>tr_open := (tr_open tr)(p := filter (\<lambda>e. fst e \<in> set ns) current @ new), tr_drawn := tr_drawn tr + length new\<rparr>))"

definition tracker_stopped :: "string \<Rightarrow> stamp \<Rightarrow> tracker \<Rightarrow> session_event list \<times> tracker" where
  "tracker_stopped p now tr =
     (map (\<lambda>(n, i). \<lparr>sv_kind = Closed, sv_id = i, sv_profile = p, sv_player = n, sv_at = now\<rparr>) (sort_key fst (tr_open tr p)),
      tr\<lparr>tr_open := (tr_open tr)(p := [])\<rparr>)"

section \<open>The tables\<close>

record session_row =
  sr_id :: string
  sr_profile :: string
  sr_player :: string
  sr_started_at :: instant
  sr_ended_at :: "instant option"
  sr_source :: string

record metric_row =
  mt_profile :: string
  mt_metric :: string
  mt_ts :: instant
  mt_value :: pyfloat

record session_db =
  sd_sessions :: "session_row list"
  sd_metrics :: "metric_row list"
  sd_ctl :: ctl_db

definition integrity_error :: py_error where
  "integrity_error = Runtime_Error ''IntegrityError''"

definition session_sources :: "string list" where
  "session_sources = [''crafty'', ''log'', ''recovered'']"

text \<open>One event; the column constraints of \<^verbatim>\<open>player_sessions\<close> refuse a bad time stamp, a bad source and a repeated id.\<close>

definition persist_event :: "string \<Rightarrow> session_event \<Rightarrow> session_row list \<Rightarrow> session_row list outcome" where
  "persist_event source ev rows =
     (case sv_kind ev of
        Opened \<Rightarrow>
          (case sv_at ev of
             Ill_Formed \<Rightarrow> Inl integrity_error
           | At t \<Rightarrow>
               if source \<notin> set session_sources \<or> sv_id ev \<in> sr_id ` set rows then Inl integrity_error
               else Inr (rows @ [\<lparr>sr_id = sv_id ev, sr_profile = sv_profile ev, sr_player = sv_player ev, sr_started_at = t,
                                  sr_ended_at = None, sr_source = source\<rparr>]))
      | Closed \<Rightarrow>
          if \<not> list_ex (\<lambda>r. sr_id r = sv_id ev \<and> sr_ended_at r = None) rows then Inr rows
          else case sv_at ev of
                 Ill_Formed \<Rightarrow> Inl integrity_error
               | At t \<Rightarrow> Inr (map (\<lambda>r. if sr_id r = sv_id ev \<and> sr_ended_at r = None then r\<lparr>sr_ended_at := Some t\<rparr> else r) rows))"

fun persist_events :: "string \<Rightarrow> session_event list \<Rightarrow> session_row list \<Rightarrow> session_row list outcome" where
  "persist_events source [] rows = Inr rows"
| "persist_events source (ev # evs) rows = and_then (persist_event source ev rows) (persist_events source evs)"

section \<open>The store\<close>

record session_store =
  st_tracker :: tracker
  st_interval :: rat \<comment> \<open>seconds\<close>
  st_last_counts :: "string \<Rightarrow> (int \<times> instant) option"
  st_last_prune :: "instant option"

definition new_session_store :: session_store where
  "new_session_store = \<lparr>st_tracker = \<lparr>tr_open = (\<lambda>_. []), tr_drawn = 0\<rparr>, st_interval = 600, st_last_counts = Map.empty, st_last_prune = None\<rparr>"

fun parse_stamp :: "stamp \<Rightarrow> instant option" where
  "parse_stamp (At t) = Some t"
| "parse_stamp Ill_Formed = None"

definition should_sample :: "string \<Rightarrow> int \<Rightarrow> instant option \<Rightarrow> session_store \<Rightarrow> bool" where
  "should_sample p count current st \<longleftrightarrow>
     (case st_last_counts st p of
        None \<Rightarrow> True
      | Some (previous, t) \<Rightarrow>
          previous \<noteq> count \<or> (case current of None \<Rightarrow> False | Some c \<Rightarrow> st_interval st \<le> of_int (c - t) / of_int SECOND))"

text \<open>Where the database refuses a statement of the transaction, if it does.\<close>

datatype db_fault = No_Fault | Fault_Events | Fault_Count | Fault_Prune | Fault_Commit

definition operational_error :: py_error where
  "operational_error = Runtime_Error ''OperationalError''"

definition prune_metric_samples :: "instant \<Rightarrow> int \<Rightarrow> session_db \<Rightarrow> session_db" where
  "prune_metric_samples now max_age_days db = db\<lparr>sd_metrics := filter (\<lambda>r. \<not> mt_ts r < now - max_age_days * DAY) (sd_metrics db)\<rparr>"

definition maintenance :: "db_fault \<Rightarrow> instant option \<Rightarrow> session_store \<Rightarrow> session_db \<Rightarrow> unit outcome \<times> session_store \<times> session_db" where
  "maintenance fault current st db =
     (case current of
        None \<Rightarrow> (Inr (), st, db)
      | Some now \<Rightarrow>
          if (case st_last_prune st of None \<Rightarrow> False | Some t \<Rightarrow> now - t < 3600 * SECOND) then (Inr (), st, db)
          else if fault = Fault_Prune then (Inl operational_error, st, db)
          else let db1 = prune_metric_samples now 30 db
               in (Inr (), st\<lparr>st_last_prune := Some now\<rparr>, db1\<lparr>sd_ctl := snd (prune_replays now 48 (sd_ctl db1))\<rparr>))"

text \<open>The end of a transaction: the tables are kept only when nothing was raised and the commit went through.\<close>

definition commit :: "db_fault \<Rightarrow> session_db \<Rightarrow> unit outcome \<times> session_store \<times> session_db \<Rightarrow> unit outcome \<times> session_store \<times> session_db" where
  "commit fault before r =
     (case r of
        (Inl e, st, _) \<Rightarrow> (Inl e, st, before)
      | (Inr _, st, db) \<Rightarrow> if fault = Fault_Commit then (Inl operational_error, st, before) else (Inr (), st, db))"

definition sample_count :: "db_fault \<Rightarrow> string \<Rightarrow> int option \<Rightarrow> stamp \<Rightarrow> session_store \<Rightarrow> session_db \<Rightarrow> unit outcome \<times> session_store \<times> session_db" where
  "sample_count fault p count now st db =
     (case count of
        None \<Rightarrow> (Inr (), st, db)
      | Some n \<Rightarrow>
          if \<not> should_sample p n (parse_stamp now) st then (Inr (), st, db)
          else case float_of_int n of
                 Inl e \<Rightarrow> (Inl e, st, db)
               | Inr v \<Rightarrow>
                   if fault = Fault_Count then (Inl operational_error, st, db)
                   else case now of
                          Ill_Formed \<Rightarrow> (Inl integrity_error, st, db)
                        | At t \<Rightarrow> (Inr (), st\<lparr>st_last_counts := (st_last_counts st)(p \<mapsto> (n, t))\<rparr>,
                                   db\<lparr>sd_metrics := sd_metrics db @ [\<lparr>mt_profile = p, mt_metric = ''players'', mt_ts = t, mt_value = v\<rparr>]\<rparr>))"

definition write_events :: "db_fault \<Rightarrow> string \<Rightarrow> session_event list \<Rightarrow> session_db \<Rightarrow> session_db outcome" where
  "write_events fault source events db =
     (if fault = Fault_Events \<and> events \<noteq> [] then Inl operational_error
      else and_then (persist_events source events (sd_sessions db)) (\<lambda>rows. Inr (db\<lparr>sd_sessions := rows\<rparr>)))"

definition session_record :: "(nat \<Rightarrow> string) \<Rightarrow> db_fault \<Rightarrow> string \<Rightarrow> string list option \<Rightarrow> int option \<Rightarrow> stamp \<Rightarrow> string
    \<Rightarrow> session_store \<Rightarrow> session_db \<Rightarrow> unit outcome \<times> session_store \<times> session_db" where
  "session_record uuid fault p names count now source st db =
     (case tracker_observe uuid p names now (st_tracker st) of
        (events, tr) \<Rightarrow>
          let st1 = st\<lparr>st_tracker := tr\<rparr>
          in commit fault db
               (case write_events fault source events db of
                  Inl e \<Rightarrow> (Inl e, st1, db)
                | Inr db1 \<Rightarrow>
                    (case sample_count fault p count now st1 db1 of
                       (Inl e, st2, db2) \<Rightarrow> (Inl e, st2, db2)
                     | (Inr _, st2, db2) \<Rightarrow> maintenance fault (parse_stamp now) st2 db2)))"

definition profile_stopped :: "db_fault \<Rightarrow> string \<Rightarrow> stamp \<Rightarrow> session_store \<Rightarrow> session_db \<Rightarrow> unit outcome \<times> session_store \<times> session_db" where
  "profile_stopped fault p now st db =
     (case tracker_stopped p now (st_tracker st) of
        (events, tr) \<Rightarrow>
          let st1 = st\<lparr>st_tracker := tr\<rparr>
          in case commit fault db
                    (case write_events fault ''log'' events db of Inl e \<Rightarrow> (Inl e, st1, db) | Inr db1 \<Rightarrow> (Inr (), st1, db1)) of
               (Inl e, st2, db2) \<Rightarrow> (Inl e, st2, db2)
             | (Inr _, st2, db2) \<Rightarrow> (Inr (), st2\<lparr>st_last_counts := (st_last_counts st2)(p := None)\<rparr>, db2))"

definition maintain :: "db_fault \<Rightarrow> stamp \<Rightarrow> session_store \<Rightarrow> session_db \<Rightarrow> unit outcome \<times> session_store \<times> session_db" where
  "maintain fault now st db =
     (case parse_stamp now of
        None \<Rightarrow> (Inr (), st, db)
      | Some t \<Rightarrow> commit fault db (maintenance fault (Some t) st db))"

text \<open>At daemon start, every session left open is closed.\<close>

definition recovered_row :: "instant \<Rightarrow> session_row \<Rightarrow> session_row" where
  "recovered_row t r = (if sr_ended_at r = None then r\<lparr>sr_ended_at := Some t, sr_source := ''recovered''\<rparr> else r)"

definition recover :: "db_fault \<Rightarrow> stamp \<Rightarrow> session_db \<Rightarrow> nat outcome \<times> session_db" where
  "recover fault now db =
     (let hit = filter (\<lambda>r. sr_ended_at r = None) (sd_sessions db) in
      if fault \<noteq> No_Fault then (Inl operational_error, db)
      else case now of
             Ill_Formed \<Rightarrow> if hit = [] then (Inr 0, db) else (Inl integrity_error, db)
           | At t \<Rightarrow> (Inr (length hit),
               db\<lparr>sd_sessions := map (recovered_row t) (sd_sessions db)\<rparr>))"

section \<open>Histories\<close>

datatype session_op =
    Sess_Record db_fault string "string list option" "int option" stamp string
  | Sess_Stopped db_fault string stamp
  | Sess_Maintain db_fault stamp
  | Sess_Restart db_fault stamp

text \<open>A restart of the daemon builds a new store and recovers the table; ids are still drawn from the same source.\<close>

definition fresh_store :: "nat \<Rightarrow> session_store" where
  "fresh_store drawn = new_session_store\<lparr>st_tracker := \<lparr>tr_open = (\<lambda>_. []), tr_drawn = drawn\<rparr>\<rparr>"

fun session_step :: "(nat \<Rightarrow> string) \<Rightarrow> session_op \<Rightarrow> session_store \<times> session_db \<Rightarrow> session_store \<times> session_db" where
  "session_step uuid (Sess_Record fault p names count now source) (st, db) = snd (session_record uuid fault p names count now source st db)"
| "session_step uuid (Sess_Stopped fault p now) (st, db) = snd (profile_stopped fault p now st db)"
| "session_step uuid (Sess_Maintain fault now) (st, db) = snd (maintain fault now st db)"
| "session_step uuid (Sess_Restart fault now) (st, db) = (fresh_store (tr_drawn (st_tracker st)), snd (recover fault now db))"

definition session_run :: "(nat \<Rightarrow> string) \<Rightarrow> session_op list \<Rightarrow> session_store \<times> session_db \<Rightarrow> session_store \<times> session_db" where
  "session_run uuid ops s = fold (session_step uuid) ops s"

text \<open>The players last seen on a profile.\<close>

fun present_after :: "string \<Rightarrow> session_op \<Rightarrow> string set \<Rightarrow> string set" where
  "present_after q (Sess_Record fault p names count now source) s = (case names of Some ns \<Rightarrow> if p = q then set ns else s | None \<Rightarrow> s)"
| "present_after q (Sess_Stopped fault p now) s = (if p = q then {} else s)"
| "present_after q (Sess_Maintain fault now) s = s"
| "present_after q (Sess_Restart fault now) s = {}"

definition present :: "string \<Rightarrow> session_op list \<Rightarrow> string set" where
  "present q ops = fold (present_after q) ops {}"

text \<open>An operation at instant \<open>t\<close> that the database carries out.\<close>

fun carried_out :: "instant \<Rightarrow> session_op \<Rightarrow> bool" where
  "carried_out t (Sess_Record fault p names count now source) \<longleftrightarrow>
     fault = No_Fault \<and> now = At t \<and> source \<in> set session_sources \<and> (case count of None \<Rightarrow> True | Some n \<Rightarrow> 0 \<le> n \<and> n \<le> 2 ^ 31)"
| "carried_out t (Sess_Stopped fault p now) \<longleftrightarrow> fault = No_Fault \<and> now = At t"
| "carried_out t (Sess_Maintain fault now) \<longleftrightarrow> fault = No_Fault \<and> now = At t"
| "carried_out t (Sess_Restart fault now) \<longleftrightarrow> fault = No_Fault \<and> now = At t"

section \<open>Events keep table and tracker in step\<close>

definition separate :: "session_row \<Rightarrow> session_row \<Rightarrow> bool" where
  "separate a b \<longleftrightarrow> sr_profile a = sr_profile b \<and> sr_player a = sr_player b
     \<longrightarrow> (case sr_ended_at a of None \<Rightarrow> False | Some t \<Rightarrow> t \<le> sr_started_at b)"

definition row_times :: "instant \<Rightarrow> session_row \<Rightarrow> bool" where
  "row_times now r \<longleftrightarrow> sr_started_at r \<le> now
     \<and> (case sr_ended_at r of None \<Rightarrow> True | Some t \<Rightarrow> sr_started_at r \<le> t \<and> t \<le> now)"

definition open_for :: "string \<Rightarrow> session_row list \<Rightarrow> (string \<times> string) set" where
  "open_for p rows = (\<lambda>r. (sr_player r, sr_id r)) ` set (filter (\<lambda>r. sr_profile r = p \<and> sr_ended_at r = None) rows)"

lemma open_for_iff: "(n, i) \<in> open_for p rows \<longleftrightarrow> (\<exists>r\<in>set rows. sr_player r = n \<and> sr_id r = i \<and> sr_profile r = p \<and> sr_ended_at r = None)"
  by (auto simp: open_for_def)

definition mirror :: "(nat \<Rightarrow> string) \<Rightarrow> instant \<Rightarrow> nat \<Rightarrow> (string \<Rightarrow> (string \<times> string) list) \<Rightarrow> session_row list \<Rightarrow> bool" where
  "mirror uuid now drawn opn rows \<longleftrightarrow>
     distinct (map sr_id rows) \<and> (\<forall>k. drawn \<le> k \<longrightarrow> uuid k \<notin> sr_id ` set rows)
     \<and> (\<forall>p. distinct (map fst (opn p)) \<and> set (opn p) = open_for p rows)
     \<and> list_all (row_times now) rows \<and> sorted_wrt separate rows"

lemma row_times_mono: "row_times now r \<Longrightarrow> now \<le> t \<Longrightarrow> row_times t r"
  by (auto simp: row_times_def split: option.splits)

lemma open_event:
  assumes "inj uuid" "mirror uuid now drawn opn rows" "now \<le> t" "n \<notin> fst ` set (opn p)" "source \<in> set session_sources"
    and "ev = \<lparr>sv_kind = Opened, sv_id = uuid drawn, sv_profile = p, sv_player = n, sv_at = At t\<rparr>"
  shows "\<exists>rows'. persist_event source ev rows = Inr rows' \<and> mirror uuid t (Suc drawn) (opn(p := opn p @ [(n, uuid drawn)])) rows'"
proof -
  let ?r = "\<lparr>sr_id = uuid drawn, sr_profile = p, sr_player = n, sr_started_at = t, sr_ended_at = None, sr_source = source\<rparr>"
  have fresh: "uuid drawn \<notin> sr_id ` set rows" using assms(2) by (simp add: mirror_def)
  have opn: "set (opn q) = open_for q rows" "distinct (map fst (opn q))" for q using assms(2) by (simp_all add: mirror_def)
  have open_new: "open_for q (rows @ [?r]) = open_for q rows \<union> (if q = p then {(n, uuid drawn)} else {})" for q
    by (simp add: open_for_def)
  have "separate a ?r" if "a \<in> set rows" for a
  proof (cases "sr_profile a = p \<and> sr_player a = n")
    case True
    with assms(4) that have "sr_ended_at a \<noteq> None" by (force simp: opn open_for_def)
    with that assms(2,3) show ?thesis by (auto simp: separate_def mirror_def list_all_iff row_times_def split: option.splits)
  qed (auto simp: separate_def)
  moreover have "list_all (row_times t) (rows @ [?r])"
    using assms(2,3) by (auto simp: mirror_def list_all_iff row_times_def split: option.splits)
  moreover have "uuid k \<noteq> uuid drawn" if "Suc drawn \<le> k" for k using that assms(1) by (auto dest: injD)
  ultimately have "mirror uuid t (Suc drawn) (opn(p := opn p @ [(n, uuid drawn)])) (rows @ [?r])"
    using assms(2,4) fresh opn open_new by (auto simp: mirror_def sorted_wrt_append)
  then show ?thesis using assms(5,6) fresh by (simp add: persist_event_def)
qed

definition end_row :: "string \<Rightarrow> instant \<Rightarrow> session_row \<Rightarrow> session_row" where
  "end_row i t r = (if sr_id r = i \<and> sr_ended_at r = None then r\<lparr>sr_ended_at := Some t\<rparr> else r)"

lemma end_row_simps [simp]: "sr_id (end_row i t r) = sr_id r" "sr_profile (end_row i t r) = sr_profile r" "sr_player (end_row i t r) = sr_player r"
  "sr_started_at (end_row i t r) = sr_started_at r"
  by (simp_all add: end_row_def)

lemma separate_end_row: "separate a b \<Longrightarrow> separate (end_row i t a) (end_row i t b)"
  by (auto simp: separate_def end_row_def split: option.splits)

lemma close_event:
  assumes "mirror uuid now drawn opn rows" "now \<le> t" "(n, i) \<in> set (opn p)"
    and "ev = \<lparr>sv_kind = Closed, sv_id = i, sv_profile = p, sv_player = n, sv_at = At t\<rparr>"
  shows "\<exists>rows'. persist_event source ev rows = Inr rows' \<and> mirror uuid t drawn (opn(p := filter (\<lambda>e. fst e \<noteq> n) (opn p))) rows'"
proof -
  have opn: "set (opn q) = open_for q rows" "distinct (map fst (opn q))" for q using assms(1) by (simp_all add: mirror_def)
  then obtain r where r: "r \<in> set rows" "sr_profile r = p" "sr_player r = n" "sr_id r = i" "sr_ended_at r = None"
    using assms(3) by (auto simp: open_for_def)
  have ids: "a = r" if "a \<in> set rows" "sr_id a = i" for a
    using assms(1) that r by (auto simp: mirror_def distinct_map dest: inj_onD)
  have only: "e = (n, i)" if "e \<in> set (opn p)" "fst e = n" for e
    using that assms(3) opn(2) [of p] by (metis eq_key_imp_eq_value fst_conv prod.collapse)
  have same: "sr_id a = i \<longleftrightarrow> sr_profile a = p \<and> sr_player a = n" if "a \<in> set rows" "sr_ended_at a = None" for a
  proof -
    have "(sr_player a, sr_id a) \<in> set (opn (sr_profile a))" using that by (auto simp: opn open_for_iff)
    with only [of "(sr_player a, sr_id a)"] ids [OF that(1)] r show ?thesis by auto
  qed
  have "open_for q (map (end_row i t) rows) = (if q = p then {e \<in> open_for q rows. fst e \<noteq> n} else open_for q rows)" for q
  proof -
    have "e \<in> open_for q (map (end_row i t) rows) \<longleftrightarrow> e \<in> open_for q rows \<and> (q = p \<longrightarrow> fst e \<noteq> n)" for e
      using same by (cases e) (auto simp: open_for_iff end_row_def split: if_split_asm)
    then show ?thesis by auto
  qed
  moreover have "list_all (row_times t) (map (end_row i t) rows)"
    using assms(1,2) by (auto simp: mirror_def list_all_iff row_times_def end_row_def split: option.splits)
  moreover have "sorted_wrt separate (map (end_row i t) rows)"
    using assms(1) by (auto simp: mirror_def sorted_wrt_map intro: sorted_wrt_mono_rel [rotated] separate_end_row)
  ultimately have "mirror uuid t drawn (opn(p := filter (\<lambda>e. fst e \<noteq> n) (opn p))) (map (end_row i t) rows)"
    using assms(1) opn by (auto simp: mirror_def comp_def distinct_map_filter image_image)
  moreover have "list_ex (\<lambda>r. sr_id r = i \<and> sr_ended_at r = None) rows" using r by (auto simp: list_ex_iff)
  ultimately show ?thesis using assms(4) by (auto simp: persist_event_def end_row_def [abs_def])
qed

lemma mirror_mono: "mirror uuid now drawn opn rows \<Longrightarrow> now \<le> t \<Longrightarrow> mirror uuid t drawn opn rows"
  by (auto simp: mirror_def list_all_iff intro: row_times_mono)

lemma fresh_ids_simps [simp]: "length (fresh_ids uuid d n) = n" "fresh_ids uuid d 0 = []"
  "fresh_ids uuid d (Suc n) = uuid d # fresh_ids uuid (Suc d) n"
  by (simp_all add: fresh_ids_def upt_conv_Cons del: upt_Suc)

definition opened_at :: "string \<Rightarrow> stamp \<Rightarrow> string \<times> string \<Rightarrow> session_event" where
  "opened_at p now e = \<lparr>sv_kind = Opened, sv_id = snd e, sv_profile = p, sv_player = fst e, sv_at = now\<rparr>"

definition closed_at :: "string \<Rightarrow> stamp \<Rightarrow> string \<times> string \<Rightarrow> session_event" where
  "closed_at p now e = \<lparr>sv_kind = Closed, sv_id = snd e, sv_profile = p, sv_player = fst e, sv_at = now\<rparr>"

lemma open_events:
  assumes "inj uuid" "mirror uuid now drawn opn rows" "now \<le> t" "distinct ns" "set ns \<inter> fst ` set (opn p) = {}" "source \<in> set session_sources"
  shows "\<exists>rows'. persist_events source (map (opened_at p (At t)) (zip ns (fresh_ids uuid drawn (length ns)))) rows = Inr rows'
    \<and> mirror uuid t (drawn + length ns) (opn(p := opn p @ zip ns (fresh_ids uuid drawn (length ns)))) rows'"
  using assms(2-5)
proof (induction ns arbitrary: now drawn opn rows)
  case Nil
  then show ?case by (auto intro: mirror_mono)
next
  case (Cons n ns)
  obtain rows1 where r: "persist_event source (opened_at p (At t) (n, uuid drawn)) rows = Inr rows1"
    "mirror uuid t (Suc drawn) (opn(p := opn p @ [(n, uuid drawn)])) rows1"
    using open_event [OF assms(1) Cons.prems(1,2) _ assms(6) refl, of n p] Cons.prems by (auto simp: opened_at_def)
  let ?opn = "opn(p := opn p @ [(n, uuid drawn)])" and ?z = "zip ns (fresh_ids uuid (Suc drawn) (length ns))"
  have "set ns \<inter> fst ` set (?opn p) = {}" "distinct ns" using Cons.prems(3,4) by auto
  from Cons.IH [OF r(2) order_refl this(2,1)]
  have "\<exists>rows'. persist_events source (map (opened_at p (At t)) ?z) rows1 = Inr rows'
      \<and> mirror uuid t (Suc drawn + length ns) (opn(p := opn p @ (n, uuid drawn) # ?z)) rows'"
    by (simp only: fun_upd_upd fun_upd_same append.assoc append.simps)
  then show ?case
    by (simp only: list.size fresh_ids_simps zip_Cons_Cons list.map persist_events.simps r(1) and_then.simps add_Suc_shift add_Suc_right add_Suc add_0_right)
qed

lemma close_events:
  assumes "mirror uuid now drawn opn rows" "now \<le> t" "distinct (map fst gone)" "set gone \<subseteq> set (opn p)"
  shows "\<exists>rows'. persist_events source (map (closed_at p (At t)) gone) rows = Inr rows'
    \<and> mirror uuid t drawn (opn(p := filter (\<lambda>e. fst e \<notin> fst ` set gone) (opn p))) rows'"
  using assms
proof (induction gone arbitrary: now opn rows)
  case Nil
  then show ?case by (auto intro: mirror_mono)
next
  case (Cons g gone)
  obtain n i where g: "g = (n, i)" by (cases g)
  obtain rows1 where r: "persist_event source (closed_at p (At t) g) rows = Inr rows1"
    "mirror uuid t drawn (opn(p := filter (\<lambda>e. fst e \<noteq> n) (opn p))) rows1"
    using close_event [OF Cons.prems(1,2) _ refl, of n i p source] Cons.prems by (auto simp: closed_at_def g)
  let ?opn = "opn(p := filter (\<lambda>e. fst e \<noteq> n) (opn p))"
  have "set gone \<subseteq> set (?opn p)" "distinct (map fst gone)" using Cons.prems(3,4) g by force+
  from Cons.IH [OF r(2) order_refl this(2,1)]
  have ih: "\<exists>rows'. persist_events source (map (closed_at p (At t)) gone) rows1 = Inr rows'
      \<and> mirror uuid t drawn (opn(p := filter (\<lambda>e. fst e \<notin> fst ` set gone) (filter (\<lambda>e. fst e \<noteq> n) (opn p)))) rows'"
    by (simp only: fun_upd_upd fun_upd_same)
  have "filter (\<lambda>e. fst e \<notin> fst ` set gone) (filter (\<lambda>e. fst e \<noteq> n) (opn p)) = filter (\<lambda>e. fst e \<notin> fst ` set (g # gone)) (opn p)"
    by (auto simp: g intro: filter_cong)
  with ih show ?case by (simp only: list.map persist_events.simps r(1) and_then.simps)
qed

lemma persist_events_append: "persist_events source (a @ b) rows = and_then (persist_events source a rows) (persist_events source b)"
proof (induction a arbitrary: rows)
  case (Cons ev a)
  then show ?case by (cases "persist_event source ev rows") simp_all
qed simp

lemma observe_mirrors:
  assumes "inj uuid" "mirror uuid now (tr_drawn tr) (tr_open tr) rows" "now \<le> t" "source \<in> set session_sources"
    and "tracker_observe uuid p names (At t) tr = (events, tr')"
  shows "\<exists>rows'. persist_events source events rows = Inr rows' \<and> mirror uuid t (tr_drawn tr') (tr_open tr') rows'"
    and "names = Some ns \<Longrightarrow> fst ` set (tr_open tr' p) = set ns" and "q \<noteq> p \<or> names = None \<Longrightarrow> tr_open tr' q = tr_open tr q"
proof -
  show "q \<noteq> p \<or> names = None \<Longrightarrow> tr_open tr' q = tr_open tr q"
    using assms(5) by (auto simp: tracker_observe_def Let_def split: option.splits)
  let ?cur = "tr_open tr p"
  have new: "distinct (arrivals ns ?cur)" "set (arrivals ns ?cur) = set ns - fst ` set ?cur" for ns
    by (auto simp: arrivals_def)
  have "distinct (map fst ?cur)" using assms(2) by (simp add: mirror_def)
  then have gone: "distinct (map fst (departures ns ?cur))" "set (departures ns ?cur) = {e \<in> set ?cur. fst e \<notin> set ns}" for ns
    by (auto simp: departures_def distinct_map inj_on_def)
  show "fst ` set (tr_open tr' p) = set ns" if "names = Some ns"
  proof -
    let ?new = "zip (arrivals ns ?cur) (fresh_ids uuid (tr_drawn tr) (length (arrivals ns ?cur)))"
    have z: "fst ` set ?new = set (arrivals ns ?cur)" by (metis fresh_ids_simps(1) list.set_map map_fst_zip)
    have o: "tr_open tr' p = filter (\<lambda>e. fst e \<in> set ns) ?cur @ ?new" using assms(5) that by (auto simp: tracker_observe_def Let_def)
    show ?thesis unfolding o set_append image_Un z new(2) by auto
  qed
  show "\<exists>rows'. persist_events source events rows = Inr rows' \<and> mirror uuid t (tr_drawn tr') (tr_open tr') rows'"
  proof (cases names)
    case None
    then show ?thesis using assms(2,3,5) by (auto simp: tracker_observe_def intro: mirror_mono)
  next
    case (Some ns)
    let ?new = "zip (arrivals ns ?cur) (fresh_ids uuid (tr_drawn tr) (length (arrivals ns ?cur)))"
    let ?opn = "(tr_open tr)(p := ?cur @ ?new)"
    have ev: "events = map (opened_at p (At t)) ?new @ map (closed_at p (At t)) (departures ns ?cur)"
      "tr_drawn tr' = tr_drawn tr + length (arrivals ns ?cur)" "tr_open tr' = (tr_open tr)(p := filter (\<lambda>e. fst e \<in> set ns) ?cur @ ?new)"
      using assms(5) Some by (auto simp: tracker_observe_def Let_def opened_at_def closed_at_def case_prod_unfold)
    obtain rows1 where r1: "persist_events source (map (opened_at p (At t)) ?new) rows = Inr rows1"
      "mirror uuid t (tr_drawn tr') ?opn rows1"
      using open_events [OF assms(1,2,3) new(1) _ assms(4), of ns p] new(2) [of ns] ev(2) by auto
    obtain rows2 where r2: "persist_events source (map (closed_at p (At t)) (departures ns ?cur)) rows1 = Inr rows2"
      "mirror uuid t (tr_drawn tr') (?opn(p := filter (\<lambda>e. fst e \<notin> fst ` set (departures ns ?cur)) (?opn p))) rows2"
      using close_events [OF r1(2) order_refl gone(1), of ns p source] gone(2) [of ns] by auto
    have "filter (\<lambda>e. fst e \<notin> fst ` set (departures ns ?cur)) (?cur @ ?new) = filter (\<lambda>e. fst e \<in> set ns) ?cur @ ?new"
    proof -
      have "fst e \<notin> fst ` set (departures ns ?cur)" if "e \<in> set ?new" for e
      proof -
        have "fst e \<in> set (arrivals ns ?cur)" using that set_zip_leftD by (metis prod.collapse)
        then show ?thesis using new(2) [of ns] gone(2) [of ns] by auto
      qed
      moreover have "fst e \<notin> fst ` set (departures ns ?cur) \<longleftrightarrow> fst e \<in> set ns" if "e \<in> set ?cur" for e
        using that unfolding gone(2) [of ns] by fastforce
      ultimately show ?thesis by (simp cong: filter_cong)
    qed
    with r1 r2 ev show ?thesis by (auto simp: persist_events_append)
  qed
qed

lemma stopped_mirrors:
  assumes "mirror uuid now (tr_drawn tr) (tr_open tr) rows" "now \<le> t" "tracker_stopped p (At t) tr = (events, tr')"
  shows "\<exists>rows'. persist_events source events rows = Inr rows' \<and> mirror uuid t (tr_drawn tr') (tr_open tr') rows'"
    and "tr_open tr' = (tr_open tr)(p := [])"
proof -
  have tr: "events = map (closed_at p (At t)) (sort_key fst (tr_open tr p))" "tr_drawn tr' = tr_drawn tr" "tr_open tr' = (tr_open tr)(p := [])"
    using assms(3) by (auto simp: tracker_stopped_def closed_at_def case_prod_unfold)
  have "distinct (map fst (tr_open tr p))" using assms(1) by (simp add: mirror_def)
  then have d: "distinct (map fst (sort_key fst (tr_open tr p)))" by (simp add: distinct_map)
  show "tr_open tr' = (tr_open tr)(p := [])" by (rule tr(3))
  show "\<exists>rows'. persist_events source events rows = Inr rows' \<and> mirror uuid t (tr_drawn tr') (tr_open tr') rows'"
    using close_events [OF assms(1,2) d, of p source] tr by auto
qed

section \<open>The table shows who is there\<close>

definition in_step :: "(nat \<Rightarrow> string) \<Rightarrow> instant \<Rightarrow> session_store \<times> session_db \<Rightarrow> bool" where
  "in_step uuid now s = mirror uuid now (tr_drawn (st_tracker (fst s))) (tr_open (st_tracker (fst s))) (sd_sessions (snd s))"

lemma maintenance_No_Fault:
  "maintenance No_Fault (Some now) st db = (Inr (), st', db') \<Longrightarrow> st_tracker st' = st_tracker st \<and> sd_sessions db' = sd_sessions db"
  "\<exists>st' db'. maintenance No_Fault (Some now) st db = (Inr (), st', db')"
  by (auto simp: maintenance_def prune_metric_samples_def Let_def split: option.splits if_splits)

lemma sample_count_No_Fault:
  assumes "case count of None \<Rightarrow> True | Some n \<Rightarrow> 0 \<le> n \<and> n \<le> 2 ^ 31"
  shows "\<exists>st' db'. sample_count No_Fault p count (At t) st db = (Inr (), st', db') \<and> st_tracker st' = st_tracker st \<and> sd_sessions db' = sd_sessions db"
proof -
  have "\<exists>v. float_of_int n = Inr v" if "0 \<le> n" "n \<le> 2 ^ 31" for n
  proof -
    have "(2::int) ^ 31 < float_overflow_bound" unfolding float_overflow_bound_def by simp
    then show ?thesis using that by (simp add: float_of_int_def)
  qed
  with assms show ?thesis by (cases count) (fastforce simp: sample_count_def split: sum.split)+
qed

lemma record_in_step:
  assumes "inj uuid" "in_step uuid now (st, db)" "now \<le> t" "carried_out t (Sess_Record fault p names count tm source)"
    and "session_step uuid (Sess_Record fault p names count tm source) (st, db) = (st', db')"
  shows "in_step uuid t (st', db')" and "names = Some ns \<Longrightarrow> fst ` set (tr_open (st_tracker st') p) = set ns"
    and "q \<noteq> p \<or> names = None \<Longrightarrow> tr_open (st_tracker st') q = tr_open (st_tracker st) q"
proof -
  obtain events tr where ob: "tracker_observe uuid p names (At t) (st_tracker st) = (events, tr)" by fastforce
  have ok: "fault = No_Fault" "tm = At t" "source \<in> set session_sources" using assms(4) by auto
  note facts = observe_mirrors [OF assms(1) assms(2) [unfolded in_step_def fst_conv snd_conv] assms(3) ok(3) ob]
  obtain rows where rows: "persist_events source events (sd_sessions db) = Inr rows" "mirror uuid t (tr_drawn tr) (tr_open tr) rows"
    using facts(1) by blast
  obtain st2 db2 where c: "sample_count No_Fault p count (At t) (st\<lparr>st_tracker := tr\<rparr>) (db\<lparr>sd_sessions := rows\<rparr>) = (Inr (), st2, db2)"
    "st_tracker st2 = tr" "sd_sessions db2 = rows"
    using sample_count_No_Fault [of count p t "st\<lparr>st_tracker := tr\<rparr>" "db\<lparr>sd_sessions := rows\<rparr>"] assms(4) by auto
  obtain st3 db3 where m: "maintenance No_Fault (Some t) st2 db2 = (Inr (), st3, db3)" "st_tracker st3 = tr" "sd_sessions db3 = rows"
    using maintenance_No_Fault c(2,3) by metis
  have "st' = st3" "db' = db3"
    using assms(5) ok ob rows(1) c(1) m(1) by (simp_all add: session_record_def Let_def write_events_def commit_def)
  with m rows(2) facts(2,3) show "in_step uuid t (st', db')" "names = Some ns \<Longrightarrow> fst ` set (tr_open (st_tracker st') p) = set ns"
    "q \<noteq> p \<or> names = None \<Longrightarrow> tr_open (st_tracker st') q = tr_open (st_tracker st) q"
    by (simp_all add: in_step_def)
qed

lemma stopped_in_step:
  assumes "in_step uuid now (st, db)" "now \<le> t" "carried_out t (Sess_Stopped fault p tm)"
    and "session_step uuid (Sess_Stopped fault p tm) (st, db) = (st', db')"
  shows "in_step uuid t (st', db')" "tr_open (st_tracker st') = (tr_open (st_tracker st))(p := [])"
proof -
  obtain events tr where ob: "tracker_stopped p (At t) (st_tracker st) = (events, tr)" by fastforce
  have ok: "fault = No_Fault" "tm = At t" using assms(3) by auto
  note facts = stopped_mirrors(1) [OF assms(1) [unfolded in_step_def fst_conv snd_conv] assms(2) ob, of "''log''"]
    stopped_mirrors(2) [OF assms(1) [unfolded in_step_def fst_conv snd_conv] assms(2) ob]
  obtain rows where rows: "persist_events ''log'' events (sd_sessions db) = Inr rows" "mirror uuid t (tr_drawn tr) (tr_open tr) rows"
    using facts by blast
  have "st_tracker st' = tr" "sd_sessions db' = rows"
    using assms(4) ok ob rows(1) by (auto simp: profile_stopped_def Let_def write_events_def commit_def)
  with rows(2) facts(2) show "in_step uuid t (st', db')" "tr_open (st_tracker st') = (tr_open (st_tracker st))(p := [])"
    by (simp_all add: in_step_def)
qed

lemma recovered_row_simps [simp]: "sr_id (recovered_row t r) = sr_id r" "sr_ended_at (recovered_row t r) \<noteq> None"
  by (auto simp: recovered_row_def)

lemma separate_recovered: "separate a b \<Longrightarrow> separate (recovered_row t a) (recovered_row t b)"
  by (auto simp: separate_def recovered_row_def split: option.splits)

lemma restart_in_step:
  assumes "in_step uuid now (st, db)" "now \<le> t" "carried_out t (Sess_Restart fault tm)"
    and "session_step uuid (Sess_Restart fault tm) (st, db) = (st', db')"
  shows "in_step uuid t (st', db')" "tr_open (st_tracker st') = (\<lambda>_. [])"
proof -
  let ?rows = "map (recovered_row t) (sd_sessions db)"
  have st': "st' = fresh_store (tr_drawn (st_tracker st))" and rows: "sd_sessions db' = ?rows"
    using assms(3,4) by (auto simp: recover_def Let_def)
  have m: "distinct (map sr_id (sd_sessions db))" "\<forall>k\<ge>tr_drawn (st_tracker st). uuid k \<notin> sr_id ` set (sd_sessions db)"
    "list_all (row_times now) (sd_sessions db)" "sorted_wrt separate (sd_sessions db)"
    using assms(1) by (simp_all add: in_step_def mirror_def)
  have "sorted_wrt separate ?rows"
    unfolding sorted_wrt_map by (rule sorted_wrt_mono_rel [OF _ m(4)]) (rule separate_recovered)
  moreover have "list_all (row_times t) ?rows"
    using m(3) assms(2) by (auto simp: list_all_iff row_times_def recovered_row_def split: option.splits)
  moreover have "open_for p ?rows = {}" for p by (auto simp: open_for_def recovered_row_def split: if_split_asm)
  moreover have "sr_id \<circ> recovered_row t = sr_id" by (simp add: comp_def)
  moreover have "sr_id ` set ?rows = sr_id ` set (sd_sessions db)" by (simp add: image_image)
  ultimately have "mirror uuid t (tr_drawn (st_tracker st)) (\<lambda>_. []) ?rows"
    using m(1,2) unfolding mirror_def by simp
  then show "in_step uuid t (st', db')" "tr_open (st_tracker st') = (\<lambda>_. [])"
    by (simp_all add: in_step_def st' rows fresh_store_def)
qed

lemma maintain_in_step:
  assumes "in_step uuid now (st, db)" "now \<le> t" "carried_out t (Sess_Maintain fault tm)"
    and "session_step uuid (Sess_Maintain fault tm) (st, db) = (st', db')"
  shows "in_step uuid t (st', db')" "tr_open (st_tracker st') = tr_open (st_tracker st)"
proof -
  obtain st2 db2 where "maintenance No_Fault (Some t) st db = (Inr (), st2, db2)" "st_tracker st2 = st_tracker st" "sd_sessions db2 = sd_sessions db"
    using maintenance_No_Fault by metis
  then have "st_tracker st' = st_tracker st" "sd_sessions db' = sd_sessions db"
    using assms(3,4) by (auto simp: maintain_def commit_def)
  then show "in_step uuid t (st', db')" "tr_open (st_tracker st') = tr_open (st_tracker st)"
    using assms(1,2) by (auto simp: in_step_def intro: mirror_mono)
qed

lemma step_in_step:
  assumes "inj uuid" "in_step uuid now s" "now \<le> t" "carried_out t op" "\<And>q. fst ` set (tr_open (st_tracker (fst s)) q) = seen q"
  shows "in_step uuid t (session_step uuid op s)
    \<and> (\<forall>q. fst ` set (tr_open (st_tracker (fst (session_step uuid op s))) q) = present_after q op (seen q))"
proof -
  obtain st db where s: "s = (st, db)" by (cases s)
  obtain st' db' where s': "session_step uuid op (st, db) = (st', db')" by (cases "session_step uuid op (st, db)")
  note a2 = assms(2) [unfolded s]
  show ?thesis
  proof (cases op)
    case (Sess_Record fault p names count tm source)
    note f = record_in_step [OF assms(1) a2 assms(3) assms(4) [unfolded Sess_Record] s' [unfolded Sess_Record]]
    have "fst ` set (tr_open (st_tracker st') q) = present_after q op (seen q)" for q
      using f(2,3) [of _] assms(5) [of q] by (cases names; cases "q = p") (auto simp: Sess_Record s)
    with f(1) show ?thesis unfolding s s' by simp
  next
    case (Sess_Stopped fault p tm)
    note f = stopped_in_step [OF a2 assms(3) assms(4) [unfolded Sess_Stopped] s' [unfolded Sess_Stopped]]
    then show ?thesis using assms(5) by (simp add: Sess_Stopped s s' [unfolded Sess_Stopped] del: session_step.simps)
  next
    case (Sess_Maintain fault tm)
    note f = maintain_in_step [OF a2 assms(3) assms(4) [unfolded Sess_Maintain] s' [unfolded Sess_Maintain]]
    then show ?thesis using assms(5) by (simp add: Sess_Maintain s s' [unfolded Sess_Maintain] del: session_step.simps)
  next
    case (Sess_Restart fault tm)
    note f = restart_in_step [OF a2 assms(3) assms(4) [unfolded Sess_Restart] s' [unfolded Sess_Restart]]
    then show ?thesis by (simp add: Sess_Restart s s' [unfolded Sess_Restart] del: session_step.simps)
  qed
qed

text \<open>The operations of a history, each at its instant, with times that do not go back.\<close>

fun carried_out_in_order :: "instant \<Rightarrow> (instant \<times> session_op) list \<Rightarrow> bool" where
  "carried_out_in_order now [] \<longleftrightarrow> True"
| "carried_out_in_order now ((t, op) # ops) \<longleftrightarrow> now \<le> t \<and> carried_out t op \<and> carried_out_in_order t ops"

lemma run_in_step:
  assumes "inj uuid" "in_step uuid now s" "carried_out_in_order now ops" "\<And>q. fst ` set (tr_open (st_tracker (fst s)) q) = seen q"
  shows "\<exists>t. in_step uuid t (session_run uuid (map snd ops) s)
    \<and> (\<forall>q. fst ` set (tr_open (st_tracker (fst (session_run uuid (map snd ops) s))) q) = fold (present_after q) (map snd ops) (seen q))"
  using assms(2-4)
proof (induction ops arbitrary: now s seen)
  case (Cons o1 ops)
  obtain t op where o1: "o1 = (t, op)" by (cases o1)
  have c: "now \<le> t" "carried_out t op" "carried_out_in_order t ops" using Cons.prems(2) by (simp_all add: o1)
  from step_in_step [OF assms(1) Cons.prems(1) c(1,2) Cons.prems(3)] Cons.IH [OF _ c(3), of "session_step uuid op s" "\<lambda>q. present_after q op (seen q)"]
  show ?case by (simp add: session_run_def o1)
qed (auto simp: session_run_def)

definition empty_tables :: session_db where
  "empty_tables = \<lparr>sd_sessions = [], sd_metrics = [], sd_ctl = \<lparr>db_jobs = [], db_audit = [], db_events = [], db_confirmations = [],
     db_replays = [], db_benchmark_runs = None, db_application_id = 0\<rparr>\<rparr>"

lemma distinct_map_sorted_wrt: "sorted_wrt (\<lambda>a b. f a \<noteq> f b) xs \<Longrightarrow> distinct (map f xs)"
  by (induction xs) auto

text \<open>Whatever the database refuses, a session that was closed stays in the table as it is.\<close>

lemma persist_keeps_closed:
  "persist_events source evs rows = Inr rows' \<Longrightarrow> r \<in> set rows \<Longrightarrow> sr_ended_at r \<noteq> None \<Longrightarrow> r \<in> set rows'"
proof (induction evs arbitrary: rows)
  case (Cons ev evs)
  obtain rows1 where r1: "persist_event source ev rows = Inr rows1" "persist_events source evs rows1 = Inr rows'"
    using Cons.prems(1) by (cases "persist_event source ev rows") auto
  then have "r \<in> set rows1"
    using Cons.prems(2,3) by (force simp: persist_event_def split: session_kind.splits stamp.splits if_split_asm)
  then show ?case using Cons.IH r1(2) Cons.prems(3) by blast
qed simp

lemma maintenance_sessions: "sd_sessions (snd (snd (maintenance fault now st db))) = sd_sessions db"
  by (auto simp: maintenance_def prune_metric_samples_def Let_def split: option.split)

lemma sample_count_sessions: "sd_sessions (snd (snd (sample_count fault p count now st db))) = sd_sessions db"
  by (auto simp: sample_count_def split: option.split sum.split stamp.split)

lemma commit_sessions:
  assumes "r \<in> set (sd_sessions before)" "r \<in> set (sd_sessions (snd (snd x)))"
  shows "r \<in> set (sd_sessions (snd (snd (commit fault before x))))"
  using assms by (auto simp: commit_def split: prod.split sum.split)

lemma write_events_keeps_closed:
  "write_events fault source evs db = Inr db' \<Longrightarrow> r \<in> set (sd_sessions db) \<Longrightarrow> sr_ended_at r \<noteq> None \<Longrightarrow> r \<in> set (sd_sessions db')"
  by (cases "persist_events source evs (sd_sessions db)") (auto simp: write_events_def dest: persist_keeps_closed split: if_split_asm)

lemma closed_session_final:
  assumes "r \<in> set (sd_sessions db)" "sr_ended_at r \<noteq> None"
  shows "r \<in> set (sd_sessions (snd (session_step uuid op (st, db))))"
proof (cases op)
  case (Sess_Record fault p names count now source)
  obtain events tr where ob: "tracker_observe uuid p names now (st_tracker st) = (events, tr)" by fastforce
  have "r \<in> set (sd_sessions (snd (snd (case write_events fault source events db of
                  Inl e \<Rightarrow> (Inl e, st1, db)
                | Inr db1 \<Rightarrow>
                    (case sample_count fault p count now st1 db1 of
                       (Inl e, st2, db2) \<Rightarrow> (Inl e, st2, db2)
                     | (Inr _, st2, db2) \<Rightarrow> maintenance fault (parse_stamp now) st2 db2)))))" for st1
    using assms write_events_keeps_closed [of fault source events db _ r] sample_count_sessions [of fault p count now st1]
    by (auto simp: maintenance_sessions split: sum.split prod.split) (metis snd_conv)+
  then show ?thesis using assms(1) by (simp add: Sess_Record session_record_def ob Let_def commit_sessions)
next
  case (Sess_Stopped fault p now)
  obtain events tr where ob: "tracker_stopped p now (st_tracker st) = (events, tr)" by fastforce
  define x where "x = (case write_events fault ''log'' events db of Inl e \<Rightarrow> (Inl e, st\<lparr>st_tracker := tr\<rparr>, db) | Inr db1 \<Rightarrow> (Inr (), st\<lparr>st_tracker := tr\<rparr>, db1))"
  have "r \<in> set (sd_sessions (snd (snd x)))"
    using assms write_events_keeps_closed [of fault "''log''" events db _ r] by (auto simp: x_def split: sum.split)
  moreover obtain a st2 db2 where c: "commit fault db x = (a, st2, db2)" by (metis prod.collapse)
  ultimately have "r \<in> set (sd_sessions db2)" using commit_sessions [OF assms(1), of x fault] by simp
  then show ?thesis by (cases a) (simp_all add: Sess_Stopped profile_stopped_def ob Let_def x_def [symmetric] c)
next
  case (Sess_Maintain fault now)
  then show ?thesis using assms(1) by (auto simp: maintain_def maintenance_sessions intro: commit_sessions split: option.split)
next
  case (Sess_Restart fault now)
  then show ?thesis using assms by (force simp: recover_def recovered_row_def Let_def split: stamp.split)
qed

text \<open>A close that the database refuses is forgotten by the tracker: the row stays open until the daemon restarts.\<close>

definition sample_uuid :: "nat \<Rightarrow> string" where
  "sample_uuid k = replicate (Suc k) CHR ''f''"

lemma failed_close_stays_open:
  "map (\<lambda>r. (sr_player r, sr_ended_at r)) (sd_sessions (snd (session_run sample_uuid
     [Sess_Record No_Fault ''sunlit'' (Some [''ann'']) (Some 1) (At 0) ''log'', Sess_Stopped Fault_Events ''sunlit'' (At 60),
      Sess_Record No_Fault ''sunlit'' (Some []) (Some 0) (At 120) ''log''] (new_session_store, empty_tables)))) = [(''ann'', None)]"
  by code_simp

text \<open>C30. While the database carries out its transactions and the clock does not go back, the open rows of the session table are
  exactly one for each player last seen on each profile, and the sessions of one player on one profile neither overlap nor end
  before they start.\<close>

theorem sessions_show_presence:
  assumes "inj uuid" "carried_out_in_order now ops"
    and "(st, db) = session_run uuid (map snd ops) (new_session_store, empty_tables)"
  shows "distinct (map (\<lambda>r. (sr_profile r, sr_player r)) (filter (\<lambda>r. sr_ended_at r = None) (sd_sessions db)))
    \<and> (\<forall>p. {sr_player r | r. r \<in> set (sd_sessions db) \<and> sr_profile r = p \<and> sr_ended_at r = None} = present p (map snd ops))
    \<and> sorted_wrt (\<lambda>a b. sr_profile a = sr_profile b \<and> sr_player a = sr_player b
         \<longrightarrow> (\<exists>t. sr_ended_at a = Some t \<and> sr_started_at a \<le> t \<and> t \<le> sr_started_at b)) (sd_sessions db)"
proof -
  have start: "in_step uuid now (new_session_store, empty_tables)"
    by (simp add: in_step_def mirror_def new_session_store_def empty_tables_def open_for_def)
  obtain t where m: "mirror uuid t (tr_drawn (st_tracker st)) (tr_open (st_tracker st)) (sd_sessions db)"
    and seen: "\<And>q. fst ` set (tr_open (st_tracker st) q) = present q (map snd ops)"
    using run_in_step [OF assms(1) start assms(2), of "\<lambda>_. {}"] assms(3) [symmetric]
    by (auto simp: in_step_def present_def new_session_store_def)
  note rows = m [unfolded mirror_def]
  have "sorted_wrt (\<lambda>a b. (sr_profile a, sr_player a) \<noteq> (sr_profile b, sr_player b)) (filter (\<lambda>r. sr_ended_at r = None) (sd_sessions db))"
    by (rule sorted_wrt_mono_rel [where P = separate, OF _ sorted_wrt_filter]) (use rows in \<open>auto simp: separate_def\<close>)
  then have "distinct (map (\<lambda>r. (sr_profile r, sr_player r)) (filter (\<lambda>r. sr_ended_at r = None) (sd_sessions db)))"
    by (rule distinct_map_sorted_wrt)
  moreover have "{sr_player r | r. r \<in> set (sd_sessions db) \<and> sr_profile r = p \<and> sr_ended_at r = None} = present p (map snd ops)" for p
    using rows seen [of p] by (auto simp: open_for_def image_image)
  moreover have "sorted_wrt (\<lambda>a b. sr_profile a = sr_profile b \<and> sr_player a = sr_player b
         \<longrightarrow> (\<exists>t. sr_ended_at a = Some t \<and> sr_started_at a \<le> t \<and> t \<le> sr_started_at b)) (sd_sessions db)"
    by (rule sorted_wrt_mono_rel [where P = separate]) (use rows in \<open>auto simp: separate_def list_all_iff row_times_def split: option.splits\<close>)
  ultimately show ?thesis by blast
qed

theorem sessions_show_presence_witness:
  "let ops = [(60::int, Sess_Record No_Fault ''sunlit'' (Some [''ann'', ''bob'']) (Some 2) (At 60) ''log''),
              (120, Sess_Record No_Fault ''sunlit'' (Some [''bob'']) (Some 1) (At 120) ''log''),
              (180, Sess_Record No_Fault ''sunlit'' (Some [''ann'', ''bob'']) (Some 2) (At 180) ''log'')];
       db = snd (session_run sample_uuid (map snd ops) (new_session_store, empty_tables))
   in map (\<lambda>r. (sr_player r, sr_started_at r, sr_ended_at r)) (sd_sessions db)
        = [(''ann'', 60, Some 120), (''bob'', 60, None), (''ann'', 180, None)]
      \<and> {sr_player r | r. r \<in> set (sd_sessions db) \<and> sr_profile r = ''sunlit'' \<and> sr_ended_at r = None} = {''ann'', ''bob''}"
proof -
  let ?ops = "[(60::int, Sess_Record No_Fault ''sunlit'' (Some [''ann'', ''bob'']) (Some 2) (At 60) ''log''),
              (120, Sess_Record No_Fault ''sunlit'' (Some [''bob'']) (Some 1) (At 120) ''log''),
              (180, Sess_Record No_Fault ''sunlit'' (Some [''ann'', ''bob'']) (Some 2) (At 180) ''log'')]"
  let ?s = "session_run sample_uuid (map snd ?ops) (new_session_store, empty_tables)"
  have inj: "inj sample_uuid" by (rule injI) (metis sample_uuid_def length_replicate nat.inject)
  have ok: "carried_out_in_order 0 ?ops" by (simp add: session_sources_def)
  have "present ''sunlit'' (map snd ?ops) = {''ann'', ''bob''}" by (simp add: present_def)
  then have "{sr_player r | r. r \<in> set (sd_sessions (snd ?s)) \<and> sr_profile r = ''sunlit'' \<and> sr_ended_at r = None} = {''ann'', ''bob''}"
    using sessions_show_presence [OF inj ok, of "fst ?s" "snd ?s"] by simp
  moreover have "map (\<lambda>r. (sr_player r, sr_started_at r, sr_ended_at r)) (sd_sessions (snd ?s))
        = [(''ann'', 60, Some 120), (''bob'', 60, None), (''ann'', 180, None)]" by code_simp
  ultimately show ?thesis by (simp only: Let_def simp_thms)
qed

end
