(* ===== verification/Benchmark_Safety.thy ===== *)
theory Benchmark_Safety
  imports Slot Control_State Status Player_Sessions
begin

text \<open>
  Admission of scheduled benchmarks: the root-state readers of \<^verbatim>\<open>root_state.py\<close>, the wake evidence of
  \<^verbatim>\<open>capability_evidence.py\<close>, the preflight of \<^verbatim>\<open>benchmark_safety.py\<close>, and the eligibility test of the schedule
  handler in \<^verbatim>\<open>controller.py\<close>.

  The sources of evidence are the job table, the reservation file, the session table and a status snapshot of the other
  theories; the disk, the power supply and the clock answer as parameters.
\<close>

section \<open>Readers of the root state\<close>

datatype root_conn = No_Connection | Unreadable | Connected ctl_db

record 'a root_read =
  rr_available :: bool
  rr_value :: "'a option"
  rr_reason :: string

definition root_unavailable :: "string \<Rightarrow> 'a root_read" where
  "root_unavailable reason = \<lparr>rr_available = False, rr_value = None, rr_reason = take 128 reason\<rparr>"

definition root_value :: "'a option \<Rightarrow> 'a root_read" where
  "root_value v = \<lparr>rr_available = True, rr_value = v, rr_reason = []\<rparr>"

definition job_active :: "job_row \<Rightarrow> bool" where
  "job_active j \<longleftrightarrow> job_status j \<in> {Job_Accepted, Job_Running}"

definition read_active_job :: "root_conn \<Rightarrow> string \<Rightarrow> string root_read" where
  "read_active_job conn profile =
     (case conn of
        No_Connection \<Rightarrow> root_unavailable ''root state is unavailable''
      | Unreadable \<Rightarrow> root_unavailable ''root jobs are unreadable''
      | Connected db \<Rightarrow>
          (case sort_key (\<lambda>j. - iso_rank (job_created_at j)) (filter (\<lambda>j. job_profile j = Some profile \<and> job_active j) (db_jobs db)) of
             [] \<Rightarrow> root_value None
           | j # _ \<Rightarrow> if job_operation j = [] then root_unavailable ''root job state is malformed''
                      else root_value (Some (job_operation j))))"

definition any_active :: "root_conn \<Rightarrow> bool root_read" where
  "any_active conn =
     (case conn of
        No_Connection \<Rightarrow> root_unavailable ''root state is unavailable''
      | Unreadable \<Rightarrow> root_unavailable ''root jobs are unreadable''
      | Connected db \<Rightarrow> root_value (Some (list_ex job_active (db_jobs db))))"

text \<open>The projections the status service calls.\<close>

definition active_job_of :: "root_conn \<Rightarrow> string \<Rightarrow> string option" where
  "active_job_of conn profile = (let r = read_active_job conn profile in if rr_available r then rr_value r else None)"

definition read_generation :: "root_conn \<Rightarrow> int root_read" where
  "read_generation conn =
     (case conn of
        No_Connection \<Rightarrow> root_unavailable ''root state is unavailable''
      | Unreadable \<Rightarrow> root_unavailable ''root generation is unreadable''
      | Connected db \<Rightarrow> if db_application_id db < 0 then root_unavailable ''root generation is malformed''
                        else root_value (Some (db_application_id db)))"

definition generation_of :: "root_conn \<Rightarrow> int" where
  "generation_of conn = (let r = read_generation conn in if rr_available r then (case rr_value r of Some g \<Rightarrow> g | None \<Rightarrow> 0) else 0)"

section \<open>Wake evidence\<close>

record wake_evidence =
  wk_available :: bool
  wk_clear :: bool
  wk_reason :: string

definition wake :: "bool \<Rightarrow> bool \<Rightarrow> string \<Rightarrow> wake_evidence" where
  "wake available clear reason = \<lparr>wk_available = available, wk_clear = clear, wk_reason = reason\<rparr>"

text \<open>\<open>None\<close> stands for a store that names no reservation path.\<close>

definition root_wake_evidence :: "root_conn \<Rightarrow> json_file option \<Rightarrow> wake_evidence" where
  "root_wake_evidence conn path =
     (let active = any_active conn in
      if \<not> rr_available active
      then wake False False (if rr_reason active = [] then ''root state is unavailable'' else rr_reason active)
      else if rr_value active = Some True then wake True False ''root operation is active''
      else case path of
             None \<Rightarrow> wake False False ''root reservation is unavailable''
           | Some Missing \<Rightarrow> wake True True []
           | Some Unreachable \<Rightarrow> wake False False ''root reservation is unreadable''
           | Some Dangling_Link \<Rightarrow> wake False False ''root reservation is unsafe''
           | Some (Stored fs j) \<Rightarrow>
               if \<not> st_regular fs \<or> st_symlink fs then wake False False ''root reservation is unsafe''
               else if reservation_read (Stored fs j) = None then wake False False ''root reservation is malformed''
               else wake True False ''root reservation is present'')"

section \<open>The preflight\<close>

datatype evidence_state = Ev_Available | Ev_Inactive | Ev_Unavailable | Ev_Stale

record evidence_item =
  ei_check :: string
  ei_result :: bool
  ei_state :: evidence_state
  ei_source :: string
  ei_observed_at :: instant
  ei_reason :: string

definition LEGACY_KEYS :: "string list" where
  "LEGACY_KEYS = [''maintenance_window'', ''storage_acceptable'', ''ups_acceptable'', ''quiet_period'', ''no_wake_session'',
     ''no_conflicting_jobs'', ''rollback_safe_public_wake'']"

text \<open>A later item for the same check replaces an earlier one.\<close>

definition check_value :: "evidence_item list \<Rightarrow> string \<Rightarrow> bool" where
  "check_value items key = (case find (\<lambda>i. ei_check i = key) (rev items) of None \<Rightarrow> False | Some i \<Rightarrow> ei_result i)"

definition legacy_mapping :: "evidence_item list \<Rightarrow> (string \<times> bool) list" where
  "legacy_mapping items = map (\<lambda>key. (key, check_value items key)) LEGACY_KEYS"

text \<open>What the preflight was built with and what its providers answer; an exception of a provider is \<open>None\<close>.\<close>

record preflight =
  pf_storage :: "(string \<times> json option) list" \<comment> \<open>each path with the \<^verbatim>\<open>free\<close> field of its usage\<close>
  pf_ups :: "json option option"
  pf_sessions :: "session_row list option option" \<comment> \<open>\<open>None\<close>: no connection; \<open>Some None\<close>: unreadable\<close>
  pf_wake :: "wake_evidence option option"
  pf_clock :: instant

definition MIN_FREE_BYTES :: int where
  "MIN_FREE_BYTES = 5 * 1024 ^ 3"

fun acceptable_free :: "json option \<Rightarrow> bool" where
  "acceptable_free (Some (JInt n)) \<longleftrightarrow> MIN_FREE_BYTES \<le> n \<and> \<not> isl (float_of_int n)"
| "acceptable_free (Some (JFloat (Finite x))) \<longleftrightarrow> of_int MIN_FREE_BYTES \<le> x"
| "acceptable_free _ \<longleftrightarrow> False"

definition storage_item :: "preflight \<Rightarrow> evidence_item" where
  "storage_item pf =
     (if pf_storage pf = []
      then \<lparr>ei_check = ''storage_acceptable'', ei_result = False, ei_state = Ev_Unavailable, ei_source = ''root storage'',
            ei_observed_at = pf_clock pf, ei_reason = ''storage paths are unavailable''\<rparr>
      else let ok = list_all (\<lambda>(_, free). acceptable_free free) (pf_storage pf)
           in \<lparr>ei_check = ''storage_acceptable'', ei_result = ok, ei_state = (if ok then Ev_Available else Ev_Unavailable),
               ei_source = ''root storage'', ei_observed_at = pf_clock pf,
               ei_reason = (if ok then [] else ''storage free space is unavailable or below threshold'')\<rparr>)"

definition ups_item :: "preflight \<Rightarrow> evidence_item" where
  "ups_item pf =
     (case pf_ups pf of
        None \<Rightarrow> \<lparr>ei_check = ''ups_acceptable'', ei_result = False, ei_state = Ev_Unavailable, ei_source = ''UPS provider'',
                 ei_observed_at = pf_clock pf, ei_reason = ''UPS evidence is unavailable''\<rparr>
      | Some answer \<Rightarrow>
          let ok = (answer = Some (JBool True))
          in \<lparr>ei_check = ''ups_acceptable'', ei_result = ok, ei_state = (if ok then Ev_Available else Ev_Unavailable),
              ei_source = ''UPS provider'', ei_observed_at = pf_clock pf,
              ei_reason = (if ok then [] else ''UPS is unavailable or unacceptable'')\<rparr>)"

text \<open>\<^verbatim>\<open>ORDER BY ended_at DESC LIMIT 1\<close> over the texts of the instants.\<close>

definition latest_end :: "session_row list \<Rightarrow> instant option" where
  "latest_end rows =
     (case sort_key (\<lambda>t. - iso_rank t) (List.map_filter sr_ended_at rows) of [] \<Rightarrow> None | t # _ \<Rightarrow> Some t)"

definition session_item :: "preflight \<Rightarrow> string \<Rightarrow> bool \<Rightarrow> evidence_state \<Rightarrow> string \<Rightarrow> evidence_item" where
  "session_item pf check ok failed reason =
     \<lparr>ei_check = check, ei_result = ok, ei_state = (if ok then Ev_Available else failed), ei_source = ''root session state'',
      ei_observed_at = pf_clock pf, ei_reason = (if ok then [] else reason)\<rparr>"

definition session_items :: "preflight \<Rightarrow> evidence_item \<times> evidence_item" where
  "session_items pf =
     (case pf_sessions pf of
        None \<Rightarrow> (session_item pf ''quiet_period'' False Ev_Unavailable ''session state is unavailable'',
                 session_item pf ''no_wake_session'' False Ev_Unavailable ''session state is unavailable'')
      | Some None \<Rightarrow> (session_item pf ''quiet_period'' False Ev_Unavailable ''session state is unreadable'',
                      session_item pf ''no_wake_session'' False Ev_Unavailable ''session state is unreadable'')
      | Some (Some rows) \<Rightarrow>
          (session_item pf ''quiet_period''
             (case latest_end rows of None \<Rightarrow> True | Some t \<Rightarrow> t \<le> pf_clock pf - 900 * SECOND) Ev_Stale ''quiet period has not elapsed'',
           session_item pf ''no_wake_session'' (\<not> list_ex (\<lambda>r. sr_ended_at r = None) rows) Ev_Inactive ''active player session exists''))"

definition proven_idle :: "profile_status \<Rightarrow> bool" where
  "proven_idle s \<longleftrightarrow> ps_state s = STOPPED \<and> ps_players_online s = Some 0 \<and> ps_active_job_id s = None"

text \<open>The result of an item stands for \<^verbatim>\<open>is True\<close>, which is what its reader tests.\<close>

definition evaluate :: "preflight \<Rightarrow> status_snapshot \<Rightarrow> json \<Rightarrow> json \<Rightarrow> json \<Rightarrow> evidence_item list" where
  "evaluate pf sn maintenance_window rollback_safe public_wake_policy =
     (let stopped = list_all proven_idle (sn_profiles sn);
          policy = truthy rollback_safe \<and> public_wake_policy = JStr ''safe'';
          (quiet, session) = session_items pf;
          wake_ok = (case pf_wake pf of Some (Some w) \<Rightarrow> wk_available w \<and> wk_clear w | _ \<Rightarrow> False);
          clear = ei_result session \<and> wake_ok
      in [\<lparr>ei_check = ''maintenance_window'', ei_result = (maintenance_window = JBool True),
           ei_state = (if truthy maintenance_window then Ev_Available else Ev_Inactive), ei_source = ''schedule policy'',
           ei_observed_at = pf_clock pf, ei_reason = []\<rparr>,
          \<lparr>ei_check = ''no_conflicting_jobs'', ei_result = stopped, ei_state = (if stopped then Ev_Available else Ev_Inactive),
           ei_source = ''fresh status snapshot'', ei_observed_at = sn_observed_at sn,
           ei_reason = (if stopped then [] else ''profile is not proven stopped and empty'')\<rparr>,
          \<lparr>ei_check = ''rollback_safe_public_wake'', ei_result = policy, ei_state = (if policy then Ev_Available else Ev_Inactive),
           ei_source = ''schedule policy'', ei_observed_at = pf_clock pf, ei_reason = []\<rparr>,
          storage_item pf, ups_item pf, quiet, session,
          \<lparr>ei_check = ''no_wake_session'', ei_result = clear, ei_state = (if clear then Ev_Available else Ev_Unavailable),
           ei_source = ''root wake evidence'', ei_observed_at = pf_clock pf,
           ei_reason = (if clear then [] else ''root wake evidence is unavailable or not clear'')\<rparr>])"

definition benchmark_eligibility :: "preflight \<Rightarrow> status_snapshot \<Rightarrow> json \<Rightarrow> json \<Rightarrow> json \<Rightarrow> (string \<times> bool) list" where
  "benchmark_eligibility pf sn maintenance_window rollback_safe public_wake_policy =
     legacy_mapping (evaluate pf sn maintenance_window rollback_safe public_wake_policy)"

section \<open>Eligibility in the schedule handler\<close>

text \<open>\<open>evidence\<close> is \<open>None\<close> when there is no reader or it raised.\<close>

definition evidence_ok :: "(string \<times> bool) list option \<Rightarrow> bool" where
  "evidence_ok evidence \<longleftrightarrow> (case evidence of None \<Rightarrow> False | Some m \<Rightarrow> list_all (\<lambda>key. map_of m key = Some True) LEGACY_KEYS)"

definition status_quiet :: "profile_status \<Rightarrow> bool" where
  "status_quiet s \<longleftrightarrow> ps_players_online s = Some 0 \<and> ps_active_job_id s = None
     \<and> observed_state_value (ps_state s) \<in> {''stopped'', ''failed'', ''blocked'', ''unknown''}"

definition unowned :: "profile_status \<Rightarrow> bool" where
  "unowned s \<longleftrightarrow> (case ps_slot_owner s of None \<Rightarrow> True | Some owner \<Rightarrow> owner = [])"

definition entry_policy_ok :: "schedule_entry \<Rightarrow> bool" where
  "entry_policy_ok entry \<longleftrightarrow> truthy (sched_maintenance_window entry) \<and> truthy (sched_rollback_safe entry)
     \<and> sched_public_wake_policy entry = JStr ''safe''"

definition benchmark_eligible :: "status_snapshot \<Rightarrow> (string \<times> bool) list option \<Rightarrow> schedule_entry list \<Rightarrow> bool" where
  "benchmark_eligible sn evidence benchmark_due \<longleftrightarrow>
     list_all status_quiet (sn_profiles sn) \<and> list_all unowned (sn_profiles sn)
     \<and> evidence_ok evidence \<and> list_all entry_policy_ok benchmark_due"

section \<open>What the evidence means\<close>

lemma legacy_all:
  "evidence_ok (Some (legacy_mapping items)) \<longleftrightarrow> list_all (check_value items) LEGACY_KEYS"
  by (simp add: evidence_ok_def legacy_mapping_def LEGACY_KEYS_def)

lemma wake_clear_iff:
  "wk_available w \<and> wk_clear w \<longleftrightarrow> (\<exists>db. conn = Connected db \<and> \<not> list_ex job_active (db_jobs db) \<and> path = Some Missing)"
  if "w = root_wake_evidence conn path"
  unfolding that
  by (cases conn; cases path rule: option.exhaust)
    (auto simp: root_wake_evidence_def any_active_def root_unavailable_def root_value_def wake_def Let_def split: json_file.split)

lemma iso_rank_within:
  assumes "iso_rank u \<le> iso_rank t"
  shows "u < t + SECOND"
proof (rule div_le_within)
  have "1 \<le> iso_fraction u" "iso_fraction t \<le> SECOND"
    using pos_mod_bound [of SECOND t] pos_mod_sign [of SECOND u] by (auto simp: iso_fraction_def)
  with assms have "u div SECOND * (SECOND + 1) < (t div SECOND + 1) * (SECOND + 1)" unfolding iso_rank_def by (simp add: algebra_simps)
  then show "u div SECOND \<le> t div SECOND" by (simp only: mult_less_cancel_right) simp
qed simp

lemma latest_end_bounds:
  assumes "r \<in> set rows" "sr_ended_at r = Some u"
  shows "\<exists>t. latest_end rows = Some t \<and> u < t + SECOND"
proof -
  let ?ts = "List.map_filter sr_ended_at rows"
  have u: "u \<in> set (sort_key (\<lambda>t. - iso_rank t) ?ts)" using assms by (force simp: map_filter_def)
  then obtain t ts where ts: "sort_key (\<lambda>t. - iso_rank t) ?ts = t # ts" by (cases "sort_key (\<lambda>t. - iso_rank t) ?ts") auto
  have "sorted (map (\<lambda>t. - iso_rank t) (t # ts))" using sorted_sort_key [of "\<lambda>t. - iso_rank t" ?ts] ts by simp
  with u ts have "iso_rank u \<le> iso_rank t" by auto
  then show ?thesis using ts iso_rank_within by (simp add: latest_end_def)
qed

lemma storage_ok: "ei_result (storage_item pf) \<longleftrightarrow> pf_storage pf \<noteq> [] \<and> list_all (\<lambda>(_, free). acceptable_free free) (pf_storage pf)"
  by (simp add: storage_item_def Let_def)

lemma ups_ok: "ei_result (ups_item pf) \<longleftrightarrow> pf_ups pf = Some (Some (JBool True))"
  by (simp add: ups_item_def Let_def split: option.split)

lemma item_checks [simp]: "ei_check (storage_item pf) = ''storage_acceptable''" "ei_check (ups_item pf) = ''ups_acceptable''"
  "ei_check (fst (session_items pf)) = ''quiet_period''" "ei_check (snd (session_items pf)) = ''no_wake_session''"
  by (auto simp: storage_item_def ups_item_def session_items_def session_item_def Let_def split: option.split)

lemma sessions_ok:
  "ei_result (fst (session_items pf)) \<and> ei_result (snd (session_items pf)) \<longleftrightarrow>
     (\<exists>rows. pf_sessions pf = Some (Some rows) \<and> \<not> list_ex (\<lambda>r. sr_ended_at r = None) rows
        \<and> (case latest_end rows of None \<Rightarrow> True | Some t \<Rightarrow> t \<le> pf_clock pf - 900 * SECOND))"
  by (auto simp: session_items_def session_item_def split: option.split)

lemma eligibility_iff:
  "evidence_ok (Some (benchmark_eligibility pf sn mw rs pol)) \<longleftrightarrow>
     mw = JBool True \<and> truthy rs \<and> pol = JStr ''safe'' \<and> list_all proven_idle (sn_profiles sn)
     \<and> ei_result (storage_item pf) \<and> ei_result (ups_item pf)
     \<and> ei_result (fst (session_items pf)) \<and> ei_result (snd (session_items pf))
     \<and> (case pf_wake pf of Some (Some w) \<Rightarrow> wk_available w \<and> wk_clear w | _ \<Rightarrow> False)"
  unfolding benchmark_eligibility_def legacy_all
  by (auto simp: evaluate_def Let_def case_prod_unfold check_value_def LEGACY_KEYS_def)

text \<open>C31. Benchmark evidence never fails open: when every check of the preflight is true, the policy allows the run, every sampled
  profile is stopped, empty and without a job, each storage path has five gigabytes free, the power supply was reported good, every
  recorded player session ended more than 899 seconds before, no job of the root table is active and there is no reservation.\<close>

theorem benchmark_evidence_sound:
  assumes "evidence_ok (Some (benchmark_eligibility pf sn mw rs pol))" "pf_wake pf = Some (Some (root_wake_evidence conn path))"
  shows "mw = JBool True \<and> truthy rs \<and> pol = JStr ''safe''
    \<and> (\<forall>s\<in>set (sn_profiles sn). ps_state s = STOPPED \<and> ps_players_online s = Some 0 \<and> ps_active_job_id s = None)
    \<and> pf_storage pf \<noteq> [] \<and> (\<forall>(p, free)\<in>set (pf_storage pf). acceptable_free free) \<and> pf_ups pf = Some (Some (JBool True))
    \<and> (\<exists>rows. pf_sessions pf = Some (Some rows) \<and> (\<forall>r\<in>set rows. \<exists>t. sr_ended_at r = Some t \<and> t < pf_clock pf - 899 * SECOND))
    \<and> (\<exists>db. conn = Connected db \<and> (\<forall>j\<in>set (db_jobs db). job_status j \<notin> {Job_Accepted, Job_Running})) \<and> path = Some Missing"
proof -
  note all = assms(1) [unfolded eligibility_iff]
  from all sessions_ok [of pf] obtain rows where rows: "pf_sessions pf = Some (Some rows)" "\<not> list_ex (\<lambda>r. sr_ended_at r = None) rows"
      "case latest_end rows of None \<Rightarrow> True | Some t \<Rightarrow> t \<le> pf_clock pf - 900 * SECOND"
    by blast
  have "\<exists>t. sr_ended_at r = Some t \<and> t < pf_clock pf - 899 * SECOND" if r: "r \<in> set rows" for r
  proof -
    obtain u where u: "sr_ended_at r = Some u" using rows(2) r by (auto simp: list_ex_iff)
    obtain t where "latest_end rows = Some t" "u < t + SECOND" using latest_end_bounds [OF r u] by blast
    with rows(3) u show ?thesis by simp
  qed
  with rows(1) have "\<exists>rows. pf_sessions pf = Some (Some rows) \<and> (\<forall>r\<in>set rows. \<exists>t. sr_ended_at r = Some t \<and> t < pf_clock pf - 899 * SECOND)"
    by blast
  moreover have "\<exists>db. conn = Connected db \<and> \<not> list_ex job_active (db_jobs db)" "path = Some Missing"
    using all assms(2) wake_clear_iff [OF refl, of conn path] by auto
  ultimately show ?thesis
    using all by (auto simp: storage_ok ups_ok list_all_iff proven_idle_def list_ex_iff job_active_def)
qed

definition sample_preflight :: preflight where
  "sample_preflight = \<lparr>pf_storage = [(''/srv/game-servers'', Some (JInt (6 * 1024 ^ 3)))], pf_ups = Some (Some (JBool True)),
     pf_sessions = Some (Some [\<lparr>sr_id = ''a'', sr_profile = ''sunlit'', sr_player = ''ann'', sr_started_at = 0,
        sr_ended_at = Some (60 * SECOND), sr_source = ''log''\<rparr>]),
     pf_wake = Some (Some (root_wake_evidence (Connected (sd_ctl empty_tables)) (Some Missing))), pf_clock = 2000 * SECOND\<rparr>"

definition idle_snapshot :: status_snapshot where
  "idle_snapshot = \<lparr>sn_generation = 0, sn_observed_at = 2000 * SECOND, sn_profiles = [], sn_initializing = False\<rparr>"

theorem benchmark_evidence_sound_witness:
  "evidence_ok (Some (benchmark_eligibility sample_preflight idle_snapshot (JBool True) (JBool True) (JStr ''safe'')))
   \<and> (\<exists>rows. pf_sessions sample_preflight = Some (Some rows) \<and> length rows = 1
        \<and> (\<forall>r\<in>set rows. \<exists>t. sr_ended_at r = Some t \<and> t < pf_clock sample_preflight - 899 * SECOND))"
proof -
  have ok: "evidence_ok (Some (benchmark_eligibility sample_preflight idle_snapshot (JBool True) (JBool True) (JStr ''safe'')))" by code_simp
  have w: "pf_wake sample_preflight = Some (Some (root_wake_evidence (Connected (sd_ctl empty_tables)) (Some Missing)))"
    by (simp add: sample_preflight_def)
  have "length (the (the (pf_sessions sample_preflight))) = 1" by code_simp
  with benchmark_evidence_sound [OF ok w] ok show ?thesis by auto
qed

end
