(* ===== verification/Maintenance_Jobs.thy ===== *)
theory Maintenance_Jobs
  imports Lifecycle Idle_Stop Benchmark_Safety
begin

text \<open>
  The maintenance side of \<^verbatim>\<open>controller.py\<close>: backups, restores, updates, world clones and retirements as durable jobs under
  an operation lease, benchmark runs with their background worker, and the maintenance cycle that applies idle stops and due
  schedule entries.  Each handler is a program of \<open>Handler\<close>.

  The services behind the handlers answer through \<open>job_env\<close>, one tick for each call, as the environment of the lifecycle handlers
  does.  The confirmations returned to a client are reduced to id, expiry and generation.
\<close>

section \<open>Services\<close>

record job_env =
  je_service :: "string \<Rightarrow> bool" \<comment> \<open>the named method of a service group exists\<close>
  je_work :: "nat \<Rightarrow> exn + unit" \<comment> \<open>what the awaited call of a service ends with\<close>
  je_notify :: "nat \<Rightarrow> exn + unit"
  je_availability :: "(string \<Rightarrow> string) option"
  je_authorize :: "nat \<Rightarrow> exn + (lease \<times> int \<times> int)"
  je_frozen :: "nat \<Rightarrow> exn + bool" \<comment> \<open>the benchmark preflight returned a mapping\<close>
  je_prepare :: "string \<Rightarrow> exn + unit"
  je_fail :: "nat \<Rightarrow> exn + unit"
  je_regression :: "nat \<Rightarrow> exn + unit"
  je_cancel_run :: "nat \<Rightarrow> bool"
  je_closed :: "nat \<Rightarrow> bool"
  je_preflight :: "preflight option" \<comment> \<open>\<open>None\<close>: no eligibility reader, or it raised\<close>
  je_text :: "json \<Rightarrow> string"

text \<open>\<^verbatim>\<open>except Exception\<close> does not catch a cancellation.\<close>

definition on_exception :: "'a prog \<Rightarrow> (exn \<Rightarrow> 'a prog) \<Rightarrow> 'a prog" where
  "on_exception p h = catchp p (\<lambda>e. if e = Cancelled_Exn then throw e else h e)"

definition call_service :: "ctl_env \<Rightarrow> job_env \<Rightarrow> bool \<Rightarrow> string \<Rightarrow> profile_id \<Rightarrow> unit prog" where
  "call_service ev je renewal name p = thenp (emit (Eff_Work name p)) (await_lease ev renewal True (je_work je))"

definition finish_as :: "ctl_env \<Rightarrow> string \<Rightarrow> string \<Rightarrow> string \<Rightarrow> profile_id option \<Rightarrow> error_code \<Rightarrow> string \<Rightarrow> job_state \<Rightarrow> unit prog" where
  "finish_as ev job actor action profile code detail state = transaction ev (\<lambda>clock _ _.
     (Inr (), Some (Do_Finish clock \<lparr>fin_job = job, fin_actor = actor, fin_action = action, fin_profile = profile,
        fin_ok = False, fin_code = Some code, fin_detail = detail, fin_state = Some state\<rparr>)))"

definition operation_lease :: "ctl_env \<Rightarrow> profile \<Rightarrow> string \<Rightarrow> string \<Rightarrow> string \<Rightarrow> 'a prog \<Rightarrow> 'a prog" where
  "operation_lease ev p operation request_id actor body =
     seqp (reserve_lease ev p operation request_id actor) (\<lambda>l.
     finallyp (thenp (assert_lease ev) body) (\<lambda>primary. release_lease ev primary (Some l) True))"

section \<open>Durable maintenance jobs\<close>

fun error_code_value :: "error_code \<Rightarrow> string" where
  "error_code_value SLOT_CONFLICT = ''slot_conflict''"
| "error_code_value PROFILE_RESERVED = ''profile_reserved''"
| "error_code_value LOW_DISK = ''low_disk''"
| "error_code_value LOW_MEMORY = ''low_memory''"
| "error_code_value REQUIRED_FILE_MISSING = ''required_file_missing''"
| "error_code_value UPSTREAM_UNAVAILABLE = ''upstream_unavailable''"
| "error_code_value START_TIMEOUT = ''start_timeout''"
| "error_code_value HEALTH_FAILED = ''health_failed''"
| "error_code_value GRACE_TIMEOUT = ''grace_timeout''"
| "error_code_value BACKUP_FAILED = ''backup_failed''"
| "error_code_value RESTORE_FAILED = ''restore_failed''"
| "error_code_value UPDATE_FAILED = ''update_failed''"
| "error_code_value BENCHMARK_FAILED = ''benchmark_failed''"
| "error_code_value CONFIRMATION_EXPIRED = ''confirmation_expired''"
| "error_code_value CONFIRMATION_MISMATCH = ''confirmation_mismatch''"
| "error_code_value REQUEST_ID_CONFLICT = ''request_id_conflict''"
| "error_code_value RETIREMENT_FAILED = ''retirement_failed''"
| "error_code_value RETIREMENT_UNAVAILABLE = ''retirement_unavailable''"
| "error_code_value UNAUTHORIZED_PEER = ''unauthorized_peer''"
| "error_code_value INVALID_REQUEST = ''invalid_request''"
| "error_code_value INVALID_STATE = ''invalid_state''"
| "error_code_value INTERNAL_ERROR = ''internal_error''"

definition default_code :: "string \<Rightarrow> error_code" where
  "default_code operation =
     (if operation = ''backup'' then BACKUP_FAILED
      else if operation = ''restore'' then RESTORE_FAILED
      else if operation = ''update'' then UPDATE_FAILED
      else if operation = ''world_clone'' then INVALID_REQUEST
      else if operation = ''retirement'' then RETIREMENT_FAILED
      else INTERNAL_ERROR)"

definition allowed_codes :: "string \<Rightarrow> error_code list" where
  "allowed_codes operation =
     (if operation = ''backup'' then [BACKUP_FAILED, INVALID_REQUEST, SLOT_CONFLICT]
      else if operation = ''restore'' then [RESTORE_FAILED, INVALID_REQUEST, SLOT_CONFLICT]
      else if operation = ''update'' then [UPDATE_FAILED, INVALID_REQUEST, SLOT_CONFLICT]
      else if operation = ''world_clone'' then [INVALID_REQUEST, SLOT_CONFLICT]
      else if operation = ''retirement'' then [RETIREMENT_FAILED, RETIREMENT_UNAVAILABLE, INVALID_REQUEST, SLOT_CONFLICT]
      else [])"

definition maintenance_failure :: "string \<Rightarrow> exn \<Rightarrow> ctl_failure" where
  "maintenance_failure operation e =
     (case e of
        Ctl_Exn f \<Rightarrow> f
      | Safe_Exn value message retryable \<Rightarrow>
          ctl_fail (case find (\<lambda>c. error_code_value c = value) (allowed_codes operation) of
                      Some c \<Rightarrow> c | None \<Rightarrow> default_code operation) message retryable
      | _ \<Rightarrow> ctl_fail (default_code operation) (operation @ '' failed'') False)"

definition run_bound_maintenance_job :: "ctl_env \<Rightarrow> job_env \<Rightarrow> profile \<Rightarrow> string \<Rightarrow> string \<Rightarrow> bool \<Rightarrow> string prog" where
  "run_bound_maintenance_job ev je p operation actor renewal =
     (let pid = Some (prof_id p) in
      seqp (open_job ev actor operation pid) (\<lambda>job.
      thenp (catchp (call_service ev je renewal operation (prof_id p)) (\<lambda>e.
               if e = Cancelled_Exn
               then thenp (finish ev job actor operation pid (Some INTERNAL_ERROR) ''maintenance cancelled'') (throw e)
               else let f = maintenance_failure operation e
                    in thenp (finish ev job actor operation pid (Some (cf_code f)) (cf_message f)) (throw (Ctl_Exn f))))
      (thenp (finish ev job actor operation pid None (operation @ '' completed''))
      (ret job))))"

definition run_maintenance_job :: "ctl_env \<Rightarrow> job_env \<Rightarrow> profile \<Rightarrow> string \<Rightarrow> string \<Rightarrow> string \<Rightarrow> string prog" where
  "run_maintenance_job ev je p operation actor request_id =
     operation_lease ev p operation request_id actor (run_bound_maintenance_job ev je p operation actor True)"

text \<open>The lease check authorises the capability again and compares the whole identity of the reservation.\<close>

definition run_handoff_maintenance_job :: "ctl_env \<Rightarrow> job_env \<Rightarrow> profile \<Rightarrow> string \<Rightarrow> string \<Rightarrow> lease \<times> int \<times> int \<Rightarrow> string prog" where
  "run_handoff_maintenance_job ev je p operation actor handoff =
     seqp (ask (\<lambda>n. if env_cancel ev n then Inl Cancelled_Exn else Inr (je_authorize je n = Inr handoff))) (\<lambda>ok.
     if \<not> ok then throw (ctl_exn SLOT_CONFLICT ''update handoff is unavailable'')
     else run_bound_maintenance_job ev je p operation actor False)"

definition create_backup :: "ctl_env \<Rightarrow> job_env \<Rightarrow> profile_id \<Rightarrow> bool \<Rightarrow> backup_destination \<Rightarrow> bool \<Rightarrow> string \<Rightarrow> string \<Rightarrow> string prog" where
  "create_backup ev je profile_id protected destination with_capability actor request_id =
     seqp (require_profile ev profile_id) (\<lambda>p.
     thenp (require_operation ev p Op_BACKUP actor)
     (if \<not> je_service je ''backups.create'' then throw (ctl_exn BACKUP_FAILED ''backup service unavailable'')
      else if \<not> with_capability then run_maintenance_job ev je p ''backup'' actor request_id
      else if prof_id p \<noteq> MINECRAFT_SUNLIT_COBBLEMON \<or> \<not> protected \<or> destination \<noteq> HORIZON_B2
      then throw (ctl_exn INVALID_REQUEST ''reservation handoff is not permitted'')
      else if \<not> env_store ev then throw (ctl_exn SLOT_CONFLICT ''update handoff is unavailable'')
      else seqp (on_exception (ask (je_authorize je)) (\<lambda>_. throw (ctl_exn SLOT_CONFLICT ''update handoff is unavailable''))) (\<lambda>handoff.
        run_handoff_maintenance_job ev je p ''backup'' actor handoff)))"

definition payload_text :: "job_env \<Rightarrow> (string \<times> json) list \<Rightarrow> string \<Rightarrow> string" where
  "payload_text je payload key = (case map_of payload key of None \<Rightarrow> [] | Some j \<Rightarrow> je_text je j)"

definition locally_present :: "job_env \<Rightarrow> string \<Rightarrow> bool" where
  "locally_present je backup_id \<longleftrightarrow> (case je_availability je of None \<Rightarrow> True | Some state \<Rightarrow> state backup_id = ''present'')"

definition payload_require :: "ctl_env \<Rightarrow> (string \<times> json) list \<Rightarrow> profile prog" where
  "payload_require ev payload =
     (case map_of payload ''profile_id'' \<bind> as_str \<bind> profile_of_value of
        None \<Rightarrow> throw (ctl_exn INVALID_REQUEST ''unknown profile'') | Some q \<Rightarrow> require_profile ev q)"

definition prepare_restore :: "ctl_env \<Rightarrow> job_env \<Rightarrow> profile_id \<Rightarrow> string \<Rightarrow> string \<Rightarrow> (string \<times> instant \<times> int) prog" where
  "prepare_restore ev je profile_id backup_id actor =
     seqp (require_profile ev profile_id) (\<lambda>p.
     thenp (require_operation ev p Op_RESTORE actor)
     (if \<not> locally_present je backup_id then throw (ctl_exn RESTORE_FAILED ''backup payload is not locally available'')
      else prepare_confirmation ev actor ''restore'' profile_id [(''backup_id'', JStr backup_id)]))"

definition confirm_restore :: "ctl_env \<Rightarrow> job_env \<Rightarrow> string \<Rightarrow> string \<Rightarrow> string \<Rightarrow> string prog" where
  "confirm_restore ev je confirmation_id actor request_id =
     seqp (redeem_confirmation ev actor ''restore'' confirmation_id) (\<lambda>payload.
     if \<not> je_service je ''backups.confirm_restore'' \<and> \<not> je_service je ''backups.restore''
     then throw (ctl_exn RESTORE_FAILED ''restore service unavailable'')
     else seqp (payload_require ev payload) (\<lambda>p.
       if payload_text je payload ''backup_id'' \<noteq> [] \<and> \<not> locally_present je (payload_text je payload ''backup_id'')
       then throw (ctl_exn RESTORE_FAILED ''backup payload is not locally available'')
       else run_maintenance_job ev je p ''restore'' actor request_id))"

definition confirm_retirement :: "ctl_env \<Rightarrow> job_env \<Rightarrow> string \<Rightarrow> string \<Rightarrow> string \<Rightarrow> string prog" where
  "confirm_retirement ev je confirmation_id actor request_id =
     seqp (redeem_confirmation ev actor ''retirement'' confirmation_id) (\<lambda>payload.
     if \<not> je_service je ''backups.retirement_confirm'' then throw (ctl_exn RETIREMENT_FAILED ''retirement service unavailable'')
     else seqp (payload_profile payload ''profile_id'') (\<lambda>profile_id.
       seqp (require_profile ev profile_id) (\<lambda>p. run_maintenance_job ev je p ''retirement'' actor request_id)))"

definition prepare_world_clone :: "ctl_env \<Rightarrow> string \<Rightarrow> string \<Rightarrow> string \<Rightarrow> (string \<times> instant \<times> int) prog" where
  "prepare_world_clone ev source_world_id destination_name actor =
     seqp (require_profile ev TERRARIA_VANILLA) (\<lambda>source.
     seqp (require_profile ev TERRARIA_TMOD) (\<lambda>target.
     thenp (require_operation ev source Op_CLONE_SOURCE actor)
     (thenp (require_operation ev target Op_CLONE_TARGET actor)
     (prepare_confirmation ev actor ''world_clone'' TERRARIA_VANILLA
        [(''source_profile_id'', JStr (profile_value TERRARIA_VANILLA)), (''target_profile_id'', JStr (profile_value TERRARIA_TMOD)),
         (''source_world_id'', JStr source_world_id), (''destination_name'', JStr destination_name)]))))"

definition confirm_world_clone :: "ctl_env \<Rightarrow> job_env \<Rightarrow> string \<Rightarrow> string \<Rightarrow> string \<Rightarrow> string prog" where
  "confirm_world_clone ev je confirmation_id actor request_id =
     seqp (redeem_confirmation ev actor ''world_clone'' confirmation_id) (\<lambda>payload.
     if \<not> je_service je ''worlds.confirm_clone'' \<and> \<not> je_service je ''worlds.clone''
     then throw (ctl_exn INVALID_REQUEST ''world clone service unavailable'')
     else seqp (require_profile ev TERRARIA_VANILLA) (\<lambda>source. run_maintenance_job ev je source ''world_clone'' actor request_id))"

definition prepare_update :: "ctl_env \<Rightarrow> profile_id \<Rightarrow> string \<Rightarrow> (string \<times> instant \<times> int) prog" where
  "prepare_update ev profile_id actor =
     seqp (require_profile ev profile_id) (\<lambda>p.
     thenp (require_operation ev p Op_UPDATE_APPLY actor)
     (prepare_confirmation ev actor ''update'' profile_id [(''installed_version'', JNull), (''available_version'', JNull)]))"

definition confirm_update :: "ctl_env \<Rightarrow> job_env \<Rightarrow> string \<Rightarrow> string \<Rightarrow> string \<Rightarrow> string prog" where
  "confirm_update ev je confirmation_id actor request_id =
     seqp (redeem_confirmation ev actor ''update'' confirmation_id) (\<lambda>payload.
     if \<not> je_service je ''updates.confirm'' \<and> \<not> je_service je ''updates.apply''
     then throw (ctl_exn UPDATE_FAILED ''update service unavailable'')
     else seqp (payload_require ev payload) (\<lambda>p. run_maintenance_job ev je p ''update'' actor request_id))"

section \<open>Scheduled backups\<close>

abbreviation schedule_actor :: string where
  "schedule_actor \<equiv> ''system:schedule''"

definition scheduled_backup_failed :: "ctl_env \<Rightarrow> profile_id \<Rightarrow> string \<Rightarrow> exn \<Rightarrow> unit prog" where
  "scheduled_backup_failed ev p job e =
     (case e of
        Cancelled_Exn \<Rightarrow>
          thenp (finish ev job schedule_actor ''scheduled_backup'' (Some p) (Some INTERNAL_ERROR) ''scheduled backup cancelled'') (throw e)
      | Safe_Exn value message retryable \<Rightarrow>
          (if value = ''profile_running''
           then thenp (finish_as ev job schedule_actor ''scheduled_backup'' (Some p) INVALID_STATE ''profile_running'' Job_Deferred) (throw e)
           else thenp (finish_as ev job schedule_actor ''scheduled_backup'' (Some p) BACKUP_FAILED ''backup_failed'' Job_Failed) (throw e))
      | _ \<Rightarrow> thenp (finish ev job schedule_actor ''scheduled_backup'' (Some p) (Some BACKUP_FAILED) ''backup_failed'') (throw e))"

definition run_scheduled_backup :: "ctl_env \<Rightarrow> job_env \<Rightarrow> profile_id \<Rightarrow> string \<Rightarrow> string prog" where
  "run_scheduled_backup ev je profile_id request_id =
     seqp (require_profile ev profile_id) (\<lambda>p.
     if \<not> je_service je ''backups.create'' then throw (ctl_exn BACKUP_FAILED ''backup service unavailable'')
     else operation_lease ev p ''scheduled_backup'' request_id schedule_actor (
       seqp (open_job ev schedule_actor ''scheduled_backup'' (Some (prof_id p))) (\<lambda>job.
       thenp (catchp (call_service ev je True ''scheduled_backup'' (prof_id p)) (scheduled_backup_failed ev (prof_id p) job))
       (thenp (finish ev job schedule_actor ''scheduled_backup'' (Some (prof_id p)) None ''scheduled backup completed'')
       (ret job)))))"

section \<open>Idle stops\<close>

definition notify :: "job_env \<Rightarrow> unit prog" where
  "notify je = whenp (je_service je ''notifications.send'') (on_exception (ask (je_notify je)) (\<lambda>_. ret ()))"

definition idle_sample_of :: "instant \<Rightarrow> profile \<Rightarrow> profile_status \<Rightarrow> idle_sample" where
  "idle_sample_of now p s = \<lparr>smp_key = profile_value (prof_id p), smp_minutes = prof_idle_stop_minutes p,
     smp_state = observed_state_value (ps_state s), smp_players = ps_players_online s, smp_job = ps_active_job_id s, smp_now = now\<rparr>"

definition idle_stop :: "ctl_env \<Rightarrow> job_env \<Rightarrow> profile_id \<Rightarrow> string \<Rightarrow> unit prog" where
  "idle_stop ev je p request_id =
     thenp (write_event ev (Some p) ''idle_stop'' ''idle-stop threshold reached'')
     (thenp (notify je)
     (on_exception (thenp (stop ev p ''system:idle-stop'' request_id) (ret ()))
        (\<lambda>_. write_event ev (Some p) ''idle_stop'' ''idle-stop request failed'')))"

text \<open>The loop over the sampled profiles carries the tracker along; an exception ends it.\<close>

fun apply_idle_stops :: "ctl_env \<Rightarrow> job_env \<Rightarrow> string \<Rightarrow> profile_status list \<Rightarrow> idle_tracker \<Rightarrow> world
    \<Rightarrow> (exn + unit) \<times> idle_tracker \<times> world" where
  "apply_idle_stops ev je request_id [] tracker w = (Inr (), tracker, w)"
| "apply_idle_stops ev je request_id (s # ss) tracker w =
     (case env_profiles ev (ps_profile_id s) of
        None \<Rightarrow> apply_idle_stops ev je request_id ss tracker w
      | Some p \<Rightarrow>
          (case idle_observe (idle_sample_of (env_clock ev (w_time w) 0) p s) tracker of
             (crossed, tracker') \<Rightarrow>
               if \<not> crossed then apply_idle_stops ev je request_id ss tracker' w
               else (case idle_stop ev je (prof_id p) request_id w of
                       (Inl e, w') \<Rightarrow> (Inl e, tracker', w')
                     | (Inr _, w') \<Rightarrow> apply_idle_stops ev je request_id ss tracker' w')))"

section \<open>Benchmark runs\<close>

definition acquire_operation_lease :: "ctl_env \<Rightarrow> profile \<Rightarrow> string \<Rightarrow> string \<Rightarrow> string \<Rightarrow> lease prog" where
  "acquire_operation_lease ev p operation request_id actor =
     seqp (reserve_lease ev p operation request_id actor) (\<lambda>l.
     catchp (thenp (assert_lease ev) (ret l)) (\<lambda>e. thenp (release_lease ev True (Some l) True) (throw e)))"

definition prove_idle_failed :: "ctl_env \<Rightarrow> lease \<Rightarrow> exn \<Rightarrow> unit prog" where
  "prove_idle_failed ev l e =
     (case e of
        Cancelled_Exn \<Rightarrow> throw e
      | Safe_Exn value message retryable \<Rightarrow>
          thenp (release_lease ev True (Some l) True)
            (throw (if value = ''invalid_state'' then retryable_exn INVALID_STATE message else ctl_exn BENCHMARK_FAILED message))
      | _ \<Rightarrow> thenp (release_lease ev True (Some l) True) (throw e))"

definition benchmark_preparation :: "ctl_env \<Rightarrow> job_env \<Rightarrow> unit prog" where
  "benchmark_preparation ev je =
     seqp (await_lease ev True True (je_frozen je)) (\<lambda>frozen.
     if \<not> frozen then throw (Safe_Exn ''benchmark_failed'' ''benchmark preflight provenance is unavailable'' False)
     else transaction ev (\<lambda>_ new_id _. (je_prepare je new_id, None)))"

definition benchmark_preparation_failed :: "ctl_env \<Rightarrow> profile_id \<Rightarrow> string \<Rightarrow> string \<Rightarrow> lease \<Rightarrow> exn \<Rightarrow> unit prog" where
  "benchmark_preparation_failed ev p actor job l e =
     thenp (if e = Cancelled_Exn
            then finish ev job actor ''benchmark'' (Some p) (Some INTERNAL_ERROR) ''benchmark preparation cancelled''
            else finish ev job actor ''benchmark'' (Some p) (Some BENCHMARK_FAILED) ''benchmark request validation failed'')
     (thenp (release_lease ev True (Some l) True)
     (throw (case e of Safe_Exn value message retryable \<Rightarrow> ctl_exn BENCHMARK_FAILED message | _ \<Rightarrow> e)))"

definition benchmark_services :: "string list" where
  "benchmark_services = [''benchmarks.prove_idle'', ''benchmarks.preflight'', ''benchmarks.prepare_frozen'', ''benchmarks.run'', ''benchmarks.fail'']"

text \<open>The result is the job and the lease that the background worker takes over.\<close>

definition run_benchmark :: "ctl_env \<Rightarrow> job_env \<Rightarrow> profile_id \<Rightarrow> string \<Rightarrow> string \<Rightarrow> (string \<times> lease) prog" where
  "run_benchmark ev je profile_id actor request_id =
     seqp (require_profile ev profile_id) (\<lambda>p.
     thenp (require_operation ev p Op_BENCHMARK actor)
     (if \<not> list_all (je_service je) benchmark_services then throw (ctl_exn BENCHMARK_FAILED ''benchmark service unavailable'')
      else seqp (acquire_operation_lease ev p ''benchmark'' request_id actor) (\<lambda>l.
        thenp (catchp (await_lease ev True False (je_work je)) (prove_idle_failed ev l))
        (seqp (getp (\<lambda>w. list_ex job_active (db_jobs (w_db w)))) (\<lambda>busy.
         if busy
         then thenp (release_lease ev False (Some l) True) (throw (retryable_exn INVALID_STATE ''another game operation is active''))
         else seqp (open_job ev actor ''benchmark'' (Some (prof_id p))) (\<lambda>job.
           thenp (catchp (benchmark_preparation ev je) (benchmark_preparation_failed ev (prof_id p) actor job l))
           (seqp (ask (\<lambda>n. Inr (je_closed je n))) (\<lambda>closed.
            if closed
            then thenp (release_lease ev False (Some l) True) (throw (ctl_exn INVALID_STATE ''controller is closed''))
            else ret (job, l)))))))))"

definition benchmark_worker :: "ctl_env \<Rightarrow> job_env \<Rightarrow> profile_id \<Rightarrow> string \<Rightarrow> string \<Rightarrow> lease \<Rightarrow> unit prog" where
  "benchmark_worker ev je p actor job l =
     seqp (attempt (thenp (assert_lease ev) (call_service ev je True ''benchmark'' p))) (\<lambda>failed.
     case failed of
       None \<Rightarrow>
         finallyp (thenp (on_exception (ask (je_regression je)) (\<lambda>_. ret ()))
                    (finish ev job actor ''benchmark'' (Some p) None ''benchmark completed''))
           (\<lambda>primary. release_lease ev primary (Some l) True)
     | Some e \<Rightarrow>
         if e = Cancelled_Exn then thenp (release_lease ev True (Some l) True) (throw e)
         else thenp (on_exception (ask (je_fail je)) (\<lambda>_. ret ()))
                (thenp (finish ev job actor ''benchmark'' (Some p) (Some BENCHMARK_FAILED) ''benchmark failed'')
                (release_lease ev True (Some l) True)))"

definition cancel_benchmark :: "ctl_env \<Rightarrow> job_env \<Rightarrow> string \<Rightarrow> string \<Rightarrow> string prog" where
  "cancel_benchmark ev je job actor =
     seqp (getp (\<lambda>w. find (\<lambda>j. job_id j = job \<and> job_operation j = ''benchmark'') (db_jobs (w_db w)))) (\<lambda>row.
     case row of
       None \<Rightarrow> throw (ctl_exn INVALID_STATE ''benchmark job is not active'')
     | Some j \<Rightarrow>
         if \<not> job_active j then throw (ctl_exn INVALID_STATE ''benchmark job is not active'')
         else seqp (ask (\<lambda>n. Inr (je_service je ''benchmarks.cancel'' \<and> je_cancel_run je n))) (\<lambda>cancelled.
           if \<not> cancelled then throw (ctl_exn INVALID_STATE ''benchmark process is not cancellable'')
           else thenp (whenp (je_service je ''benchmarks.fail'') (ask (je_fail je)))
             (case job_profile j \<bind> profile_of_value of
                None \<Rightarrow> throw (Other_Exn None)
              | Some p \<Rightarrow>
                  thenp (finish ev job actor ''benchmark'' (Some p) (Some BENCHMARK_FAILED) ''benchmark cancelled'') (ret job))))"

section \<open>Due schedule entries\<close>

text \<open>A fire is claimed immediately before it is executed.\<close>

definition claim_due :: "ctl_env \<Rightarrow> job_env \<Rightarrow> instant \<Rightarrow> schedule_entry \<Rightarrow> bool prog" where
  "claim_due ev je observed_at entry =
     seqp (getp (\<lambda>w. schedule_fire_seen (je_text je) entry observed_at (w_db w))) (\<lambda>seen.
     if seen then ret False
     else thenp (write_event ev (Some (sched_profile entry)) ''scheduled_fire'' (schedule_fire_key (je_text je) entry observed_at)) (ret True))"

definition due_benchmark :: "ctl_env \<Rightarrow> job_env \<Rightarrow> instant \<Rightarrow> bool \<Rightarrow> string \<Rightarrow> schedule_entry \<Rightarrow> unit prog" where
  "due_benchmark ev je observed_at eligible request_id entry =
     (let p = Some (sched_profile entry) in
      seqp (claim_due ev je observed_at entry) (\<lambda>claimed.
      if \<not> claimed then ret ()
      else if \<not> eligible then write_event ev p ''scheduled_benchmark_skipped'' ''benchmark eligibility evidence unavailable''
      else on_exception (thenp (run_benchmark ev je (sched_profile entry) schedule_actor request_id)
                           (write_event ev p ''scheduled_benchmark'' ''scheduled benchmark dispatched''))
             (\<lambda>_. write_event ev p ''scheduled_benchmark_failed'' ''scheduled benchmark dispatch failed'')))"

fun profile_running_refusal :: "exn \<Rightarrow> bool" where
  "profile_running_refusal (Safe_Exn value message retryable) \<longleftrightarrow> value = ''profile_running''"
| "profile_running_refusal _ \<longleftrightarrow> False"

definition backup_not_done :: "ctl_env \<Rightarrow> job_env \<Rightarrow> profile_id \<Rightarrow> exn \<Rightarrow> unit prog" where
  "backup_not_done ev je p e =
     (if profile_running_refusal e
      then write_event ev (Some p) ''scheduled_backup_deferred'' ''scheduled backup deferred''
      else thenp (write_event ev (Some p) ''scheduled_backup_failed'' ''scheduled backup failed'') (notify je))"

definition due_backup :: "ctl_env \<Rightarrow> job_env \<Rightarrow> string \<Rightarrow> schedule_entry \<Rightarrow> unit prog" where
  "due_backup ev je request_id entry =
     (if sched_operation entry \<noteq> ''backup'' \<or> sched_backup_destination entry = None then ret ()
      else on_exception (thenp (run_scheduled_backup ev je (sched_profile entry) request_id)
                           (write_event ev (Some (sched_profile entry)) ''scheduled_backup'' ''scheduled backup completed''))
             (backup_not_done ev je (sched_profile entry)))"

text \<open>The claimed switches are collected and tried after the backups.\<close>

fun due_entries :: "ctl_env \<Rightarrow> job_env \<Rightarrow> instant \<Rightarrow> string \<Rightarrow> schedule_entry list \<Rightarrow> schedule_entry list prog" where
  "due_entries ev je observed_at request_id [] = ret []"
| "due_entries ev je observed_at request_id (entry # entries) =
     seqp (claim_due ev je observed_at entry) (\<lambda>claimed.
     thenp (whenp claimed (due_backup ev je request_id entry))
     (seqp (due_entries ev je observed_at request_id entries) (\<lambda>switches.
      ret (if claimed \<and> sched_operation entry = ''switch'' then entry # switches else switches))))"

definition due_switch :: "ctl_env \<Rightarrow> profile_id \<Rightarrow> schedule_entry \<Rightarrow> unit prog" where
  "due_switch ev owner entry =
     (let target = sched_profile entry in
      if target = owner then write_event ev (Some target) ''scheduled_switch'' ''scheduled profile is already the owner''
      else on_exception
             (seqp (prepare_switch ev owner target False False True schedule_actor) (\<lambda>(confirmation_id, _, _).
              thenp (confirm_switch ev confirmation_id schedule_actor)
              (write_event ev (Some target) ''scheduled_switch'' ''scheduled switch completed'')))
             (\<lambda>_. write_event ev (Some target) ''scheduled_switch'' ''scheduled switch failed''))"

definition slot_owner_of :: "status_snapshot \<Rightarrow> string option" where
  "slot_owner_of sn = (case find (\<lambda>s. ps_slot_owner s \<notin> {None, Some []}) (sn_profiles sn) of None \<Rightarrow> None | Some s \<Rightarrow> ps_slot_owner s)"

definition owner_status :: "status_snapshot \<Rightarrow> profile_status option" where
  "owner_status sn =
     (case slot_owner_of sn of
        None \<Rightarrow> None | Some owner \<Rightarrow> find (\<lambda>s. profile_value (ps_profile_id s) = owner) (rev (sn_profiles sn)))"

definition due_switches :: "ctl_env \<Rightarrow> status_snapshot \<Rightarrow> schedule_entry list \<Rightarrow> unit prog" where
  "due_switches ev sn entries =
     (case owner_status sn of
        None \<Rightarrow> for_each (\<lambda>entry. write_event ev (Some (sched_profile entry)) ''scheduled_switch_skipped'' ''no active owner'') entries
      | Some current \<Rightarrow>
          if ps_players_online current \<noteq> Some 0 \<or> ps_active_job_id current \<noteq> None
          then for_each (\<lambda>entry. whenp (sched_profile entry \<noteq> ps_profile_id current)
                 (write_event ev (Some (sched_profile entry)) ''scheduled_switch_skipped'' ''current owner has players or an active job'')) entries
          else for_each (due_switch ev (ps_profile_id current)) entries)"

definition schedule_evidence :: "job_env \<Rightarrow> status_snapshot \<Rightarrow> schedule_entry list \<Rightarrow> (string \<times> bool) list option" where
  "schedule_evidence je sn benchmark_due =
     (case (je_preflight je, benchmark_due) of
        (Some pf, entry # _) \<Rightarrow>
          Some (benchmark_eligibility pf sn (sched_maintenance_window entry) (sched_rollback_safe entry) (sched_public_wake_policy entry))
      | _ \<Rightarrow> None)"

definition apply_due :: "ctl_env \<Rightarrow> job_env \<Rightarrow> status_snapshot \<Rightarrow> string \<Rightarrow> schedule_entry list \<Rightarrow> unit prog" where
  "apply_due ev je sn request_id entries =
     (let benchmark_due = filter (\<lambda>e. sched_operation e = ''benchmark'') entries;
          others = filter (\<lambda>e. sched_operation e \<noteq> ''benchmark'') entries;
          eligible = benchmark_eligible sn (schedule_evidence je sn benchmark_due) benchmark_due
      in thenp (for_each (due_benchmark ev je (sn_observed_at sn) eligible request_id) benchmark_due)
         (seqp (due_entries ev je (sn_observed_at sn) request_id others) (due_switches ev sn)))"

definition apply_schedules :: "ctl_env \<Rightarrow> job_env \<Rightarrow> status_snapshot \<Rightarrow> string \<Rightarrow> schedule_book \<Rightarrow> world
    \<Rightarrow> (exn + unit) \<times> schedule_book \<times> world" where
  "apply_schedules ev je sn request_id book w =
     (if book_entries book = [] then (Inr (), book, w)
      else case due (sn_observed_at sn) book of
             (entries, book') \<Rightarrow> (case apply_due ev je sn request_id entries w of (r, w') \<Rightarrow> (r, book', w')))"

section \<open>Leases are given back\<close>

lemma emits_call_service [emits]: "S Eff_Lost \<Longrightarrow> S (Eff_Work name p) \<Longrightarrow> emits_only S (call_service ev je renewal name p)"
  unfolding call_service_def by (intro emits)

lemma emits_finish_as [emits]:
  "(\<And>clock f. fin_job f = job \<Longrightarrow> \<not> fin_ok f \<Longrightarrow> S (Eff_Db (Do_Finish clock f)))
    \<Longrightarrow> emits_only S (finish_as ev job actor action profile code detail state)"
  unfolding finish_as_def by (rule emits_transaction) auto

lemma emits_on_exception [emits]: "emits_only S p \<Longrightarrow> (\<And>e. emits_only S (h e)) \<Longrightarrow> emits_only S (on_exception p h)"
  unfolding on_exception_def by (intro emits)

lemma emits_notify [emits]: "emits_only S (notify je)"
  unfolding notify_def by (intro emits)

lemma emits_run_bound:
  assumes "S Eff_Lost" "S (Eff_Work operation (prof_id p))" "\<And>clock i. S (Eff_Db (Do_Intent clock i actor operation (Some (prof_id p))))"
    "\<And>clock f. S (Eff_Db (Do_Finish clock f))"
  shows "emits_only S (run_bound_maintenance_job ev je p operation actor renewal)"
  unfolding run_bound_maintenance_job_def Let_def by (intro emits assms)

lemma emits_scheduled_backup_failed:
  assumes "\<And>clock f. S (Eff_Db (Do_Finish clock f))"
  shows "emits_only S (scheduled_backup_failed ev p job e)"
  unfolding scheduled_backup_failed_def by (cases e) (auto intro!: emits assms)

text \<open>The body of an operation lease neither takes nor gives back a lease.\<close>

lemma operation_lease_clears:
  assumes "emits_only (ignored held_step) body"
  shows "hoare (\<lambda>w. held w = {}) (operation_lease ev p operation rid actor body) (\<lambda>_ w. held w = {}) (\<lambda>_ w. held w = {})"
proof (rule hoare_frame_cases)
  fix f
  show "hoare (\<lambda>w. held w = {} \<and> w_frame w = f) (operation_lease ev p operation rid actor body) (\<lambda>_ w. held w = {}) (\<lambda>_ w. held w = {})"
    unfolding operation_lease_def
  proof (rule hoare_reserve)
    fix l :: lease
    let ?I = "\<lambda>w. held w = (if env_store ev then {l} else {}) \<and> w_frame w = f"
    have body: "hoare ?I (thenp (assert_lease ev) body) (\<lambda>_. ?I) (\<lambda>_. ?I)"
      by (intro hoare_ignored_then [where P = "\<lambda>H g. H = (if env_store ev then {l} else {}) \<and> g = f"] hoare_ignored emits assms) simp_all
    have release: "hoare ?I (release_lease ev primary (Some l) True) (\<lambda>_ w. held w = {}) (\<lambda>_ w. held w = {})" for primary
      by (rule hoare_conseq [OF release_held [where H = "if env_store ev then {l} else {}" and f = f]]) simp_all
    show "hoare ?I (finallyp (thenp (assert_lease ev) body) (\<lambda>primary. release_lease ev primary (Some l) True))
        (\<lambda>_ w. held w = {}) (\<lambda>_ w. held w = {})"
      by (rule hoare_finallyp [OF body release release])
  qed simp
qed

lemma run_maintenance_job_clears:
  "hoare (\<lambda>w. held w = {}) (run_maintenance_job ev je p operation actor rid) (\<lambda>_ w. held w = {}) (\<lambda>_ w. held w = {})"
  unfolding run_maintenance_job_def by (intro operation_lease_clears emits_run_bound) simp_all

lemma empty_maintenance_ops:
  "keeps (\<lambda>w. held w = {}) (run_bound_maintenance_job ev je p operation actor renewal)"
  "keeps (\<lambda>w. held w = {}) (on_exception (ask h) (\<lambda>_. throw e))" "keeps (\<lambda>w. held w = {}) (ask g)"
  "keeps (\<lambda>w. held w = {}) (write_event ev profile code message)" "keeps (\<lambda>w. held w = {}) (notify je)"
  "keeps (\<lambda>w. held w = {}) (payload_require ev payload)"
  "keeps (\<lambda>w. held w = {}) (prepare_confirmation ev actor action q payload)"
  unfolding payload_require_def prepare_confirmation_def
  by (rule keeps_ignored [where P = "\<lambda>H f. H = {}"]; intro emits emits_run_bound emits_transaction; simp split: sum.splits)+

lemmas empty_rules = keeps_rules empty_ops empty_maintenance_ops

lemma scheduled_backup_clears:
  "hoare (\<lambda>w. held w = {}) (run_scheduled_backup ev je pid rid) (\<lambda>_ w. held w = {}) (\<lambda>_ w. held w = {})"
  unfolding run_scheduled_backup_def
  by (intro hoare_keeps_seq hoare_if hoare_throw operation_lease_clears empty_rules emits emits_scheduled_backup_failed) simp_all

datatype maintenance_request =
    Mr_Backup profile_id bool backup_destination bool
  | Mr_Restore string
  | Mr_Retirement string
  | Mr_Clone string
  | Mr_Update string
  | Mr_Scheduled_Backup profile_id

fun handle_maintenance :: "ctl_env \<Rightarrow> job_env \<Rightarrow> maintenance_request \<Rightarrow> string \<Rightarrow> string \<Rightarrow> string prog" where
  "handle_maintenance ev je (Mr_Backup p protected destination with_capability) actor rid =
     create_backup ev je p protected destination with_capability actor rid"
| "handle_maintenance ev je (Mr_Restore cid) actor rid = confirm_restore ev je cid actor rid"
| "handle_maintenance ev je (Mr_Retirement cid) actor rid = confirm_retirement ev je cid actor rid"
| "handle_maintenance ev je (Mr_Clone cid) actor rid = confirm_world_clone ev je cid actor rid"
| "handle_maintenance ev je (Mr_Update cid) actor rid = confirm_update ev je cid actor rid"
| "handle_maintenance ev je (Mr_Scheduled_Backup p) actor rid = run_scheduled_backup ev je p rid"

lemma create_backup_clears:
  "hoare (\<lambda>w. held w = {}) (create_backup ev je pid b d c actor rid) (\<lambda>_ w. held w = {}) (\<lambda>_ w. held w = {})"
  unfolding create_backup_def run_handoff_maintenance_job_def
  by (intro hoare_keeps_seq hoare_keeps_then hoare_if hoare_throw run_maintenance_job_clears empty_rules keepsD)

lemma confirmed_job_clears:
  "hoare (\<lambda>w. held w = {}) (confirm_restore ev je cid actor rid) (\<lambda>_ w. held w = {}) (\<lambda>_ w. held w = {})"
  "hoare (\<lambda>w. held w = {}) (confirm_retirement ev je cid actor rid) (\<lambda>_ w. held w = {}) (\<lambda>_ w. held w = {})"
  "hoare (\<lambda>w. held w = {}) (confirm_world_clone ev je cid actor rid) (\<lambda>_ w. held w = {}) (\<lambda>_ w. held w = {})"
  "hoare (\<lambda>w. held w = {}) (confirm_update ev je cid actor rid) (\<lambda>_ w. held w = {}) (\<lambda>_ w. held w = {})"
  unfolding confirm_restore_def confirm_retirement_def confirm_world_clone_def confirm_update_def
  by (intro hoare_keeps_seq hoare_if hoare_throw run_maintenance_job_clears empty_rules; assumption)+

lemma maintenance_clears:
  "hoare (\<lambda>w. held w = {}) (handle_maintenance ev je req actor rid) (\<lambda>_ w. held w = {}) (\<lambda>_ w. held w = {})"
  by (cases req) (simp_all add: create_backup_clears confirmed_job_clears scheduled_backup_clears)

section \<open>Jobs are finished\<close>

text \<open>The jobs opened and not finished, by the trace.\<close>

definition jobs_step :: "string set \<Rightarrow> effect \<Rightarrow> string set" where
  "jobs_step J e = (case e of
     Eff_Db c \<Rightarrow> (case c of Do_Intent clock i actor action p \<Rightarrow> insert i J | Do_Finish clock f \<Rightarrow> J - {fin_job f} | _ \<Rightarrow> J)
   | _ \<Rightarrow> J)"

abbreviation unfinished :: "world \<Rightarrow> string set" where
  "unfinished \<equiv> monitored jobs_step {}"

lemma ignored_jobs [simp]:
  "ignored jobs_step (Eff_Reserved l)" "ignored jobs_step (Eff_Released l)" "ignored jobs_step (Eff_Transferred l m)"
  "ignored jobs_step Eff_Lost" "ignored jobs_step (Eff_Work n p)" "ignored jobs_step (Eff_Db (Do_Event clock p' c m'))"
  "ignored jobs_step (Eff_Db (Do_Audit now actor action profile result code detail))"
  "ignored jobs_step (Eff_Db (Do_Consume clock actor action cid))"
  by (simp_all add: ignored_def jobs_step_def)

lemma jobs_step_simps [simp]: "jobs_step J (Eff_Db (Do_Intent clock i actor action p)) = insert i J"
  "jobs_step J (Eff_Db (Do_Finish clock f)) = J - {fin_job f}"
  by (simp_all add: jobs_step_def)

definition db_works :: "ctl_env \<Rightarrow> bool" where
  "db_works ev \<longleftrightarrow> (\<forall>n. env_lock ev n = None \<and> env_unlock ev n = None)"

lemma open_job_unfinished:
  assumes "db_works ev"
  shows "hoare (\<lambda>w. unfinished w = {}) (open_job ev actor action p) (\<lambda>job w. unfinished w = {job}) (\<lambda>_ w. unfinished w = {})"
  using assms
  by (auto simp: hoare_def open_job_def transaction_def db_works_def Let_def db_effect_def job_intent_def monitored_def split: sum.splits if_splits)

lemma finish_unfinished:
  assumes "db_works ev"
  shows "hoare (\<lambda>w. unfinished w = {job}) (finish ev job actor action p failure detail) (\<lambda>_ w. unfinished w = {}) E"
    "hoare (\<lambda>w. unfinished w = {job}) (finish_as ev job actor action p code detail state) (\<lambda>_ w. unfinished w = {}) E"
  using assms
  by (auto simp: hoare_def finish_def finish_as_def transaction_def db_works_def Let_def db_effect_def monitored_def)

lemma call_service_unfinished: "keeps (\<lambda>w. unfinished w = J) (call_service ev je renewal name p)"
  by (rule keeps_ignored [where P = "\<lambda>H f. H = J"], intro emits) simp_all

lemma run_bound_finishes:
  assumes "db_works ev"
  shows "keeps (\<lambda>w. unfinished w = {}) (run_bound_maintenance_job ev je p operation actor renewal)"
proof -
  have "hoare (\<lambda>w. unfinished w = {job}) (catchp (call_service ev je renewal operation (prof_id p)) (\<lambda>e.
          if e = Cancelled_Exn
          then thenp (finish ev job actor operation (Some (prof_id p)) (Some INTERNAL_ERROR) ''maintenance cancelled'') (throw e)
          else let f = maintenance_failure operation e
               in thenp (finish ev job actor operation (Some (prof_id p)) (Some (cf_code f)) (cf_message f)) (throw (Ctl_Exn f))))
      (\<lambda>_ w. unfinished w = {job}) (\<lambda>_ w. unfinished w = {})" for job
    unfolding Let_def
    by (rule hoare_catchp [OF keepsD [OF call_service_unfinished]])
      (intro hoare_if hoare_thenp [OF finish_unfinished(1) [OF assms]] hoare_throw)
  then show ?thesis
    unfolding run_bound_maintenance_job_def Let_def keeps_def
    by (intro hoare_seqp [OF open_job_unfinished [OF assms]] hoare_thenp [OF _ hoare_thenp [OF finish_unfinished(1) [OF assms] hoare_ret]])
qed

lemma scheduled_body_finishes:
  assumes "db_works ev"
  shows "keeps (\<lambda>w. unfinished w = {}) (seqp (open_job ev schedule_actor ''scheduled_backup'' (Some p)) (\<lambda>job.
       thenp (catchp (call_service ev je True ''scheduled_backup'' p) (scheduled_backup_failed ev p job))
       (thenp (finish ev job schedule_actor ''scheduled_backup'' (Some p) None ''scheduled backup completed'') (ret job))))"
proof -
  have failed: "hoare (\<lambda>w. unfinished w = {job}) (scheduled_backup_failed ev p job e) (\<lambda>_ w. unfinished w = {job}) (\<lambda>_ w. unfinished w = {})" for job e
    unfolding scheduled_backup_failed_def
    by (cases e) (auto intro!: hoare_thenp [OF finish_unfinished(1) [OF assms]] hoare_thenp [OF finish_unfinished(2) [OF assms]] hoare_throw)
  show ?thesis
    unfolding keeps_def
    by (intro hoare_seqp [OF open_job_unfinished [OF assms]]
        hoare_thenp [OF hoare_catchp [OF keepsD [OF call_service_unfinished] failed] hoare_thenp [OF finish_unfinished(1) [OF assms] hoare_ret]])
qed

lemma unfinished_ops:
  "keeps (\<lambda>w. unfinished w = {}) (require_profile ev pid)" "keeps (\<lambda>w. unfinished w = {}) (require_operation ev p op actor)"
  "keeps (\<lambda>w. unfinished w = {}) (redeem_confirmation ev actor action cid)" "keeps (\<lambda>w. unfinished w = {}) (payload_profile payload key)"
  "keeps (\<lambda>w. unfinished w = {}) (payload_require ev payload)" "keeps (\<lambda>w. unfinished w = {}) (on_exception (ask h) (\<lambda>_. throw e))"
  "keeps (\<lambda>w. unfinished w = {}) (ask g)" "keeps (\<lambda>w. unfinished w = {}) (reserve_lease ev p operation lid actor)"
  "keeps (\<lambda>w. unfinished w = {}) (release_lease ev primary l renewal)" "keeps (\<lambda>w. unfinished w = {}) (assert_lease ev)"
  unfolding payload_profile_def payload_require_def
  by (rule keeps_ignored [where P = "\<lambda>H f. H = {}"]; intro emits; simp)+

lemma maintenance_finishes:
  assumes "db_works ev"
  shows "keeps (\<lambda>w. unfinished w = {}) (handle_maintenance ev je req actor rid)"
  by (cases req)
    (auto simp: create_backup_def confirm_restore_def confirm_retirement_def confirm_world_clone_def confirm_update_def
      run_scheduled_backup_def run_maintenance_job_def run_handoff_maintenance_job_def operation_lease_def
      intro!: keeps_rules unfinished_ops run_bound_finishes scheduled_body_finishes assms)


definition sample_jobs :: job_env where
  "sample_jobs = \<lparr>je_service = (\<lambda>_. True), je_work = (\<lambda>_. Inr ()), je_notify = (\<lambda>_. Inr ()), je_availability = None,
     je_authorize = (\<lambda>_. Inr ((MINECRAFT, ''r'', 0), 0, 0)), je_frozen = (\<lambda>_. Inr True), je_prepare = (\<lambda>_. Inr ()),
     je_fail = (\<lambda>_. Inr ()), je_regression = (\<lambda>_. Inr ()), je_cancel_run = (\<lambda>_. False), je_closed = (\<lambda>_. False),
     je_preflight = None, je_text = (\<lambda>_. [])\<rparr>"

lemma sample_jobs_simps:
  "je_service sample_jobs s" "je_work sample_jobs n = Inr ()" "je_notify sample_jobs n = Inr ()" "je_text sample_jobs j = []"
  by (simp_all add: sample_jobs_def)

lemmas job_simps = run_simps operation_lease_def run_scheduled_backup_def call_service_def sample_jobs_simps acquire_operation_lease_def


text \<open>\<^verbatim>\<open>run_benchmark\<close> is the exception: the transaction that opens its job is outside every handler, and a cancellation of the idle
  proof is caught by none of its two \<^verbatim>\<open>except\<close> clauses, so that the lease is never released and its renewal keeps it alive.\<close>

definition benchmark_profile :: profile where
  "benchmark_profile = (sample_profile PZ_RISING)\<lparr>prof_operations := {Op_BENCHMARK}\<rparr>"

definition busy_database_env :: ctl_env where
  "busy_database_env = sample_ctl_env\<lparr>env_profiles := (\<lambda>_. Some benchmark_profile), env_lock := (\<lambda>n. if n = 3 then Some (Other_Exn None) else None)\<rparr>"

definition cancelled_proof_jobs :: job_env where
  "cancelled_proof_jobs = sample_jobs\<lparr>je_work := (\<lambda>_. Inl Cancelled_Exn)\<rparr>"

lemmas leak_simps = busy_database_env_def cancelled_proof_jobs_def benchmark_profile_def run_benchmark_def benchmark_services_def
  prove_idle_failed_def benchmark_preparation_def

lemma run_benchmark_leaks_its_lease:
  "let (r, w) = run_benchmark busy_database_env sample_jobs PZ_RISING ''op'' ''r1'' sample_world
   in r = Inl (Other_Exn None) \<and> held w \<noteq> {}"
  "let (r, w) = run_benchmark (busy_database_env\<lparr>env_lock := (\<lambda>_. None)\<rparr>) cancelled_proof_jobs PZ_RISING ''op'' ''r1'' sample_world
   in r = Inl Cancelled_Exn \<and> held w \<noteq> {}"
  by (simp_all add: job_simps leak_simps sample_ctl_env_def Let_def monitored_def held_step_def)

end
