(* ===== verification/Maintenance_Cycle.thy ===== *)
theory Maintenance_Cycle
  imports Maintenance_Jobs
begin

text \<open>
  What the maintenance cycle of \<^verbatim>\<open>controller.py\<close> does and does not do: its leases, the scheduled fires it claims, and the profiles
  it stops for idleness.  The programs are those of \<open>Maintenance_Jobs\<close>; this theory adds a small logic for the effects of a
  program that has local variables.
\<close>

section \<open>Effects and events\<close>

text \<open>A program that adds only effects of a kind to the trace and that removes no event from the database.\<close>

definition grown :: "(effect \<Rightarrow> bool) \<Rightarrow> world \<Rightarrow> world \<Rightarrow> bool" where
  "grown S w w' \<longleftrightarrow> (\<exists>es. w_trace w' = w_trace w @ es \<and> list_all S es) \<and> set (db_events (w_db w)) \<subseteq> set (db_events (w_db w'))"

definition grows :: "(effect \<Rightarrow> bool) \<Rightarrow> 'a prog \<Rightarrow> bool" where
  "grows S p \<longleftrightarrow> (\<forall>w. grown S w (snd (p w)))"

lemma grown_refl [simp]: "grown S w w"
  by (simp add: grown_def)

lemma grown_trans: "grown S a b \<Longrightarrow> grown S b c \<Longrightarrow> grown S a c"
  unfolding grown_def by (metis append_assoc list_all_append subset_trans)

lemma grown_frame [simp]: "grown S (w\<lparr>w_frame := f\<rparr>) w' = grown S w w'" "grown S w (w'\<lparr>w_frame := f\<rparr>) = grown S w w'"
  by (simp_all add: grown_def)

lemma growsD: "grows S p \<Longrightarrow> p w = (r, w') \<Longrightarrow> grown S w w'"
  unfolding grows_def by (metis snd_conv)

named_theorems grow \<open>what a program with local variables adds to the trace\<close>

lemma grows_simple [grow]:
  "grows S (ret v)" "grows S (throw e)" "grows S (getp f)" "grows S (set_frame g)" "grows S (ask h)"
  by (simp_all add: grows_def ret_def throw_def getp_def set_frame_def ask_def grown_def)

lemma grows_emit [grow]: "S e \<Longrightarrow> grows S (emit e)"
  by (simp add: grows_def emit_def grown_def)

lemma grows_seqp [grow]: "grows S p \<Longrightarrow> (\<And>v. grows S (f v)) \<Longrightarrow> grows S (seqp p f)"
  unfolding grows_def seqp_def by (auto split: prod.split sum.split) (metis snd_conv, metis grown_trans snd_conv)

lemma grows_thenp [grow]: "grows S p \<Longrightarrow> grows S q \<Longrightarrow> grows S (thenp p q)"
  unfolding thenp_def by (rule grows_seqp)

lemma grows_catchp [grow]: "grows S p \<Longrightarrow> (\<And>e. grows S (h e)) \<Longrightarrow> grows S (catchp p h)"
  unfolding grows_def catchp_def by (auto split: prod.split sum.split) (metis grown_trans snd_conv, metis snd_conv)

lemma grows_finallyp [grow]: "grows S p \<Longrightarrow> (\<And>b. grows S (f b)) \<Longrightarrow> grows S (finallyp p f)"
  unfolding grows_def finallyp_def by (auto split: prod.split sum.split) (metis grown_trans snd_conv)+

lemma grows_in_frame [grow]: "grows S p \<Longrightarrow> grows S (in_frame p)"
  unfolding grows_def in_frame_def by (auto split: prod.split) (metis grown_frame(1) snd_conv)

lemma grows_whenp [grow]: "grows S p \<Longrightarrow> grows S (whenp b p)"
  by (simp add: whenp_def grow)

lemma grows_if [grow]: "(b \<Longrightarrow> grows S p) \<Longrightarrow> (\<not> b \<Longrightarrow> grows S q) \<Longrightarrow> grows S (if b then p else q)"
  by simp

lemma grows_option [grow]:
  "grows S p \<Longrightarrow> (\<And>x. grows S (f x)) \<Longrightarrow> grows S (case v of None \<Rightarrow> p | Some x \<Rightarrow> f x)"
  by (cases v) simp_all

lemma grows_sum [grow]:
  "(\<And>x. grows S (f x)) \<Longrightarrow> (\<And>x. grows S (g x)) \<Longrightarrow> grows S (case v of Inl x \<Rightarrow> f x | Inr x \<Rightarrow> g x)"
  by (cases v) simp_all

lemma grows_prod [grow]: "(\<And>x y. grows S (f x y)) \<Longrightarrow> grows S (case v of (x, y) \<Rightarrow> f x y)"
  by (cases v) simp

lemma grows_transaction [grow]: "(\<And>c. S (Eff_Db c)) \<Longrightarrow> grows S (transaction ev body)"
  using events_step
  by (auto simp: grows_def transaction_def Let_def grown_def db_effect_def split: option.split prod.split dest: subsetD)

lemma grows_audit_rejection [grow]: "(\<And>c. S (Eff_Db c)) \<Longrightarrow> grows S (audit_rejection ev actor action profile code detail)"
  using events_step by (auto simp: grows_def audit_rejection_def Let_def grown_def db_effect_def simp del: ctl_step.simps dest: subsetD)

lemma grows_state [grow]:
  "grows S (begin_startup_attempt ev p version)" "grows S (end_startup_attempt p a)"
  "grows S (begin_readiness p)" "grows S (notify_readiness t r)" "grows S (finish_readiness t)"
  "grows S (record_startup_estimate ev p a)" "grows S (installed_version_hint ev)" "grows S (require_profile ev q)"
  by (auto simp: grows_def begin_startup_attempt_def end_startup_attempt_def begin_readiness_def notify_readiness_def
      finish_readiness_def record_startup_estimate_def installed_version_hint_def require_profile_def ask_def ret_def throw_def
      Let_def grown_def split: option.split prod.split)

text \<open>Every effect but a call of an adapter or of a service.\<close>

definition administrative :: "effect \<Rightarrow> bool" where
  "administrative e = (case e of Eff_Adapter op p \<Rightarrow> False | Eff_Work n p \<Rightarrow> False | _ \<Rightarrow> True)"

lemma administrative_simps [simp]:
  "administrative (Eff_Reserved l)" "administrative (Eff_Released l)" "administrative (Eff_Transferred l m)" "administrative Eff_Lost"
  "administrative (Eff_Db c)" "administrative (Eff_Latency n p b)" "administrative (Eff_Preflight p s)" "administrative (Eff_Free p b)"
  "administrative (Eff_Ready p b)" "administrative (Eff_Backup p)" "administrative (Eff_Returned op p)"
  "\<not> administrative (Eff_Adapter op p)" "\<not> administrative (Eff_Work n p)"
  by (simp_all add: administrative_def)

lemmas operation_defs = open_job_def finish_def finish_as_def write_event_def record_audit_def redeem_confirmation_def
  prepare_confirmation_def require_operation_def report_lost_def assert_lease_def await_lease_def clear_reservation_def
  swallow_def attempt_def call_adapter_def wait_for_free_slot_def probe_start_health_def reserve_lease_def
  finish_opened_def payload_profile_def on_exception_def call_service_def

lemma grows_reserve_answered:
  assumes "\<And>e. administrative e \<Longrightarrow> S e"
  shows "grows S (reserve_answered ev p operation actor l answer)"
  unfolding reserve_answered_def operation_defs by (cases answer) (auto intro!: grow assms)

lemma grows_leases:
  assumes "\<And>e. administrative e \<Longrightarrow> S e"
  shows "grows S (reserve_lease ev p operation lid actor)" "grows S (release_lease ev primary l renewal)"
    "grows S (acquire_stop_fence ev p actor rid allow)"
  unfolding acquire_stop_fence_def fresh_stop_preflight_def release_lease_def operation_defs
  by (auto intro!: grow grows_reserve_answered assms split: option.split)

lemma grows_stop:
  assumes "\<And>e. administrative e \<Longrightarrow> S e" "S (Eff_Adapter Adapter_Graceful_Stop pid)"
    "\<And>p. env_profiles ev pid = Some p \<Longrightarrow> prof_id p = pid"
  shows "grows S (stop ev pid actor rid)"
proof (cases "env_profiles ev pid")
  case (Some p)
  have "grows S (stop_with_fence ev p actor rid False False)"
    unfolding stop_with_fence_def stop_body_def stop_failed_def stop_finally_def Let_def operation_defs
    using assms(2) assms(3) [OF Some] by (auto intro!: grow grows_leases assms(1))
  then have "grows S (thenp (require_operation ev p Op_STOP actor) (stop_with_fence ev p actor rid False False))"
    unfolding operation_defs by (auto intro!: grow assms(1))
  then show ?thesis unfolding stop_def seqp_def require_profile_def grows_def by (simp add: Some ret_def)
next
  case None
  then show ?thesis unfolding stop_def seqp_def require_profile_def grows_def by (simp add: throw_def)
qed

lemma grows_idle_stop:
  assumes "\<And>e. administrative e \<Longrightarrow> S e" "S (Eff_Adapter Adapter_Graceful_Stop pid)"
    "\<And>p. env_profiles ev pid = Some p \<Longrightarrow> prof_id p = pid"
  shows "grows S (idle_stop ev je pid rid)"
  unfolding idle_stop_def notify_def operation_defs by (auto intro!: grow grows_stop assms)

section \<open>Idle stops\<close>

lemma idle_observe_other: "key \<noteq> smp_key s \<Longrightarrow> snd (idle_observe s tracker) key = tracker key"
  by (auto simp: idle_observe_def split: option.split)

lemma idle_observe_crossed:
  "idle_observe s tracker = (True, tracker') \<Longrightarrow> \<exists>st. tracker (smp_key s) = Some st \<and> \<not> attempted st \<and> 0 < smp_minutes s
     \<and> smp_state s = ''running'' \<and> smp_players s = Some 0 \<and> smp_job s = None \<and> smp_minutes s * MINUTE \<le> smp_now s - started_at st"
  by (auto simp: idle_observe_def split: if_split_asm option.split_asm)

text \<open>The profiles whose streak is over.\<close>

definition idle_due :: "ctl_env \<Rightarrow> idle_tracker \<Rightarrow> profile_status list \<Rightarrow> effect \<Rightarrow> bool" where
  "idle_due ev tracker ss e \<longleftrightarrow> administrative e \<or>
     (\<exists>s \<in> set ss. \<exists>p st n. e = Eff_Adapter Adapter_Graceful_Stop (ps_profile_id s) \<and> env_profiles ev (ps_profile_id s) = Some p
        \<and> ps_state s = RUNNING \<and> ps_players_online s = Some 0 \<and> ps_active_job_id s = None
        \<and> tracker (profile_value (ps_profile_id s)) = Some st \<and> \<not> attempted st
        \<and> 0 < prof_idle_stop_minutes p \<and> prof_idle_stop_minutes p * MINUTE \<le> env_clock ev n 0 - started_at st)"

lemma idle_due_Cons:
  assumes "idle_due ev tracker' ss e" "ps_profile_id s \<notin> ps_profile_id ` set ss"
    "\<And>q. q \<noteq> ps_profile_id s \<Longrightarrow> tracker' (profile_value q) = tracker (profile_value q)"
  shows "idle_due ev tracker (s # ss) e"
proof (cases "administrative e")
  case False
  then obtain t p st n where t: "t \<in> set ss" "e = Eff_Adapter Adapter_Graceful_Stop (ps_profile_id t)"
      "env_profiles ev (ps_profile_id t) = Some p" "ps_state t = RUNNING" "ps_players_online t = Some 0" "ps_active_job_id t = None"
      "tracker' (profile_value (ps_profile_id t)) = Some st" "\<not> attempted st" "0 < prof_idle_stop_minutes p"
      "prof_idle_stop_minutes p * MINUTE \<le> env_clock ev n 0 - started_at st"
    using assms(1) unfolding idle_due_def by blast
  moreover have "ps_profile_id t \<noteq> ps_profile_id s" using t(1) assms(2) by (metis imageI)
  ultimately show ?thesis
    using assms(3) [of "ps_profile_id t"] unfolding idle_due_def by (metis list.set_intros(2))
qed (simp add: idle_due_def)

lemma observed_running: "observed_state_value s = ''running'' \<longleftrightarrow> s = RUNNING"
  by (cases s) simp_all

lemma idle_stops_grow:
  assumes "\<And>q p. env_profiles ev q = Some p \<Longrightarrow> prof_id p = q" "distinct (map ps_profile_id ss)"
  shows "grown (idle_due ev tracker ss) w (snd (snd (apply_idle_stops ev je rid ss tracker w)))"
  using assms(2)
proof (induction ss arbitrary: tracker w)
  case (Cons s ss)
  show ?case
  proof (cases "env_profiles ev (ps_profile_id s)")
    case None
    have "grown (idle_due ev tracker (s # ss)) w (snd (snd (apply_idle_stops ev je rid ss tracker w)))"
      using Cons.IH [of tracker w] Cons.prems idle_due_Cons [of ev tracker ss _ s tracker]
      by (auto simp: grown_def list_all_iff)
    then show ?thesis by (simp add: None)
  next
    case (Some p)
    let ?x = "idle_sample_of (env_clock ev (w_time w) 0) p s"
    obtain crossed tracker' where o: "idle_observe ?x tracker = (crossed, tracker')" by fastforce
    have pid: "prof_id p = ps_profile_id s" using assms(1) [OF Some] .
    have same: "tracker' (profile_value q) = tracker (profile_value q)" if "q \<noteq> ps_profile_id s" for q
      using idle_observe_other [of "profile_value q" ?x tracker] o that pid by (simp add: idle_sample_of_def profile_value_inj)
    have rest: "grown (idle_due ev tracker (s # ss)) v (snd (snd (apply_idle_stops ev je rid ss tracker' v)))" for v
      using Cons.IH [of tracker' v] Cons.prems idle_due_Cons [of ev tracker' ss _ s tracker] same
      by (auto simp: grown_def list_all_iff)
    have stop: "grows (idle_due ev tracker (s # ss)) (idle_stop ev je (prof_id p) rid)" if crossed
    proof (rule grows_idle_stop)
      show "idle_due ev tracker (s # ss) (Eff_Adapter Adapter_Graceful_Stop (prof_id p))"
        using idle_observe_crossed [of ?x tracker tracker'] o that pid Some
        by (auto simp: idle_due_def idle_sample_of_def observed_running)
    qed (simp_all add: idle_due_def assms(1))
    show ?thesis
      using rest stop by (auto simp: Some o dest!: growsD split: prod.split sum.split intro: grown_trans)
  qed
qed simp

text \<open>C19. Idleness is the only reason for an automatic stop: every call of an adapter made while a cycle applies idle stops is a
  graceful stop of a sampled profile that is running, has no player and no active job, and whose quiet streak began at least its
  configured minutes ago and has had no stop attempt yet.\<close>

theorem idle_stops_only_due:
  assumes "\<And>q p. env_profiles ev q = Some p \<Longrightarrow> prof_id p = q" "distinct (map ps_profile_id ss)"
    "apply_idle_stops ev je rid ss tracker w = (r, tracker', w')"
    "Eff_Adapter op q \<in> set (drop (length (w_trace w)) (w_trace w'))"
  shows "op = Adapter_Graceful_Stop
    \<and> (\<exists>s \<in> set ss. \<exists>p st n. ps_profile_id s = q \<and> env_profiles ev q = Some p
         \<and> ps_state s = RUNNING \<and> ps_players_online s = Some 0 \<and> ps_active_job_id s = None
         \<and> tracker (profile_value q) = Some st \<and> \<not> attempted st
         \<and> 0 < prof_idle_stop_minutes p \<and> prof_idle_stop_minutes p * MINUTE \<le> env_clock ev n 0 - started_at st)"
proof -
  have "grown (idle_due ev tracker ss) w w'"
    using idle_stops_grow [of ev ss tracker w je rid] assms(1,2,3) by simp
  then have "idle_due ev tracker ss (Eff_Adapter op q)" using assms(4) by (auto simp: grown_def list_all_iff)
  then show ?thesis unfolding idle_due_def by auto
qed

definition idle_env :: ctl_env where
  "idle_env = sample_ctl_env\<lparr>env_profiles := (\<lambda>p. Some (sample_profile p\<lparr>prof_idle_stop_minutes := 10\<rparr>)), env_clock := (\<lambda>_ _. 10 * MINUTE)\<rparr>"

definition idle_world :: "(exn + unit) \<times> idle_tracker \<times> world" where
  "idle_world = apply_idle_stops idle_env sample_jobs ''r1'' [sample_status] [''pz-rising'' \<mapsto> \<lparr>started_at = 0, attempted = False\<rparr>] sample_world"

lemmas idle_simps = job_simps idle_world_def idle_env_def sample_ctl_env_def sample_status_def idle_stop_def idle_observe_def idle_sample_of_def
  write_event_def notify_def on_exception_def

lemma idle_world_stops: "Eff_Adapter Adapter_Graceful_Stop PZ_RISING \<in> set (w_trace (snd (snd idle_world)))"
  by (simp add: idle_simps sample_profile_def Let_def)

theorem idle_stops_only_due_witness:
  "\<exists>st. [''pz-rising'' \<mapsto> \<lparr>started_at = 0, attempted = False\<rparr>] ''pz-rising'' = Some st \<and> \<not> attempted st
     \<and> ps_state sample_status = RUNNING"
proof -
  have conf: "\<And>q p. env_profiles idle_env q = Some p \<Longrightarrow> prof_id p = q"
    by (auto simp: idle_env_def sample_profile_def)
  have dist: "distinct (map ps_profile_id [sample_status])" by simp
  have run: "apply_idle_stops idle_env sample_jobs ''r1'' [sample_status] [''pz-rising'' \<mapsto> \<lparr>started_at = 0, attempted = False\<rparr>] sample_world
      = (fst idle_world, fst (snd idle_world), snd (snd idle_world))"
    by (simp add: idle_world_def)
  have eff: "Eff_Adapter Adapter_Graceful_Stop PZ_RISING \<in> set (drop (length (w_trace sample_world)) (w_trace (snd (snd idle_world))))"
    using idle_world_stops by (simp add: sample_world_def)
  show ?thesis
    using idle_stops_only_due [OF conf dist run eff] by auto
qed

section \<open>Scheduled fires\<close>

abbreviation anything :: "effect \<Rightarrow> bool" where
  "anything \<equiv> \<lambda>_. True"

lemma grows_switch: "grows anything (prepare_switch ev a b c d e actor)" "grows anything (confirm_switch ev cid actor)"
proof -
  have retry: "grows anything (start_with_free_retry ev p)" for p
    unfolding start_with_free_retry_def operation_defs by (auto intro!: grow)
  have stop: "grows anything (stop_for_switch ev p f x)" for p f x
    unfolding stop_for_switch_def operation_defs by (auto intro!: grow)
  have transfer: "grows anything (transfer_lease ev l m)" for l m
    unfolding transfer_lease_def operation_defs by (auto intro!: grow split: transfer_answer.split)
  have rb: "grows anything (rollback_steps ev p q payload actor)" for p q payload
    unfolding rollback_steps_def rollback_lease_def new_rollback_lease_def
    by (intro grow grows_leases retry stop transfer) (auto simp: operation_defs intro!: grow)
  have "grows anything (rollback ev p q payload actor)" for p q payload
    unfolding rollback_def Let_def operation_defs by (intro grow rb) (auto intro!: grow split: exn.split option.split)
  then have "grows anything (switch_failed ev p q payload actor job x)" for p q payload job x
    unfolding switch_failed_def Let_def operation_defs by (auto intro!: grow)
  moreover have "grows anything (switch_body ev p q payload actor cid job)" for p q payload job
    unfolding switch_body_def switch_backup_def Let_def
    by (intro grow grows_leases retry stop) (auto simp: operation_defs intro!: grow)
  moreover have "grows anything (switch_finally ev t primary)" for t primary
    unfolding switch_finally_def by (intro grow grows_leases) auto
  ultimately show "grows anything (confirm_switch ev cid actor)"
    unfolding confirm_switch_def operation_defs by (auto intro!: grow)
  show "grows anything (prepare_switch ev a b c d e actor)"
    unfolding prepare_switch_def operation_defs by (auto intro!: grow)
qed

lemma grows_scheduled_backup: "grows anything (run_scheduled_backup ev je p rid)"
proof -
  have "grows anything (scheduled_backup_failed ev q job e)" for q job e
    unfolding scheduled_backup_failed_def operation_defs by (cases e) (auto intro!: grow)
  then show ?thesis
    unfolding run_scheduled_backup_def operation_lease_def
    by (intro grow grows_leases) (auto simp: operation_defs intro!: grow)
qed

lemma grows_run_benchmark: "grows anything (run_benchmark ev je p actor rid)"
proof -
  have "grows anything (prove_idle_failed ev l e)" for l e
    unfolding prove_idle_failed_def by (cases e) (auto intro!: grow grows_leases)
  moreover have "grows anything (benchmark_preparation_failed ev q actor job l e)" for q job l e
    unfolding benchmark_preparation_failed_def by (intro grow grows_leases) (auto simp: operation_defs intro!: grow)
  ultimately show ?thesis
    unfolding run_benchmark_def acquire_operation_lease_def benchmark_preparation_def
    by (intro grow grows_leases) (auto simp: operation_defs intro!: grow)
qed

lemma grows_due:
  "grows anything (claim_due ev je t entry)" "grows anything (due_benchmark ev je t eligible rid entry)"
  "grows anything (due_backup ev je rid entry)" "grows anything (due_switch ev owner entry)"
  unfolding claim_due_def due_benchmark_def due_backup_def due_switch_def backup_not_done_def notify_def Let_def operation_defs
  by (auto intro!: grow grows_run_benchmark grows_scheduled_backup grows_switch)

lemma grows_for_each: "(\<And>x. grows S (f x)) \<Longrightarrow> grows S (for_each f xs)"
  by (induction xs) (auto intro!: grow)

lemma grows_due_lists: "grows anything (due_entries ev je t rid entries)" "grows anything (due_switches ev sn entries)"
proof -
  show "grows anything (due_entries ev je t rid entries)"
    by (induction entries) (auto intro!: grow grows_due)
  show "grows anything (due_switches ev sn entries)"
    unfolding due_switches_def by (intro grow grows_for_each grows_due) (auto simp: operation_defs intro!: grow)
qed

definition fired :: "job_env \<Rightarrow> instant \<Rightarrow> schedule_entry \<Rightarrow> world \<Rightarrow> bool" where
  "fired je t entry w \<longleftrightarrow> schedule_fire_seen (je_text je) entry t (w_db w)"

lemma fired_mono: "grown S w w' \<Longrightarrow> fired je t entry w \<Longrightarrow> fired je t entry w'"
  by (auto simp: grown_def fired_def schedule_fire_seen_def list_ex_iff)

lemma keeps_fired: "grows S p \<Longrightarrow> keeps (fired je t entry) p"
  unfolding keeps_def hoare_def by (auto split: prod.split sum.split dest: growsD intro: fired_mono)

lemma claim_marks:
  assumes "length (schedule_fire_key (je_text je) entry t) \<le> 512"
  shows "hoare (\<lambda>_. True) (claim_due ev je t entry) (\<lambda>_. fired je t entry) (\<lambda>_ _. True)"
proof -
  have "schedule_fire_seen (je_text je) entry t
      (record_event clock (Some (sched_profile entry)) ''scheduled_fire'' (schedule_fire_key (je_text je) entry t) db)" for clock db
    using assms by (auto simp: schedule_fire_seen_def record_event_def list_ex_iff)
  then show ?thesis
    by (auto simp: hoare_def claim_due_def seqp_def thenp_def getp_def ret_def write_event_def transaction_def db_effect_def fired_def Let_def
        split: option.split)
qed

text \<open>A program whose normal end leaves \<open>Q\<close>; later programs keep it.\<close>

lemma ends_fired_then:
  assumes "hoare (\<lambda>_. True) p (\<lambda>_. Q) (\<lambda>_ _. True)" "\<And>v. keeps Q (f v)"
  shows "hoare (\<lambda>_. True) (seqp p f) (\<lambda>_. Q) (\<lambda>_ _. True)"
  by (rule hoare_seqp [OF assms(1)]) (rule hoare_keeps [OF assms(2)], simp_all)

lemma also_kept:
  "hoare (\<lambda>_. True) p (\<lambda>_. Q) (\<lambda>_ _. True) \<Longrightarrow> keeps R p \<Longrightarrow> hoare R p (\<lambda>_ w. R w \<and> Q w) (\<lambda>_ _. True)"
  unfolding keeps_def hoare_def by (auto split: prod.splits sum.splits)

lemma due_benchmark_marks:
  assumes "length (schedule_fire_key (je_text je) entry t) \<le> 512"
  shows "hoare (\<lambda>_. True) (due_benchmark ev je t eligible rid entry) (\<lambda>_. fired je t entry) (\<lambda>_ _. True)"
  unfolding due_benchmark_def Let_def
  by (rule ends_fired_then [OF claim_marks [OF assms]], rule keeps_fired [where S = anything])
    (auto simp: operation_defs intro!: grow grows_run_benchmark)

lemma for_each_marks:
  assumes "\<And>x. x \<in> set xs \<Longrightarrow> hoare (\<lambda>_. True) (f x) (\<lambda>_. fired je t x) (\<lambda>_ _. True)" "\<And>x. grows S (f x)"
  shows "hoare (\<lambda>_. True) (for_each f xs) (\<lambda>_ w. \<forall>x \<in> set xs. fired je t x w) (\<lambda>_ _. True)"
  using assms(1)
proof (induction xs)
  case (Cons x xs)
  have "hoare (fired je t x) (for_each f xs) (\<lambda>_ w. fired je t x w \<and> (\<forall>y \<in> set xs. fired je t y w)) (\<lambda>_ _. True)"
    by (rule also_kept [OF Cons.IH keeps_fired [OF grows_for_each [OF assms(2)]]]) (use Cons.prems in simp)
  then show ?case
    unfolding for_each.simps thenp_def using Cons.prems by (auto intro!: hoare_seqp [of _ "f x" "\<lambda>_. fired je t x"])
qed (simp add: hoare_def ret_def)

lemma due_entries_marks:
  assumes "\<forall>x \<in> set entries. length (schedule_fire_key (je_text je) x t) \<le> 512"
  shows "hoare (\<lambda>_. True) (due_entries ev je t rid entries) (\<lambda>_ w. \<forall>x \<in> set entries. fired je t x w) (\<lambda>_ _. True)"
  using assms
proof (induction entries)
  case (Cons x xs)
  have rest: "hoare (fired je t x) (due_entries ev je t rid xs) (\<lambda>_ w. fired je t x w \<and> (\<forall>y \<in> set xs. fired je t y w)) (\<lambda>_ _. True)"
    by (rule also_kept [OF Cons.IH keeps_fired [OF grows_due_lists(1)]]) (use Cons.prems in simp)
  have "hoare (fired je t x) (thenp (whenp c (due_backup ev je rid x)) (seqp (due_entries ev je t rid xs) (\<lambda>switches.
      ret (if c \<and> sched_operation x = ''switch'' then x # switches else switches))))
      (\<lambda>_ w. \<forall>y \<in> set (x # xs). fired je t y w) (\<lambda>_ _. True)" for c
    by (rule hoare_keeps_then [OF keeps_fired [where S = anything]], intro grow grows_due)
      (rule hoare_seqp [OF rest], auto simp: hoare_def ret_def)
  then show ?case
    unfolding due_entries.simps by (intro hoare_seqp [OF claim_marks]) (use Cons.prems in auto)
qed (simp add: hoare_def ret_def)

lemma apply_due_marks:
  assumes "\<forall>x \<in> set entries. length (schedule_fire_key (je_text je) x (sn_observed_at sn)) \<le> 512"
  shows "hoare (\<lambda>_. True) (apply_due ev je sn rid entries) (\<lambda>_ w. \<forall>x \<in> set entries. fired je (sn_observed_at sn) x w) (\<lambda>_ _. True)"
proof -
  let ?t = "sn_observed_at sn" and ?b = "filter (\<lambda>e. sched_operation e = ''benchmark'') entries"
    and ?o = "filter (\<lambda>e. sched_operation e \<noteq> ''benchmark'') entries"
  let ?B = "\<lambda>w. \<forall>x \<in> set ?b. fired je ?t x w" and ?O = "\<lambda>w. \<forall>x \<in> set ?o. fired je ?t x w"
  have kept: "keeps (\<lambda>w. \<forall>x \<in> set xs. fired je ?t x w) p" if "grows anything p" for xs and p :: "'x prog"
    using that unfolding keeps_def hoare_def by (auto split: prod.split sum.split dest: growsD intro: fired_mono)
  have b: "hoare (\<lambda>_. True) (for_each (due_benchmark ev je ?t el rid) ?b) (\<lambda>_. ?B) (\<lambda>_ _. True)" for el
    by (rule for_each_marks) (use assms in \<open>auto intro!: due_benchmark_marks grows_due\<close>)
  have o: "hoare (\<lambda>_. True) (due_entries ev je ?t rid ?o) (\<lambda>_. ?O) (\<lambda>_ _. True)"
    by (rule due_entries_marks) (use assms in auto)
  have s: "hoare ?B (seqp (due_entries ev je ?t rid ?o) (due_switches ev sn)) (\<lambda>_ w. ?B w \<and> ?O w) (\<lambda>_ _. True)"
    by (rule also_kept [OF ends_fired_then [OF o kept [OF grows_due_lists(2)]] kept [OF grows_seqp [OF grows_due_lists]]])
  show ?thesis
    unfolding apply_due_def Let_def thenp_def
    by (rule hoare_seqp [OF b]) (rule hoare_conseq [OF s], auto)
qed

text \<open>Fires that are marked already do nothing.\<close>

lemma due_fired:
  assumes "\<forall>x \<in> set entries. fired je t x w"
  shows "for_each (due_benchmark ev je t eligible rid) entries w = (Inr (), w)" "due_entries ev je t rid entries w = (Inr [], w)"
  using assms
  by (induction entries)
    (auto simp: claim_due_def due_benchmark_def thenp_def seqp_def getp_def ret_def fired_def whenp_def Let_def)

lemma apply_due_fired:
  assumes "\<forall>x \<in> set entries. fired je (sn_observed_at sn) x w"
  shows "apply_due ev je sn rid entries w = (Inr (), w)"
proof -
  have "\<forall>x \<in> set (filter P entries). fired je (sn_observed_at sn) x w" for P using assms by simp
  note due_fired [OF this]
  then show ?thesis
    unfolding apply_due_def Let_def thenp_def seqp_def by (simp add: due_switches_def ret_def split: option.split)
qed

text \<open>C14. Scheduled work is not repeated: once a cycle has handled the entries due in a minute, another cycle for the same minute,
  of the same daemon or of one restarted on the same event table, with whatever environment, does nothing at all for them: no
  backup, no switch, no benchmark, no event.  A fire key longer than the 512 characters an event keeps is outside the statement.\<close>

theorem scheduled_work_not_repeated:
  assumes "\<forall>x \<in> set entries. length (schedule_fire_key (je_text je) x (sn_observed_at sn)) \<le> 512"
    "apply_due ev je sn rid entries w = (Inr (), w')"
    "set (db_events (w_db w')) \<subseteq> set (db_events (w_db v))"
    "\<forall>x \<in> set entries. schedule_fire_key (je_text je') x (sn_observed_at sn') = schedule_fire_key (je_text je) x (sn_observed_at sn)"
  shows "apply_due ev' je' sn' rid' entries v = (Inr (), v)"
proof (rule apply_due_fired)
  have "\<forall>x \<in> set entries. fired je (sn_observed_at sn) x w'"
    using hoareD [OF apply_due_marks [OF assms(1)], of ev rid w] assms(2) by simp
  then show "\<forall>x \<in> set entries. fired je' (sn_observed_at sn') x v"
    using assms(3,4) by (fastforce simp: fired_def schedule_fire_seen_def list_ex_iff)
qed

definition noon_snapshot :: status_snapshot where
  "noon_snapshot = \<lparr>sn_generation = 0, sn_observed_at = sunday_noon, sn_profiles = [sample_status], sn_initializing = False\<rparr>"

definition noon_cycle :: "(exn + unit) \<times> world" where
  "noon_cycle = apply_due sample_ctl_env sample_jobs noon_snapshot ''r1'' [nightly] sample_world"

lemma nightly_fields: "sched_operation nightly = ''backup''" "sched_profile nightly = TERRARIA_VANILLA"
  "sched_backup_destination nightly \<noteq> None"
  by code_simp+

lemma event_jobs [simp]: "db_jobs (record_event clock p c m db) = db_jobs db"
  by (simp add: record_event_def)

lemma noon_cycle_ends: "fst noon_cycle = Inr ()"
  by (simp add: noon_cycle_def apply_due_def noon_snapshot_def nightly_fields job_simps claim_due_def due_backup_def write_event_def
      on_exception_def due_switches_def schedule_fire_seen_def Let_def sample_world_def empty_ctl_db_def split: option.split)

theorem scheduled_work_not_repeated_witness:
  "apply_due (sample_ctl_env\<lparr>env_cancel := (\<lambda>_. True)\<rparr>) sample_jobs (noon_snapshot\<lparr>sn_generation := 7\<rparr>) ''r2'' [nightly] (snd noon_cycle)
     = (Inr (), snd noon_cycle)"
proof (rule scheduled_work_not_repeated)
  show "\<forall>x \<in> set [nightly]. length (schedule_fire_key (je_text sample_jobs) x (sn_observed_at noon_snapshot)) \<le> 512" by code_simp
  show "apply_due sample_ctl_env sample_jobs noon_snapshot ''r1'' [nightly] sample_world = (Inr (), snd noon_cycle)"
    using noon_cycle_ends by (simp add: noon_cycle_def prod_eq_iff)
qed simp_all

section \<open>Leases of a cycle\<close>

abbreviation no_lease :: "world \<Rightarrow> bool" where
  "no_lease \<equiv> \<lambda>w. held w = {}"

lemma no_lease_ops: "keeps no_lease (claim_due ev je t entry)" "keeps no_lease (prepare_switch ev a b c d e actor)"
  unfolding claim_due_def prepare_switch_def by (intro empty_rules)+

lemma no_lease_handlers:
  "keeps no_lease (stop ev pid actor rid)" "keeps no_lease (confirm_switch ev cid actor)" "keeps no_lease (run_scheduled_backup ev je pid rid)"
  unfolding keeps_def by (rule stop_clears switch_clears scheduled_backup_clears)+

lemma keeps_on_exception: "keeps P p \<Longrightarrow> (\<And>e. keeps P (h e)) \<Longrightarrow> keeps P (on_exception p h)"
  unfolding on_exception_def by (intro keeps_rules)

lemmas no_lease_rules = empty_rules no_lease_ops no_lease_handlers keeps_on_exception keeps_for_each

lemma cycle_no_lease:
  "keeps no_lease (idle_stop ev je pid rid)" "keeps no_lease (due_benchmark ev je t False rid entry)"
  "keeps no_lease (due_backup ev je rid entry)" "keeps no_lease (due_switch ev owner entry)"
  unfolding idle_stop_def due_benchmark_def due_backup_def backup_not_done_def due_switch_def Let_def
  by (auto intro!: no_lease_rules)

lemma due_lists_no_lease: "keeps no_lease (due_entries ev je t rid entries)" "keeps no_lease (due_switches ev sn entries)"
proof -
  show "keeps no_lease (due_entries ev je t rid entries)"
    by (induction entries) (auto intro!: no_lease_rules cycle_no_lease)
  show "keeps no_lease (due_switches ev sn entries)"
    unfolding due_switches_def by (auto intro!: no_lease_rules cycle_no_lease)
qed

lemma apply_due_no_lease:
  assumes "\<And>evidence benchmarks. \<not> benchmark_eligible sn evidence benchmarks"
  shows "keeps no_lease (apply_due ev je sn rid entries)"
  unfolding apply_due_def Let_def using assms by (auto intro!: no_lease_rules cycle_no_lease due_lists_no_lease)

lemma idle_stops_no_lease: "held w = {} \<Longrightarrow> held (snd (snd (apply_idle_stops ev je rid ss tracker w))) = {}"
proof (induction ss arbitrary: tracker w)
  case (Cons s ss)
  show ?case
  proof (cases "env_profiles ev (ps_profile_id s)")
    case (Some p)
    show ?thesis
      using Cons hoare_ends [OF keepsD [OF cycle_no_lease(1)], of w ev je "prof_id p" rid]
      by (auto simp: Some split: prod.splits sum.splits)
  qed (simp add: Cons)
qed simp

end
