(* ===== verification/Retirement_Manifest.thy ===== *)
theory Retirement_Manifest
  imports Models "HOL-Library.List_Lexorder" "HOL-Library.Char_ord" "HOL-Library.Product_Lexorder"
begin

text \<open>
  Retirement manifests (\<^verbatim>\<open>retirement.py\<close>): the payload states and their transitions, and the parser of a manifest body, which
  names the payloads to retire together with the receipt of their verified remote copies.

  What the parser takes from the standard library is a parameter, \<open>codec\<close>: SHA-256, \<^verbatim>\<open>json.loads\<close> and \<^verbatim>\<open>json.dumps\<close> and
  \<^verbatim>\<open>datetime.fromisoformat\<close>.  Decoded objects have distinct keys, as Python's dictionaries do.
\<close>

section \<open>Payload states\<close>

datatype ret_exn = Safe string string bool | Raised \<comment> \<open>any exception that is no \<^verbatim>\<open>SafeError\<close>\<close>

definition refused :: "string \<Rightarrow> ret_exn" where
  "refused message = Safe ''retirement_failed'' message False"

datatype payload_state = PRESENT | MISSING | PREPARED | QUARANTINED | PURGE_PREPARED | PURGED | ROLLED_BACK | FAILED | AMBIGUOUS

fun payload_state_value :: "payload_state \<Rightarrow> string" where
  "payload_state_value PRESENT = ''present''"
| "payload_state_value MISSING = ''missing''"
| "payload_state_value PREPARED = ''prepared''"
| "payload_state_value QUARANTINED = ''quarantined''"
| "payload_state_value PURGE_PREPARED = ''purge_prepared''"
| "payload_state_value PURGED = ''purged''"
| "payload_state_value ROLLED_BACK = ''rolled_back''"
| "payload_state_value FAILED = ''failed''"
| "payload_state_value AMBIGUOUS = ''ambiguous''"

definition LEDGER_STATES :: "payload_state list" where
  "LEDGER_STATES = [PREPARED, QUARANTINED, PURGE_PREPARED, PURGED, ROLLED_BACK, FAILED, AMBIGUOUS]"

definition BLOCKING_STATES :: "payload_state list" where
  "BLOCKING_STATES = [PREPARED, QUARANTINED, PURGE_PREPARED, PURGED, FAILED, AMBIGUOUS]"

definition RETIREMENT_PHASES :: "string list" where
  "RETIREMENT_PHASES = [''quarantine'', ''purge'', ''rollback'']"

fun TRANSITIONS :: "payload_state \<Rightarrow> payload_state list" where
  "TRANSITIONS PREPARED = [PREPARED, QUARANTINED, FAILED]"
| "TRANSITIONS QUARANTINED = [QUARANTINED, PURGE_PREPARED, ROLLED_BACK, FAILED]"
| "TRANSITIONS PURGE_PREPARED = [PURGE_PREPARED, PURGED, FAILED]"
| "TRANSITIONS PURGED = [PURGED]"
| "TRANSITIONS ROLLED_BACK = [ROLLED_BACK, PREPARED, FAILED]"
| "TRANSITIONS FAILED = [FAILED, PREPARED]"
| "TRANSITIONS AMBIGUOUS = [AMBIGUOUS, PREPARED]"
| "TRANSITIONS _ = []"

definition PHASE_RESUMABLE :: "string \<Rightarrow> payload_state list" where
  "PHASE_RESUMABLE phase =
     (if phase = ''quarantine'' then [PREPARED, QUARANTINED, ROLLED_BACK]
      else if phase = ''purge'' then [QUARANTINED, PURGE_PREPARED, PURGED]
      else [PREPARED, QUARANTINED, ROLLED_BACK])"

section \<open>Manifests\<close>

record codec =
  cd_sha256 :: "string \<Rightarrow> string"
  cd_loads :: "string \<Rightarrow> json option option" \<comment> \<open>\<open>Some None\<close>: a decoding error; \<open>None\<close>: another exception\<close>
  cd_dumps :: "json \<Rightarrow> string" \<comment> \<open>with sorted keys and no spaces\<close>
  cd_fromisoformat :: "string \<Rightarrow> bool option" \<comment> \<open>whether the parsed time has an offset; \<open>None\<close>: \<^verbatim>\<open>ValueError\<close>\<close>

record manifest_entry =
  me_backup :: string
  me_profile :: string
  me_device :: int
  me_inode :: int
  me_size :: int
  me_mtime :: int
  me_ctime :: int
  me_sha :: string

record remote_member =
  rm_backup :: string
  rm_profile :: string
  rm_size :: int
  rm_sha :: string

record remote_receipt =
  rc_destination :: string
  rc_verified :: bool
  rc_verified_at :: string
  rc_sha :: string
  rc_members :: "remote_member list"

record retirement_manifest =
  mf_operation :: string
  mf_proposal :: string
  mf_entries :: "manifest_entry list"
  mf_receipt :: remote_receipt

definition total_bytes :: "retirement_manifest \<Rightarrow> int" where
  "total_bytes mf = sum_list (map me_size (mf_entries mf))"

definition profile_ids :: "retirement_manifest \<Rightarrow> string list" where
  "profile_ids mf = sort (remdups (map me_profile (mf_entries mf)))"

definition MAX_MANIFEST_BYTES :: nat where
  "MAX_MANIFEST_BYTES = 2 * 1024 * 1024"

definition MAX_MANIFEST_ENTRIES :: nat where
  "MAX_MANIFEST_ENTRIES = 4096"

text \<open>The patterns \<^verbatim>\<open>[A-Za-z0-9][A-Za-z0-9_-]{0,127}\<close> and \<^verbatim>\<open>[A-Za-z0-9][A-Za-z0-9._-]{0,63}\<close>.\<close>

definition is_backup_id :: "string \<Rightarrow> bool" where
  "is_backup_id s \<longleftrightarrow> s \<noteq> [] \<and> length s \<le> 128 \<and> any_alnum (hd s) \<and> list_all (\<lambda>c. any_alnum c \<or> c \<in> set ''_-'') (tl s)"

definition is_destination :: "string \<Rightarrow> bool" where
  "is_destination s \<longleftrightarrow> s \<noteq> [] \<and> length s \<le> 64 \<and> any_alnum (hd s) \<and> list_all (\<lambda>c. any_alnum c \<or> c \<in> set ''._-'') (tl s)"

definition reject_if :: "bool \<Rightarrow> string \<Rightarrow> ret_exn + unit" where
  "reject_if condition message = raise_if condition (refused message)"

fun as_object :: "json \<Rightarrow> (string \<times> json) list option" where
  "as_object (JObj kvs) = Some kvs"
| "as_object _ = None"

fun as_list :: "json \<Rightarrow> json list option" where
  "as_list (JArr js) = Some js"
| "as_list _ = None"

definition field :: "(string \<times> json) list \<Rightarrow> string \<Rightarrow> json" where
  "field kvs key = the (map_of kvs key)"

text \<open>\<^verbatim>\<open>x is a dict\<close> with exactly these keys.\<close>

definition shaped :: "json \<Rightarrow> string list \<Rightarrow> string \<Rightarrow> ret_exn + (string \<times> json) list" where
  "shaped value expected what =
     (case as_object value of
        None \<Rightarrow> Inl (refused (what @ '' is not an object''))
      | Some kvs \<Rightarrow> and_then (reject_if (set (map fst kvs) \<noteq> set expected) (what @ '' has an unexpected shape'')) (\<lambda>_. Inr kvs))"

definition text_field :: "json \<Rightarrow> (string \<Rightarrow> bool) \<Rightarrow> string \<Rightarrow> ret_exn + string" where
  "text_field raw ok message =
     (case as_str raw of None \<Rightarrow> Inl (refused message) | Some s \<Rightarrow> and_then (reject_if (\<not> ok s) message) (\<lambda>_. Inr s))"

definition number_field :: "json \<Rightarrow> string \<Rightarrow> ret_exn + int" where
  "number_field raw message =
     (case as_int raw of None \<Rightarrow> Inl (refused message) | Some n \<Rightarrow> and_then (reject_if (n < 0) message) (\<lambda>_. Inr n))"

definition is_profile_text :: "string \<Rightarrow> bool" where
  "is_profile_text s \<longleftrightarrow> s \<noteq> [] \<and> length s \<le> 64"

definition parse_manifest_entry :: "json \<Rightarrow> ret_exn + manifest_entry" where
  "parse_manifest_entry v =
     and_then (shaped v [''backup_id'', ''profile_id'', ''device'', ''inode'', ''size_bytes'', ''mtime_ns'', ''ctime_ns'', ''sha256'']
       ''manifest entry'') (\<lambda>kvs.
     and_then (text_field (field kvs ''backup_id'') is_backup_id ''manifest entry id is invalid'') (\<lambda>backup.
     and_then (text_field (field kvs ''profile_id'') is_profile_text ''manifest profile is invalid'') (\<lambda>profile.
     and_then (number_field (field kvs ''device'') ''manifest device is invalid'') (\<lambda>device.
     and_then (number_field (field kvs ''inode'') ''manifest inode is invalid'') (\<lambda>inode.
     and_then (number_field (field kvs ''size_bytes'') ''manifest size_bytes is invalid'') (\<lambda>size.
     and_then (number_field (field kvs ''mtime_ns'') ''manifest mtime_ns is invalid'') (\<lambda>mtime.
     and_then (number_field (field kvs ''ctime_ns'') ''manifest ctime_ns is invalid'') (\<lambda>ctime.
     and_then (text_field (field kvs ''sha256'') is_hex64 ''manifest sha256 is invalid'') (\<lambda>sha.
       Inr \<lparr>me_backup = backup, me_profile = profile, me_device = device, me_inode = inode, me_size = size,
            me_mtime = mtime, me_ctime = ctime, me_sha = sha\<rparr>)))))))))"

definition parse_member :: "json \<Rightarrow> ret_exn + remote_member" where
  "parse_member v =
     and_then (shaped v [''backup_id'', ''profile_id'', ''size_bytes'', ''sha256''] ''receipt member'') (\<lambda>kvs.
     and_then (text_field (field kvs ''backup_id'') is_backup_id ''receipt member id is invalid'') (\<lambda>backup.
     and_then (text_field (field kvs ''profile_id'') is_profile_text ''receipt member profile is invalid'') (\<lambda>profile.
     and_then (number_field (field kvs ''size_bytes'') ''receipt member size is invalid'') (\<lambda>size.
     and_then (text_field (field kvs ''sha256'') is_hex64 ''receipt member sha256 is invalid'') (\<lambda>sha.
       Inr \<lparr>rm_backup = backup, rm_profile = profile, rm_size = size, rm_sha = sha\<rparr>)))))"

fun parse_all :: "(json \<Rightarrow> ret_exn + 'a) \<Rightarrow> json list \<Rightarrow> ret_exn + 'a list" where
  "parse_all f [] = Inr []"
| "parse_all f (j # js) = and_then (f j) (\<lambda>x. and_then (parse_all f js) (\<lambda>xs. Inr (x # xs)))"

definition member_json :: "remote_member \<Rightarrow> json" where
  "member_json m = JObj [(''backup_id'', JStr (rm_backup m)), (''profile_id'', JStr (rm_profile m)),
     (''size_bytes'', JInt (rm_size m)), (''sha256'', JStr (rm_sha m))]"

definition receipt_digest :: "codec \<Rightarrow> string \<Rightarrow> string \<Rightarrow> remote_member list \<Rightarrow> string" where
  "receipt_digest cd destination verified_at members =
     cd_sha256 cd (cd_dumps cd (JObj
       [(''destination_id'', JStr destination), (''verified_at'', JStr verified_at),
        (''members'', JArr (map member_json (sort_key (\<lambda>m. (rm_backup m, rm_profile m)) members)))]))"

text \<open>\<^verbatim>\<open>value.replace("Z", "+00:00")\<close>.\<close>

definition replace_zulu :: "string \<Rightarrow> string" where
  "replace_zulu s = concat (map (\<lambda>c. if c = CHR ''Z'' then ''+00:00'' else [c]) s)"

definition is_rfc3339 :: "codec \<Rightarrow> string \<Rightarrow> bool" where
  "is_rfc3339 cd v = (case cd_fromisoformat cd (replace_zulu v) of None \<Rightarrow> False | Some aware \<Rightarrow> aware)"

text \<open>The dictionary of the members by id: a later member replaces an earlier one.\<close>

definition by_id :: "remote_member list \<Rightarrow> string \<rightharpoonup> remote_member" where
  "by_id members = map_of (rev (map (\<lambda>m. (rm_backup m, m)) members))"

definition member_mismatch :: "manifest_entry \<Rightarrow> remote_member \<Rightarrow> string option" where
  "member_mismatch e m =
     (if rm_profile m \<noteq> me_profile e then Some ''receipt profile does not match the plan''
      else if rm_size m \<noteq> me_size e then Some ''receipt size does not match the plan''
      else if rm_sha m \<noteq> me_sha e then Some ''receipt digest does not match the plan''
      else None)"

fun match_members :: "(string \<rightharpoonup> remote_member) \<Rightarrow> manifest_entry list \<Rightarrow> ret_exn + unit" where
  "match_members ms [] = Inr ()"
| "match_members ms (e # es) =
     (case member_mismatch e (the (ms (me_backup e))) of Some message \<Rightarrow> Inl (refused message) | None \<Rightarrow> match_members ms es)"

definition parse_receipt :: "codec \<Rightarrow> manifest_entry list \<Rightarrow> json \<Rightarrow> ret_exn + remote_receipt" where
  "parse_receipt cd entries v =
     and_then (shaped v [''destination_id'', ''verified'', ''verified_at'', ''receipt_sha256'', ''members''] ''receipt'') (\<lambda>kvs.
     and_then (text_field (field kvs ''destination_id'') is_destination ''receipt destination is invalid'') (\<lambda>destination.
     and_then (reject_if (field kvs ''verified'' \<noteq> JBool True) ''receipt is not verified'') (\<lambda>_.
     and_then (text_field (field kvs ''verified_at'') (is_rfc3339 cd) ''receipt verification time is invalid'') (\<lambda>verified_at.
     case as_list (field kvs ''members'') of None \<Rightarrow> Inl (refused ''receipt members are invalid'') | Some raw_members \<Rightarrow>
     and_then (parse_all parse_member raw_members) (\<lambda>members.
     and_then (reject_if (length (remdups (map rm_backup members)) \<noteq> length members) ''receipt has duplicate members'') (\<lambda>_.
     and_then (reject_if (set (map rm_backup members) \<noteq> set (map me_backup entries)) ''receipt membership does not match the plan'') (\<lambda>_.
     and_then (match_members (by_id members) entries) (\<lambda>_.
     and_then (text_field (field kvs ''receipt_sha256'') is_hex64 ''receipt digest is invalid'') (\<lambda>bound.
     and_then (reject_if (receipt_digest cd destination verified_at members \<noteq> bound) ''receipt digest does not bind its content'') (\<lambda>_.
       Inr \<lparr>rc_destination = destination, rc_verified = True, rc_verified_at = verified_at, rc_sha = bound, rc_members = members\<rparr>))))))))))"

text \<open>\<^verbatim>\<open>value["schema"] == 1\<close>: Python compares \<^verbatim>\<open>1.0\<close> and \<^verbatim>\<open>True\<close> equal to \<^verbatim>\<open>1\<close>.\<close>

definition supported_schema :: "json \<Rightarrow> bool" where
  "supported_schema j \<longleftrightarrow> j = JInt 1 \<or> j = JFloat (Finite 1) \<or> j = JBool True"

definition parse_manifest :: "codec \<Rightarrow> string \<Rightarrow> ret_exn + string \<times> manifest_entry list \<times> remote_receipt" where
  "parse_manifest cd data =
     (case cd_loads cd data of None \<Rightarrow> Inl Raised | Some None \<Rightarrow> Inl (refused ''retirement manifest is not valid JSON'') | Some (Some v) \<Rightarrow>
     and_then (shaped v [''schema'', ''proposal_sha256'', ''entries'', ''receipt''] ''retirement manifest'') (\<lambda>kvs.
     and_then (reject_if (\<not> supported_schema (field kvs ''schema'')) ''retirement manifest schema is not supported'') (\<lambda>_.
     and_then (text_field (field kvs ''proposal_sha256'') is_hex64 ''retirement proposal digest is invalid'') (\<lambda>proposal.
     case as_list (field kvs ''entries'') of None \<Rightarrow> Inl (refused ''retirement manifest entries are invalid'') | Some raw_entries \<Rightarrow>
     and_then (reject_if (\<not> (1 \<le> length raw_entries \<and> length raw_entries \<le> MAX_MANIFEST_ENTRIES))
       ''retirement manifest entries are invalid'') (\<lambda>_.
     and_then (parse_all parse_manifest_entry raw_entries) (\<lambda>entries.
     and_then (reject_if (length (remdups (map me_backup entries)) \<noteq> length entries) ''retirement manifest has duplicate entries'') (\<lambda>_.
     and_then (reject_if (length (remdups (map (\<lambda>e. (me_profile e, me_backup e)) entries)) \<noteq> length entries)
       ''retirement manifest has duplicate profile entries'') (\<lambda>_.
     and_then (parse_receipt cd entries (field kvs ''receipt'')) (\<lambda>receipt.
       Inr (proposal, entries, receipt))))))))))"

section \<open>What an accepted manifest guarantees\<close>

definition valid_entry :: "manifest_entry \<Rightarrow> bool" where
  "valid_entry e \<longleftrightarrow> is_backup_id (me_backup e) \<and> is_profile_text (me_profile e) \<and> is_hex64 (me_sha e)
     \<and> 0 \<le> me_device e \<and> 0 \<le> me_inode e \<and> 0 \<le> me_size e \<and> 0 \<le> me_mtime e \<and> 0 \<le> me_ctime e"

definition valid_member :: "remote_member \<Rightarrow> bool" where
  "valid_member m \<longleftrightarrow> is_backup_id (rm_backup m) \<and> is_profile_text (rm_profile m) \<and> is_hex64 (rm_sha m) \<and> 0 \<le> rm_size m"

text \<open>The verified copy of an entry.\<close>

definition copy_of :: "manifest_entry \<Rightarrow> remote_member" where
  "copy_of e = \<lparr>rm_backup = me_backup e, rm_profile = me_profile e, rm_size = me_size e, rm_sha = me_sha e\<rparr>"

definition valid_receipt :: "codec \<Rightarrow> manifest_entry list \<Rightarrow> remote_receipt \<Rightarrow> bool" where
  "valid_receipt cd es r \<longleftrightarrow> is_destination (rc_destination r) \<and> rc_verified r \<and> is_rfc3339 cd (rc_verified_at r)
     \<and> distinct (map rm_backup (rc_members r)) \<and> set (rc_members r) = copy_of ` set es
     \<and> is_hex64 (rc_sha r) \<and> rc_sha r = receipt_digest cd (rc_destination r) (rc_verified_at r) (rc_members r)"

definition valid_manifest :: "codec \<Rightarrow> string \<times> manifest_entry list \<times> remote_receipt \<Rightarrow> bool" where
  "valid_manifest cd m \<longleftrightarrow> (case m of (proposal, es, r) \<Rightarrow>
     is_hex64 proposal \<and> es \<noteq> [] \<and> length es \<le> MAX_MANIFEST_ENTRIES \<and> list_all valid_entry es
     \<and> distinct (map me_backup es) \<and> valid_receipt cd es r)"

text \<open>The object a manifest is written as.\<close>

definition entry_json :: "manifest_entry \<Rightarrow> json" where
  "entry_json e = JObj [(''backup_id'', JStr (me_backup e)), (''profile_id'', JStr (me_profile e)), (''device'', JInt (me_device e)),
     (''inode'', JInt (me_inode e)), (''size_bytes'', JInt (me_size e)), (''mtime_ns'', JInt (me_mtime e)),
     (''ctime_ns'', JInt (me_ctime e)), (''sha256'', JStr (me_sha e))]"

definition receipt_json :: "remote_receipt \<Rightarrow> json" where
  "receipt_json r = JObj [(''destination_id'', JStr (rc_destination r)), (''verified'', JBool (rc_verified r)),
     (''verified_at'', JStr (rc_verified_at r)), (''receipt_sha256'', JStr (rc_sha r)), (''members'', JArr (map member_json (rc_members r)))]"

definition manifest_json :: "string \<times> manifest_entry list \<times> remote_receipt \<Rightarrow> json" where
  "manifest_json m = (case m of (proposal, es, r) \<Rightarrow> JObj [(''schema'', JInt 1), (''proposal_sha256'', JStr proposal),
     (''entries'', JArr (map entry_json es)), (''receipt'', receipt_json r)])"

text \<open>A codec that knows one body, and the manifest it holds.\<close>

definition sample_sha :: "string \<Rightarrow> string" where
  "sample_sha s = replicate 64 (if s = ''body'' then CHR ''b'' else if s = ''save'' then CHR ''c'' else CHR ''a'')"

definition sample_entry :: manifest_entry where
  "sample_entry = \<lparr>me_backup = ''b1'', me_profile = ''velocity'', me_device = 7, me_inode = 70, me_size = 4, me_mtime = 1000,
     me_ctime = 2000, me_sha = sample_sha ''save''\<rparr>"

definition sample_receipt :: remote_receipt where
  "sample_receipt = \<lparr>rc_destination = ''vault'', rc_verified = True, rc_verified_at = ''2026-01-01T00:00:00Z'', rc_sha = sample_sha [],
     rc_members = [copy_of sample_entry]\<rparr>"

definition sample_body :: "string \<times> manifest_entry list \<times> remote_receipt" where
  "sample_body = (sample_sha [], [sample_entry], sample_receipt)"

definition sample_ret_codec :: codec where
  "sample_ret_codec = \<lparr>cd_sha256 = sample_sha, cd_loads = (\<lambda>s. Some (if s = ''body'' then Some (manifest_json sample_body) else None)),
     cd_dumps = (\<lambda>j. []), cd_fromisoformat = (\<lambda>s. Some True)\<rparr>"

lemma text_field_Inr [simp]: "text_field j ok m = Inr s \<longleftrightarrow> j = JStr s \<and> ok s"
  by (cases j) (auto simp: text_field_def reject_if_def raise_if_def)

lemma number_field_Inr [simp]: "number_field j m = Inr n \<longleftrightarrow> j = JInt n \<and> 0 \<le> n"
  by (cases j) (auto simp: number_field_def reject_if_def raise_if_def)

lemma reject_if_Inr [simp]: "reject_if c m = Inr u \<longleftrightarrow> \<not> c"
  by (auto simp: reject_if_def raise_if_def)

lemma reject_if_False [simp]: "reject_if False m = Inr ()"
  by simp

lemma shaped_Inr: "shaped j keys what = Inr kvs \<longleftrightarrow> j = JObj kvs \<and> fst ` set kvs = set keys"
  by (cases j) (auto simp: shaped_def reject_if_def raise_if_def)

lemma parse_manifest_entry_valid: "parse_manifest_entry j = Inr e \<Longrightarrow> valid_entry e"
  by (auto simp: parse_manifest_entry_def and_then_Inr_iff valid_entry_def)

lemma parse_member_valid: "parse_member j = Inr m \<Longrightarrow> valid_member m"
  by (auto simp: parse_member_def and_then_Inr_iff valid_member_def)

lemma parse_all_Inr: "parse_all f js = Inr xs \<longleftrightarrow> list_all2 (\<lambda>j x. f j = Inr x) js xs"
  by (induction js arbitrary: xs) (auto simp: and_then_Inr_iff list_all2_Cons1)

lemma match_members_Inr:
  "match_members ms es = Inr u \<longleftrightarrow> (\<forall>e\<in>set es. member_mismatch e (the (ms (me_backup e))) = None)"
  by (induction es) (auto split: option.splits)

lemma by_id_Some: "by_id ms i = Some m \<Longrightarrow> m \<in> set ms \<and> rm_backup m = i"
  by (auto simp: by_id_def dest!: map_of_SomeD)

lemma by_id_None: "by_id ms i = None \<longleftrightarrow> i \<notin> rm_backup ` set ms"
  by (simp add: by_id_def map_of_eq_None_iff image_image)

lemma length_remdups_distinct: "length xs = n \<Longrightarrow> length (remdups xs) = n \<longleftrightarrow> distinct xs"
  by (metis length_remdups_eq remdups_id_iff_distinct)

text \<open>A receipt that passes the comparison lists exactly the copies of the entries.\<close>

lemma member_mismatch_None: "rm_backup m = me_backup e \<Longrightarrow> member_mismatch e m = None \<longleftrightarrow> m = copy_of e"
  by (cases m) (auto simp: member_mismatch_def copy_of_def)

lemma members_are_copies:
  assumes ids: "rm_backup ` set ms = me_backup ` set es" and d: "distinct (map rm_backup ms)"
    and match: "match_members (by_id ms) es = Inr ()"
  shows "set ms = copy_of ` set es"
proof -
  have copy: "by_id ms (me_backup e) = Some (copy_of e)" if e: "e \<in> set es" for e
  proof -
    obtain m where m: "by_id ms (me_backup e) = Some m"
      using e ids by_id_None [of ms "me_backup e"] by (auto simp: image_iff)
    with match e have "member_mismatch e m = None" by (auto simp: match_members_Inr dest!: bspec)
    with m show ?thesis by (simp add: member_mismatch_None by_id_Some)
  qed
  show ?thesis
  proof
    show "copy_of ` set es \<subseteq> set ms"
      using copy by (auto dest: by_id_Some)
    show "set ms \<subseteq> copy_of ` set es"
    proof
      fix m assume m: "m \<in> set ms"
      then obtain e where e: "e \<in> set es" "rm_backup m = me_backup e"
        using ids by (metis (no_types, lifting) image_iff)
      moreover have "copy_of e \<in> set ms" "rm_backup (copy_of e) = rm_backup m"
        using copy [OF e(1)] e(2) by (auto dest: by_id_Some)
      ultimately show "m \<in> copy_of ` set es"
        using m d by (metis distinct_map image_eqI inj_onD)
    qed
  qed
qed

lemma parse_receipt_valid:
  assumes "parse_receipt cd es j = Inr r"
  shows "valid_receipt cd es r"
proof -
  from assms obtain ms where ms: "rc_members r = ms" "rm_backup ` set ms = me_backup ` set es"
      "length (remdups (map rm_backup ms)) = length ms" "match_members (by_id ms) es = Inr ()"
    and rest: "is_destination (rc_destination r)" "rc_verified r" "is_rfc3339 cd (rc_verified_at r)" "is_hex64 (rc_sha r)"
      "rc_sha r = receipt_digest cd (rc_destination r) (rc_verified_at r) ms"
    by (auto simp: parse_receipt_def and_then_Inr_iff split: option.splits)
  then show ?thesis
    using members_are_copies [OF ms(2) _ ms(4)] length_remdups_distinct [of "map rm_backup ms" "length ms"]
    by (simp add: valid_receipt_def)
qed

lemma sample_sha_hex [simp]: "is_hex64 (sample_sha s)"
  by (simp add: sample_sha_def is_hex64_def hex_digits_def list_all_iff)

lemma sample_body_valid: "valid_manifest sample_ret_codec sample_body"
  by (simp add: valid_manifest_def sample_body_def MAX_MANIFEST_ENTRIES_def valid_entry_def sample_entry_def is_backup_id_def
      is_profile_text_def any_alnum_def lower_alnum_def valid_receipt_def sample_receipt_def is_destination_def is_rfc3339_def
      sample_ret_codec_def receipt_digest_def)

lemma sample_loads: "cd_loads sample_ret_codec ''body'' = Some (Some (manifest_json sample_body))"
  by (simp add: sample_ret_codec_def)

lemma parse_manifest_entry_json: "valid_entry e \<Longrightarrow> parse_manifest_entry (entry_json e) = Inr e"
  by (auto simp: parse_manifest_entry_def entry_json_def valid_entry_def and_then_Inr_iff shaped_Inr field_def)

lemma parse_member_json: "valid_member m \<Longrightarrow> parse_member (member_json m) = Inr m"
  by (auto simp: parse_member_def member_json_def valid_member_def and_then_Inr_iff shaped_Inr field_def)

lemma parse_all_map: "(\<And>x. x \<in> set xs \<Longrightarrow> f (g x) = Inr x) \<Longrightarrow> parse_all f (map g xs) = Inr xs"
  by (induction xs) auto

lemma valid_copy: "valid_entry e \<Longrightarrow> valid_member (copy_of e)"
  by (simp add: valid_entry_def valid_member_def copy_of_def)

lemma match_copies:
  assumes "set ms = copy_of ` set es"
  shows "distinct (map me_backup es) \<Longrightarrow> match_members (by_id ms) es = Inr ()"
proof -
  assume d: "distinct (map me_backup es)"
  have "member_mismatch e (the (by_id ms (me_backup e))) = None" if e: "e \<in> set es" for e
  proof -
    have "me_backup e \<in> rm_backup ` set ms"
      using e assms by (force simp: copy_of_def)
    then obtain m where m: "by_id ms (me_backup e) = Some m" "m \<in> set ms" "rm_backup m = me_backup e"
      using by_id_None [of ms "me_backup e"] by_id_Some by fastforce
    then obtain e' where "e' \<in> set es" "m = copy_of e'"
      using assms by auto
    with d e m have "m = copy_of e"
      by (auto simp: copy_of_def distinct_map dest: inj_onD)
    with m show ?thesis by (simp add: member_mismatch_None)
  qed
  then show ?thesis by (simp add: match_members_Inr)
qed

lemma parse_receipt_json:
  assumes v: "valid_receipt cd es r" and es: "list_all valid_entry es" "distinct (map me_backup es)"
  shows "parse_receipt cd es (receipt_json r) = Inr r"
proof -
  from v have ms: "set (rc_members r) = copy_of ` set es" by (simp add: valid_receipt_def)
  then have "parse_all parse_member (map member_json (rc_members r)) = Inr (rc_members r)"
    using es(1) by (auto simp: list_all_iff intro!: parse_all_map parse_member_json valid_copy)
  moreover have "rm_backup ` set (rc_members r) = me_backup ` set es"
    by (auto simp: ms image_image copy_of_def)
  ultimately show ?thesis
    using v match_copies [OF ms es(2)] length_remdups_distinct [of "map rm_backup (rc_members r)" "length (rc_members r)"]
    by (auto simp: parse_receipt_def receipt_json_def valid_receipt_def and_then_Inr_iff shaped_Inr field_def)
qed

lemma sample_body_parses: "parse_manifest sample_ret_codec ''body'' = Inr sample_body"
  by code_simp

lemma parse_manifest_sound: "parse_manifest cd data = Inr m \<Longrightarrow> valid_manifest cd m"
proof -
  assume "parse_manifest cd data = Inr m"
  then obtain p es r js j where m: "m = (p, es, r)" "is_hex64 p" "Suc 0 \<le> length js" "length js \<le> MAX_MANIFEST_ENTRIES"
      and es: "parse_all parse_manifest_entry js = Inr es" "length (remdups (map me_backup es)) = length es"
      and r: "parse_receipt cd es j = Inr r"
    by (auto simp: parse_manifest_def and_then_Inr_iff split: option.splits)
  have "length es = length js" "list_all valid_entry es"
    using es(1) parse_manifest_entry_valid by (auto simp: parse_all_Inr list_all_length list_all2_conv_all_nth)
  with m es(2) parse_receipt_valid [OF r] length_remdups_distinct [of "map me_backup es" "length es"]
  show ?thesis by (auto simp: valid_manifest_def)
qed

text \<open>C26. A manifest body that \<^verbatim>\<open>parse_manifest\<close> accepts has between one and 4096 well-formed entries with distinct ids, and a receipt
  marked verified whose members are exactly the copies of the entries: same id, profile, size and digest, none missing, none added,
  none twice.\<close>

theorem parse_manifest_valid: "parse_manifest cd data = Inr m \<Longrightarrow> valid_manifest cd m"
  by (rule parse_manifest_sound)

theorem parse_manifest_valid_witness: "valid_manifest sample_ret_codec sample_body"
  by (rule parse_manifest_valid [OF sample_body_parses])

text \<open>C27. Every valid manifest is accepted: the body that encodes it parses back to the same proposal, entries and receipt.\<close>

theorem parse_manifest_roundtrip:
  assumes "cd_loads cd data = Some (Some (manifest_json m))" and "valid_manifest cd m"
  shows "parse_manifest cd data = Inr m"
proof -
  obtain p es r where m: "m = (p, es, r)" by (cases m)
  with assms(2) have v: "is_hex64 p" "es \<noteq> []" "length es \<le> MAX_MANIFEST_ENTRIES" "list_all valid_entry es"
      "distinct (map me_backup es)" "valid_receipt cd es r"
    by (simp_all add: valid_manifest_def)
  then have "parse_all parse_manifest_entry (map entry_json es) = Inr es"
    by (auto simp: list_all_iff intro!: parse_all_map parse_manifest_entry_json)
  moreover have "distinct (map (\<lambda>e. (me_profile e, me_backup e)) es)"
    using v(5) by (auto simp: distinct_map inj_on_def)
  ultimately show ?thesis
    using assms(1) m v parse_receipt_json [OF v(6,4,5)] length_remdups_distinct [of "map me_backup es" "length es"]
      length_remdups_distinct [of "map (\<lambda>e. (me_profile e, me_backup e)) es" "length es"]
    by (auto simp: parse_manifest_def manifest_json_def and_then_Inr_iff shaped_Inr field_def supported_schema_def Suc_le_eq)
qed

theorem parse_manifest_roundtrip_witness: "parse_manifest sample_ret_codec ''body'' = Inr sample_body"
  by (rule parse_manifest_roundtrip [OF sample_loads sample_body_valid])

end
