(* ===== verification/Retirement.thy ===== *)
theory Retirement
  imports Retirement_Manifest Programs Schedule
begin

text \<open>
  Retirement of local backup payloads (\<^verbatim>\<open>retirement.py\<close>): a trusted manifest names payloads and the receipt of their verified
  remote copies; quarantine moves the payloads aside, purge deletes them, rollback moves them back, and a ledger in the state
  database records each step so that an interrupted phase can be resumed.

  The operations are programs (\<open>Programs\<close>) over the file system and the ledger.  Each access of the outside takes one tick.  At every
  tick other programs may change the file system (\<open>re_others\<close>), the other tables are what \<open>re_catalog\<close> says, and a call that
  changes something may be carried out, fail without effect, or raise after its effect (\<open>re_io\<close>); since no code handles the exception,
  the last two are also the crashes of the process before and after the call.

  A file system is the function from paths to what \<^verbatim>\<open>lstat\<close> says.  Reading a file gives its content at the time it was opened; what
  \<^verbatim>\<open>fstat\<close> says of an open descriptor may differ from it (\<open>re_fstat\<close>).
\<close>

unbundle bit_operations_syntax

section \<open>The file system\<close>

datatype node_kind = Regular | Directory | Symlink bool \<comment> \<open>whether its target exists\<close> | Special

record node =
  nd_kind :: node_kind
  nd_device :: int
  nd_inode :: int
  nd_size :: int
  nd_mtime :: int
  nd_ctime :: int
  nd_nlink :: int
  nd_uid :: int
  nd_mode :: nat \<comment> \<open>the permission bits\<close>
  nd_content :: string

datatype entry_at = Enoent | Enotdir | Eio | Node node

type_synonym file_system = "fs_path \<Rightarrow> entry_at"

definition path_join :: "fs_path \<Rightarrow> string \<Rightarrow> fs_path" where
  "path_join p name = p\<lparr>path_parts := path_parts p @ [name]\<rparr>"

definition path_parent :: "fs_path \<Rightarrow> fs_path" where
  "path_parent p = p\<lparr>path_parts := butlast (path_parts p)\<rparr>"

text \<open>Mode bits that some group or other user has: \<^verbatim>\<open>0o022\<close> writable, \<^verbatim>\<open>0o077\<close> any.\<close>

definition writable_by_others :: "nat \<Rightarrow> bool" where
  "writable_by_others m \<longleftrightarrow> m AND 18 \<noteq> 0"

definition open_to_others :: "nat \<Rightarrow> bool" where
  "open_to_others m \<longleftrightarrow> m AND 63 \<noteq> 0"

section \<open>The ledger and the catalog\<close>

record ledger_row =
  lg_operation :: string
  lg_backup :: string
  lg_profile :: string
  lg_state :: payload_state
  lg_path :: string
  lg_quarantine :: "string list option" \<comment> \<open>the parts of the relative path\<close>
  lg_device :: int
  lg_inode :: int
  lg_size :: int
  lg_mtime :: int
  lg_ctime :: int
  lg_sha :: string
  lg_manifest :: string
  lg_created :: instant
  lg_updated :: instant
  lg_error :: "string option"

record catalog_row =
  ct_id :: string
  ct_profile :: string
  ct_size :: int
  ct_verified :: int
  ct_protected :: int

record catalog =
  ct_backups :: "catalog_row list"
  ct_protections :: "(string \<times> string) list" \<comment> \<open>backup id and \<^verbatim>\<open>prune_state\<close>\<close>
  ct_confirmations :: "(string \<times> bool \<times> string) list" \<comment> \<open>action, whether consumed, payload text\<close>
  ct_jobs :: "(string \<times> bool) list" \<comment> \<open>id and whether finished\<close>

section \<open>The environment\<close>

record ret_env =
  re_others :: "nat \<Rightarrow> file_system \<Rightarrow> file_system"
  re_io :: "nat \<Rightarrow> io_answer"
  re_catalog :: "nat \<Rightarrow> catalog"
  re_lease :: "(nat \<Rightarrow> bool) option"
  re_fstat :: "nat \<Rightarrow> node \<Rightarrow> node" \<comment> \<open>an open descriptor, given what it was opened as\<close>
  re_flock :: "nat \<Rightarrow> bool"
  re_new_dir :: "nat \<Rightarrow> node"
  re_clock :: "nat \<Rightarrow> instant"
  re_renameat2 :: bool
  re_connection :: bool
  re_profiles :: "string \<Rightarrow> fs_path option" \<comment> \<open>the backup root of a registered profile\<close>
  re_owner :: int
  re_manifest_dir :: fs_path
  re_sender_lock :: fs_path
  re_codec :: codec
  re_listed :: "string \<Rightarrow> string option" \<comment> \<open>the profile whose backup service lists the id\<close>

record ret_world =
  rw_fs :: file_system
  rw_ledger :: "ledger_row list option" \<comment> \<open>\<open>None\<close>: the table does not exist\<close>
  rw_sender :: bool \<comment> \<open>the sender lock is held\<close>
  rw_time :: nat

type_synonym 'a retp = "(ret_world, ret_exn, 'a) program"

definition observe_fs :: "ret_env \<Rightarrow> (file_system \<Rightarrow> 'a) \<Rightarrow> 'a retp" where
  "observe_fs ev f w = (let fs = re_others ev (rw_time w) (rw_fs w) in (Inr (f fs), w\<lparr>rw_fs := fs, rw_time := Suc (rw_time w)\<rparr>))"

definition lstat :: "ret_env \<Rightarrow> fs_path \<Rightarrow> entry_at retp" where
  "lstat ev p = observe_fs ev (\<lambda>fs. fs p)"

text \<open>A call that changes the file system: what it does when it is carried out, or the error it meets.\<close>

definition change_fs :: "ret_env \<Rightarrow> ret_exn \<Rightarrow> (nat \<Rightarrow> file_system \<Rightarrow> ret_exn + file_system) \<Rightarrow> unit retp" where
  "change_fs ev lost f w =
     (let n = rw_time w; fs = re_others ev n (rw_fs w); w1 = w\<lparr>rw_fs := fs, rw_time := Suc n\<rparr>
      in if re_io ev n = Io_Lost then (Inl lost, w1)
         else case f n fs of
                Inl e \<Rightarrow> (Inl e, w1)
              | Inr fs' \<Rightarrow> (if re_io ev n = Io_Kept then Inl Raised else Inr (), w1\<lparr>rw_fs := fs'\<rparr>))"

definition tick :: "(nat \<Rightarrow> ret_exn + 'a) \<Rightarrow> 'a retp" where
  "tick f w = (f (rw_time w), w\<lparr>rw_time := Suc (rw_time w)\<rparr>)"

definition query :: "ret_env \<Rightarrow> (catalog \<Rightarrow> ledger_row list option \<Rightarrow> 'a) \<Rightarrow> 'a retp" where
  "query ev f w =
     (if re_io ev (rw_time w) = Io_Done then Inr (f (re_catalog ev (rw_time w)) (rw_ledger w)) else Inl Raised,
      w\<lparr>rw_time := Suc (rw_time w)\<rparr>)"

definition reject :: "bool \<Rightarrow> string \<Rightarrow> unit retp" where
  "reject condition message = whenp condition (throw (refused message))"

text \<open>\<^verbatim>\<open>os.open(path, O_RDONLY | O_NOFOLLOW)\<close>, \<^verbatim>\<open>os.fstat\<close>, and reading a file to its end.\<close>

definition is_link :: "node \<Rightarrow> bool" where
  "is_link i = (case nd_kind i of Symlink _ \<Rightarrow> True | _ \<Rightarrow> False)"

definition open_nofollow :: "ret_env \<Rightarrow> (entry_at \<Rightarrow> ret_exn) \<Rightarrow> fs_path \<Rightarrow> node retp" where
  "open_nofollow ev failure p w =
     (case observe_fs ev (\<lambda>fs. fs p) w of
        (Inr (Node i), w') \<Rightarrow>
          if re_io ev (rw_time w) \<noteq> Io_Done \<or> is_link i then (Inl (failure (Node i)), w') else (Inr i, w')
      | (Inr e, w') \<Rightarrow> (Inl (failure e), w')
      | (Inl e, w') \<Rightarrow> (Inl e, w'))"

definition fstat :: "ret_env \<Rightarrow> node \<Rightarrow> node retp" where
  "fstat ev i = tick (\<lambda>n. Inr (re_fstat ev n i))"

definition digest_file :: "ret_env \<Rightarrow> fs_path \<Rightarrow> string retp" where
  "digest_file ev p = seqp (open_nofollow ev (\<lambda>_. Raised) p) (\<lambda>i. if nd_kind i = Directory then throw Raised else ret (cd_sha256 (re_codec ev) (nd_content i)))"

section \<open>No-overwrite rename, unlink, directories\<close>

text \<open>Moving a directory moves what is below it.\<close>

definition relocate :: "fs_path \<Rightarrow> fs_path \<Rightarrow> file_system \<Rightarrow> file_system" where
  "relocate source destination fs = (\<lambda>p.
     if path_under destination p then fs (source\<lparr>path_parts := path_parts source @ drop (length (path_parts destination)) (path_parts p)\<rparr>)
     else if path_under source p then Enoent else fs p)"

definition rename_noreplace :: "ret_env \<Rightarrow> fs_path \<Rightarrow> fs_path \<Rightarrow> unit retp" where
  "rename_noreplace ev source destination =
     (if \<not> re_renameat2 ev then throw (refused ''no-overwrite rename is unavailable on this host'')
      else change_fs ev (refused ''no-overwrite rename failed'') (\<lambda>n fs.
        case (fs source, fs destination, fs (path_parent destination)) of
          (Node i, Node _, _) \<Rightarrow> Inl (refused ''target already exists'')
        | (Node i, Enoent, Node d) \<Rightarrow>
            if nd_kind d \<noteq> Directory then Inl (refused ''no-overwrite rename failed'')
            else let moved = (if nd_kind i = Directory then relocate source destination fs else fs(source := Enoent))
                 in Inr (moved(destination := Node (i\<lparr>nd_ctime := re_clock ev n\<rparr>)))
        | _ \<Rightarrow> Inl (refused ''no-overwrite rename failed'')))"

definition unlink :: "ret_env \<Rightarrow> fs_path \<Rightarrow> unit retp" where
  "unlink ev p = change_fs ev Raised (\<lambda>n fs.
     case fs p of Node i \<Rightarrow> if nd_kind i = Directory then Inl Raised else Inr (fs(p := Enoent)) | _ \<Rightarrow> Inl Raised)"

definition fsync_dir :: "ret_env \<Rightarrow> fs_path \<Rightarrow> unit retp" where
  "fsync_dir ev p = tick (\<lambda>n. if re_io ev n = Io_Done then Inr () else Inl Raised)"

definition path_exists_at :: "ret_env \<Rightarrow> fs_path \<Rightarrow> bool retp" where
  "path_exists_at ev p = seqp (lstat ev p) (\<lambda>e.
     case e of
       Node i \<Rightarrow> ret (case nd_kind i of Symlink b \<Rightarrow> b | _ \<Rightarrow> True)
     | Eio \<Rightarrow> throw Raised
     | _ \<Rightarrow> ret False)"

definition mkdir :: "ret_env \<Rightarrow> fs_path \<Rightarrow> unit retp" where
  "mkdir ev p = change_fs ev Raised (\<lambda>n fs.
     case (fs p, fs (path_parent p)) of
       (Enoent, Node d) \<Rightarrow> if nd_kind d \<noteq> Directory then Inl Raised else Inr (fs(p := Node ((re_new_dir ev n)\<lparr>nd_kind := Directory\<rparr>)))
     | _ \<Rightarrow> Inl Raised)"

text \<open>A path and its parents, the path first.\<close>

definition self_and_parents :: "fs_path \<Rightarrow> fs_path list" where
  "self_and_parents p = map (\<lambda>n. p\<lparr>path_parts := take n (path_parts p)\<rparr>) (rev [0..<Suc (length (path_parts p))])"

definition assert_no_symlink_ancestors :: "ret_env \<Rightarrow> fs_path \<Rightarrow> unit retp" where
  "assert_no_symlink_ancestors ev p = for_each (\<lambda>candidate. seqp (lstat ev candidate) (\<lambda>e.
     case e of
       Enoent \<Rightarrow> ret ()
     | Node i \<Rightarrow> reject (is_link i) ''path has a symlink ancestor''
     | _ \<Rightarrow> throw (refused ''path is unavailable''))) (self_and_parents p)"

text \<open>The check of a directory that must be a directory of the owner, not writable by others.\<close>

definition assert_directory :: "ret_env \<Rightarrow> fs_path \<Rightarrow> string \<Rightarrow> string \<Rightarrow> string \<Rightarrow> unit retp" where
  "assert_directory ev p unavailable no_directory untrusted =
     thenp (assert_no_symlink_ancestors ev p) (seqp (lstat ev p) (\<lambda>e.
       case e of
         Node i \<Rightarrow> thenp (reject (nd_kind i \<noteq> Directory) no_directory)
           (reject (nd_uid i \<noteq> re_owner ev \<or> writable_by_others (nd_mode i)) untrusted)
       | _ \<Rightarrow> throw (refused unavailable)))"

definition assert_trusted_directory :: "ret_env \<Rightarrow> fs_path \<Rightarrow> unit retp" where
  "assert_trusted_directory ev p = assert_directory ev p ''retirement manifest directory is unavailable''
     ''retirement manifest directory is not a directory'' ''retirement manifest directory is not trusted''"

section \<open>Loading a manifest\<close>

definition load_bytes :: "ret_env \<Rightarrow> fs_path \<Rightarrow> string retp" where
  "load_bytes ev p = seqp (lstat ev p) (\<lambda>e.
     case e of
       Node earlier \<Rightarrow>
         thenp (reject (nd_kind earlier \<noteq> Regular) ''retirement manifest is not a regular file'')
         (thenp (reject (nd_nlink earlier \<noteq> 1) ''retirement manifest is multiply linked'')
         (thenp (reject (nd_uid earlier \<noteq> re_owner ev \<or> writable_by_others (nd_mode earlier)) ''retirement manifest is not trusted'')
         (thenp (reject (nd_size earlier > int MAX_MANIFEST_BYTES) ''retirement manifest is too large'')
         (seqp (open_nofollow ev (\<lambda>_. Raised) p) (\<lambda>opened.
          seqp (fstat ev opened) (\<lambda>bound.
          thenp (reject ((nd_device bound, nd_inode bound) \<noteq> (nd_device earlier, nd_inode earlier)) ''retirement manifest changed while opening'')
          (thenp (whenp (nd_kind opened = Directory) (throw Raised))
          (thenp (reject (length (nd_content opened) > MAX_MANIFEST_BYTES) ''retirement manifest is too large'')
          (ret (nd_content opened)))))))))) 
     | _ \<Rightarrow> throw (refused ''retirement manifest was not found''))"

definition load_manifest :: "ret_env \<Rightarrow> string \<Rightarrow> retirement_manifest retp" where
  "load_manifest ev operation =
     thenp (reject (\<not> is_hex64 operation) ''retirement operation id is invalid'')
     (thenp (assert_trusted_directory ev (re_manifest_dir ev))
     (seqp (load_bytes ev (path_join (re_manifest_dir ev) (operation @ ''.json''))) (\<lambda>data.
      thenp (reject (cd_sha256 (re_codec ev) data \<noteq> operation) ''retirement manifest digest does not match its name'')
      (case parse_manifest (re_codec ev) data of
         Inl e \<Rightarrow> throw e
       | Inr (proposal, entries, receipt) \<Rightarrow>
           ret \<lparr>mf_operation = operation, mf_proposal = proposal, mf_entries = entries, mf_receipt = receipt\<rparr>))))"

section \<open>The sender interlock\<close>

definition assert_parent :: "ret_env \<Rightarrow> unit retp" where
  "assert_parent ev = assert_directory ev (path_parent (re_sender_lock ev)) ''sender lock directory is unavailable''
     ''sender lock parent is not a directory'' ''sender lock parent is not trusted''"

definition flock :: "ret_env \<Rightarrow> bool retp" where
  "flock ev = tick (\<lambda>n. Inr (re_flock ev n))"

definition set_sender :: "bool \<Rightarrow> unit retp" where
  "set_sender b w = (Inr (), w\<lparr>rw_sender := b\<rparr>)"

definition acquire_sender :: "ret_env \<Rightarrow> unit retp" where
  "acquire_sender ev =
     thenp (assert_parent ev)
     (seqp (open_nofollow ev (\<lambda>e. refused (if e = Enoent then ''sender lock is unavailable'' else ''sender lock could not be opened''))
        (re_sender_lock ev)) (\<lambda>fd.
      seqp (fstat ev fd) (\<lambda>info.
      thenp (reject (nd_kind info \<noteq> Regular \<or> nd_nlink info \<noteq> 1) ''sender lock is not a trusted file'')
      (thenp (reject (nd_uid info \<noteq> re_owner ev \<or> open_to_others (nd_mode info)) ''sender lock mode is not trusted'')
      (seqp (flock ev) (\<lambda>ok. if ok then set_sender True else throw (Safe ''retirement_failed'' ''laptop sender is active'' True)))))))"

definition with_sender :: "ret_env \<Rightarrow> 'a retp \<Rightarrow> 'a retp" where
  "with_sender ev p = thenp (acquire_sender ev) (finallyp p (\<lambda>_. set_sender False))"

text \<open>The read-only probe of the lock; the lock taken to test it is given back at once.\<close>

definition probe :: "ret_env \<Rightarrow> bool retp" where
  "probe ev = seqp (attempt (assert_parent ev)) (\<lambda>failed.
     case failed of
       Some (Safe _ _ _) \<Rightarrow> ret False
     | Some Raised \<Rightarrow> throw Raised
     | None \<Rightarrow>
         seqp (catchp (seqp (open_nofollow ev (\<lambda>_. Raised) (re_sender_lock ev)) (\<lambda>fd. ret (Some fd))) (\<lambda>_. ret None)) (\<lambda>fd.
           case fd of
             None \<Rightarrow> ret False
           | Some fd \<Rightarrow> seqp (fstat ev fd) (\<lambda>info.
               if nd_kind info \<noteq> Regular \<or> nd_nlink info \<noteq> 1 then ret False
               else if nd_uid info \<noteq> re_owner ev \<or> open_to_others (nd_mode info) then ret False
               else flock ev)))"

section \<open>The ledger\<close>

definition ledger_present :: "ledger_row list option \<Rightarrow> bool" where
  "ledger_present t \<longleftrightarrow> t \<noteq> None"

definition rows_of :: "ledger_row list option \<Rightarrow> string option \<Rightarrow> ledger_row list" where
  "rows_of t operation = (case t of None \<Rightarrow> [] | Some rows \<Rightarrow>
     (case operation of None \<Rightarrow> rows | Some i \<Rightarrow> filter (\<lambda>r. lg_operation r = i) rows))"

definition ledger_rows :: "ret_env \<Rightarrow> string option \<Rightarrow> ledger_row list retp" where
  "ledger_rows ev operation = query ev (\<lambda>c t. rows_of t operation)"

definition blocking_backup_ids :: "ledger_row list option \<Rightarrow> string set" where
  "blocking_backup_ids t = lg_backup ` {r \<in> set (rows_of t None). lg_state r \<in> set BLOCKING_STATES}"

text \<open>A call that writes the ledger.\<close>

definition change_ledger :: "ret_env \<Rightarrow> (catalog \<Rightarrow> ledger_row list option \<Rightarrow> ret_exn + ledger_row list) \<Rightarrow> unit retp" where
  "change_ledger ev f w =
     (let n = rw_time w; w1 = w\<lparr>rw_time := Suc n\<rparr>
      in if re_io ev n = Io_Lost then (Inl Raised, w1)
         else case f (re_catalog ev n) (rw_ledger w) of
                Inl e \<Rightarrow> (Inl e, w1)
              | Inr t \<Rightarrow> (if re_io ev n = Io_Kept then Inl Raised else Inr (), w1\<lparr>rw_ledger := Some t\<rparr>))"

definition ensure_ledger :: "ret_env \<Rightarrow> unit retp" where
  "ensure_ledger ev = seqp (query ev (\<lambda>c t. ledger_present t)) (\<lambda>present.
     whenp (\<not> present) (change_ledger ev (\<lambda>c t. Inr (case t of None \<Rightarrow> [] | Some rows \<Rightarrow> rows))))"

definition same_identity :: "ledger_row \<Rightarrow> ledger_row \<Rightarrow> bool" where
  "same_identity a b \<longleftrightarrow> lg_profile a = lg_profile b \<and> lg_path a = lg_path b \<and> lg_device a = lg_device b \<and> lg_inode a = lg_inode b
     \<and> lg_size a = lg_size b \<and> lg_mtime a = lg_mtime b \<and> lg_ctime a = lg_ctime b \<and> lg_sha a = lg_sha b \<and> lg_manifest a = lg_manifest b"

definition same_key :: "ledger_row \<Rightarrow> ledger_row \<Rightarrow> bool" where
  "same_key a b \<longleftrightarrow> lg_operation a = lg_operation b \<and> lg_backup a = lg_backup b"

text \<open>The columns of an integer hold 64 bits; \<^verbatim>\<open>backup_id\<close> refers to the catalog.\<close>

definition storable :: "ledger_row \<Rightarrow> bool" where
  "storable r \<longleftrightarrow> list_all (\<lambda>n. - (2 ^ 63) \<le> n \<and> n < 2 ^ 63) [lg_device r, lg_inode r, lg_size r, lg_mtime r, lg_ctime r]"

definition upsert :: "ledger_row \<Rightarrow> ledger_row list \<Rightarrow> ledger_row list" where
  "upsert row rows =
     (if list_ex (same_key row) rows
      then map (\<lambda>r. if same_key row r then row\<lparr>lg_profile := lg_profile r, lg_created := lg_created r\<rparr> else r) rows
      else rows @ [row])"

definition ledger_write :: "ret_env \<Rightarrow> ledger_row \<Rightarrow> unit retp" where
  "ledger_write ev row =
     thenp (ensure_ledger ev)
     (seqp (query ev (\<lambda>c t. find (same_key row) (rows_of t None))) (\<lambda>existing.
      thenp (case existing of
          Some current \<Rightarrow>
            thenp (reject (\<not> same_identity current row) ''ledger identity does not match the plan'')
              (reject (lg_state row \<notin> set (TRANSITIONS (lg_state current))) ''ledger state transition is not permitted'')
        | None \<Rightarrow> seqp (query ev (\<lambda>c t. filter (\<lambda>r. lg_backup r = lg_backup row \<and> lg_operation r \<noteq> lg_operation row) (rows_of t None)))
            (\<lambda>other. reject (list_ex (\<lambda>r. lg_state r \<in> set BLOCKING_STATES) other)
              ''payload belongs to another active retirement operation''))
        (change_ledger ev (\<lambda>c t.
           let rows = rows_of t None in
           if \<not> storable row then Inl Raised
           else if \<not> list_ex (same_key row) rows \<and> \<not> list_ex (\<lambda>b. ct_id b = lg_backup row) (ct_backups c) then Inl Raised
           else Inr (upsert row rows)))))"

section \<open>Plans and eligibility\<close>

record plan_entry =
  pe_entry :: manifest_entry
  pe_archive :: fs_path
  pe_quarantine :: fs_path

definition assert_retirement_lease :: "ret_env \<Rightarrow> unit retp" where
  "assert_retirement_lease ev = (case re_lease ev of
     None \<Rightarrow> ret ()
   | Some lease \<Rightarrow> tick (\<lambda>n. if lease n then Inr ()
       else Inl (Safe ''slot_conflict'' ''operation lease was lost before payload retirement'' True)))"

definition require_connection :: "ret_env \<Rightarrow> unit retp" where
  "require_connection ev = reject (\<not> re_connection ev) ''durable ledger is unavailable''"

definition payload_name :: "string \<Rightarrow> string" where
  "payload_name backup = backup @ ''.tar.zst''"

definition archive_path :: "fs_path \<Rightarrow> string \<Rightarrow> fs_path" where
  "archive_path base backup = path_join base (payload_name backup)"

definition quarantine_root :: "fs_path \<Rightarrow> string \<Rightarrow> fs_path" where
  "quarantine_root base operation = path_join (path_join base ''.retired'') operation"

definition plan_item :: "ret_env \<Rightarrow> string \<Rightarrow> manifest_entry \<Rightarrow> ret_exn + plan_entry" where
  "plan_item ev operation e =
     (case re_profiles ev (me_profile e) of
        None \<Rightarrow> Inl (refused ''profile is not registered'')
      | Some base \<Rightarrow>
          let archive = archive_path base (me_backup e) in
          if path_parent archive \<noteq> base then Inl (refused ''archive path is not approved'')
          else Inr \<lparr>pe_entry = e, pe_archive = archive,
                    pe_quarantine = path_join (quarantine_root base operation) (payload_name (me_backup e))\<rparr>)"

fun plan_items :: "ret_env \<Rightarrow> string \<Rightarrow> manifest_entry list \<Rightarrow> ret_exn + plan_entry list" where
  "plan_items ev operation [] = Inr []"
| "plan_items ev operation (e # es) =
     and_then (plan_item ev operation e) (\<lambda>item. and_then (plan_items ev operation es) (\<lambda>items. Inr (item # items)))"

definition plan :: "ret_env \<Rightarrow> retirement_manifest \<Rightarrow> plan_entry list retp" where
  "plan ev mf = (case plan_items ev (mf_operation mf) (mf_entries mf) of Inl e \<Rightarrow> throw e | Inr items \<Rightarrow> ret items)"

text \<open>\<^verbatim>\<open>payload LIKE '%id%'\<close>: ASCII letters match in either case and an underscore of the id matches any character.\<close>

definition lower_char :: "char \<Rightarrow> nat" where
  "lower_char c = (if c \<in> set ''ABCDEFGHIJKLMNOPQRSTUVWXYZ'' then of_char c + 32 else of_char c)"

fun like_here :: "string \<Rightarrow> string \<Rightarrow> bool" where
  "like_here [] s = True"
| "like_here (p # ps) [] = False"
| "like_here (p # ps) (c # cs) \<longleftrightarrow> (p = CHR ''_'' \<or> lower_char p = lower_char c) \<and> like_here ps cs"

fun like_inside :: "string \<Rightarrow> string \<Rightarrow> bool" where
  "like_inside p [] = like_here p []"
| "like_inside p (c # cs) \<longleftrightarrow> like_here p (c # cs) \<or> like_inside p cs"

definition eligible_row :: "manifest_entry \<Rightarrow> catalog_row option \<Rightarrow> string option" where
  "eligible_row e row =
     (case row of
        None \<Rightarrow> Some ''backup is not in the catalog''
      | Some b \<Rightarrow>
          if ct_profile b \<noteq> me_profile e then Some ''backup profile does not match the plan''
          else if ct_size b \<noteq> me_size e then Some ''backup size does not match the plan''
          else if ct_verified b \<noteq> 1 \<or> ct_protected b \<noteq> 0 then Some ''backup is not an unprotected verified catalog row''
          else None)"

definition assert_catalog_eligible :: "ret_env \<Rightarrow> manifest_entry \<Rightarrow> unit retp" where
  "assert_catalog_eligible ev e =
     seqp (query ev (\<lambda>c t. find (\<lambda>b. ct_id b = me_backup e) (ct_backups c))) (\<lambda>row.
     thenp (case eligible_row e row of None \<Rightarrow> ret () | Some message \<Rightarrow> throw (refused message))
     (seqp (query ev (\<lambda>c t. list_ex (\<lambda>(i, prune). i = me_backup e \<and> prune \<noteq> ''deleted'') (ct_protections c))) (\<lambda>active.
      thenp (reject active ''backup still has a remote protection row'')
      (seqp (query ev (\<lambda>c t. list_ex (\<lambda>(action, consumed, payload). action = ''restore'' \<and> \<not> consumed \<and> like_inside (me_backup e) payload)
         (ct_confirmations c))) (\<lambda>confirmation. reject confirmation ''backup has a live restore confirmation'')))))"

definition assert_jobs_idle :: "ret_env \<Rightarrow> string option \<Rightarrow> unit retp" where
  "assert_jobs_idle ev own_job =
     seqp (query ev (\<lambda>c t. list_ex (\<lambda>(i, finished). \<not> finished
         \<and> (case own_job of None \<Rightarrow> True | Some j \<Rightarrow> j = [] \<or> i \<noteq> j)) (ct_jobs c)))
       (\<lambda>busy. whenp busy (throw (Safe ''retirement_failed'' ''an unrelated operation is still running'' True)))"

definition assert_confirmations_clear :: "ret_env \<Rightarrow> unit retp" where
  "assert_confirmations_clear ev =
     seqp (query ev (\<lambda>c t. list_ex (\<lambda>(action, consumed, _). action = ''restore'' \<and> \<not> consumed) (ct_confirmations c)))
       (\<lambda>pending. reject pending ''a restore confirmation is pending'')"

definition assert_boundaries :: "ret_env \<Rightarrow> string option \<Rightarrow> unit retp" where
  "assert_boundaries ev own_job = thenp (assert_jobs_idle ev own_job) (assert_confirmations_clear ev)"

text \<open>The first row of the operation that is bound to another plan, as the message it is refused with.\<close>

definition entry_of :: "retirement_manifest \<Rightarrow> string \<Rightarrow> manifest_entry option" where
  "entry_of mf i = map_of (rev (map (\<lambda>e. (me_backup e, e)) (mf_entries mf))) i"

definition row_unbound :: "retirement_manifest \<Rightarrow> ledger_row \<Rightarrow> string option" where
  "row_unbound mf r =
     (let e = the (entry_of mf (lg_backup r)) in
      if lg_profile r \<noteq> me_profile e \<or> lg_sha r \<noteq> me_sha e then Some ''ledger entry is bound to a different plan''
      else if lg_device r \<noteq> me_device e \<or> lg_inode r \<noteq> me_inode e \<or> lg_size r \<noteq> me_size e \<or> lg_mtime r \<noteq> me_mtime e
        \<or> lg_ctime r \<noteq> me_ctime e then Some ''ledger identity does not match the plan''
      else None)"

definition binding_failure :: "retirement_manifest \<Rightarrow> bool \<Rightarrow> ledger_row list \<Rightarrow> string option" where
  "binding_failure mf exact rows =
     (if rows = [] then None
      else if \<not> lg_backup ` set rows \<subseteq> me_backup ` set (mf_entries mf)
           \<or> exact \<and> lg_backup ` set rows \<noteq> me_backup ` set (mf_entries mf)
           then Some ''ledger membership does not match the plan''
      else case find (\<lambda>r. row_unbound mf r \<noteq> None) rows of None \<Rightarrow> None | Some r \<Rightarrow> row_unbound mf r)"

definition assert_operation_binding :: "ret_env \<Rightarrow> retirement_manifest \<Rightarrow> bool \<Rightarrow> unit retp" where
  "assert_operation_binding ev mf exact = seqp (ledger_rows ev (Some (mf_operation mf))) (\<lambda>rows.
     case binding_failure mf exact rows of None \<Rightarrow> ret () | Some message \<Rightarrow> throw (refused message))"

definition receipt_failure :: "retirement_manifest \<Rightarrow> string option" where
  "receipt_failure mf =
     (let r = mf_receipt mf; ms = by_id (rc_members r) in
      if \<not> rc_verified r then Some ''verified-copy receipt is not verified''
      else if rm_backup ` set (rc_members r) \<noteq> me_backup ` set (mf_entries mf)
           then Some ''verified-copy receipt membership does not match the plan''
      else if list_ex (\<lambda>e. let m = the (ms (me_backup e)) in
                rm_profile m \<noteq> me_profile e \<or> rm_size m \<noteq> me_size e \<or> rm_sha m \<noteq> me_sha e) (mf_entries mf)
           then Some ''verified-copy receipt does not match the plan''
      else None)"

definition assert_receipt :: "retirement_manifest \<Rightarrow> unit retp" where
  "assert_receipt mf = (case receipt_failure mf of None \<Rightarrow> ret () | Some message \<Rightarrow> throw (refused message))"

section \<open>Payload identity\<close>

definition marks :: "node \<Rightarrow> int \<times> int \<times> int \<times> int \<times> int" where
  "marks i = (nd_device i, nd_inode i, nd_size i, nd_mtime i, nd_ctime i)"

definition payload_mismatch :: "manifest_entry \<Rightarrow> bool \<Rightarrow> node \<Rightarrow> string \<Rightarrow> string option" where
  "payload_mismatch e check_ctime final digest =
     (if (nd_device final, nd_inode final) \<noteq> (me_device e, me_inode e) then Some ''backup payload identity changed''
      else if nd_size final \<noteq> me_size e \<or> nd_mtime final \<noteq> me_mtime e then Some ''backup payload metadata changed''
      else if check_ctime \<and> nd_ctime final \<noteq> me_ctime e then Some ''backup payload metadata changed''
      else if digest \<noteq> me_sha e then Some ''backup payload digest changed''
      else None)"

text \<open>The three stages of \<^verbatim>\<open>_verify_payload\<close>: the path before it is opened, the hash, and the path afterwards.\<close>

definition verify_settled :: "manifest_entry \<Rightarrow> bool \<Rightarrow> node \<Rightarrow> node \<Rightarrow> string \<Rightarrow> entry_at \<Rightarrow> unit retp" where
  "verify_settled e check_ctime earlier later digest last_seen =
     (case last_seen of
        Node final \<Rightarrow>
          thenp (reject (marks earlier \<noteq> marks later \<or> marks later \<noteq> marks final) ''backup payload changed during verification'')
            (case payload_mismatch e check_ctime final digest of None \<Rightarrow> ret () | Some message \<Rightarrow> throw (refused message))
      | _ \<Rightarrow> throw (refused ''backup payload changed during verification''))"

definition verify_opened :: "ret_env \<Rightarrow> manifest_entry \<Rightarrow> fs_path \<Rightarrow> bool \<Rightarrow> node \<Rightarrow> unit retp" where
  "verify_opened ev e p check_ctime link_info =
     seqp (open_nofollow ev (\<lambda>_. Raised) p) (\<lambda>fd.
     seqp (fstat ev fd) (\<lambda>earlier.
     thenp (reject ((nd_device earlier, nd_inode earlier) \<noteq> (nd_device link_info, nd_inode link_info)) ''backup payload changed while opening'')
     (seqp (digest_file ev p) (\<lambda>digest.
      seqp (fstat ev fd) (\<lambda>later.
      seqp (lstat ev p) (verify_settled e check_ctime earlier later digest))))))"

definition verify_payload :: "ret_env \<Rightarrow> manifest_entry \<Rightarrow> fs_path \<Rightarrow> bool \<Rightarrow> unit retp" where
  "verify_payload ev e p check_ctime = seqp (lstat ev p) (\<lambda>found.
     case found of
       Node link_info \<Rightarrow>
         thenp (reject (nd_kind link_info \<noteq> Regular) ''backup payload is not a regular file'')
         (thenp (reject (nd_nlink link_info \<noteq> 1) ''backup payload has multiple links'')
         (verify_opened ev e p check_ctime link_info))
     | _ \<Rightarrow> throw (refused ''backup payload is unavailable''))"

text \<open>Whether an \<^verbatim>\<open>lstat\<close> shows the payload of a ledger row.\<close>

definition shows_payload :: "entry_at \<Rightarrow> bool" where
  "shows_payload e = (case e of Node i \<Rightarrow> nd_kind i = Regular \<and> nd_nlink i = 1 | _ \<Rightarrow> False)"

definition matches :: "ret_env \<Rightarrow> fs_path \<Rightarrow> ledger_row \<Rightarrow> bool retp" where
  "matches ev p r = seqp (lstat ev p) (\<lambda>e. ret (shows_payload e \<and> (case e of Node i \<Rightarrow>
     (nd_device i, nd_inode i, nd_size i, nd_mtime i) = (lg_device r, lg_inode r, lg_size r, lg_mtime r) | _ \<Rightarrow> False)))"

text \<open>The walk from the root to the parent of the path: \<open>Some b\<close> decides the answer.\<close>

fun ancestor_walk :: "ret_env \<Rightarrow> fs_path \<Rightarrow> string list \<Rightarrow> bool option retp" where
  "ancestor_walk ev current [] = ret None"
| "ancestor_walk ev current (part # parts) = (let next = path_join current part in seqp (lstat ev next) (\<lambda>e.
     case e of
       Enoent \<Rightarrow> ret (Some True)
     | Node i \<Rightarrow> if nd_kind i \<noteq> Directory then ret (Some False) else ancestor_walk ev next parts
     | _ \<Rightarrow> ret (Some False)))"

definition absent :: "ret_env \<Rightarrow> fs_path \<Rightarrow> fs_path \<Rightarrow> bool retp" where
  "absent ev base p =
     (if \<not> path_under base p then ret False
      else seqp (lstat ev base) (\<lambda>r. case r of
        Node i \<Rightarrow>
          if nd_kind i \<noteq> Directory then ret False
          else seqp (ancestor_walk ev base (butlast (drop (length (path_parts base)) (path_parts p)))) (\<lambda>decided.
            case decided of
              Some b \<Rightarrow> ret b
            | None \<Rightarrow> seqp (lstat ev p) (\<lambda>e. ret (e = Enoent \<or> e = Enotdir)))
      | _ \<Rightarrow> ret False))"

section \<open>Ledger rows and availability\<close>

definition ledger_row_for :: "ret_env \<Rightarrow> retirement_manifest \<Rightarrow> payload_state \<Rightarrow> plan_entry \<Rightarrow> string option \<Rightarrow> nat \<Rightarrow> ledger_row" where
  "ledger_row_for ev mf state item failure n =
     (let e = pe_entry item; archive = pe_archive item; base = path_parent archive in
      \<lparr>lg_operation = mf_operation mf, lg_backup = me_backup e, lg_profile = me_profile e, lg_state = state,
       lg_path = last (path_parts archive), lg_quarantine = Some (drop (length (path_parts base)) (path_parts (pe_quarantine item))),
       lg_device = me_device e, lg_inode = me_inode e, lg_size = me_size e, lg_mtime = me_mtime e, lg_ctime = me_ctime e,
       lg_sha = me_sha e, lg_manifest = mf_operation mf, lg_created = re_clock ev n, lg_updated = re_clock ev n, lg_error = failure\<rparr>)"

definition write_row :: "ret_env \<Rightarrow> retirement_manifest \<Rightarrow> payload_state \<Rightarrow> plan_entry \<Rightarrow> string option \<Rightarrow> unit retp" where
  "write_row ev mf state item failure =
     seqp (tick (\<lambda>n. Inr (ledger_row_for ev mf state item failure n))) (ledger_write ev)"

definition prior_ops :: "ret_env \<Rightarrow> (string \<times> string) set retp" where
  "prior_ops ev = query ev (\<lambda>c t. (\<lambda>r. (lg_operation r, lg_backup r)) ` set (rows_of t None))"

fun availability_of_rows :: "ret_env \<Rightarrow> ledger_row list \<Rightarrow> (string \<rightharpoonup> payload_state) \<Rightarrow> (string \<rightharpoonup> payload_state) retp" where
  "availability_of_rows ev [] states = ret states"
| "availability_of_rows ev (r # rows) states =
     (if lg_state r \<notin> set LEDGER_STATES then availability_of_rows ev rows (states(lg_backup r \<mapsto> AMBIGUOUS))
      else if lg_state r \<in> set BLOCKING_STATES then availability_of_rows ev rows (states(lg_backup r \<mapsto> lg_state r))
      else case re_profiles ev (lg_profile r) of
             None \<Rightarrow> availability_of_rows ev rows (states(lg_backup r \<mapsto> FAILED))
           | Some base \<Rightarrow> seqp (matches ev (archive_path base (lg_backup r)) r) (\<lambda>ok.
               availability_of_rows ev rows (if ok then states else states(lg_backup r \<mapsto> FAILED))))"

definition availability_map :: "ret_env \<Rightarrow> (string \<rightharpoonup> payload_state) retp" where
  "availability_map ev =
     (if \<not> re_connection ev then ret Map.empty
      else seqp (ledger_rows ev None) (\<lambda>rows. availability_of_rows ev rows Map.empty))"

definition payload_state_of :: "ret_env \<Rightarrow> fs_path \<Rightarrow> string \<Rightarrow> payload_state retp" where
  "payload_state_of ev base backup = seqp (availability_map ev) (\<lambda>states.
     case states backup of
       Some blocking \<Rightarrow> ret blocking
     | None \<Rightarrow> seqp (lstat ev (archive_path base backup)) (\<lambda>e. ret (if shows_payload e then PRESENT else MISSING)))"

definition states_of :: "ledger_row list \<Rightarrow> string \<rightharpoonup> payload_state" where
  "states_of rows = map_of (rev (map (\<lambda>r. (lg_backup r, lg_state r)) rows))"

definition states_by_id :: "ret_env \<Rightarrow> retirement_manifest \<Rightarrow> (string \<rightharpoonup> payload_state) retp" where
  "states_by_id ev mf = seqp (ledger_rows ev (Some (mf_operation mf))) (\<lambda>rows. ret (states_of rows))"

section \<open>Phase admission\<close>

definition assert_phase_admissible :: "ret_env \<Rightarrow> retirement_manifest \<Rightarrow> string \<Rightarrow> unit retp" where
  "assert_phase_admissible ev mf phase = seqp (ledger_rows ev (Some (mf_operation mf))) (\<lambda>rows.
     case find (\<lambda>r. lg_state r \<notin> set (PHASE_RESUMABLE phase)) rows of
       None \<Rightarrow> ret ()
     | Some r \<Rightarrow> throw (refused (''operation cannot resume phase '' @ phase @ '' from ledger state '' @ payload_state_value (lg_state r))))"

definition preflight_item :: "ret_env \<Rightarrow> retirement_manifest \<Rightarrow> (string \<times> string) set \<Rightarrow> plan_entry \<Rightarrow> unit retp" where
  "preflight_item ev mf prior item =
     (let base = path_parent (pe_archive item); e = pe_entry item in
      seqp (absent ev base (pe_archive item)) (\<lambda>archive_absent.
      seqp (absent ev base (pe_quarantine item)) (\<lambda>quarantine_absent.
      if \<not> archive_absent \<and> \<not> quarantine_absent then throw (refused ''both source and quarantine payloads exist'')
      else if \<not> quarantine_absent then verify_payload ev e (pe_quarantine item) False
      else if \<not> archive_absent then verify_payload ev e (pe_archive item) ((mf_operation mf, me_backup e) \<notin> prior)
      else throw (refused ''backup payload is unavailable''))))"

definition assert_preflight :: "ret_env \<Rightarrow> retirement_manifest \<Rightarrow> unit retp" where
  "assert_preflight ev mf =
     thenp (for_each (assert_catalog_eligible ev) (mf_entries mf))
     (seqp (prior_ops ev) (\<lambda>prior. seqp (plan ev mf) (for_each (preflight_item ev mf prior))))"

definition purge_ready_item :: "ret_env \<Rightarrow> (string \<rightharpoonup> payload_state) \<Rightarrow> plan_entry \<Rightarrow> unit retp" where
  "purge_ready_item ev states item =
     (let base = path_parent (pe_archive item); e = pe_entry item; state = the (states (me_backup e)) in
      seqp (absent ev base (pe_quarantine item)) (\<lambda>quarantine_absent.
      seqp (absent ev base (pe_archive item)) (\<lambda>archive_absent.
      if state = PURGED then reject (\<not> quarantine_absent) ''a purged payload reappeared on disk''
      else if state = PURGE_PREPARED then
        (if \<not> quarantine_absent then verify_payload ev e (pe_quarantine item) False
         else reject (\<not> archive_absent) ''source payload is still present before purge'')
      else thenp (reject quarantine_absent ''quarantined payload is missing before purge'')
        (verify_payload ev e (pe_quarantine item) False))))"

definition assert_purge_ready :: "ret_env \<Rightarrow> retirement_manifest \<Rightarrow> unit retp" where
  "assert_purge_ready ev mf = seqp (ledger_rows ev (Some (mf_operation mf))) (\<lambda>rows.
     let states = states_of rows in
     thenp (reject (lg_backup ` set rows \<noteq> me_backup ` set (mf_entries mf)) ''purge plan does not match the quarantined set'')
     (seqp (plan ev mf) (for_each (purge_ready_item ev states))))"

definition assert_no_purge_intent :: "ret_env \<Rightarrow> retirement_manifest \<Rightarrow> unit retp" where
  "assert_no_purge_intent ev mf = seqp (ledger_rows ev (Some (mf_operation mf))) (\<lambda>rows.
     reject (list_ex (\<lambda>r. lg_state r \<in> {PURGE_PREPARED, PURGED}) rows) ''rollback is impossible after purge intent'')"

record prepared =
  pr_operation :: string
  pr_phase :: string
  pr_profiles :: "string list"
  pr_count :: nat
  pr_bytes :: int
  pr_destination :: string

definition retirement_prepare :: "ret_env \<Rightarrow> string \<Rightarrow> string \<Rightarrow> prepared retp" where
  "retirement_prepare ev operation phase =
     thenp (reject (phase \<notin> set RETIREMENT_PHASES) ''retirement phase is not approved'')
     (seqp (load_manifest ev operation) (\<lambda>mf.
      thenp (require_connection ev)
      (thenp (assert_operation_binding ev mf (phase = ''purge''))
      (thenp (assert_phase_admissible ev mf phase)
      (thenp (if phase = ''quarantine'' then assert_preflight ev mf
              else if phase = ''purge'' then thenp (assert_receipt mf) (assert_purge_ready ev mf)
              else assert_no_purge_intent ev mf)
      (ret \<lparr>pr_operation = mf_operation mf, pr_phase = phase, pr_profiles = profile_ids mf, pr_count = length (mf_entries mf),
            pr_bytes = total_bytes mf, pr_destination = rc_destination (mf_receipt mf)\<rparr>))))))"

section \<open>Observation\<close>

record retirement_report =
  rp_operation :: string
  rp_counts :: "payload_state \<Rightarrow> nat"
  rp_entries :: "(string \<times> string \<times> payload_state \<times> string option) list"
  rp_reconciled :: "(string \<times> string \<times> payload_state \<times> string) list"
  rp_availability :: "string \<rightharpoonup> payload_state"
  rp_partial :: bool

text \<open>The path a row names; a row written by the code has no \<^verbatim>\<open>..\<close> part.\<close>

definition quarantine_path :: "fs_path \<Rightarrow> ledger_row \<Rightarrow> fs_path option" where
  "quarantine_path base r = (case lg_quarantine r of
     None \<Rightarrow> None
   | Some parts \<Rightarrow> if parts = [] \<or> ''..'' \<in> set parts then None else Some (base\<lparr>path_parts := path_parts base @ parts\<rparr>))"

definition opt_probe :: "fs_path option \<Rightarrow> (fs_path \<Rightarrow> bool retp) \<Rightarrow> bool retp" where
  "opt_probe p f = (case p of None \<Rightarrow> ret False | Some p \<Rightarrow> f p)"

definition classify_row :: "ret_env \<Rightarrow> ledger_row \<Rightarrow> string retp" where
  "classify_row ev r =
     (case re_profiles ev (lg_profile r) of
        None \<Rightarrow> ret ''unknown_profile''
      | Some base \<Rightarrow>
          let archive = archive_path base (lg_backup r); quarantine = quarantine_path base r in
          seqp (matches ev archive r) (\<lambda>archive_ok.
          seqp (opt_probe quarantine (\<lambda>q. matches ev q r)) (\<lambda>quarantine_ok.
          if lg_state r = PREPARED then
            ret (if archive_ok then ''prepared_source_intact'' else if quarantine_ok then ''quarantine_completed'' else ''failed'')
          else if lg_state r = QUARANTINED then
            ret (if quarantine_ok then ''quarantined_intact'' else if archive_ok then ''source_present'' else ''failed'')
          else
            seqp (absent ev base archive) (\<lambda>archive_absent.
            seqp (opt_probe quarantine (\<lambda>q. absent ev base q)) (\<lambda>quarantine_absent.
            ret (if quarantine_ok then ''purge_pending'' else if archive_absent \<and> quarantine_absent then ''purged_proven'' else ''ambiguous''))))))"

fun classify_rows :: "ret_env \<Rightarrow> ledger_row list \<Rightarrow> (string \<times> string \<times> payload_state \<times> string) list retp" where
  "classify_rows ev [] = ret []"
| "classify_rows ev (r # rows) =
     (if lg_state r \<notin> {PREPARED, QUARANTINED, PURGE_PREPARED} then classify_rows ev rows
      else seqp (classify_row ev r) (\<lambda>c. seqp (classify_rows ev rows) (\<lambda>rest.
        ret ((lg_backup r, lg_profile r, lg_state r, c) # rest))))"

definition classify :: "ret_env \<Rightarrow> ledger_row list \<Rightarrow> (string \<times> string \<times> payload_state \<times> string) list retp" where
  "classify ev rows = seqp (classify_rows ev rows) (\<lambda>reports. ret (sort_key fst reports))"

definition report_entries :: "ledger_row list \<Rightarrow> (string \<times> string \<times> payload_state \<times> string option) list" where
  "report_entries rows = sort_key fst (map (\<lambda>r. (lg_backup r, lg_profile r, lg_state r, lg_error r)) rows)"

definition retirement_status :: "ret_env \<Rightarrow> string option \<Rightarrow> retirement_report retp" where
  "retirement_status ev operation =
     thenp (require_connection ev)
     (seqp (ledger_rows ev operation) (\<lambda>rows.
      seqp (classify ev rows) (\<lambda>reconciled.
      seqp (availability_map ev) (\<lambda>availability.
      ret \<lparr>rp_operation = (case operation of None \<Rightarrow> [] | Some i \<Rightarrow> i),
           rp_counts = (\<lambda>s. length (filter (\<lambda>r. lg_state r = s) rows)),
           rp_entries = report_entries rows, rp_reconciled = reconciled, rp_availability = availability, rp_partial = False\<rparr>))))"

definition retirement_reconcile :: "ret_env \<Rightarrow> (string \<times> string \<times> payload_state \<times> string) list retp" where
  "retirement_reconcile ev = (if \<not> re_connection ev then ret [] else seqp (ledger_rows ev None) (classify ev))"

section \<open>Quarantine\<close>

definition lstat_node :: "ret_env \<Rightarrow> fs_path \<Rightarrow> node retp" where
  "lstat_node ev p = seqp (lstat ev p) (\<lambda>e. case e of Node i \<Rightarrow> ret i | _ \<Rightarrow> throw Raised)"

definition ensure_private_dir :: "ret_env \<Rightarrow> fs_path \<Rightarrow> fs_path \<Rightarrow> unit retp" where
  "ensure_private_dir ev directory base =
     (let parent = path_parent directory in
      thenp (assert_no_symlink_ancestors ev directory)
      (thenp (reject (\<not> path_under base directory) ''quarantine directory is not approved'')
      (seqp (path_exists_at ev parent) (\<lambda>parent_exists.
       thenp (reject (\<not> parent_exists) ''quarantine parent is unavailable'')
       (seqp (lstat_node ev parent) (\<lambda>parent_info.
        thenp (reject (nd_kind parent_info \<noteq> Directory) ''quarantine parent is not a directory'')
        (thenp (reject (nd_uid parent_info \<noteq> re_owner ev \<or> writable_by_others (nd_mode parent_info)) ''quarantine parent is not trusted'')
        (seqp (path_exists_at ev directory) (\<lambda>exists.
         if exists then
           seqp (lstat_node ev directory) (\<lambda>info.
             thenp (reject (nd_kind info \<noteq> Directory) ''quarantine directory is not trusted'')
               (reject (nd_uid info \<noteq> re_owner ev \<or> open_to_others (nd_mode info)) ''quarantine directory permissions are not trusted''))
         else
           thenp (mkdir ev directory)
           (seqp (lstat_node ev directory) (\<lambda>info.
             thenp (reject (nd_uid info \<noteq> re_owner ev \<or> open_to_others (nd_mode info)) ''quarantine directory could not be secured'')
               (fsync_dir ev parent))))))))))))"

definition ensure_dirs_item :: "ret_env \<Rightarrow> plan_entry \<Rightarrow> unit retp" where
  "ensure_dirs_item ev item =
     (let base = path_parent (pe_archive item); directory = path_parent (pe_quarantine item) in
      thenp (ensure_private_dir ev (path_parent directory) base) (ensure_private_dir ev directory base))"

definition prepare_item :: "ret_env \<Rightarrow> retirement_manifest \<Rightarrow> plan_entry \<Rightarrow> unit retp" where
  "prepare_item ev mf item = seqp (states_by_id ev mf) (\<lambda>states.
     let state = states (me_backup (pe_entry item)) in
     whenp (state = None \<or> state = Some ROLLED_BACK)
       (thenp (assert_retirement_lease ev) (write_row ev mf PREPARED item None)))"

definition quarantine_item :: "ret_env \<Rightarrow> retirement_manifest \<Rightarrow> (string \<times> string) set \<Rightarrow> plan_entry \<Rightarrow> unit retp" where
  "quarantine_item ev mf prior item =
     (let e = pe_entry item in
      thenp (assert_retirement_lease ev)
      (thenp (assert_catalog_eligible ev e)
      (seqp (states_by_id ev mf) (\<lambda>states.
       if states (me_backup e) = Some QUARANTINED then verify_payload ev e (pe_quarantine item) False
       else seqp (path_exists_at ev (pe_quarantine item)) (\<lambda>moved.
         if moved then
           thenp (verify_payload ev e (pe_quarantine item) False)
           (thenp (assert_retirement_lease ev) (write_row ev mf QUARANTINED item None))
         else
           thenp (verify_payload ev e (pe_archive item) ((mf_operation mf, me_backup e) \<notin> prior))
           (thenp (assert_retirement_lease ev)
           (thenp (rename_noreplace ev (pe_archive item) (pe_quarantine item))
           (thenp (fsync_dir ev (path_parent (pe_archive item)))
           (thenp (fsync_dir ev (path_parent (pe_quarantine item)))
           (write_row ev mf QUARANTINED item None)))))))))) "

text \<open>The part under the sender lock.\<close>

definition quarantine_locked :: "ret_env \<Rightarrow> retirement_manifest \<Rightarrow> string option \<Rightarrow> unit retp" where
  "quarantine_locked ev mf own_job =
     thenp (assert_boundaries ev own_job)
     (seqp (prior_ops ev) (\<lambda>prior.
      thenp (assert_preflight ev mf)
      (seqp (plan ev mf) (\<lambda>items.
       thenp (assert_boundaries ev own_job)
       (thenp (for_each (ensure_dirs_item ev) items)
       (thenp (for_each (prepare_item ev mf) items)
       (for_each (quarantine_item ev mf prior) items)))))))"

definition quarantine :: "ret_env \<Rightarrow> string \<Rightarrow> string option \<Rightarrow> retirement_report retp" where
  "quarantine ev operation own_job =
     seqp (load_manifest ev operation) (\<lambda>mf.
     thenp (require_connection ev)
     (thenp (assert_operation_binding ev mf False)
     (thenp (assert_phase_admissible ev mf ''quarantine'')
     (thenp (with_sender ev (quarantine_locked ev mf own_job)) (retirement_status ev (Some operation))))))"

section \<open>Purge\<close>

definition state_at :: "(string \<rightharpoonup> payload_state) \<Rightarrow> plan_entry \<Rightarrow> payload_state retp" where
  "state_at states item = (case states (me_backup (pe_entry item)) of None \<Rightarrow> throw Raised | Some s \<Rightarrow> ret s)"

definition intent_item :: "ret_env \<Rightarrow> retirement_manifest \<Rightarrow> plan_entry \<Rightarrow> unit retp" where
  "intent_item ev mf item = seqp (states_by_id ev mf) (\<lambda>states. seqp (state_at states item) (\<lambda>state.
     whenp (state = QUARANTINED) (thenp (assert_retirement_lease ev) (write_row ev mf PURGE_PREPARED item None))))"

text \<open>The last steps for one payload whose ledger state is known.\<close>

definition purge_known :: "ret_env \<Rightarrow> retirement_manifest \<Rightarrow> plan_entry \<Rightarrow> payload_state \<Rightarrow> unit retp" where
  "purge_known ev mf item state =
     (let e = pe_entry item; base = path_parent (pe_archive item) in
      if state = PURGED then
        seqp (absent ev base (pe_quarantine item)) (\<lambda>gone. reject (\<not> gone) ''a purged payload reappeared on disk'')
      else seqp (absent ev base (pe_quarantine item)) (\<lambda>gone.
        if gone then
          thenp (reject (state \<noteq> PURGE_PREPARED) ''payload missing without a purge intent'')
          (seqp (absent ev base (pe_archive item)) (\<lambda>source_gone.
           thenp (reject (\<not> source_gone) ''source payload is still present before purge'')
             (write_row ev mf PURGED item None)))
        else
          thenp (verify_payload ev e (pe_quarantine item) False)
          (thenp (assert_retirement_lease ev)
          (thenp (unlink ev (pe_quarantine item))
          (thenp (fsync_dir ev (path_parent (pe_quarantine item)))
          (write_row ev mf PURGED item None))))))"

definition purge_item :: "ret_env \<Rightarrow> retirement_manifest \<Rightarrow> plan_entry \<Rightarrow> unit retp" where
  "purge_item ev mf item =
     thenp (assert_retirement_lease ev)
     (thenp (assert_catalog_eligible ev (pe_entry item))
     (seqp (states_by_id ev mf) (\<lambda>states. seqp (state_at states item) (purge_known ev mf item))))"

definition purge_locked :: "ret_env \<Rightarrow> retirement_manifest \<Rightarrow> string option \<Rightarrow> unit retp" where
  "purge_locked ev mf own_job =
     thenp (assert_boundaries ev own_job)
     (thenp (assert_receipt mf)
     (thenp (for_each (assert_catalog_eligible ev) (mf_entries mf))
     (thenp (assert_purge_ready ev mf)
     (seqp (plan ev mf) (\<lambda>items.
      thenp (assert_boundaries ev own_job)
      (thenp (for_each (intent_item ev mf) items) (for_each (purge_item ev mf) items)))))))"

definition purge :: "ret_env \<Rightarrow> string \<Rightarrow> string option \<Rightarrow> retirement_report retp" where
  "purge ev operation own_job =
     seqp (load_manifest ev operation) (\<lambda>mf.
     thenp (require_connection ev)
     (thenp (assert_operation_binding ev mf True)
     (thenp (assert_phase_admissible ev mf ''purge'')
     (thenp (with_sender ev (purge_locked ev mf own_job)) (retirement_status ev (Some operation))))))"

section \<open>Rollback\<close>

text \<open>One payload that the operation holds is moved back; the value says whether it was missing.\<close>

definition rollback_held :: "ret_env \<Rightarrow> retirement_manifest \<Rightarrow> (string \<times> string) set \<Rightarrow> plan_entry \<Rightarrow> bool retp" where
  "rollback_held ev mf prior item =
     (let e = pe_entry item; base = path_parent (pe_archive item) in
      seqp (absent ev base (pe_quarantine item)) (\<lambda>quarantine_absent.
      seqp (absent ev base (pe_archive item)) (\<lambda>archive_absent.
      if \<not> quarantine_absent then
        thenp (verify_payload ev e (pe_quarantine item) False)
        (thenp (assert_retirement_lease ev)
        (thenp (rename_noreplace ev (pe_quarantine item) (pe_archive item))
        (thenp (fsync_dir ev (path_parent (pe_archive item)))
        (thenp (fsync_dir ev (path_parent (pe_quarantine item)))
        (thenp (write_row ev mf ROLLED_BACK item None) (ret False))))))
      else if \<not> archive_absent then
        thenp (verify_payload ev e (pe_archive item) ((mf_operation mf, me_backup e) \<notin> prior))
        (thenp (write_row ev mf ROLLED_BACK item None) (ret False))
      else
        thenp (write_row ev mf FAILED item (Some ''payload_missing'')) (ret True))))"

definition rollback_item :: "ret_env \<Rightarrow> retirement_manifest \<Rightarrow> (string \<times> string) set \<Rightarrow> plan_entry \<Rightarrow> bool retp" where
  "rollback_item ev mf prior item =
     thenp (assert_retirement_lease ev)
     (seqp (states_by_id ev mf) (\<lambda>states.
      let state = states (me_backup (pe_entry item)) in
      if state \<noteq> Some PREPARED \<and> state \<noteq> Some QUARANTINED then ret False else rollback_held ev mf prior item))"

fun rollback_items :: "ret_env \<Rightarrow> retirement_manifest \<Rightarrow> (string \<times> string) set \<Rightarrow> plan_entry list \<Rightarrow> bool retp" where
  "rollback_items ev mf prior [] = ret False"
| "rollback_items ev mf prior (item # items) =
     seqp (rollback_item ev mf prior item) (\<lambda>missing. seqp (rollback_items ev mf prior items) (\<lambda>partial. ret (missing \<or> partial)))"

definition rollback_locked :: "ret_env \<Rightarrow> retirement_manifest \<Rightarrow> string option \<Rightarrow> bool retp" where
  "rollback_locked ev mf own_job =
     thenp (assert_boundaries ev own_job)
     (thenp (assert_no_purge_intent ev mf)
     (seqp (prior_ops ev) (\<lambda>prior. seqp (plan ev mf) (rollback_items ev mf prior))))"

definition retirement_rollback :: "ret_env \<Rightarrow> string \<Rightarrow> string option \<Rightarrow> retirement_report retp" where
  "retirement_rollback ev operation own_job =
     seqp (load_manifest ev operation) (\<lambda>mf.
     thenp (require_connection ev)
     (thenp (assert_operation_binding ev mf False)
     (thenp (assert_phase_admissible ev mf ''rollback'')
     (seqp (with_sender ev (rollback_locked ev mf own_job)) (\<lambda>partial.
      seqp (retirement_status ev (Some operation)) (\<lambda>report. ret (report\<lparr>rp_partial := partial\<rparr>)))))))"

section \<open>The facade\<close>

text \<open>The connection of the workers is a fresh one: \<open>isolated\<close> says whether the database file has one.\<close>

definition retirement_confirm :: "ret_env \<Rightarrow> bool \<Rightarrow> string \<Rightarrow> string \<Rightarrow> string option \<Rightarrow> retirement_report retp" where
  "retirement_confirm ev isolated operation phase job =
     thenp (reject (phase \<notin> set RETIREMENT_PHASES) ''retirement phase is not approved'')
     (thenp (reject (Option.is_none (re_lease ev)) ''operation lease is required'')
     (thenp (reject (\<not> isolated) ''durable ledger isolation is unavailable'')
     (if phase = ''quarantine'' then quarantine ev operation job
      else if phase = ''purge'' then purge ev operation job
      else retirement_rollback ev operation job)))"

definition retirement_status_rpc :: "ret_env \<Rightarrow> string option \<Rightarrow> (retirement_report \<times> bool \<times> bool) retp" where
  "retirement_status_rpc ev operation =
     seqp (retirement_status ev operation) (\<lambda>report. seqp (probe ev) (\<lambda>available. ret (report, available, re_renameat2 ev)))"

definition availability :: "ret_env \<Rightarrow> string \<Rightarrow> payload_state retp" where
  "availability ev backup =
     seqp (if re_connection ev
           then query ev (\<lambda>c t. map_option ct_profile (find (\<lambda>b. ct_id b = backup) (ct_backups c)))
           else ret (re_listed ev backup)) (\<lambda>owner.
     case Option.bind owner (re_profiles ev) of
       None \<Rightarrow> ret (if re_connection ev then MISSING else PRESENT)
     | Some base \<Rightarrow> payload_state_of ev base backup)"

section \<open>A host with one payload\<close>

definition sample_node :: "node_kind \<Rightarrow> nat \<Rightarrow> string \<Rightarrow> node" where
  "sample_node k m content = \<lparr>nd_kind = k, nd_device = 7, nd_inode = 70, nd_size = 4, nd_mtime = 1000, nd_ctime = 2000, nd_nlink = 1,
     nd_uid = 0, nd_mode = m, nd_content = content\<rparr>"

definition sample_op :: string where
  "sample_op = sample_sha ''body''"

definition sample_fs :: file_system where
  "sample_fs p =
     (if path_parts p \<in> {[], [''srv''], [''etc''], [''run'']} then Node (sample_node Directory 448 [])
      else if path_parts p = [''etc'', sample_op @ ''.json''] then Node (sample_node Regular 384 ''body'')
      else if path_parts p = [''run'', ''lock''] then Node (sample_node Regular 384 [])
      else if path_parts p = [''srv'', ''b1.tar.zst''] then Node (sample_node Regular 384 ''save'')
      else Enoent)"

definition sample_catalog :: catalog where
  "sample_catalog = \<lparr>ct_backups = [\<lparr>ct_id = ''b1'', ct_profile = ''velocity'', ct_size = 4, ct_verified = 1, ct_protected = 0\<rparr>],
     ct_protections = [], ct_confirmations = [], ct_jobs = [(''j1'', False)]\<rparr>"

definition sample_ret_env :: ret_env where
  "sample_ret_env = \<lparr>re_others = (\<lambda>n fs. fs), re_io = (\<lambda>n. Io_Done), re_catalog = (\<lambda>n. sample_catalog), re_lease = Some (\<lambda>n. True),
     re_fstat = (\<lambda>n i. i), re_flock = (\<lambda>n. True), re_new_dir = (\<lambda>n. sample_node Directory 448 []), re_clock = (\<lambda>n. int n),
     re_renameat2 = True, re_connection = True, re_profiles = (\<lambda>i. if i = ''velocity'' then Some (sample_path [''srv'']) else None),
     re_owner = 0, re_manifest_dir = sample_path [''etc''], re_sender_lock = sample_path [''run'', ''lock''], re_codec = sample_ret_codec,
     re_listed = (\<lambda>b. None)\<rparr>"

definition sample_ret_world :: ret_world where
  "sample_ret_world = \<lparr>rw_fs = sample_fs, rw_ledger = None, rw_sender = False, rw_time = 0\<rparr>"

text \<open>The host after the quarantine.\<close>

definition sample_ledger_row :: "payload_state \<Rightarrow> ledger_row" where
  "sample_ledger_row st = \<lparr>lg_operation = sample_op, lg_backup = ''b1'', lg_profile = ''velocity'', lg_state = st, lg_path = ''b1.tar.zst'',
     lg_quarantine = Some [''.retired'', sample_op, ''b1.tar.zst''], lg_device = 7, lg_inode = 70, lg_size = 4, lg_mtime = 1000,
     lg_ctime = 2000, lg_sha = sample_sha ''save'', lg_manifest = sample_op, lg_created = 0, lg_updated = 0, lg_error = None\<rparr>"

definition quarantined_fs :: file_system where
  "quarantined_fs = sample_fs(sample_path [''srv'', ''b1.tar.zst''] := Enoent, sample_path [''srv'', ''.retired''] := Node (sample_node Directory 448 []),
     sample_path [''srv'', ''.retired'', sample_op] := Node (sample_node Directory 448 []),
     sample_path [''srv'', ''.retired'', sample_op, ''b1.tar.zst''] := Node (sample_node Regular 384 ''save''))"

definition quarantined_world :: ret_world where
  "quarantined_world = \<lparr>rw_fs = quarantined_fs, rw_ledger = Some [sample_ledger_row QUARANTINED], rw_sender = False, rw_time = 0\<rparr>"

end
