(* ===== verification/Retirement_Logic.thy ===== *)
theory Retirement_Logic
  imports Retirement
begin

text \<open>
  A program logic for payload retirement.  The programs that only observe keep every assertion that other programs and the passing of
  time keep (\<open>stable\<close>).  A verified payload is at its path (\<open>hoare_verify_payload\<close>), and a ledger write either changes nothing or puts
  a row whose identity and transition the ledger allows (\<open>hoare_ledger_write\<close>).
\<close>

section \<open>Observation\<close>

definition stable :: "ret_env \<Rightarrow> (ret_world \<Rightarrow> bool) \<Rightarrow> bool" where
  "stable ev P \<longleftrightarrow>
     (\<forall>w k. P w \<longrightarrow> P (w\<lparr>rw_fs := re_others ev k (rw_fs w)\<rparr>))
     \<and> (\<forall>w n. P w \<longrightarrow> P (w\<lparr>rw_time := n\<rparr>)) \<and> (\<forall>w b. P w \<longrightarrow> P (w\<lparr>rw_sender := b\<rparr>))"

lemma stable_conj: "stable ev P \<Longrightarrow> stable ev Q \<Longrightarrow> stable ev (\<lambda>w. P w \<and> Q w)"
  by (simp add: stable_def)

lemma stable_ledger: "(\<And>w fs n b. P (w\<lparr>rw_fs := fs\<rparr>) = P w \<and> P (w\<lparr>rw_time := n\<rparr>) = P w \<and> P (w\<lparr>rw_sender := b\<rparr>) = P w) \<Longrightarrow> stable ev P"
  by (simp add: stable_def)

lemma keeps_entry_at [keeps_rules]:
  "(e = Enoent \<Longrightarrow> keeps P a) \<Longrightarrow> (e = Enotdir \<Longrightarrow> keeps P b) \<Longrightarrow> (e = Eio \<Longrightarrow> keeps P c) \<Longrightarrow> (\<And>i. e = Node i \<Longrightarrow> keeps P (d i))
   \<Longrightarrow> keeps P (case e of Enoent \<Rightarrow> a | Enotdir \<Rightarrow> b | Eio \<Rightarrow> c | Node i \<Rightarrow> d i)"
  by (cases e) simp_all

lemma keeps_node_kind [keeps_rules]:
  "keeps P a \<Longrightarrow> keeps P b \<Longrightarrow> (\<And>x. keeps P (c x)) \<Longrightarrow> keeps P d \<Longrightarrow> keeps P (case k of Regular \<Rightarrow> a | Directory \<Rightarrow> b | Symlink x \<Rightarrow> c x | Special \<Rightarrow> d)"
  by (cases k) simp_all

lemma keeps_exn [keeps_rules]: "(\<And>a b c. keeps P (f a b c)) \<Longrightarrow> keeps P g \<Longrightarrow> keeps P (case e of Safe a b c \<Rightarrow> f a b c | Raised \<Rightarrow> g)"
  by (cases e) simp_all

lemma keeps_let [keeps_rules]: "(\<And>x. x = v \<Longrightarrow> keeps P (f x)) \<Longrightarrow> keeps P (let x = v in f x)"
  by simp

lemma keeps_attempt [keeps_rules]: "keeps P p \<Longrightarrow> keeps P (attempt p)"
  unfolding attempt_def by (intro keeps_rules)

lemma keeps_loop [keeps_rules]: "(\<And>x. x \<in> set xs \<Longrightarrow> keeps P (f x)) \<Longrightarrow> keeps P (for_each f xs)"
  by (induction xs) (auto intro!: keeps_rules)

lemma keeps_observe_fs [keeps_rules]: "stable ev P \<Longrightarrow> keeps P (observe_fs ev f)"
  by (simp add: keeps_def hoare_def observe_fs_def stable_def Let_def)

lemma keeps_tick [keeps_rules]: "stable ev P \<Longrightarrow> keeps P (tick f)"
  by (simp add: keeps_def hoare_def tick_def stable_def split: sum.splits)

lemma keeps_query [keeps_rules]: "stable ev P \<Longrightarrow> keeps P (query ev f)"
  by (simp add: keeps_def hoare_def query_def stable_def)

lemma keeps_set_sender [keeps_rules]: "stable ev P \<Longrightarrow> keeps P (set_sender b)"
  by (simp add: keeps_def hoare_def set_sender_def stable_def)

lemma keeps_reject [keeps_rules]: "keeps P (reject c m)"
  unfolding reject_def by (intro keeps_rules)

lemma keeps_lstat [keeps_rules]: "stable ev P \<Longrightarrow> keeps P (lstat ev p)"
  unfolding lstat_def by (intro keeps_rules)

lemma keeps_open_nofollow [keeps_rules]: "stable ev P \<Longrightarrow> keeps P (open_nofollow ev f p)"
  by (simp add: keeps_def hoare_def open_nofollow_def observe_fs_def stable_def Let_def split: entry_at.splits)

lemma keeps_fstat [keeps_rules]: "stable ev P \<Longrightarrow> keeps P (fstat ev i)"
  unfolding fstat_def by (rule keeps_tick)

lemma keeps_digest_file [keeps_rules]: "stable ev P \<Longrightarrow> keeps P (digest_file ev p)"
  unfolding digest_file_def by (intro keeps_rules)

lemma keeps_fsync_dir [keeps_rules]: "stable ev P \<Longrightarrow> keeps P (fsync_dir ev p)"
  unfolding fsync_dir_def by (rule keeps_tick)

lemma keeps_path_exists_at [keeps_rules]: "stable ev P \<Longrightarrow> keeps P (path_exists_at ev p)"
  unfolding path_exists_at_def by (intro keeps_rules)

lemma keeps_assert_no_symlink_ancestors [keeps_rules]: "stable ev P \<Longrightarrow> keeps P (assert_no_symlink_ancestors ev p)"
  unfolding assert_no_symlink_ancestors_def by (intro keeps_rules)

lemma keeps_assert_directory [keeps_rules]: "stable ev P \<Longrightarrow> keeps P (assert_directory ev p a b c)"
  unfolding assert_directory_def by (intro keeps_rules)

lemma keeps_load_bytes [keeps_rules]: "stable ev P \<Longrightarrow> keeps P (load_bytes ev p)"
  unfolding load_bytes_def by (intro keeps_rules)

lemma keeps_load_manifest [keeps_rules]: "stable ev P \<Longrightarrow> keeps P (load_manifest ev i)"
  unfolding load_manifest_def assert_trusted_directory_def by (intro keeps_rules)

lemma keeps_assert_parent [keeps_rules]: "stable ev P \<Longrightarrow> keeps P (assert_parent ev)"
  unfolding assert_parent_def by (intro keeps_rules)

lemma keeps_flock [keeps_rules]: "stable ev P \<Longrightarrow> keeps P (flock ev)"
  unfolding flock_def by (rule keeps_tick)

lemma keeps_acquire_sender [keeps_rules]: "stable ev P \<Longrightarrow> keeps P (acquire_sender ev)"
  unfolding acquire_sender_def by (intro keeps_rules)

lemma keeps_with_sender [keeps_rules]: "stable ev P \<Longrightarrow> keeps P p \<Longrightarrow> keeps P (with_sender ev p)"
  unfolding with_sender_def by (intro keeps_rules)

lemma keeps_probe [keeps_rules]: "stable ev P \<Longrightarrow> keeps P (probe ev)"
  unfolding probe_def by (intro keeps_rules)

lemma keeps_ledger_rows [keeps_rules]: "stable ev P \<Longrightarrow> keeps P (ledger_rows ev i)"
  unfolding ledger_rows_def by (intro keeps_rules)

lemma keeps_plan [keeps_rules]: "stable ev P \<Longrightarrow> keeps P (plan ev mf)"
  unfolding plan_def by (intro keeps_rules)

lemma keeps_assert_catalog_eligible [keeps_rules]: "stable ev P \<Longrightarrow> keeps P (assert_catalog_eligible ev e)"
  unfolding assert_catalog_eligible_def by (intro keeps_rules)

lemma keeps_assert_jobs_idle [keeps_rules]: "stable ev P \<Longrightarrow> keeps P (assert_jobs_idle ev j)"
  unfolding assert_jobs_idle_def by (intro keeps_rules)

lemma keeps_assert_confirmations_clear [keeps_rules]: "stable ev P \<Longrightarrow> keeps P (assert_confirmations_clear ev)"
  unfolding assert_confirmations_clear_def by (intro keeps_rules)

lemma keeps_assert_boundaries [keeps_rules]: "stable ev P \<Longrightarrow> keeps P (assert_boundaries ev j)"
  unfolding assert_boundaries_def by (intro keeps_rules)

lemma keeps_assert_operation_binding [keeps_rules]: "stable ev P \<Longrightarrow> keeps P (assert_operation_binding ev mf b)"
  unfolding assert_operation_binding_def by (intro keeps_rules)

lemma keeps_verify_payload [keeps_rules]: "stable ev P \<Longrightarrow> keeps P (verify_payload ev e p b)"
  unfolding verify_payload_def verify_opened_def verify_settled_def by (intro keeps_rules)

lemma keeps_matches [keeps_rules]: "stable ev P \<Longrightarrow> keeps P (matches ev p r)"
  unfolding matches_def by (intro keeps_rules)

lemma keeps_assert_retirement_lease [keeps_rules]: "stable ev P \<Longrightarrow> keeps P (assert_retirement_lease ev)"
  unfolding assert_retirement_lease_def by (intro keeps_rules)

lemma keeps_require_connection [keeps_rules]: "keeps P (require_connection ev)"
  unfolding require_connection_def by (rule keeps_reject)

lemma keeps_assert_receipt [keeps_rules]: "keeps P (assert_receipt mf)"
  unfolding assert_receipt_def by (intro keeps_rules)

lemma keeps_ancestor_walk [keeps_rules]: "stable ev P \<Longrightarrow> keeps P (ancestor_walk ev p parts)"
  by (induction ev p parts rule: ancestor_walk.induct) (auto intro!: keeps_rules simp: Let_def)

lemma keeps_absent [keeps_rules]: "stable ev P \<Longrightarrow> keeps P (absent ev base p)"
  unfolding absent_def by (intro keeps_rules)

lemma keeps_prior_ops [keeps_rules]: "stable ev P \<Longrightarrow> keeps P (prior_ops ev)"
  unfolding prior_ops_def by (intro keeps_rules)

lemma keeps_availability_of_rows [keeps_rules]: "stable ev P \<Longrightarrow> keeps P (availability_of_rows ev rows states)"
  by (induction ev rows states rule: availability_of_rows.induct) (auto intro!: keeps_rules split: option.splits)

lemma keeps_availability_map [keeps_rules]: "stable ev P \<Longrightarrow> keeps P (availability_map ev)"
  unfolding availability_map_def by (intro keeps_rules)

lemma keeps_payload_state_of [keeps_rules]: "stable ev P \<Longrightarrow> keeps P (payload_state_of ev base b)"
  unfolding payload_state_of_def by (intro keeps_rules)

lemma keeps_states_by_id [keeps_rules]: "stable ev P \<Longrightarrow> keeps P (states_by_id ev mf)"
  unfolding states_by_id_def by (intro keeps_rules)

lemma keeps_assert_phase_admissible [keeps_rules]: "stable ev P \<Longrightarrow> keeps P (assert_phase_admissible ev mf ph)"
  unfolding assert_phase_admissible_def by (intro keeps_rules)

lemma keeps_preflight_item [keeps_rules]: "stable ev P \<Longrightarrow> keeps P (preflight_item ev mf prior item)"
  unfolding preflight_item_def by (intro keeps_rules)

lemma keeps_assert_preflight [keeps_rules]: "stable ev P \<Longrightarrow> keeps P (assert_preflight ev mf)"
  unfolding assert_preflight_def by (intro keeps_rules)

lemma keeps_purge_ready_item [keeps_rules]: "stable ev P \<Longrightarrow> keeps P (purge_ready_item ev states item)"
  unfolding purge_ready_item_def by (intro keeps_rules)

lemma keeps_assert_purge_ready [keeps_rules]: "stable ev P \<Longrightarrow> keeps P (assert_purge_ready ev mf)"
  unfolding assert_purge_ready_def by (intro keeps_rules)

lemma keeps_assert_no_purge_intent [keeps_rules]: "stable ev P \<Longrightarrow> keeps P (assert_no_purge_intent ev mf)"
  unfolding assert_no_purge_intent_def by (intro keeps_rules)

lemma keeps_retirement_prepare [keeps_rules]: "stable ev P \<Longrightarrow> keeps P (retirement_prepare ev i ph)"
  unfolding retirement_prepare_def by (intro keeps_rules)

lemma keeps_opt_probe [keeps_rules]: "(\<And>p. keeps P (f p)) \<Longrightarrow> keeps P (opt_probe q f)"
  unfolding opt_probe_def by (intro keeps_rules)

lemma keeps_classify_row [keeps_rules]: "stable ev P \<Longrightarrow> keeps P (classify_row ev r)"
  unfolding classify_row_def by (intro keeps_rules)

lemma keeps_classify_rows [keeps_rules]: "stable ev P \<Longrightarrow> keeps P (classify_rows ev rows)"
  by (induction rows) (auto intro!: keeps_rules)

lemma keeps_classify [keeps_rules]: "stable ev P \<Longrightarrow> keeps P (classify ev rows)"
  unfolding classify_def by (intro keeps_rules)

lemma keeps_retirement_status [keeps_rules]: "stable ev P \<Longrightarrow> keeps P (retirement_status ev i)"
  unfolding retirement_status_def by (intro keeps_rules)

lemma keeps_retirement_reconcile [keeps_rules]: "stable ev P \<Longrightarrow> keeps P (retirement_reconcile ev)"
  unfolding retirement_reconcile_def by (intro keeps_rules)

lemma keeps_retirement_status_rpc [keeps_rules]: "stable ev P \<Longrightarrow> keeps P (retirement_status_rpc ev i)"
  unfolding retirement_status_rpc_def by (intro keeps_rules)

lemma keeps_availability [keeps_rules]: "stable ev P \<Longrightarrow> keeps P (availability ev b)"
  unfolding availability_def by (intro keeps_rules)

lemma keeps_lstat_node [keeps_rules]: "stable ev P \<Longrightarrow> keeps P (lstat_node ev p)"
  unfolding lstat_node_def by (intro keeps_rules)

lemma keeps_state_at [keeps_rules]: "keeps P (state_at states item)"
  unfolding state_at_def by (intro keeps_rules)

section \<open>The store and the ledger\<close>

text \<open>The store is everything below a backup root.  Other programs may add files there, and do as they like elsewhere, but leave the
  regular files of the store alone.\<close>

definition in_store :: "ret_env \<Rightarrow> fs_path \<Rightarrow> bool" where
  "in_store ev p \<longleftrightarrow> (\<exists>profile base. re_profiles ev profile = Some base \<and> path_under base p)"

definition others_keep :: "ret_env \<Rightarrow> bool" where
  "others_keep ev \<longleftrightarrow> (\<forall>n fs p i. in_store ev p \<longrightarrow> fs p = Node i \<longrightarrow> nd_kind i = Regular \<longrightarrow> re_others ev n fs p = Node i)"

lemma others_keepD: "others_keep ev \<Longrightarrow> in_store ev p \<Longrightarrow> fs p = Node i \<Longrightarrow> nd_kind i = Regular \<Longrightarrow> re_others ev n fs p = Node i"
  by (simp add: others_keep_def)

text \<open>The file at a path is the payload of an entry: its identity and its digest.\<close>

definition is_payload :: "ret_env \<Rightarrow> manifest_entry \<Rightarrow> node \<Rightarrow> bool" where
  "is_payload ev e i \<longleftrightarrow> nd_kind i = Regular \<and> nd_device i = me_device e \<and> nd_inode i = me_inode e \<and> nd_size i = me_size e
     \<and> nd_mtime i = me_mtime e \<and> cd_sha256 (re_codec ev) (nd_content i) = me_sha e"

definition payload_at :: "ret_env \<Rightarrow> manifest_entry \<Rightarrow> fs_path \<Rightarrow> ret_world \<Rightarrow> bool" where
  "payload_at ev e p w \<longleftrightarrow> (\<exists>i. rw_fs w p = Node i \<and> is_payload ev e i)"

lemma stable_payload_at: "others_keep ev \<Longrightarrow> in_store ev p \<Longrightarrow> stable ev (payload_at ev e p)"
  by (auto simp: stable_def payload_at_def is_payload_def dest: others_keepD)

definition regular_at :: "fs_path \<Rightarrow> node \<Rightarrow> ret_world \<Rightarrow> bool" where
  "regular_at p i w \<longleftrightarrow> rw_fs w p = Node i \<and> nd_kind i = Regular"

lemma stable_regular_at: "others_keep ev \<Longrightarrow> in_store ev p \<Longrightarrow> stable ev (regular_at p i)"
  by (auto simp: stable_def regular_at_def dest: others_keepD)

text \<open>Sequencing where the first program raises into a stronger assertion.\<close>

lemma hoare_bind:
  "hoare P p R E' \<Longrightarrow> (\<And>v. hoare (R v) (f v) Q E) \<Longrightarrow> (\<And>e w. E' e w \<Longrightarrow> E e w) \<Longrightarrow> hoare P (seqp p f) Q E"
  by (rule hoare_seqp [OF hoare_conseq])

lemma hoare_before:
  "hoare P p (\<lambda>_. R) E' \<Longrightarrow> hoare R q Q E \<Longrightarrow> (\<And>e w. E' e w \<Longrightarrow> E e w) \<Longrightarrow> hoare P (thenp p q) Q E"
  unfolding thenp_def by (rule hoare_bind)

text \<open>A check that raises unless a condition holds.\<close>

lemma hoare_reject: "(\<And>w. P w \<Longrightarrow> E (refused m) w) \<Longrightarrow> hoare P (reject c m) (\<lambda>_ w. P w \<and> \<not> c) E"
  by (auto simp: hoare_def reject_def whenp_def throw_def ret_def)

lemma hoare_lstat:
  "stable ev P \<Longrightarrow> hoare P (lstat ev p) (\<lambda>e w. P w \<and> e = rw_fs w p) (\<lambda>_. P)"
  by (simp add: hoare_def lstat_def observe_fs_def Let_def stable_def)

lemma hoare_digest_regular:
  assumes "stable ev P" "\<And>w. P w \<Longrightarrow> regular_at p i w"
  shows "hoare P (digest_file ev p) (\<lambda>d w. P w \<and> d = cd_sha256 (re_codec ev) (nd_content i)) (\<lambda>_. P)"
proof -
  have "regular_at p i (w\<lparr>rw_fs := re_others ev n (rw_fs w)\<rparr>)" if "P w" for w n
    using assms that by (simp add: stable_def)
  then show ?thesis
    using assms(1) unfolding hoare_def digest_file_def
    by (auto simp: seqp_def open_nofollow_def observe_fs_def Let_def regular_at_def ret_def throw_def stable_def)
qed

text \<open>A payload that passes the verification is at the path.\<close>

lemma hoare_verify_opened:
  assumes P: "stable ev P" and ev: "others_keep ev" "in_store ev p"
  shows "hoare (\<lambda>w. P w \<and> regular_at p i w) (verify_opened ev e p b i) (\<lambda>_ w. P w \<and> payload_at ev e p w) (\<lambda>_. P)"
    (is "hoare ?R _ ?Q ?E")
proof -
  have R: "stable ev ?R" using stable_conj [OF P stable_regular_at [OF ev]] .
  have "hoare (\<lambda>w. ?R w \<and> last_seen = rw_fs w p) (verify_settled e b before after digest last_seen) ?Q ?E"
    if "digest = cd_sha256 (re_codec ev) (nd_content i)" for last_seen digest before after
    using that
    by (auto simp: hoare_def verify_settled_def reject_def whenp_def thenp_def seqp_def throw_def ret_def regular_at_def payload_at_def
        is_payload_def payload_mismatch_def split: entry_at.splits option.splits if_splits)
  then have "hoare ?R (seqp (fstat ev fd) (\<lambda>after. seqp (lstat ev p) (verify_settled e b before after digest))) ?Q ?E"
    if "digest = cd_sha256 (re_codec ev) (nd_content i)" for fd before digest
    using that by (intro hoare_keeps_seq [OF keeps_fstat [OF R]] hoare_bind [OF hoare_lstat [OF R]]) auto
  then have "hoare (\<lambda>w. ?R w \<and> digest = cd_sha256 (re_codec ev) (nd_content i))
      (seqp (fstat ev fd) (\<lambda>after. seqp (lstat ev p) (verify_settled e b before after digest))) ?Q ?E" for fd before digest
    by (auto simp: hoare_def)
  then show ?thesis
    unfolding verify_opened_def
    by (intro hoare_keeps_seq [OF keeps_open_nofollow [OF R]] hoare_keeps_seq [OF keeps_fstat [OF R]] hoare_keeps_then [OF keeps_reject]
        hoare_bind [OF hoare_digest_regular [OF R, of p i]]) auto
qed

lemma hoare_verify_payload:
  assumes P: "stable ev P" and ev: "others_keep ev" "in_store ev p"
  shows "hoare P (verify_payload ev e p b) (\<lambda>_ w. P w \<and> payload_at ev e p w) (\<lambda>_. P)"
  unfolding verify_payload_def
proof (rule hoare_seqp [OF hoare_lstat [OF P]])
  fix found
  show "hoare (\<lambda>w. P w \<and> found = rw_fs w p) (case found of
       Node i \<Rightarrow>
         thenp (reject (nd_kind i \<noteq> Regular) ''backup payload is not a regular file'')
         (thenp (reject (nd_nlink i \<noteq> 1) ''backup payload has multiple links'') (verify_opened ev e p b i))
     | _ \<Rightarrow> throw (refused ''backup payload is unavailable'')) (\<lambda>_ w. P w \<and> payload_at ev e p w) (\<lambda>_. P)"
  proof (cases found)
    case (Node i)
    then show ?thesis
      using hoare_verify_opened [OF assms, of i e b]
      by (auto simp: hoare_def reject_def whenp_def thenp_def seqp_def throw_def ret_def regular_at_def split: entry_at.splits)
  qed (auto simp: hoare_def throw_def)
qed

definition ledger_of :: "ret_world \<Rightarrow> ledger_row list" where
  "ledger_of w = rows_of (rw_ledger w) None"

definition row_at :: "ledger_row list \<Rightarrow> string \<Rightarrow> string \<Rightarrow> ledger_row option" where
  "row_at rows operation backup = find (\<lambda>r. lg_operation r = operation \<and> lg_backup r = backup) rows"

text \<open>The primary key of the table.\<close>

definition keyed :: "ledger_row list \<Rightarrow> bool" where
  "keyed rows \<longleftrightarrow> distinct (map (\<lambda>r. (lg_operation r, lg_backup r)) rows)"

lemma ledger_of_simps [simp]:
  "ledger_of (w\<lparr>rw_fs := fs\<rparr>) = ledger_of w" "ledger_of (w\<lparr>rw_time := n\<rparr>) = ledger_of w" "ledger_of (w\<lparr>rw_sender := b\<rparr>) = ledger_of w"
  "ledger_of (w\<lparr>rw_ledger := Some rows\<rparr>) = rows"
  by (simp_all add: ledger_of_def rows_of_def)

lemma row_at_SomeD: "row_at rows i b = Some r \<Longrightarrow> r \<in> set rows \<and> lg_operation r = i \<and> lg_backup r = b"
  by (auto simp: row_at_def dest: find_SomeD)

lemma find_same_key: "find (same_key row) rows = row_at rows (lg_operation row) (lg_backup row)"
  by (induction rows) (auto simp: row_at_def same_key_def)

lemma row_at_upsert:
  "row_at (upsert row rows) i b =
     (if i = lg_operation row \<and> b = lg_backup row
      then Some (case row_at rows i b of None \<Rightarrow> row | Some r \<Rightarrow> row\<lparr>lg_profile := lg_profile r, lg_created := lg_created r\<rparr>)
      else row_at rows i b)"
proof -
  have absent: "row_at (rows @ [row]) i b = (if i = lg_operation row \<and> b = lg_backup row then Some row else row_at rows i b)"
    if "\<not> list_ex (same_key row) rows"
    using that by (induction rows) (auto simp: row_at_def same_key_def)
  have none: "row_at rows (lg_operation row) (lg_backup row) = None" if "\<not> list_ex (same_key row) rows"
    using that by (induction rows) (auto simp: row_at_def same_key_def)
  have present: "row_at (map (\<lambda>r. if same_key row r then row\<lparr>lg_profile := lg_profile r, lg_created := lg_created r\<rparr> else r) rows) i b =
      (if i = lg_operation row \<and> b = lg_backup row
       then map_option (\<lambda>r. row\<lparr>lg_profile := lg_profile r, lg_created := lg_created r\<rparr>) (row_at rows i b)
       else row_at rows i b)"
    by (induction rows) (auto simp: row_at_def same_key_def)
  have some: "\<exists>r. row_at rows (lg_operation row) (lg_backup row) = Some r" if "list_ex (same_key row) rows"
    using that by (induction rows) (auto simp: row_at_def same_key_def)
  show ?thesis
    using absent none present some by (cases "list_ex (same_key row) rows") (auto simp: upsert_def)
qed

lemma keyed_upsert: "keyed rows \<Longrightarrow> keyed (upsert row rows)"
proof (cases "list_ex (same_key row) rows")
  case True
  have "map (\<lambda>r. (lg_operation r, lg_backup r)) (upsert row rows) = map (\<lambda>r. (lg_operation r, lg_backup r)) rows"
    using True by (auto simp: upsert_def same_key_def)
  then show "keyed rows \<Longrightarrow> keyed (upsert row rows)" by (simp add: keyed_def)
next
  case False
  then show "keyed rows \<Longrightarrow> keyed (upsert row rows)" by (auto simp: keyed_def upsert_def list_ex_iff same_key_def)
qed

lemma map_of_rev_distinct: "distinct (map fst kvs) \<Longrightarrow> map_of (rev kvs) = map_of kvs"
  by (intro map_of_inject_set [THEN iffD2]) (simp_all add: rev_map [symmetric])

text \<open>The states of an operation by backup id are the states of its rows.\<close>

lemma states_row_at:
  assumes "keyed rows"
  shows "map_of (rev (map (\<lambda>r. (lg_backup r, lg_state r)) (filter (\<lambda>r. lg_operation r = i) rows))) b = map_option lg_state (row_at rows i b)"
proof -
  let ?f = "filter (\<lambda>r. lg_operation r = i) rows"
  have "distinct (map (\<lambda>r. (lg_operation r, lg_backup r)) ?f)"
    using assms by (simp add: keyed_def distinct_map_filter)
  then have d: "distinct (map lg_backup ?f)"
    by (auto simp: distinct_map inj_on_def)
  then have "map_of (rev (map (\<lambda>r. (lg_backup r, lg_state r)) ?f)) b = map_of (map (\<lambda>r. (lg_backup r, lg_state r)) ?f) b"
    by (intro fun_cong [OF map_of_rev_distinct]) (simp add: comp_def)
  also have "\<dots> = map_option lg_state (row_at rows i b)"
    by (induction rows) (auto simp: row_at_def)
  finally show ?thesis .
qed

section \<open>Writing the ledger\<close>

definition allowed :: "ledger_row list \<Rightarrow> ledger_row \<Rightarrow> bool" where
  "allowed rows row \<longleftrightarrow>
     (case row_at rows (lg_operation row) (lg_backup row) of
        Some current \<Rightarrow> same_identity current row \<and> lg_state row \<in> set (TRANSITIONS (lg_state current))
      | None \<Rightarrow> \<not> (\<exists>r\<in>set rows. lg_backup r = lg_backup row \<and> lg_operation r \<noteq> lg_operation row \<and> lg_state r \<in> set BLOCKING_STATES))"

text \<open>An assertion that does not see the empty table being created.\<close>

definition tableless :: "(ret_world \<Rightarrow> bool) \<Rightarrow> bool" where
  "tableless P \<longleftrightarrow> (\<forall>w. P w \<longrightarrow> P (w\<lparr>rw_ledger := Some (ledger_of w)\<rparr>))"

lemma tableless_conj: "tableless P \<Longrightarrow> tableless Q \<Longrightarrow> tableless (\<lambda>w. P w \<and> Q w)"
  by (simp add: tableless_def)

text \<open>An assertion on the rows.\<close>

definition on_ledger :: "(ledger_row list \<Rightarrow> bool) \<Rightarrow> ret_world \<Rightarrow> bool" where
  "on_ledger \<phi> w \<longleftrightarrow> \<phi> (ledger_of w)"

lemma stable_on_ledger: "stable ev (on_ledger \<phi>)"
  by (simp add: stable_def on_ledger_def)

lemma tableless_on_ledger: "tableless (on_ledger \<phi>)"
  by (simp add: tableless_def on_ledger_def)

lemma hoare_query: "stable ev P \<Longrightarrow> hoare P (query ev f) (\<lambda>v w. P w \<and> (\<exists>c. v = f c (rw_ledger w))) (\<lambda>_. P)"
  by (auto simp: hoare_def query_def stable_def)

lemma keeps_ensure_ledger: "stable ev P \<Longrightarrow> tableless P \<Longrightarrow> keeps P (ensure_ledger ev)"
  unfolding ensure_ledger_def
proof (intro keeps_rules)
  assume P: "stable ev P" "tableless P"
  have "P (w\<lparr>rw_time := n, rw_ledger := Some (case rw_ledger w of None \<Rightarrow> [] | Some rows \<Rightarrow> rows)\<rparr>)" if "P w" for w n
  proof -
    have "P (w\<lparr>rw_time := n\<rparr>)" using P(1) that by (simp add: stable_def)
    with P(2) have "P (w\<lparr>rw_time := n\<rparr>\<lparr>rw_ledger := Some (ledger_of (w\<lparr>rw_time := n\<rparr>))\<rparr>)" by (simp only: tableless_def)
    then show ?thesis by (cases "rw_ledger w") (simp_all add: ledger_of_def rows_of_def)
  qed
  with P(1) show "keeps P (change_ledger ev (\<lambda>c t. Inr (case t of None \<Rightarrow> [] | Some rows \<Rightarrow> rows)))"
    by (auto simp: keeps_def hoare_def change_ledger_def Let_def stable_def)
qed auto

lemma hoare_change_ledger:
  assumes "stable ev P" "stable ev Q"
    and "\<And>w c rows. P w \<Longrightarrow> f c (rw_ledger w) = Inr rows \<Longrightarrow> Q (w\<lparr>rw_ledger := Some rows\<rparr>)"
  shows "hoare P (change_ledger ev f) (\<lambda>_. Q) (\<lambda>_ w. P w \<or> Q w)"
proof -
  have time: "P (w\<lparr>rw_time := n\<rparr>)" if "P w" for w n using assms(1) that by (simp add: stable_def)
  have "Q (w\<lparr>rw_time := n, rw_ledger := Some rows\<rparr>)" if "P w" "f c (rw_ledger w) = Inr rows" for w n c rows
    using assms(3) [of "w\<lparr>rw_time := n\<rparr>" c rows] time that by simp
  with time show ?thesis
    by (auto simp: hoare_def change_ledger_def Let_def split: sum.splits)
qed

lemma hoare_ledger_write:
  assumes P: "stable ev P" "tableless P" and Q: "stable ev Q"
    and step: "\<And>w. P w \<Longrightarrow> allowed (ledger_of w) row \<Longrightarrow> Q (w\<lparr>rw_ledger := Some (upsert row (ledger_of w))\<rparr>)"
  shows "hoare P (ledger_write ev row) (\<lambda>_. Q) (\<lambda>_ w. P w \<or> Q w)"
proof -
  let ?A = "\<lambda>w. P w \<and> allowed (ledger_of w) row"
  have A: "stable ev ?A" by (intro stable_conj P stable_ledger) auto
  have change: "hoare ?A (change_ledger ev (\<lambda>c t.
           let rows = rows_of t None in
           if \<not> storable row then Inl Raised
           else if \<not> list_ex (same_key row) rows \<and> \<not> list_ex (\<lambda>b. ct_id b = lg_backup row) (ct_backups c) then Inl Raised
           else Inr (upsert row rows))) (\<lambda>_. Q) (\<lambda>_ w. P w \<or> Q w)"
    by (rule hoare_conseq [OF hoare_change_ledger [OF A Q]]) (auto simp: Let_def ledger_of_def [symmetric] intro: step split: if_splits)
  have none: "hoare (\<lambda>w. P w \<and> row_at (ledger_of w) (lg_operation row) (lg_backup row) = None)
      (seqp (query ev (\<lambda>c t. filter (\<lambda>r. lg_backup r = lg_backup row \<and> lg_operation r \<noteq> lg_operation row) (rows_of t None)))
        (\<lambda>other. reject (list_ex (\<lambda>r. lg_state r \<in> set BLOCKING_STATES) other) m)) (\<lambda>_. ?A) (\<lambda>_. P)" (is "hoare ?N _ _ _") for m
  proof (rule hoare_bind)
    have "stable ev ?N" by (intro stable_conj P stable_ledger) auto
    then show "hoare ?N (query ev (\<lambda>c t. filter (\<lambda>r. lg_backup r = lg_backup row \<and> lg_operation r \<noteq> lg_operation row) (rows_of t None)))
        (\<lambda>v w. ?N w \<and> (\<exists>c::catalog. v = filter (\<lambda>r. lg_backup r = lg_backup row \<and> lg_operation r \<noteq> lg_operation row) (rows_of (rw_ledger w) None)))
        (\<lambda>_. ?N)"
      by (rule hoare_query)
  qed (auto simp: hoare_def reject_def whenp_def throw_def ret_def allowed_def ledger_of_def list_ex_iff)
  have checks: "hoare (\<lambda>w. P w \<and> (\<exists>c::catalog. existing = find (same_key row) (rows_of (rw_ledger w) None)))
      (case existing of
          Some current \<Rightarrow>
            thenp (reject (\<not> same_identity current row) ''ledger identity does not match the plan'')
              (reject (lg_state row \<notin> set (TRANSITIONS (lg_state current))) ''ledger state transition is not permitted'')
        | None \<Rightarrow> seqp (query ev (\<lambda>c t. filter (\<lambda>r. lg_backup r = lg_backup row \<and> lg_operation r \<noteq> lg_operation row) (rows_of t None)))
            (\<lambda>other. reject (list_ex (\<lambda>r. lg_state r \<in> set BLOCKING_STATES) other)
              ''payload belongs to another active retirement operation'')) (\<lambda>_. ?A) (\<lambda>_. P)" for existing
  proof (cases existing)
    case None
    show ?thesis
      unfolding None option.case by (rule hoare_pre [OF none]) (auto simp: find_same_key ledger_of_def)
  next
    case (Some current)
    then show ?thesis
      by (auto simp: hoare_def reject_def whenp_def thenp_def seqp_def throw_def ret_def allowed_def find_same_key ledger_of_def
          split: option.splits)
  qed
  show ?thesis
    unfolding ledger_write_def
    by (intro hoare_keeps_then [OF keeps_ensure_ledger [OF P]] hoare_bind [OF hoare_query [OF P(1)]] hoare_before [OF checks change]) auto
qed

lemma hoare_write_row:
  assumes "stable ev P" "tableless P" "stable ev Q"
    and "\<And>w n. P w \<Longrightarrow> allowed (ledger_of w) (ledger_row_for ev mf state item failure n)
       \<Longrightarrow> Q (w\<lparr>rw_ledger := Some (upsert (ledger_row_for ev mf state item failure n) (ledger_of w))\<rparr>)"
  shows "hoare P (write_row ev mf state item failure) (\<lambda>_. Q) (\<lambda>_ w. P w \<or> Q w)"
proof -
  have "hoare P (tick (\<lambda>n. Inr (ledger_row_for ev mf state item failure n))) (\<lambda>row w. P w \<and> (\<exists>n. row = ledger_row_for ev mf state item failure n)) (\<lambda>_. P)"
    using assms(1) by (auto simp: hoare_def tick_def stable_def)
  moreover have "hoare (\<lambda>w. P w \<and> (\<exists>n. row = ledger_row_for ev mf state item failure n)) (ledger_write ev row) (\<lambda>_. Q) (\<lambda>_ w. P w \<or> Q w)" for row
    by (rule hoare_pure [of _ "\<exists>n. row = ledger_row_for ev mf state item failure n"], blast)
      (auto intro!: hoare_pre [OF hoare_ledger_write [OF assms(1,2,3)]] dest: assms(4))
  ultimately show ?thesis
    unfolding write_row_def by (rule hoare_bind) auto
qed

lemma keeps_write_row:
  assumes "stable ev P" "tableless P"
    and "\<And>w n. P w \<Longrightarrow> allowed (ledger_of w) (ledger_row_for ev mf state item failure n)
       \<Longrightarrow> P (w\<lparr>rw_ledger := Some (upsert (ledger_row_for ev mf state item failure n) (ledger_of w))\<rparr>)"
  shows "keeps P (write_row ev mf state item failure)"
  using hoare_write_row [OF assms(1,2,1,3)] by (simp add: keeps_def)

end
