(* ===== verification/Retirement_Safety.thy ===== *)
theory Retirement_Safety
  imports Retirement_Logic
begin

text \<open>
  Safety of payload retirement: whatever requests are made, in whatever order, and wherever one fails or the process dies, the content
  of a payload stays in the store until a purge with a verified receipt for it has been recorded.
\<close>

section \<open>Conservation of payloads\<close>

definition content_stored :: "ret_env \<Rightarrow> string \<Rightarrow> file_system \<Rightarrow> bool" where
  "content_stored ev x fs \<longleftrightarrow> (\<exists>p i. in_store ev p \<and> fs p = Node i \<and> nd_kind i = Regular \<and> nd_content i = x)"

text \<open>The operation id is the digest of a manifest whose receipt lists the digest as the verified copy of the backup.\<close>

definition receipted :: "ret_env \<Rightarrow> string \<Rightarrow> string \<Rightarrow> string \<Rightarrow> bool" where
  "receipted ev operation backup digest \<longleftrightarrow>
     (\<exists>data proposal entries receipt. cd_sha256 (re_codec ev) data = operation
        \<and> parse_manifest (re_codec ev) data = Inr (proposal, entries, receipt) \<and> rc_verified receipt
        \<and> (\<exists>m\<in>set (rc_members receipt). rm_backup m = backup \<and> rm_sha m = digest))"

text \<open>The ledger records the purge of a payload with this digest.\<close>

definition purge_recorded :: "ret_env \<Rightarrow> string \<Rightarrow> ledger_row list \<Rightarrow> bool" where
  "purge_recorded ev digest rows \<longleftrightarrow>
     (\<exists>i b r. row_at rows i b = Some r \<and> lg_state r \<in> {PURGE_PREPARED, PURGED} \<and> lg_sha r = digest \<and> receipted ev i b digest)"

definition conserved :: "ret_env \<Rightarrow> string \<Rightarrow> ret_world \<Rightarrow> bool" where
  "conserved ev x w \<longleftrightarrow> keyed (ledger_of w)
     \<and> (content_stored ev x (rw_fs w) \<or> purge_recorded ev (cd_sha256 (re_codec ev) x) (ledger_of w))"

lemma content_stored_others: "others_keep ev \<Longrightarrow> content_stored ev x fs \<Longrightarrow> content_stored ev x (re_others ev n fs)"
  unfolding content_stored_def using others_keepD by blast

lemma stable_conserved: "others_keep ev \<Longrightarrow> stable ev (conserved ev x)"
  by (auto simp: stable_def conserved_def content_stored_others)

lemma tableless_conserved: "tableless (conserved ev x)"
  by (simp add: tableless_def conserved_def)

text \<open>A purge once recorded stays recorded by every write but that of a failure.\<close>

lemma purge_recorded_upsert:
  assumes "purge_recorded ev d rows" "allowed rows row"
    and "lg_state row = FAILED \<Longrightarrow> \<exists>r. row_at rows (lg_operation row) (lg_backup row) = Some r \<and> lg_state r \<notin> {PURGE_PREPARED, PURGED}"
  shows "purge_recorded ev d (upsert row rows)"
proof -
  from assms(1) obtain i b r where r: "row_at rows i b = Some r" "lg_state r \<in> {PURGE_PREPARED, PURGED}" "lg_sha r = d" "receipted ev i b d"
    by (auto simp: purge_recorded_def)
  show ?thesis
  proof (cases "i = lg_operation row \<and> b = lg_backup row")
    case True
    with r assms(2,3) have "lg_state row \<in> {PURGE_PREPARED, PURGED}" "lg_sha row = d"
      by (auto simp: allowed_def same_identity_def)
    with True r have "row_at (upsert row rows) i b = Some (row\<lparr>lg_profile := lg_profile r, lg_created := lg_created r\<rparr>)"
      by (simp add: row_at_upsert)
    with \<open>lg_state row \<in> _\<close> \<open>lg_sha row = d\<close> r(4) show ?thesis
      unfolding purge_recorded_def by (intro exI [of _ i] exI [of _ b] exI [of _ "row\<lparr>lg_profile := lg_profile r, lg_created := lg_created r\<rparr>"]) simp
  next
    case False
    with r show ?thesis unfolding purge_recorded_def by (intro exI [of _ i] exI [of _ b] exI [of _ r]) (auto simp: row_at_upsert)
  qed
qed

lemma conserved_upsert:
  assumes "conserved ev x w" "allowed (ledger_of w) row"
    and "lg_state row = FAILED \<Longrightarrow> \<exists>r. row_at (ledger_of w) (lg_operation row) (lg_backup row) = Some r \<and> lg_state r \<notin> {PURGE_PREPARED, PURGED}"
  shows "conserved ev x (w\<lparr>rw_ledger := Some (upsert row (ledger_of w))\<rparr>)"
  using assms by (auto simp: conserved_def keyed_upsert purge_recorded_upsert)

lemma ledger_row_for_simps [simp]:
  "lg_operation (ledger_row_for ev mf st item f n) = mf_operation mf" "lg_backup (ledger_row_for ev mf st item f n) = me_backup (pe_entry item)"
  "lg_state (ledger_row_for ev mf st item f n) = st" "lg_sha (ledger_row_for ev mf st item f n) = me_sha (pe_entry item)"
  by (simp_all add: ledger_row_for_def Let_def)

lemma conserved_write_row: "others_keep ev \<Longrightarrow> st \<noteq> FAILED \<Longrightarrow> keeps (conserved ev x) (write_row ev mf st item f)"
  by (intro keeps_write_row stable_conserved tableless_conserved conserved_upsert) auto

section \<open>Renaming and unlinking\<close>

lemma hoare_change_fs:
  assumes "stable ev P"
    and "\<And>w n fs. P w \<Longrightarrow> f n (rw_fs w) = Inr fs \<Longrightarrow> Q (w\<lparr>rw_fs := fs\<rparr>)"
    and "stable ev Q"
  shows "hoare P (change_fs ev lost f) (\<lambda>_. Q) (\<lambda>_ w. P w \<or> Q w)"
proof -
  have time: "P (w\<lparr>rw_fs := re_others ev k (rw_fs w), rw_time := n\<rparr>)" if "P w" for w n k
    using assms(1) that by (simp add: stable_def)
  have "Q (w\<lparr>rw_time := n, rw_fs := fs\<rparr>)" if "P w" "f k (re_others ev l (rw_fs w)) = Inr fs" for w n k l fs
  proof -
    have "P (w\<lparr>rw_fs := re_others ev l (rw_fs w)\<rparr>)" using assms(1) that by (simp add: stable_def)
    from assms(2) [OF this, of k fs] that have "Q (w\<lparr>rw_fs := fs\<rparr>)" by simp
    with assms(3) have "Q (w\<lparr>rw_fs := fs, rw_time := n\<rparr>)" by (simp add: stable_def)
    then show ?thesis by (cases w) simp
  qed
  with time show ?thesis
    by (auto simp: hoare_def change_fs_def Let_def split: sum.splits)
qed

lemma content_stored_move:
  assumes "content_stored ev x fs" "fs source = Node i" "fs destination = Enoent" "in_store ev destination"
  shows "content_stored ev x (fs(source := Enoent, destination := Node (i\<lparr>nd_ctime := t\<rparr>)))"
proof -
  obtain p j where p: "in_store ev p" "fs p = Node j" "nd_kind j = Regular" "nd_content j = x"
    using assms(1) by (auto simp: content_stored_def)
  show ?thesis
  proof (cases "p = source")
    case True
    with p assms show ?thesis unfolding content_stored_def by (intro exI [of _ destination]) auto
  next
    case False
    with p assms show ?thesis unfolding content_stored_def by (intro exI [of _ p]) auto
  qed
qed

text \<open>A verified file is moved without loss: nothing is overwritten, and only its change time differs.\<close>

lemma hoare_rename:
  assumes P: "stable ev P" "\<And>w. P w \<Longrightarrow> payload_at ev e source w" and Q: "stable ev Q"
    and step: "\<And>w i t. P w \<Longrightarrow> rw_fs w source = Node i \<Longrightarrow> is_payload ev e i \<Longrightarrow> rw_fs w destination = Enoent
       \<Longrightarrow> Q (w\<lparr>rw_fs := (rw_fs w)(source := Enoent, destination := Node (i\<lparr>nd_ctime := t\<rparr>))\<rparr>)"
  shows "hoare P (rename_noreplace ev source destination) (\<lambda>_. Q) (\<lambda>_ w. P w \<or> Q w)"
  unfolding rename_noreplace_def
proof (intro hoare_if hoare_throw hoare_change_fs P(1) Q)
  fix w n fs
  assume w: "P w" and "(case (rw_fs w source, rw_fs w destination, rw_fs w (path_parent destination)) of
          (Node i, Node _, _) \<Rightarrow> Inl (refused ''target already exists'')
        | (Node i, Enoent, Node d) \<Rightarrow>
            if nd_kind d \<noteq> Directory then Inl (refused ''no-overwrite rename failed'')
            else let moved = (if nd_kind i = Directory then relocate source destination (rw_fs w) else (rw_fs w)(source := Enoent))
                 in Inr (moved(destination := Node (i\<lparr>nd_ctime := re_clock ev n\<rparr>)))
        | _ \<Rightarrow> Inl (refused ''no-overwrite rename failed'')) = Inr fs"
  moreover obtain i where i: "rw_fs w source = Node i" "is_payload ev e i" "nd_kind i \<noteq> Directory"
    using P(2) [OF w] by (auto simp: payload_at_def is_payload_def)
  ultimately have "rw_fs w destination = Enoent" "fs = (rw_fs w)(source := Enoent, destination := Node (i\<lparr>nd_ctime := re_clock ev n\<rparr>))"
    by (auto simp: Let_def split: entry_at.splits if_splits)
  with step [OF w i(1,2)] show "Q (w\<lparr>rw_fs := fs\<rparr>)" by simp
qed auto

lemma hoare_unlink:
  assumes P: "stable ev P" "\<And>w. P w \<Longrightarrow> payload_at ev e p w" and Q: "stable ev Q"
    and step: "\<And>w i. P w \<Longrightarrow> rw_fs w p = Node i \<Longrightarrow> is_payload ev e i \<Longrightarrow> Q (w\<lparr>rw_fs := (rw_fs w)(p := Enoent)\<rparr>)"
  shows "hoare P (unlink ev p) (\<lambda>_. Q) (\<lambda>_ w. P w \<or> Q w)"
  unfolding unlink_def
proof (intro hoare_change_fs P(1) Q)
  fix w n fs
  assume w: "P w" and "(case rw_fs w p of Node i \<Rightarrow> if nd_kind i = Directory then Inl Raised else Inr ((rw_fs w)(p := Enoent)) | _ \<Rightarrow> Inl Raised) = Inr fs"
  moreover obtain i where i: "rw_fs w p = Node i" "is_payload ev e i" "nd_kind i \<noteq> Directory"
    using P(2) [OF w] by (auto simp: payload_at_def is_payload_def)
  ultimately show "Q (w\<lparr>rw_fs := fs\<rparr>)" using step [OF w i(1,2)] by simp
qed

lemma keeps_mkdir:
  assumes "stable ev P" "\<And>w i. P w \<Longrightarrow> rw_fs w p = Enoent \<Longrightarrow> nd_kind i = Directory \<Longrightarrow> P (w\<lparr>rw_fs := (rw_fs w)(p := Node i)\<rparr>)"
  shows "keeps P (mkdir ev p)"
  unfolding keeps_def mkdir_def
  by (rule hoare_conseq [OF hoare_change_fs [OF assms(1) _ assms(1)]]) (auto intro: assms(2) split: entry_at.splits if_splits)

lemma conserved_moves:
  "conserved ev x w \<Longrightarrow> rw_fs w source = Node i \<Longrightarrow> rw_fs w destination = Enoent \<Longrightarrow> in_store ev destination
   \<Longrightarrow> conserved ev x (w\<lparr>rw_fs := (rw_fs w)(source := Enoent, destination := Node (i\<lparr>nd_ctime := t\<rparr>))\<rparr>)"
  by (auto simp: conserved_def content_stored_move)

lemma conserved_rename:
  assumes ev: "others_keep ev" "in_store ev source" "in_store ev destination"
  shows "hoare (\<lambda>w. conserved ev x w \<and> payload_at ev e source w) (rename_noreplace ev source destination) (\<lambda>_. conserved ev x) (\<lambda>_. conserved ev x)"
  by (rule hoare_conseq [OF hoare_rename [where e = e and Q = "conserved ev x" and P = "\<lambda>w. conserved ev x w \<and> payload_at ev e source w"]])
    (auto intro!: stable_conj stable_conserved stable_payload_at ev simp: conserved_moves ev)

lemma conserved_mkdir: "others_keep ev \<Longrightarrow> keeps (conserved ev x) (mkdir ev p)"
proof (intro keeps_mkdir stable_conserved)
  fix w :: ret_world and i
  assume "conserved ev x w" "rw_fs w p = Enoent"
  then show "conserved ev x (w\<lparr>rw_fs := (rw_fs w)(p := Node i)\<rparr>)"
    unfolding conserved_def content_stored_def by auto
qed

section \<open>Plans\<close>

text \<open>A manifest the service has loaded, and a plan made of it.\<close>

definition trusted :: "ret_env \<Rightarrow> retirement_manifest \<Rightarrow> bool" where
  "trusted ev mf \<longleftrightarrow> (\<exists>data. cd_sha256 (re_codec ev) data = mf_operation mf
     \<and> parse_manifest (re_codec ev) data = Inr (mf_proposal mf, mf_entries mf, mf_receipt mf))"

definition planned :: "ret_env \<Rightarrow> retirement_manifest \<Rightarrow> plan_entry list \<Rightarrow> bool" where
  "planned ev mf items \<longleftrightarrow> map pe_entry items = mf_entries mf
     \<and> (\<forall>item\<in>set items. \<exists>base. re_profiles ev (me_profile (pe_entry item)) = Some base
          \<and> pe_archive item = archive_path base (me_backup (pe_entry item))
          \<and> pe_quarantine item = path_join (quarantine_root base (mf_operation mf)) (payload_name (me_backup (pe_entry item))))"

lemma trusted_receipted: "trusted ev mf \<Longrightarrow> e \<in> set (mf_entries mf) \<Longrightarrow> receipted ev (mf_operation mf) (me_backup e) (me_sha e)"
proof -
  assume "trusted ev mf" and e: "e \<in> set (mf_entries mf)"
  then obtain data where d: "cd_sha256 (re_codec ev) data = mf_operation mf"
      "parse_manifest (re_codec ev) data = Inr (mf_proposal mf, mf_entries mf, mf_receipt mf)"
    by (auto simp: trusted_def)
  with parse_manifest_sound [OF d(2)] have "valid_receipt (re_codec ev) (mf_entries mf) (mf_receipt mf)"
    by (simp add: valid_manifest_def)
  with e have "rc_verified (mf_receipt mf)" "copy_of e \<in> set (rc_members (mf_receipt mf))"
    by (simp_all add: valid_receipt_def)
  moreover have "rm_backup (copy_of e) = me_backup e" "rm_sha (copy_of e) = me_sha e"
    by (simp_all add: copy_of_def)
  ultimately show ?thesis
    using d unfolding receipted_def by blast
qed

lemma hoare_load_manifest:
  assumes "stable ev P"
  shows "hoare P (load_manifest ev i) (\<lambda>mf w. P w \<and> trusted ev mf \<and> mf_operation mf = i) (\<lambda>_. P)"
proof -
  have "hoare P (thenp (reject (cd_sha256 (re_codec ev) data \<noteq> i) m)
      (case parse_manifest (re_codec ev) data of
         Inl e \<Rightarrow> throw e
       | Inr (proposal, entries, receipt) \<Rightarrow>
           ret \<lparr>mf_operation = i, mf_proposal = proposal, mf_entries = entries, mf_receipt = receipt\<rparr>))
      (\<lambda>mf w. P w \<and> trusted ev mf \<and> mf_operation mf = i) (\<lambda>_. P)" for data m
    by (auto simp: hoare_def reject_def whenp_def thenp_def seqp_def trusted_def throw_def ret_def split: sum.splits)
  then show ?thesis
    unfolding load_manifest_def assert_trusted_directory_def
    by (rule hoare_keeps_then [OF keeps_reject hoare_keeps_then [OF keeps_assert_directory [OF assms]
        hoare_keeps_seq [OF keeps_load_bytes [OF assms]]]]) auto
qed

lemma plan_items_planned: "plan_items ev i es = Inr items \<Longrightarrow>
   map pe_entry items = es \<and> (\<forall>item\<in>set items. \<exists>base. re_profiles ev (me_profile (pe_entry item)) = Some base
          \<and> pe_archive item = archive_path base (me_backup (pe_entry item))
          \<and> pe_quarantine item = path_join (quarantine_root base i) (payload_name (me_backup (pe_entry item))))"
  by (induction es arbitrary: items)
    (auto simp: and_then_Inr_iff plan_item_def Let_def split: option.splits if_splits)

lemma hoare_plan: "hoare P (plan ev mf) (\<lambda>items w. P w \<and> planned ev mf items) (\<lambda>_. P)"
  using plan_items_planned [of ev "mf_operation mf" "mf_entries mf"]
  by (auto simp: plan_def hoare_def throw_def ret_def planned_def split: sum.splits)

lemma planned_in_store:
  assumes "planned ev mf items" "item \<in> set items"
  shows "in_store ev (pe_archive item)" "in_store ev (pe_quarantine item)"
proof -
  obtain base where b: "re_profiles ev (me_profile (pe_entry item)) = Some base" "pe_archive item = archive_path base (me_backup (pe_entry item))"
      "pe_quarantine item = path_join (quarantine_root base (mf_operation mf)) (payload_name (me_backup (pe_entry item)))"
    using assms by (auto simp: planned_def)
  then have "path_under base (pe_archive item)" "path_under base (pe_quarantine item)"
    by (simp_all add: path_under_def archive_path_def quarantine_root_def path_join_def)
  with b(1) show "in_store ev (pe_archive item)" "in_store ev (pe_quarantine item)"
    by (auto simp: in_store_def)
qed

section \<open>The phases conserve payloads\<close>

lemma hoare_with_sender:
  assumes "stable ev P" "stable ev I" "\<And>w. P w \<Longrightarrow> I w" "hoare P p (\<lambda>_. I) (\<lambda>_. I)"
  shows "hoare P (with_sender ev p) (\<lambda>_. I) (\<lambda>_. I)"
  unfolding with_sender_def
proof (rule hoare_keeps_then [OF keeps_acquire_sender [OF assms(1)]])
  show "hoare P (finallyp p (\<lambda>_. set_sender False)) (\<lambda>_. I) (\<lambda>_. I)"
    by (rule hoare_finallyp [OF assms(4)]) (use keeps_set_sender [OF assms(2)] in \<open>simp_all add: keeps_def\<close>)
qed (rule assms(3))

lemma states_of_rows:
  "keyed (rows_of t None) \<Longrightarrow> map_of (rev (map (\<lambda>r. (lg_backup r, lg_state r)) (rows_of t (Some i)))) b = map_option lg_state (row_at (rows_of t None) i b)"
  by (cases t) (simp_all add: rows_of_def states_row_at row_at_def)

lemma hoare_states_by_id:
  assumes "stable ev P" "\<And>w. P w \<Longrightarrow> keyed (ledger_of w)"
  shows "hoare P (states_by_id ev mf) (\<lambda>s w. P w \<and> (\<forall>b. s b = map_option lg_state (row_at (ledger_of w) (mf_operation mf) b))) (\<lambda>_. P)"
  unfolding states_by_id_def ledger_rows_def
  by (rule hoare_bind [OF hoare_query [OF assms(1)]])
    (use assms(2) in \<open>auto simp: hoare_def ret_def ledger_of_def states_of_def states_of_rows\<close>)

lemma conserved_verified_move:
  assumes ev: "others_keep ev" "in_store ev source" "in_store ev destination" and rest: "keeps (conserved ev x) p"
  shows "keeps (conserved ev x) (thenp (verify_payload ev e source b) (thenp (assert_retirement_lease ev) (thenp (rename_noreplace ev source destination) p)))"
proof -
  have st: "stable ev (\<lambda>w. conserved ev x w \<and> payload_at ev e source w)"
    by (intro stable_conj stable_conserved stable_payload_at ev)
  show ?thesis
    unfolding keeps_def
    by (rule hoare_before [OF hoare_verify_payload [OF stable_conserved [OF ev(1)] ev(1,2)]
          hoare_keeps_then [OF keeps_assert_retirement_lease [OF st] hoare_thenp [OF conserved_rename [OF ev] keepsD [OF rest]]]]) auto
qed

lemma conserved_ensure_private_dir: "others_keep ev \<Longrightarrow> keeps (conserved ev x) (ensure_private_dir ev d base)"
  unfolding ensure_private_dir_def by (intro keeps_rules conserved_mkdir stable_conserved)

lemma conserved_quarantine_item:
  assumes ev: "others_keep ev" and item: "in_store ev (pe_archive item)" "in_store ev (pe_quarantine item)"
  shows "keeps (conserved ev x) (quarantine_item ev mf prior item)"
  unfolding quarantine_item_def
  by (intro keeps_let conserved_verified_move ev item keeps_rules stable_conserved conserved_write_row) simp_all

lemma keeps_planned: "(\<And>items. planned ev mf items \<Longrightarrow> keeps P (f items)) \<Longrightarrow> keeps P (seqp (plan ev mf) f)"
  unfolding keeps_def by (rule hoare_seqp [OF hoare_plan]) (auto simp: hoare_def)

lemma conserved_quarantine: "others_keep ev \<Longrightarrow> keeps (conserved ev x) (quarantine ev operation job)"
  unfolding quarantine_def quarantine_locked_def ensure_dirs_item_def prepare_item_def
  by (intro keeps_planned keeps_rules conserved_ensure_private_dir conserved_write_row conserved_quarantine_item stable_conserved)
    (auto dest: planned_in_store)

text \<open>The row of an item, if there is one, has one of these states.\<close>

definition item_state :: "retirement_manifest \<Rightarrow> plan_entry \<Rightarrow> payload_state set \<Rightarrow> ledger_row list \<Rightarrow> bool" where
  "item_state mf item states rows \<longleftrightarrow> (\<exists>r. row_at rows (mf_operation mf) (me_backup (pe_entry item)) = Some r \<and> lg_state r \<in> states)"

lemma conserved_failure:
  assumes ev: "others_keep ev"
  shows "hoare (\<lambda>w. conserved ev x w \<and> on_ledger (item_state mf item {PREPARED, QUARANTINED}) w)
     (write_row ev mf FAILED item f) (\<lambda>_. conserved ev x) (\<lambda>_. conserved ev x)" (is "hoare ?P _ _ _")
proof (rule hoare_conseq)
  show "hoare ?P (write_row ev mf FAILED item f) (\<lambda>_. conserved ev x) (\<lambda>_ w. ?P w \<or> conserved ev x w)"
    by (intro hoare_write_row stable_conj stable_conserved ev stable_on_ledger tableless_conj tableless_conserved tableless_on_ledger conserved_upsert)
      (auto simp: on_ledger_def item_state_def)
qed auto

lemma conserved_rollback_item:
  assumes ev: "others_keep ev" and item: "in_store ev (pe_archive item)" "in_store ev (pe_quarantine item)"
  shows "keeps (conserved ev x) (rollback_item ev mf prior item)"
proof -
  note st = stable_conserved [OF ev]
  let ?S = "\<lambda>w. conserved ev x w \<and> on_ledger (item_state mf item {PREPARED, QUARANTINED}) w"
  have S: "stable ev ?S" by (intro stable_conj st stable_on_ledger)
  have "keeps (conserved ev x) (thenp (verify_payload ev e (pe_quarantine item) False)
           (thenp (assert_retirement_lease ev)
           (thenp (rename_noreplace ev (pe_quarantine item) (pe_archive item))
           (thenp (fsync_dir ev d1)
           (thenp (fsync_dir ev d2)
           (thenp (write_row ev mf ROLLED_BACK item None) (ret False)))))))" for e d1 d2
    by (intro conserved_verified_move ev item keeps_rules st conserved_write_row) simp_all
  moreover have "keeps (conserved ev x) (thenp (verify_payload ev e p b) (thenp (write_row ev mf ROLLED_BACK item None) (ret False)))" for e p b
    by (intro keeps_rules st ev conserved_write_row) simp_all
  ultimately have known: "hoare ?S (rollback_held ev mf prior item) (\<lambda>_. conserved ev x) (\<lambda>_. conserved ev x)"
    unfolding rollback_held_def Let_def
    by (intro hoare_keeps_seq [OF keeps_absent [OF S]] hoare_if hoare_thenp [OF conserved_failure [OF ev]] hoare_ret)
      (auto intro: hoare_pre [OF keepsD])
  show ?thesis
    unfolding rollback_item_def keeps_def Let_def
    by (intro hoare_keeps_then [OF keeps_assert_retirement_lease [OF st]] hoare_bind [OF hoare_states_by_id [OF st]] hoare_if hoare_ret hoare_pre [OF known])
      (auto simp: conserved_def on_ledger_def item_state_def)
qed

lemma conserved_rollback: "others_keep ev \<Longrightarrow> keeps (conserved ev x) (retirement_rollback ev operation job)"
proof -
  assume ev: "others_keep ev"
  have "keeps (conserved ev x) (rollback_items ev mf prior items)" if "\<And>item. item \<in> set items \<Longrightarrow> in_store ev (pe_archive item) \<and> in_store ev (pe_quarantine item)" for mf prior items
    using that by (induction items) (auto intro!: keeps_rules conserved_rollback_item ev)
  then show ?thesis
    unfolding retirement_rollback_def rollback_locked_def
    by (intro keeps_planned keeps_rules stable_conserved ev) (auto dest: planned_in_store)
qed

section \<open>Purge\<close>

text \<open>The row of every item that is in the ledger is quarantined or further and carries the digest of its entry; and all of them
  carry a purge intent.\<close>

definition bound :: "retirement_manifest \<Rightarrow> plan_entry list \<Rightarrow> ledger_row list \<Rightarrow> bool" where
  "bound mf items rows \<longleftrightarrow> (\<forall>item\<in>set items. \<forall>r. row_at rows (mf_operation mf) (me_backup (pe_entry item)) = Some r
     \<longrightarrow> lg_state r \<in> {QUARANTINED, PURGE_PREPARED, PURGED} \<and> lg_sha r = me_sha (pe_entry item))"

definition intended :: "retirement_manifest \<Rightarrow> plan_entry list \<Rightarrow> ledger_row list \<Rightarrow> bool" where
  "intended mf items rows \<longleftrightarrow> (\<forall>item\<in>set items. \<exists>r. row_at rows (mf_operation mf) (me_backup (pe_entry item)) = Some r
     \<and> lg_state r \<in> {PURGE_PREPARED, PURGED} \<and> lg_sha r = me_sha (pe_entry item))"

definition advances :: "payload_state \<Rightarrow> bool" where
  "advances st \<longleftrightarrow> st = PURGE_PREPARED \<or> st = PURGED"

lemma bound_upsert:
  assumes "bound mf items rows" "allowed rows row" "lg_operation row = mf_operation mf" "advances (lg_state row)"
    and "row_at rows (lg_operation row) (lg_backup row) \<noteq> None"
  shows "bound mf items (upsert row rows)"
  using assms by (auto simp: bound_def row_at_upsert allowed_def same_identity_def advances_def split: option.splits)

lemma intended_upsert:
  assumes "intended mf items rows" "allowed rows row" "lg_operation row = mf_operation mf" "advances (lg_state row)"
  shows "intended mf items (upsert row rows)"
  using assms by (fastforce simp: intended_def row_at_upsert allowed_def same_identity_def advances_def split: option.splits)

lemma hoare_loop:
  assumes "\<And>seen x rest. xs = seen @ x # rest \<Longrightarrow> hoare (J seen) (f x) (\<lambda>_. J (seen @ [x])) E"
  shows "hoare (J []) (for_each f xs) (\<lambda>_. J xs) E"
proof -
  have "hoare (J seen) (for_each f rest) (\<lambda>_. J xs) E" if "xs = seen @ rest" for seen rest
    using that
  proof (induction rest arbitrary: seen)
    case Nil
    then show ?case by (simp add: hoare_ret)
  next
    case (Cons x rest)
    then have "hoare (J (seen @ [x])) (for_each f rest) (\<lambda>_. J xs) E" by simp
    with assms [OF Cons.prems] show ?case by (simp add: hoare_thenp)
  qed
  from this [of "[]" xs] show ?thesis by simp
qed

text \<open>The first loop gives every item its purge intent.\<close>

definition purging :: "ret_env \<Rightarrow> string \<Rightarrow> retirement_manifest \<Rightarrow> plan_entry list \<Rightarrow> plan_entry list \<Rightarrow> ret_world \<Rightarrow> bool" where
  "purging ev x mf items seen w \<longleftrightarrow> conserved ev x w \<and> on_ledger (bound mf items) w \<and> on_ledger (intended mf seen) w"

lemma stable_purging: "others_keep ev \<Longrightarrow> stable ev (purging ev x mf items seen)"
  unfolding purging_def by (intro stable_conj stable_conserved stable_on_ledger)

lemma tableless_purging: "tableless (purging ev x mf items seen)"
  unfolding purging_def by (intro tableless_conj tableless_conserved tableless_on_ledger)

lemma hoare_intent_item:
  assumes ev: "others_keep ev" and item: "item \<in> set items"
  shows "hoare (purging ev x mf items seen) (intent_item ev mf item) (\<lambda>_. purging ev x mf items (seen @ [item])) (\<lambda>_. conserved ev x)"
proof -
  let ?J = "purging ev x mf items seen"
  let ?S = "\<lambda>st w. ?J w \<and> on_ledger (item_state mf item {st}) w"
  have S: "stable ev (?S st)" for st by (intro stable_conj stable_purging ev stable_on_ledger)
  have "hoare (?S QUARANTINED) (write_row ev mf PURGE_PREPARED item None) (\<lambda>_. purging ev x mf items (seen @ [item]))
      (\<lambda>_ w. ?S QUARANTINED w \<or> purging ev x mf items (seen @ [item]) w)"
  proof (intro hoare_write_row S stable_purging ev tableless_conj tableless_purging tableless_on_ledger)
    fix w n
    let ?row = "ledger_row_for ev mf PURGE_PREPARED item None n"
    assume w: "?S QUARANTINED w" and ok: "allowed (ledger_of w) ?row"
    then obtain r where r: "row_at (ledger_of w) (mf_operation mf) (me_backup (pe_entry item)) = Some r"
      by (auto simp: on_ledger_def item_state_def)
    have "conserved ev x (w\<lparr>rw_ledger := Some (upsert ?row (ledger_of w))\<rparr>)"
      using w ok by (intro conserved_upsert) (auto simp: purging_def)
    moreover have "bound mf items (upsert ?row (ledger_of w))" "intended mf seen (upsert ?row (ledger_of w))"
      using w ok r by (auto intro!: bound_upsert intended_upsert simp: purging_def on_ledger_def advances_def)
    moreover have "intended mf [item] (upsert ?row (ledger_of w))"
      using r ok by (simp add: intended_def row_at_upsert)
    ultimately show "purging ev x mf items (seen @ [item]) (w\<lparr>rw_ledger := Some (upsert ?row (ledger_of w))\<rparr>)"
      by (auto simp: purging_def on_ledger_def intended_def)
  qed
  then have "hoare (?S st) (whenp (st = QUARANTINED) (thenp (assert_retirement_lease ev) (write_row ev mf PURGE_PREPARED item None)))
      (\<lambda>_. purging ev x mf items (seen @ [item])) (\<lambda>_. conserved ev x)" for st
    using item
    by (intro hoare_whenp hoare_keeps_then [OF keeps_assert_retirement_lease [OF S]])
      (auto intro: hoare_conseq simp: purging_def on_ledger_def bound_def intended_def item_state_def)
  then show ?thesis
    unfolding intent_item_def state_at_def
    by (intro hoare_bind [OF hoare_states_by_id [OF stable_purging [OF ev]]])
      (auto simp: hoare_def seqp_def throw_def ret_def purging_def conserved_def on_ledger_def item_state_def split: option.splits)
qed

definition under_intent :: "ret_env \<Rightarrow> string \<Rightarrow> retirement_manifest \<Rightarrow> plan_entry list \<Rightarrow> ret_world \<Rightarrow> bool" where
  "under_intent ev x mf items w \<longleftrightarrow> conserved ev x w \<and> on_ledger (intended mf items) w"

lemma stable_under_intent: "others_keep ev \<Longrightarrow> stable ev (under_intent ev x mf items)"
  unfolding under_intent_def by (intro stable_conj stable_conserved stable_on_ledger)

lemma under_intent_write_row: "others_keep ev \<Longrightarrow> keeps (under_intent ev x mf items) (write_row ev mf PURGED item f)"
  unfolding under_intent_def
  by (intro keeps_write_row stable_conj stable_conserved stable_on_ledger tableless_conj tableless_conserved tableless_on_ledger conjI conserved_upsert)
    (auto simp: on_ledger_def advances_def intro: intended_upsert)

text \<open>A payload under a purge intent may be deleted.\<close>

lemma under_intent_deletes:
  assumes w: "under_intent ev x mf items w" and item: "item \<in> set items" "receipted ev (mf_operation mf) (me_backup (pe_entry item)) (me_sha (pe_entry item))"
    and i: "rw_fs w p = Node i" "is_payload ev (pe_entry item) i"
  shows "under_intent ev x mf items (w\<lparr>rw_fs := (rw_fs w)(p := Enoent)\<rparr>)"
proof -
  have "content_stored ev x ((rw_fs w)(p := Enoent)) \<or> purge_recorded ev (cd_sha256 (re_codec ev) x) (ledger_of w)"
  proof (cases "nd_content i = x")
    case True
    with i(2) have d: "cd_sha256 (re_codec ev) x = me_sha (pe_entry item)" by (auto simp: is_payload_def)
    from w item(1) obtain r where "row_at (ledger_of w) (mf_operation mf) (me_backup (pe_entry item)) = Some r"
        "lg_state r \<in> {PURGE_PREPARED, PURGED}" "lg_sha r = me_sha (pe_entry item)"
      by (auto simp: under_intent_def on_ledger_def intended_def)
    with item(2) d show ?thesis unfolding purge_recorded_def by metis
  next
    case False
    have "content_stored ev x ((rw_fs w)(p := Enoent))" if "content_stored ev x (rw_fs w)"
    proof -
      from that obtain q j where "in_store ev q" "rw_fs w q = Node j" "nd_kind j = Regular" "nd_content j = x"
        by (auto simp: content_stored_def)
      with False i(1) show ?thesis unfolding content_stored_def by (intro exI [of _ q] exI [of _ j]) auto
    qed
    with w show ?thesis by (auto simp: under_intent_def conserved_def)
  qed
  with w show ?thesis by (auto simp: under_intent_def conserved_def on_ledger_def)
qed

lemma under_intent_purge_item:
  assumes ev: "others_keep ev" and item: "item \<in> set items" "in_store ev (pe_quarantine item)"
      "receipted ev (mf_operation mf) (me_backup (pe_entry item)) (me_sha (pe_entry item))"
  shows "keeps (under_intent ev x mf items) (purge_item ev mf item)"
proof -
  note st = stable_under_intent [OF ev]
  let ?G = "under_intent ev x mf items"
  let ?H = "\<lambda>w. ?G w \<and> payload_at ev (pe_entry item) (pe_quarantine item) w"
  have H: "stable ev ?H" by (intro stable_conj st stable_payload_at ev item)
  have unlink: "hoare ?H (unlink ev (pe_quarantine item)) (\<lambda>_. ?G) (\<lambda>_. ?G)"
    by (rule hoare_conseq [OF hoare_unlink [OF H _ st]]) (auto intro: under_intent_deletes item)
  have "keeps ?G (thenp (fsync_dir ev d) (write_row ev mf PURGED item None))" for d
    by (intro keeps_rules st under_intent_write_row ev)
  then have del: "keeps ?G (thenp (verify_payload ev (pe_entry item) (pe_quarantine item) False)
           (thenp (assert_retirement_lease ev) (thenp (unlink ev (pe_quarantine item)) (thenp (fsync_dir ev d) (write_row ev mf PURGED item None)))))" for d
    unfolding keeps_def
    by (intro hoare_before [OF hoare_verify_payload [OF st ev item(2)]] hoare_keeps_then [OF keeps_assert_retirement_lease [OF H]] hoare_thenp [OF unlink]) auto
  show ?thesis
    unfolding purge_item_def purge_known_def Let_def by (intro del keeps_rules st ev under_intent_write_row)
qed

text \<open>What the admission checks of a purge establish.\<close>

lemma row_in_operation: "row_at (rows_of t None) i b = Some r \<Longrightarrow> r \<in> set (rows_of t (Some i)) \<and> lg_backup r = b"
  by (cases t) (auto simp: rows_of_def dest: row_at_SomeD)

definition operation_rows :: "retirement_manifest \<Rightarrow> ret_world \<Rightarrow> ledger_row list" where
  "operation_rows mf w = rows_of (rw_ledger w) (Some (mf_operation mf))"

lemma hoare_binding:
  "stable ev P \<Longrightarrow> hoare P (assert_operation_binding ev mf exact) (\<lambda>_ w. P w \<and> binding_failure mf exact (operation_rows mf w) = None) (\<lambda>_. P)"
  unfolding assert_operation_binding_def ledger_rows_def operation_rows_def
  by (rule hoare_bind [OF hoare_query]) (auto simp: hoare_def ret_def throw_def split: option.splits)

lemma hoare_admissible:
  "stable ev P \<Longrightarrow> hoare P (assert_phase_admissible ev mf phase)
     (\<lambda>_ w. P w \<and> (\<forall>r\<in>set (operation_rows mf w). lg_state r \<in> set (PHASE_RESUMABLE phase))) (\<lambda>_. P)"
  unfolding assert_phase_admissible_def ledger_rows_def operation_rows_def
  by (rule hoare_bind [OF hoare_query]) (auto simp: hoare_def ret_def throw_def find_None_iff split: option.splits)

text \<open>The assertion after the admission checks.\<close>

definition admitted :: "ret_env \<Rightarrow> string \<Rightarrow> retirement_manifest \<Rightarrow> ret_world \<Rightarrow> bool" where
  "admitted ev x mf w \<longleftrightarrow> (conserved ev x w \<and> binding_failure mf True (operation_rows mf w) = None)
     \<and> (\<forall>r\<in>set (operation_rows mf w). lg_state r \<in> set (PHASE_RESUMABLE ''purge''))"

lemma stable_operation_rows: "stable ev (\<lambda>w. \<phi> (operation_rows mf w))"
  by (simp add: stable_def operation_rows_def)

lemma stable_admitted: "others_keep ev \<Longrightarrow> stable ev (admitted ev x mf)"
  unfolding admitted_def by (intro stable_conj stable_conserved stable_operation_rows)

lemma hoare_admission:
  assumes ev: "others_keep ev" and p: "hoare (admitted ev x mf) p (\<lambda>_. conserved ev x) (\<lambda>_. conserved ev x)"
  shows "hoare (conserved ev x) (thenp (assert_operation_binding ev mf True) (thenp (assert_phase_admissible ev mf ''purge'') p))
     (\<lambda>_. conserved ev x) (\<lambda>_. conserved ev x)"
proof -
  have "hoare (\<lambda>w. conserved ev x w \<and> binding_failure mf True (operation_rows mf w) = None)
      (thenp (assert_phase_admissible ev mf ''purge'') p) (\<lambda>_. conserved ev x) (\<lambda>_. conserved ev x)"
    by (rule hoare_before [OF hoare_admissible [OF stable_conj [OF stable_conserved [OF ev] stable_operation_rows]]])
      (use p in \<open>simp_all add: admitted_def [abs_def]\<close>)
  then show ?thesis
    by (rule hoare_before [OF hoare_binding [OF stable_conserved [OF ev]]]) simp
qed

lemma binding_failure_row:
  assumes "binding_failure mf b rows = None" "r \<in> set rows"
  shows "row_unbound mf r = None"
proof (cases "find (\<lambda>r. row_unbound mf r \<noteq> None) rows")
  case None
  with assms(2) show ?thesis by (simp only: find_None_iff) blast
next
  case (Some q)
  then have "row_unbound mf q \<noteq> None" by (auto dest: find_SomeD)
  with assms Some show ?thesis by (auto simp: binding_failure_def split: if_splits)
qed

lemma entry_of_mem:
  "distinct (map me_backup (mf_entries mf)) \<Longrightarrow> e \<in> set (mf_entries mf) \<Longrightarrow> entry_of mf (me_backup e) = Some e"
  unfolding entry_of_def
  by (subst map_of_rev_distinct) (simp_all add: comp_def map_of_eq_Some_iff image_iff)

lemma planned_entry: "planned ev mf items \<Longrightarrow> item \<in> set items \<Longrightarrow> pe_entry item \<in> set (mf_entries mf)"
  by (auto simp: planned_def dest!: arg_cong [where f = set])

lemma admitted_bound:
  assumes "planned ev mf items" "distinct (map me_backup (mf_entries mf))"
    and "binding_failure mf True (rows_of t (Some (mf_operation mf))) = None"
    and "\<forall>r\<in>set (rows_of t (Some (mf_operation mf))). lg_state r \<in> {QUARANTINED, PURGE_PREPARED, PURGED}"
  shows "bound mf items (rows_of t None)"
  unfolding bound_def
proof (intro ballI allI impI conjI)
  fix item r assume item: "item \<in> set items" and r: "row_at (rows_of t None) (mf_operation mf) (me_backup (pe_entry item)) = Some r"
  have r': "r \<in> set (rows_of t (Some (mf_operation mf)))" "lg_backup r = me_backup (pe_entry item)"
    using row_in_operation [OF r] by auto
  with assms(4) show "lg_state r \<in> {QUARANTINED, PURGE_PREPARED, PURGED}" by blast
  have "pe_entry item \<in> set (mf_entries mf)" by (rule planned_entry [OF assms(1) item])
  with assms(2) have "entry_of mf (lg_backup r) = Some (pe_entry item)"
    using r'(2) by (simp add: entry_of_mem)
  moreover have "row_unbound mf r = None"
    using binding_failure_row [OF assms(3) r'(1)] .
  ultimately show "lg_sha r = me_sha (pe_entry item)"
    by (auto simp: row_unbound_def Let_def split: if_splits)
qed

lemma trusted_distinct: "trusted ev mf \<Longrightarrow> distinct (map me_backup (mf_entries mf))"
  unfolding trusted_def by (auto dest!: parse_manifest_sound simp: valid_manifest_def)

lemma admitted_purging:
  "admitted ev x mf w \<Longrightarrow> planned ev mf items \<Longrightarrow> trusted ev mf \<Longrightarrow> purging ev x mf items [] w"
  unfolding purging_def on_ledger_def ledger_of_def
  by (auto simp: admitted_def operation_rows_def PHASE_RESUMABLE_def intended_def intro!: admitted_bound trusted_distinct)

lemma conserved_purge_loops:
  assumes ev: "others_keep ev" and mf: "trusted ev mf" "planned ev mf items"
  shows "hoare (admitted ev x mf) (thenp (for_each (intent_item ev mf) items) (for_each (purge_item ev mf) items)) (\<lambda>_. conserved ev x) (\<lambda>_. conserved ev x)"
proof (rule hoare_thenp)
  have "hoare (purging ev x mf items []) (for_each (intent_item ev mf) items) (\<lambda>_. purging ev x mf items items) (\<lambda>_. conserved ev x)"
    by (rule hoare_loop) (auto intro: hoare_intent_item ev)
  then show "hoare (admitted ev x mf) (for_each (intent_item ev mf) items) (\<lambda>_. purging ev x mf items items) (\<lambda>_. conserved ev x)"
    by (rule hoare_pre) (rule admitted_purging [OF _ mf(2,1)])
  have "keeps (under_intent ev x mf items) (for_each (purge_item ev mf) items)"
    using mf by (intro keeps_loop under_intent_purge_item ev) (auto dest: planned_in_store planned_entry intro: trusted_receipted)
  then show "hoare (purging ev x mf items items) (for_each (purge_item ev mf) items) (\<lambda>_. conserved ev x) (\<lambda>_. conserved ev x)"
    unfolding keeps_def by (rule hoare_conseq) (auto simp: purging_def under_intent_def)
qed

lemma conserved_purge_locked:
  assumes ev: "others_keep ev" and mf: "trusted ev mf"
  shows "hoare (admitted ev x mf) (purge_locked ev mf job) (\<lambda>_. conserved ev x) (\<lambda>_. conserved ev x)"
proof -
  note adm = stable_admitted [OF ev]
  have weaken: "admitted ev x mf w \<Longrightarrow> conserved ev x w" for mf w by (simp add: admitted_def)
  have "hoare (\<lambda>w. admitted ev x mf w \<and> planned ev mf items) (thenp (assert_boundaries ev job)
       (thenp (for_each (intent_item ev mf) items) (for_each (purge_item ev mf) items))) (\<lambda>_. conserved ev x) (\<lambda>_. conserved ev x)" for items
    by (rule hoare_pure, erule conjunct2,
        rule hoare_pre [OF hoare_keeps_then [OF keeps_assert_boundaries [OF adm] conserved_purge_loops [OF ev mf]]]) (auto intro: weaken)
  then show ?thesis
    unfolding purge_locked_def
    by (intro hoare_keeps_then [OF keeps_assert_boundaries [OF adm]] hoare_keeps_then [OF keeps_assert_receipt]
        hoare_keeps_then [OF keeps_loop [OF keeps_assert_catalog_eligible [OF adm]]]
        hoare_keeps_then [OF keeps_assert_purge_ready [OF adm]] hoare_bind [OF hoare_plan]) (auto intro: weaken)
qed

lemma conserved_purge:
  assumes ev: "others_keep ev"
  shows "keeps (conserved ev x) (purge ev operation job)"
  unfolding purge_def keeps_def
proof (rule hoare_seqp [OF hoare_load_manifest [OF stable_conserved [OF ev]]])
  fix mf
  note st = stable_conserved [OF ev]
  have "hoare (admitted ev x mf) (with_sender ev (purge_locked ev mf job)) (\<lambda>_. conserved ev x) (\<lambda>_. conserved ev x)" if "trusted ev mf"
    by (rule hoare_with_sender [OF stable_admitted [OF ev] st _ conserved_purge_locked [OF ev that]]) (simp add: admitted_def)
  then show "hoare (\<lambda>w. conserved ev x w \<and> trusted ev mf \<and> mf_operation mf = operation)
     (thenp (require_connection ev) (thenp (assert_operation_binding ev mf True) (thenp (assert_phase_admissible ev mf ''purge'')
       (thenp (with_sender ev (purge_locked ev mf job)) (retirement_status ev (Some operation)))))) (\<lambda>_. conserved ev x) (\<lambda>_. conserved ev x)"
    by - (rule hoare_pure [of _ "trusted ev mf"], simp, rule hoare_pre [OF hoare_keeps_then [OF keeps_require_connection
        hoare_admission [OF ev hoare_thenp [OF _ keepsD [OF keeps_retirement_status [OF st]]]]]], auto)
qed

section \<open>Requests\<close>

datatype ret_request =
    Prepare_Retirement string string
  | Confirm_Retirement bool string string "string option"
  | Retirement_Status "string option"
  | Startup_Reconcile
  | Availability string

text \<open>A request; its result is not looked at here.\<close>

definition serve :: "ret_env \<Rightarrow> ret_request \<Rightarrow> ret_world \<Rightarrow> ret_world" where
  "serve ev request w =
     (case request of
        Prepare_Retirement operation phase \<Rightarrow> snd (retirement_prepare ev operation phase w)
      | Confirm_Retirement isolated operation phase job \<Rightarrow> snd (retirement_confirm ev isolated operation phase job w)
      | Retirement_Status operation \<Rightarrow> snd (retirement_status_rpc ev operation w)
      | Startup_Reconcile \<Rightarrow> snd (retirement_reconcile ev w)
      | Availability backup \<Rightarrow> snd (availability ev backup w))"

definition serve_all :: "ret_env \<Rightarrow> ret_request list \<Rightarrow> ret_world \<Rightarrow> ret_world" where
  "serve_all ev requests w = fold (serve ev) requests w"

lemma keeps_ends: "keeps P p \<Longrightarrow> P w \<Longrightarrow> P (snd (p w))"
  unfolding keeps_def by (rule hoare_ends)

lemma conserved_confirm: "others_keep ev \<Longrightarrow> keeps (conserved ev x) (retirement_confirm ev isolated operation phase job)"
  unfolding retirement_confirm_def
  by (intro keeps_rules conserved_quarantine conserved_purge conserved_rollback)

lemma conserved_serve: "others_keep ev \<Longrightarrow> conserved ev x w \<Longrightarrow> conserved ev x (serve ev request w)"
  by (cases request)
    (auto simp: serve_def intro!: keeps_ends conserved_confirm keeps_retirement_prepare keeps_retirement_status_rpc keeps_retirement_reconcile
      keeps_availability stable_conserved)

lemma conserved_serve_all: "others_keep ev \<Longrightarrow> conserved ev x w \<Longrightarrow> conserved ev x (serve_all ev requests w)"
  unfolding serve_all_def by (induction requests arbitrary: w) (auto intro: conserved_serve)

lemma others_keep_sample: "others_keep sample_ret_env"
  by (simp add: others_keep_def sample_ret_env_def)

lemma content_stored_sample: "content_stored sample_ret_env ''save'' (rw_fs sample_ret_world)"
  unfolding content_stored_def in_store_def
  by (intro exI [of _ "sample_path [''srv'', ''b1.tar.zst'']"] exI [of _ "sample_node Regular 384 ''save''"] conjI exI [of _ "''velocity''"]
      exI [of _ "sample_path [''srv'']"])
    (simp_all add: sample_ret_env_def sample_ret_world_def sample_fs_def sample_path_def path_under_def sample_node_def)

lemma keyed_sample: "keyed (ledger_of sample_ret_world)"
  by (simp add: keyed_def ledger_of_def rows_of_def sample_ret_world_def)

text \<open>C8. Payloads are conserved.  Whatever retirement requests are served, in whatever order, and whether each one succeeds, is refused or
  dies before or after any of its calls, the content of a file of the backup store is afterwards still in the store, or the ledger
  records, under an operation whose manifest carries a verified receipt for that digest, that its purge was begun.\<close>

theorem payload_conserved:
  assumes "others_keep ev" and "keyed (ledger_of w)" and "content_stored ev x (rw_fs w)"
  shows "content_stored ev x (rw_fs (serve_all ev requests w))
    \<or> purge_recorded ev (cd_sha256 (re_codec ev) x) (ledger_of (serve_all ev requests w))"
  using conserved_serve_all [OF assms(1), of x w requests] assms(2,3) by (simp add: conserved_def)

theorem payload_conserved_witness:
  "content_stored sample_ret_env ''save'' (rw_fs (serve_all sample_ret_env
      [Confirm_Retirement True sample_op ''quarantine'' (Some ''j1''), Confirm_Retirement True sample_op ''purge'' (Some ''j1'')] sample_ret_world))
   \<or> purge_recorded sample_ret_env (cd_sha256 (re_codec sample_ret_env) ''save'') (ledger_of (serve_all sample_ret_env
      [Confirm_Retirement True sample_op ''quarantine'' (Some ''j1''), Confirm_Retirement True sample_op ''purge'' (Some ''j1'')] sample_ret_world))"
  by (rule payload_conserved [OF others_keep_sample keyed_sample content_stored_sample])

end
