(* ===== verification/Retirement_Outcomes.thy ===== *)
theory Retirement_Outcomes
  imports Retirement_Safety
begin

text \<open>
  What the phases of payload retirement achieve when they return, that observation changes nothing, and that availability fails closed.
\<close>

section \<open>Quarantine\<close>

definition quarantined :: "ret_env \<Rightarrow> retirement_manifest \<Rightarrow> plan_entry \<Rightarrow> ret_world \<Rightarrow> bool" where
  "quarantined ev mf item w \<longleftrightarrow> payload_at ev (pe_entry item) (pe_quarantine item) w \<and> on_ledger (item_state mf item {QUARANTINED}) w"

definition quarantine_progress :: "ret_env \<Rightarrow> retirement_manifest \<Rightarrow> plan_entry list \<Rightarrow> ret_world \<Rightarrow> bool" where
  "quarantine_progress ev mf seen w \<longleftrightarrow> on_ledger keyed w \<and> (\<forall>item\<in>set seen. quarantined ev mf item w)"

lemma stable_ball: "(\<And>x. x \<in> A \<Longrightarrow> stable ev (P x)) \<Longrightarrow> stable ev (\<lambda>w. \<forall>x\<in>A. P x w)"
  by (simp add: stable_def)

lemma tableless_ball: "(\<And>x. x \<in> A \<Longrightarrow> tableless (P x)) \<Longrightarrow> tableless (\<lambda>w. \<forall>x\<in>A. P x w)"
  by (simp add: tableless_def)

lemma tableless_payload_at: "tableless (payload_at ev e p)"
  by (simp add: tableless_def payload_at_def)

lemma stable_quarantine_progress:
  "others_keep ev \<Longrightarrow> (\<And>item. item \<in> set seen \<Longrightarrow> in_store ev (pe_quarantine item)) \<Longrightarrow> stable ev (quarantine_progress ev mf seen)"
  unfolding quarantine_progress_def quarantined_def by (intro stable_conj stable_ball stable_payload_at stable_on_ledger)

lemma tableless_quarantine_progress: "tableless (quarantine_progress ev mf seen)"
  unfolding quarantine_progress_def quarantined_def
  by (intro tableless_conj tableless_ball tableless_payload_at tableless_on_ledger)

text \<open>The paths of two items differ in their last part.\<close>

lemma planned_names:
  "planned ev mf items \<Longrightarrow> item \<in> set items \<Longrightarrow>
   last (path_parts (pe_archive item)) = payload_name (me_backup (pe_entry item))
   \<and> last (path_parts (pe_quarantine item)) = payload_name (me_backup (pe_entry item))"
  by (auto simp: planned_def archive_path_def quarantine_root_def path_join_def dest!: bspec)

lemma planned_apart:
  assumes "planned ev mf items" "trusted ev mf" "items = seen @ x # rest" "y \<in> set seen"
  shows "me_backup (pe_entry y) \<noteq> me_backup (pe_entry x)" "pe_quarantine y \<noteq> pe_archive x" "pe_quarantine y \<noteq> pe_quarantine x"
proof -
  have "distinct (map (\<lambda>item. me_backup (pe_entry item)) items)"
    using trusted_distinct [OF assms(2)] assms(1) by (metis (no_types, lifting) comp_def map_eq_conv map_map planned_def)
  then show ne: "me_backup (pe_entry y) \<noteq> me_backup (pe_entry x)"
    using assms(3,4) by (auto simp: image_iff)
  from assms(3,4) have "y \<in> set items" "x \<in> set items" by auto
  with ne planned_names [OF assms(1), of x] planned_names [OF assms(1), of y]
  show "pe_quarantine y \<noteq> pe_archive x" "pe_quarantine y \<noteq> pe_quarantine x"
    by (auto simp: payload_name_def)
qed

lemma quarantine_progress_row:
  assumes p: "planned ev mf items" "trusted ev mf" "items = seen @ x # rest" and ev: "others_keep ev"
  shows "hoare (\<lambda>w. quarantine_progress ev mf seen w \<and> payload_at ev (pe_entry x) (pe_quarantine x) w) (write_row ev mf QUARANTINED x None)
     (\<lambda>_. quarantine_progress ev mf (seen @ [x])) (\<lambda>_ _. True)"
proof -
  have store: "in_store ev (pe_quarantine item)" if "item \<in> set items" for item
    using planned_in_store [OF p(1) that] by simp
  then have st: "stable ev (quarantine_progress ev mf seen)" "stable ev (quarantine_progress ev mf (seen @ [x]))"
      "stable ev (payload_at ev (pe_entry x) (pe_quarantine x))"
    using p(3) by (auto intro!: stable_quarantine_progress stable_payload_at ev)
  show ?thesis
  proof (rule hoare_conseq [OF hoare_write_row [OF stable_conj [OF st(1,3)] tableless_conj [OF tableless_quarantine_progress tableless_payload_at] st(2)]])
    fix w n
    assume w: "quarantine_progress ev mf seen w \<and> payload_at ev (pe_entry x) (pe_quarantine x) w"
    let ?w = "w\<lparr>rw_ledger := Some (upsert (ledger_row_for ev mf QUARANTINED x None n) (ledger_of w))\<rparr>"
    have "quarantined ev mf y ?w" if y: "y \<in> set seen" for y
      using w y planned_apart(1) [OF p y]
      by (auto simp: quarantine_progress_def quarantined_def payload_at_def on_ledger_def item_state_def row_at_upsert)
    moreover have "quarantined ev mf x ?w"
      using w by (auto simp: quarantined_def payload_at_def on_ledger_def item_state_def row_at_upsert split: option.splits)
    ultimately show "quarantine_progress ev mf (seen @ [x]) ?w"
      using w by (auto simp: quarantine_progress_def on_ledger_def keyed_upsert)
  qed auto
qed

lemma quarantine_progress_rename:
  assumes p: "planned ev mf items" "trusted ev mf" "items = seen @ x # rest" and ev: "others_keep ev"
  shows "hoare (\<lambda>w. quarantine_progress ev mf seen w \<and> payload_at ev (pe_entry x) (pe_archive x) w) (rename_noreplace ev (pe_archive x) (pe_quarantine x))
     (\<lambda>_ w. quarantine_progress ev mf seen w \<and> payload_at ev (pe_entry x) (pe_quarantine x) w) (\<lambda>_ _. True)"
proof -
  have store: "in_store ev (pe_archive item)" "in_store ev (pe_quarantine item)" if "item \<in> set items" for item
    using planned_in_store [OF p(1) that] by simp_all
  then have st: "stable ev (quarantine_progress ev mf seen)" "stable ev (payload_at ev (pe_entry x) (pe_archive x))"
      "stable ev (payload_at ev (pe_entry x) (pe_quarantine x))"
    using p(3) by (auto intro!: stable_quarantine_progress stable_payload_at ev)
  show ?thesis
  proof (rule hoare_conseq [OF hoare_rename [OF stable_conj [OF st(1,2)] _ stable_conj [OF st(1,3)]]])
    fix w i t
    assume w: "quarantine_progress ev mf seen w \<and> payload_at ev (pe_entry x) (pe_archive x) w" and i: "is_payload ev (pe_entry x) i"
    let ?w = "w\<lparr>rw_fs := (rw_fs w)(pe_archive x := Enoent, pe_quarantine x := Node (i\<lparr>nd_ctime := t\<rparr>))\<rparr>"
    have "quarantined ev mf y ?w" if y: "y \<in> set seen" for y
      using w y planned_apart(2,3) [OF p y]
      by (auto simp: quarantine_progress_def quarantined_def payload_at_def on_ledger_def)
    with w i show "quarantine_progress ev mf seen ?w \<and> payload_at ev (pe_entry x) (pe_quarantine x) ?w"
      by (auto simp: quarantine_progress_def on_ledger_def payload_at_def is_payload_def)
  qed auto
qed

lemma hoare_quarantine_item:
  assumes p: "planned ev mf items" "trusted ev mf" "items = seen @ x # rest" and ev: "others_keep ev"
  shows "hoare (quarantine_progress ev mf seen) (quarantine_item ev mf prior x) (\<lambda>_. quarantine_progress ev mf (seen @ [x])) (\<lambda>_ _. True)"
proof -
  let ?J = "quarantine_progress ev mf seen" and ?e = "pe_entry x"
  have store: "in_store ev (pe_archive item)" "in_store ev (pe_quarantine item)" if "item \<in> set items" for item
    using planned_in_store [OF p(1) that] by simp_all
  have xs: "in_store ev (pe_archive x)" "in_store ev (pe_quarantine x)" using store p(3) by auto
  have J: "stable ev ?J" using store p(3) by (auto intro!: stable_quarantine_progress ev)
  have JA: "stable ev (\<lambda>w. ?J w \<and> payload_at ev ?e (pe_archive x) w)" and JQ: "stable ev (\<lambda>w. ?J w \<and> payload_at ev ?e (pe_quarantine x) w)"
    by (intro stable_conj J stable_payload_at ev xs)+
  let ?S = "\<lambda>w. ?J w \<and> on_ledger (item_state mf x {QUARANTINED}) w"
  have S: "stable ev ?S" by (intro stable_conj J stable_on_ledger)
  note row = quarantine_progress_row [OF p ev] and move = quarantine_progress_rename [OF p ev]
  have already: "hoare ?S (verify_payload ev ?e (pe_quarantine x) False) (\<lambda>_. quarantine_progress ev mf (seen @ [x])) (\<lambda>_ _. True)"
    by (rule hoare_conseq [OF hoare_verify_payload [OF S ev xs(2)]]) (auto simp: quarantine_progress_def quarantined_def)
  have found: "hoare ?J (thenp (verify_payload ev ?e (pe_quarantine x) False) (thenp (assert_retirement_lease ev) (write_row ev mf QUARANTINED x None)))
      (\<lambda>_. quarantine_progress ev mf (seen @ [x])) (\<lambda>_ _. True)"
    by (rule hoare_before [OF hoare_verify_payload [OF J ev xs(2)] hoare_keeps_then [OF keeps_assert_retirement_lease [OF JQ] row]]) auto
  have moved: "hoare ?J (thenp (verify_payload ev ?e (pe_archive x) b) (thenp (assert_retirement_lease ev)
        (thenp (rename_noreplace ev (pe_archive x) (pe_quarantine x)) (thenp (fsync_dir ev d1) (thenp (fsync_dir ev d2) (write_row ev mf QUARANTINED x None))))))
      (\<lambda>_. quarantine_progress ev mf (seen @ [x])) (\<lambda>_ _. True)" for b d1 d2
    by (rule hoare_before [OF hoare_verify_payload [OF J ev xs(1)] hoare_keeps_then [OF keeps_assert_retirement_lease [OF JA]
          hoare_thenp [OF move hoare_keeps_then [OF keeps_fsync_dir [OF JQ] hoare_keeps_then [OF keeps_fsync_dir [OF JQ] row]]]]]) auto
  have other: "hoare ?J (seqp (path_exists_at ev (pe_quarantine x)) (\<lambda>m. if m then f else g)) (\<lambda>_. quarantine_progress ev mf (seen @ [x])) (\<lambda>_ _. True)"
    if "hoare ?J f (\<lambda>_. quarantine_progress ev mf (seen @ [x])) (\<lambda>_ _. True)" "hoare ?J g (\<lambda>_. quarantine_progress ev mf (seen @ [x])) (\<lambda>_ _. True)" for f g
    by (rule hoare_keeps_seq [OF keeps_path_exists_at [OF J]]) (use that in auto)
  have keyed: "?J w \<Longrightarrow> keyed (ledger_of w)" for w by (simp add: quarantine_progress_def on_ledger_def)
  show ?thesis
    unfolding quarantine_item_def Let_def
    by (intro hoare_keeps_then [OF keeps_assert_retirement_lease [OF J]] hoare_keeps_then [OF keeps_assert_catalog_eligible [OF J]]
        hoare_bind [OF hoare_states_by_id [OF J keyed]] hoare_if hoare_pre [OF already] hoare_pre [OF other [OF found moved]])
      (auto simp: on_ledger_def item_state_def)
qed

text \<open>Everything before the last loop keeps the primary key.\<close>

lemma keeps_keyed_change_fs: "keeps (on_ledger \<phi>) (change_fs ev e f)"
  by (auto simp: keeps_def hoare_def change_fs_def Let_def on_ledger_def split: sum.splits)

lemma keeps_keyed_write: "keeps (on_ledger keyed) (write_row ev mf st item f)"
  by (intro keeps_write_row stable_on_ledger tableless_on_ledger) (simp add: on_ledger_def keyed_upsert)

lemma keeps_keyed_ensure_dirs: "keeps (on_ledger keyed) (ensure_dirs_item ev item)"
  unfolding ensure_dirs_item_def ensure_private_dir_def mkdir_def by (intro keeps_rules keeps_keyed_change_fs stable_on_ledger)

lemma keeps_keyed_prepare: "keeps (on_ledger keyed) (prepare_item ev mf item)"
  unfolding prepare_item_def by (intro keeps_rules keeps_keyed_write stable_on_ledger)

definition quarantine_file :: "fs_path \<Rightarrow> string \<Rightarrow> string \<Rightarrow> fs_path" where
  "quarantine_file base operation backup = path_join (quarantine_root base operation) (payload_name backup)"

definition entry_quarantined :: "ret_env \<Rightarrow> string \<Rightarrow> manifest_entry \<Rightarrow> ret_world \<Rightarrow> bool" where
  "entry_quarantined ev operation e w \<longleftrightarrow>
     (case re_profiles ev (me_profile e) of
        None \<Rightarrow> False
      | Some base \<Rightarrow> payload_at ev e (quarantine_file base operation (me_backup e)) w
          \<and> on_ledger (\<lambda>rows. map_option lg_state (row_at rows operation (me_backup e)) = Some QUARANTINED) w)"

lemma quarantine_file_in_store: "re_profiles ev profile = Some base \<Longrightarrow> in_store ev (quarantine_file base i b)"
  unfolding in_store_def
  by (intro exI [of _ profile] exI [of _ base]) (simp add: path_under_def quarantine_file_def quarantine_root_def path_join_def)

lemma stable_entry_quarantined: "others_keep ev \<Longrightarrow> stable ev (entry_quarantined ev operation e)"
  unfolding entry_quarantined_def
  by (cases "re_profiles ev (me_profile e)")
    (auto intro!: stable_conj stable_payload_at stable_on_ledger quarantine_file_in_store simp: stable_def [of ev "\<lambda>w. False"])

lemma quarantine_progress_done:
  assumes "planned ev mf items" "quarantine_progress ev mf items w" "e \<in> set (mf_entries mf)"
  shows "entry_quarantined ev (mf_operation mf) e w"
proof -
  from assms(1) have "map pe_entry items = mf_entries mf" by (simp add: planned_def)
  then have "set (mf_entries mf) = pe_entry ` set items" by (metis list.set_map)
  with assms(3) obtain item where item: "item \<in> set items" "e = pe_entry item" by auto
  with assms(1) obtain base where "re_profiles ev (me_profile e) = Some base" "pe_quarantine item = quarantine_file base (mf_operation mf) (me_backup e)"
    by (auto simp: planned_def quarantine_file_def)
  with item assms(2) show ?thesis
    by (auto simp: entry_quarantined_def quarantine_progress_def quarantined_def on_ledger_def item_state_def)
qed

lemma hoare_quarantine_locked:
  assumes ev: "others_keep ev" and mf: "trusted ev mf"
  shows "hoare (on_ledger keyed) (quarantine_locked ev mf job) (\<lambda>_ w. \<forall>e\<in>set (mf_entries mf). entry_quarantined ev (mf_operation mf) e w) (\<lambda>_ _. True)"
proof -
  note st = stable_on_ledger [of ev keyed]
  have "hoare (on_ledger keyed) (for_each (quarantine_item ev mf prior) items) (\<lambda>_ w. \<forall>e\<in>set (mf_entries mf). entry_quarantined ev (mf_operation mf) e w) (\<lambda>_ _. True)"
    if items: "planned ev mf items" for prior items
  proof (rule hoare_conseq)
    show "hoare (quarantine_progress ev mf []) (for_each (quarantine_item ev mf prior) items) (\<lambda>_. quarantine_progress ev mf items) (\<lambda>_ _. True)"
      by (rule hoare_loop) (rule hoare_quarantine_item [OF items mf _ ev])
  qed (auto simp: quarantine_progress_def intro: quarantine_progress_done [OF items])
  then have "hoare (\<lambda>w. on_ledger keyed w \<and> planned ev mf items) (thenp (assert_boundaries ev job) (thenp (for_each (ensure_dirs_item ev) items)
       (thenp (for_each (prepare_item ev mf) items) (for_each (quarantine_item ev mf prior) items))))
      (\<lambda>_ w. \<forall>e\<in>set (mf_entries mf). entry_quarantined ev (mf_operation mf) e w) (\<lambda>_ _. True)" for items prior
    by - (rule hoare_pure, erule conjunct2, rule hoare_pre [OF hoare_keeps_then [OF keeps_assert_boundaries [OF st]
        hoare_keeps_then [OF keeps_loop [OF keeps_keyed_ensure_dirs] hoare_keeps_then [OF keeps_loop [OF keeps_keyed_prepare]]]]], auto)
  then show ?thesis
    unfolding quarantine_locked_def
    by (intro hoare_keeps_then [OF keeps_assert_boundaries [OF st]] hoare_keeps_seq [OF keeps_prior_ops [OF st]]
        hoare_keeps_then [OF keeps_assert_preflight [OF st]] hoare_bind [OF hoare_plan]) auto
qed

lemma hoare_with_sender_returns:
  assumes "stable ev P" "\<And>v. stable ev (Q v)" "hoare P p Q (\<lambda>_ _. True)"
  shows "hoare P (with_sender ev p) Q (\<lambda>_ _. True)"
  unfolding with_sender_def
proof (rule hoare_keeps_then [OF keeps_acquire_sender [OF assms(1)]])
  have "hoare (Q v) (set_sender False) (\<lambda>_. Q v) (\<lambda>_ _. True)" for v
    using assms(2) by (auto simp: hoare_def set_sender_def stable_def)
  then show "hoare P (finallyp p (\<lambda>_. set_sender False)) Q (\<lambda>_ _. True)"
    by (intro hoare_finallyp [OF assms(3)]) (auto simp: hoare_def split: prod.splits sum.splits)
qed simp

lemma hoare_quarantine:
  assumes ev: "others_keep ev"
  shows "hoare (on_ledger keyed) (quarantine ev operation job)
    (\<lambda>_ w. \<exists>mf. trusted ev mf \<and> mf_operation mf = operation \<and> (\<forall>e\<in>set (mf_entries mf). entry_quarantined ev operation e w)) (\<lambda>_ _. True)"
  unfolding quarantine_def
proof (rule hoare_bind [OF hoare_load_manifest [OF stable_on_ledger]])
  fix mf :: retirement_manifest
  note st = stable_on_ledger [of ev keyed]
  let ?Q = "\<lambda>w. \<forall>e\<in>set (mf_entries mf). entry_quarantined ev (mf_operation mf) e w"
  have Q: "stable ev ?Q" by (intro stable_ball stable_entry_quarantined ev)
  have run: "hoare (on_ledger keyed) (thenp (require_connection ev) (thenp (assert_operation_binding ev mf False)
      (thenp (assert_phase_admissible ev mf ''quarantine'')
      (thenp (with_sender ev (quarantine_locked ev mf job)) (retirement_status ev (Some operation)))))) (\<lambda>_. ?Q) (\<lambda>_ _. True)" if "trusted ev mf"
    by (intro hoare_keeps_then [OF keeps_require_connection] hoare_keeps_then [OF keeps_assert_operation_binding [OF st]]
        hoare_keeps_then [OF keeps_assert_phase_admissible [OF st]]
        hoare_thenp [OF hoare_with_sender_returns [OF st Q hoare_quarantine_locked [OF ev that]]] hoare_keeps [OF keeps_retirement_status [OF Q]]) auto
  show "hoare (\<lambda>w. on_ledger keyed w \<and> trusted ev mf \<and> mf_operation mf = operation)
      (thenp (require_connection ev) (thenp (assert_operation_binding ev mf False)
      (thenp (assert_phase_admissible ev mf ''quarantine'')
      (thenp (with_sender ev (quarantine_locked ev mf job)) (retirement_status ev (Some operation))))))
      (\<lambda>_ w. \<exists>mf. trusted ev mf \<and> mf_operation mf = operation \<and> (\<forall>e\<in>set (mf_entries mf). entry_quarantined ev operation e w)) (\<lambda>_ _. True)"
    by (rule hoare_pure [of _ "trusted ev mf \<and> mf_operation mf = operation"], simp, rule hoare_conseq [OF run]) auto
qed simp

text \<open>What a triple says of a run that returns.\<close>

lemma hoare_returned: "hoare P p (\<lambda>_. Q) (\<lambda>_ _. True) \<Longrightarrow> P w \<Longrightarrow> \<not> isl (fst (p w)) \<Longrightarrow> Q (snd (p w))"
  by (drule (1) hoareD) (auto split: prod.splits sum.splits)

section \<open>Purge\<close>

definition purge_progress :: "retirement_manifest \<Rightarrow> plan_entry list \<Rightarrow> ledger_row list \<Rightarrow> bool" where
  "purge_progress mf seen rows \<longleftrightarrow> keyed rows \<and> (\<forall>item\<in>set seen. item_state mf item {PURGED} rows)"

lemma purge_progress_row:
  "hoare (on_ledger (purge_progress mf seen)) (write_row ev mf PURGED x f) (\<lambda>_. on_ledger (purge_progress mf (seen @ [x]))) (\<lambda>_ _. True)"
  by (rule hoare_conseq [OF hoare_write_row [OF stable_on_ledger [of ev "purge_progress mf seen"] tableless_on_ledger
        stable_on_ledger [of ev "purge_progress mf (seen @ [x])"]]])
    (auto simp: on_ledger_def purge_progress_def keyed_upsert item_state_def row_at_upsert split: option.splits)

lemma hoare_purge_known:
  "hoare (\<lambda>w. on_ledger (purge_progress mf seen) w \<and> on_ledger (item_state mf x {state}) w) (purge_known ev mf x state)
     (\<lambda>_. on_ledger (purge_progress mf (seen @ [x]))) (\<lambda>_ _. True)"
proof -
  let ?J = "on_ledger (purge_progress mf seen)" and ?K = "on_ledger (purge_progress mf (seen @ [x]))"
  note st = stable_on_ledger [of ev "purge_progress mf seen"]
  note row = purge_progress_row [of mf seen ev x None]
  have gone: "hoare ?J (thenp (reject a m) (seqp (absent ev b p) (\<lambda>source_gone. thenp (reject (\<not> source_gone) m') (write_row ev mf PURGED x None))))
      (\<lambda>_. ?K) (\<lambda>_ _. True)" for a b p m m'
    by (intro hoare_keeps_then [OF keeps_reject] hoare_keeps_seq [OF keeps_absent [OF st]] row) auto
  have delete: "hoare ?J (thenp (verify_payload ev e p c) (thenp (assert_retirement_lease ev) (thenp (unlink ev p) (thenp (fsync_dir ev d) (write_row ev mf PURGED x None)))))
      (\<lambda>_. ?K) (\<lambda>_ _. True)" for e p c d
    unfolding unlink_def
    by (intro hoare_keeps_then [OF keeps_verify_payload [OF st]] hoare_keeps_then [OF keeps_assert_retirement_lease [OF st]]
        hoare_keeps_then [OF keeps_keyed_change_fs] hoare_keeps_then [OF keeps_fsync_dir [OF st]] row) auto
  have todo: "hoare ?J (seqp (absent ev b p) (\<lambda>gone. if gone then f else g)) (\<lambda>_. ?K) (\<lambda>_ _. True)"
    if "hoare ?J f (\<lambda>_. ?K) (\<lambda>_ _. True)" "hoare ?J g (\<lambda>_. ?K) (\<lambda>_ _. True)" for b p f g
    by (rule hoare_keeps_seq [OF keeps_absent [OF st]]) (use that in auto)
  have already: "hoare ?K (seqp (absent ev b p) (\<lambda>gone. reject (\<not> gone) m)) (\<lambda>_. ?K) (\<lambda>_ _. True)" for b p m
    by (rule hoare_keeps [where P = ?K]) (auto intro!: keeps_rules stable_on_ledger)
  show ?thesis
    unfolding purge_known_def Let_def
    by (intro hoare_if hoare_pre [OF already] hoare_pre [OF todo [OF gone delete]]) (auto simp: on_ledger_def purge_progress_def)
qed

lemma hoare_purge_item:
  "hoare (on_ledger (purge_progress mf seen)) (purge_item ev mf x) (\<lambda>_. on_ledger (purge_progress mf (seen @ [x]))) (\<lambda>_ _. True)"
proof -
  let ?J = "on_ledger (purge_progress mf seen)"
  note st = stable_on_ledger [of ev "purge_progress mf seen"]
  have "hoare (\<lambda>w. ?J w \<and> (\<forall>b. states b = map_option lg_state (row_at (ledger_of w) (mf_operation mf) b))) (state_at states x)
      (\<lambda>state w. ?J w \<and> on_ledger (item_state mf x {state}) w) (\<lambda>_ _. True)" for states
    by (auto simp: hoare_def state_at_def ret_def throw_def on_ledger_def item_state_def split: option.splits)
  note known = hoare_bind [OF this hoare_purge_known]
  have keyed: "?J w \<Longrightarrow> keyed (ledger_of w)" for w by (simp add: on_ledger_def purge_progress_def)
  show ?thesis
    unfolding purge_item_def
    by (intro hoare_keeps_then [OF keeps_assert_retirement_lease [OF st]] hoare_keeps_then [OF keeps_assert_catalog_eligible [OF st]]
        hoare_bind [OF hoare_states_by_id [OF st keyed] known]) auto
qed

lemma hoare_purge_locked:
  "hoare (on_ledger keyed) (purge_locked ev mf job)
     (\<lambda>_. on_ledger (\<lambda>rows. \<forall>e\<in>set (mf_entries mf). map_option lg_state (row_at rows (mf_operation mf) (me_backup e)) = Some PURGED)) (\<lambda>_ _. True)"
  (is "hoare _ _ (\<lambda>_. ?Q) _")
proof -
  note st = stable_on_ledger [of ev keyed]
  have intent: "keeps (on_ledger keyed) (intent_item ev mf item)" for item
    unfolding intent_item_def by (intro keeps_rules keeps_keyed_write stable_on_ledger)
  have "hoare (on_ledger keyed) (for_each (purge_item ev mf) items) (\<lambda>_. ?Q) (\<lambda>_ _. True)" if items: "planned ev mf items" for items
  proof (rule hoare_conseq)
    show "hoare (on_ledger (purge_progress mf [])) (for_each (purge_item ev mf) items) (\<lambda>_. on_ledger (purge_progress mf items)) (\<lambda>_ _. True)"
      by (rule hoare_loop) (rule hoare_purge_item)
    have "set (mf_entries mf) = pe_entry ` set items" using items by (metis list.set_map planned_def)
    then show "on_ledger (purge_progress mf items) w \<Longrightarrow> ?Q w" for w
      by (auto simp: on_ledger_def purge_progress_def item_state_def)
  qed (auto simp: on_ledger_def purge_progress_def)
  then have "hoare (\<lambda>w. on_ledger keyed w \<and> planned ev mf items) (thenp (assert_boundaries ev job)
      (thenp (for_each (intent_item ev mf) items) (for_each (purge_item ev mf) items))) (\<lambda>_. ?Q) (\<lambda>_ _. True)" for items
    by - (rule hoare_pure, erule conjunct2, rule hoare_pre [OF hoare_keeps_then [OF keeps_assert_boundaries [OF st]
        hoare_keeps_then [OF keeps_loop [OF intent]]]], auto)
  then show ?thesis
    unfolding purge_locked_def
    by (intro hoare_keeps_then [OF keeps_assert_boundaries [OF st]] hoare_keeps_then [OF keeps_assert_receipt]
        hoare_keeps_then [OF keeps_loop [OF keeps_assert_catalog_eligible [OF st]]]
        hoare_keeps_then [OF keeps_assert_purge_ready [OF st]] hoare_bind [OF hoare_plan]) auto
qed

definition purged_with_receipt :: "ret_env \<Rightarrow> string \<Rightarrow> manifest_entry \<Rightarrow> ledger_row list \<Rightarrow> bool" where
  "purged_with_receipt ev operation e rows \<longleftrightarrow>
     map_option lg_state (row_at rows operation (me_backup e)) = Some PURGED \<and> receipted ev operation (me_backup e) (me_sha e)"

lemma hoare_purge:
  "hoare (on_ledger keyed) (purge ev operation job)
    (\<lambda>_ w. \<exists>mf. trusted ev mf \<and> mf_operation mf = operation \<and> (\<forall>e\<in>set (mf_entries mf). purged_with_receipt ev operation e (ledger_of w))) (\<lambda>_ _. True)"
  unfolding purge_def
proof (rule hoare_bind [OF hoare_load_manifest [OF stable_on_ledger]])
  fix mf :: retirement_manifest
  note st = stable_on_ledger [of ev keyed]
  let ?Q = "on_ledger (\<lambda>rows. \<forall>e\<in>set (mf_entries mf). map_option lg_state (row_at rows (mf_operation mf) (me_backup e)) = Some PURGED)"
  have run: "hoare (on_ledger keyed) (thenp (require_connection ev) (thenp (assert_operation_binding ev mf True)
      (thenp (assert_phase_admissible ev mf ''purge'')
      (thenp (with_sender ev (purge_locked ev mf job)) (retirement_status ev (Some operation)))))) (\<lambda>_. ?Q) (\<lambda>_ _. True)"
    by (intro hoare_keeps_then [OF keeps_require_connection] hoare_keeps_then [OF keeps_assert_operation_binding [OF st]]
        hoare_keeps_then [OF keeps_assert_phase_admissible [OF st]]
        hoare_thenp [OF hoare_with_sender_returns [OF st stable_on_ledger hoare_purge_locked]] hoare_keeps [OF keeps_retirement_status [OF stable_on_ledger]]) auto
  show "hoare (\<lambda>w. on_ledger keyed w \<and> trusted ev mf \<and> mf_operation mf = operation)
      (thenp (require_connection ev) (thenp (assert_operation_binding ev mf True)
      (thenp (assert_phase_admissible ev mf ''purge'')
      (thenp (with_sender ev (purge_locked ev mf job)) (retirement_status ev (Some operation))))))
      (\<lambda>_ w. \<exists>mf. trusted ev mf \<and> mf_operation mf = operation \<and> (\<forall>e\<in>set (mf_entries mf). purged_with_receipt ev operation e (ledger_of w))) (\<lambda>_ _. True)"
    by (rule hoare_pure [of _ "trusted ev mf \<and> mf_operation mf = operation"], simp, rule hoare_conseq [OF run])
      (auto simp: on_ledger_def purged_with_receipt_def intro: trusted_receipted)
qed simp

lemmas run_programs = thenp_def seqp_def ret_def throw_def whenp_def finallyp_def reject_def tick_def query_def observe_fs_def lstat_def
  change_fs_def change_ledger_def set_sender_def

lemma thenp_strict: "p = p' \<Longrightarrow> w = w' \<Longrightarrow> thenp p q w = thenp p' q w'"
  by simp

lemma seqp_strict: "p = p' \<Longrightarrow> w = w' \<Longrightarrow> seqp p f w = seqp p' f w'"
  by simp

lemma sample_op_hex: "is_hex64 sample_op"
  by (simp add: sample_op_def)

lemma sample_sha_body: "sample_sha ''body'' = sample_op"
  by (simp add: sample_op_def)

lemmas sample_host = sample_ret_env_def sample_path_def sample_fs_def sample_node_def sample_catalog_def sample_op_hex

lemmas run_store = assert_directory_def assert_trusted_directory_def assert_no_symlink_ancestors_def self_and_parents_def is_link_def
  load_bytes_def writable_by_others_def open_to_others_def MAX_MANIFEST_BYTES_def open_nofollow_def fstat_def path_join_def path_parent_def
  fsync_dir_def path_exists_at_def lstat_node_def mkdir_def rename_noreplace_def unlink_def digest_file_def
  verify_payload_def verify_opened_def verify_settled_def marks_def payload_mismatch_def absent_def path_under_def

lemma load_sample:
  "rw_fs w = sample_fs \<Longrightarrow> load_manifest sample_ret_env sample_op w =
   (Inr \<lparr>mf_operation = sample_op, mf_proposal = sample_sha [], mf_entries = [sample_entry], mf_receipt = sample_receipt\<rparr>, w\<lparr>rw_time := rw_time w + 6\<rparr>)"
  by (cases w) (simp add: load_manifest_def run_programs run_store sample_host Let_def sample_ret_codec_def sample_sha_body
      sample_body_parses [unfolded sample_ret_codec_def] sample_body_def cong: thenp_strict seqp_strict)

lemmas run_ledger = ledger_rows_def ledger_write_def ensure_ledger_def write_row_def ledger_row_for_def rows_of_def ledger_present_def
  same_identity_def same_key_def storable_def upsert_def prior_ops_def states_by_id_def states_of_def state_at_def

lemmas run_checks = acquire_sender_def assert_parent_def with_sender_def flock_def assert_retirement_lease_def require_connection_def
  assert_catalog_eligible_def eligible_row_def assert_jobs_idle_def assert_confirmations_clear_def assert_boundaries_def
  assert_operation_binding_def binding_failure_def row_unbound_def entry_of_def assert_receipt_def receipt_failure_def by_id_def
  assert_phase_admissible_def PHASE_RESUMABLE_def assert_preflight_def preflight_item_def plan_def plan_item_def archive_path_def
  quarantine_root_def payload_name_def ensure_private_dir_def ensure_dirs_item_def prepare_item_def

lemmas run_phases = quarantine_def quarantine_locked_def quarantine_item_def purge_def purge_locked_def intent_item_def purge_item_def purge_known_def
  assert_purge_ready_def purge_ready_item_def retirement_status_def classify_def classify_row_def matches_def shows_payload_def opt_probe_def
  quarantine_path_def availability_map_def LEDGER_STATES_def BLOCKING_STATES_def

lemma sample_quarantine_returns: "\<not> isl (fst (quarantine sample_ret_env sample_op (Some ''j1'') sample_ret_world))"
  by (simp add: quarantine_def load_sample sample_ret_world_def thenp_def seqp_def cong: thenp_strict seqp_strict)
    (simp add: run_programs run_store run_ledger run_checks run_phases sample_host Let_def sample_ret_codec_def sample_entry_def
      cong: thenp_strict seqp_strict)

lemma load_quarantined:
  "rw_fs w = quarantined_fs \<Longrightarrow> load_manifest sample_ret_env sample_op w =
   (Inr \<lparr>mf_operation = sample_op, mf_proposal = sample_sha [], mf_entries = [sample_entry], mf_receipt = sample_receipt\<rparr>, w\<lparr>rw_time := rw_time w + 6\<rparr>)"
  by (cases w) (simp add: load_manifest_def run_programs run_store sample_host Let_def sample_ret_codec_def sample_sha_body quarantined_fs_def
      sample_body_parses [unfolded sample_ret_codec_def] sample_body_def cong: thenp_strict seqp_strict)

lemma sample_purge_returns: "\<not> isl (fst (purge sample_ret_env sample_op (Some ''j1'') quarantined_world))"
  by (simp add: purge_def load_quarantined quarantined_world_def thenp_def seqp_def cong: thenp_strict seqp_strict)
    (simp add: run_programs run_store run_ledger run_checks run_phases sample_host Let_def sample_ret_codec_def sample_entry_def quarantined_fs_def
      sample_ledger_row_def sample_receipt_def copy_of_def del: set_filter cong: thenp_strict seqp_strict)

lemma keyed_quarantined: "keyed (ledger_of quarantined_world)"
  by (simp add: keyed_def ledger_of_def rows_of_def quarantined_world_def)

section \<open>Availability\<close>

text \<open>A map that extends another, names every backup with a blocking row, and calls none of them present.\<close>

definition covers :: "(string \<rightharpoonup> payload_state) \<Rightarrow> ledger_row list \<Rightarrow> (string \<rightharpoonup> payload_state) \<Rightarrow> bool" where
  "covers states rows s \<longleftrightarrow> (\<forall>b. states b \<noteq> None \<longrightarrow> s b \<noteq> None) \<and> (\<forall>r\<in>set rows. lg_state r \<in> set BLOCKING_STATES \<longrightarrow> s (lg_backup r) \<noteq> None)
     \<and> (\<forall>b. s b = Some PRESENT \<longrightarrow> states b = Some PRESENT)"

lemma covers_Cons:
  assumes "covers states' rows s" "\<And>b. states b \<noteq> None \<Longrightarrow> states' b \<noteq> None" "lg_state r \<in> set BLOCKING_STATES \<Longrightarrow> states' (lg_backup r) \<noteq> None"
    "\<And>b. states' b = Some PRESENT \<Longrightarrow> states b = Some PRESENT"
  shows "covers states (r # rows) s"
  unfolding covers_def
proof (intro conjI allI ballI impI)
  show "states b \<noteq> None \<Longrightarrow> s b \<noteq> None" for b
    using assms(1,2) unfolding covers_def by blast
  show "q \<in> set (r # rows) \<Longrightarrow> lg_state q \<in> set BLOCKING_STATES \<Longrightarrow> s (lg_backup q) \<noteq> None" for q
    using assms(1,3) unfolding covers_def by (cases "q = r") auto
  show "s b = Some PRESENT \<Longrightarrow> states b = Some PRESENT" for b
    using assms(1,4) unfolding covers_def by blast
qed

lemma blocking_ledger_state: "s \<in> set BLOCKING_STATES \<Longrightarrow> s \<in> set LEDGER_STATES \<and> s \<noteq> PRESENT"
  by (auto simp: BLOCKING_STATES_def LEDGER_STATES_def)

lemma hoare_availability_of_rows:
  "hoare (\<lambda>_. True) (availability_of_rows ev rows states) (\<lambda>s _. covers states rows s) (\<lambda>_ _. True)"
proof (induction rows arbitrary: states)
  case Nil
  show ?case by (simp add: hoare_ret covers_def)
next
  case (Cons r rows)
  have step: "hoare (\<lambda>_. True) (availability_of_rows ev rows states') (\<lambda>s _. covers states (r # rows) s) (\<lambda>_ _. True)"
    if "\<And>b. states b \<noteq> None \<Longrightarrow> states' b \<noteq> None" "lg_state r \<in> set BLOCKING_STATES \<Longrightarrow> states' (lg_backup r) \<noteq> None"
      "\<And>b. states' b = Some PRESENT \<Longrightarrow> states b = Some PRESENT" for states'
    by (rule hoare_conseq [OF Cons.IH [of states']]) (use that in \<open>auto intro: covers_Cons\<close>)
  have set: "hoare (\<lambda>_. True) (availability_of_rows ev rows (states(lg_backup r \<mapsto> st))) (\<lambda>s _. covers states (r # rows) s) (\<lambda>_ _. True)"
    if "st \<noteq> PRESENT" for st
    by (rule step) (use that in \<open>auto split: if_splits\<close>)
  show ?case
  proof (cases "lg_state r \<in> set BLOCKING_STATES \<or> lg_state r \<notin> set LEDGER_STATES")
    case True
    then show ?thesis using set by (auto dest: blocking_ledger_state)
  next
    case False
    have "hoare (\<lambda>_. True) (seqp (matches ev p r) (\<lambda>ok. availability_of_rows ev rows (if ok then states else states(lg_backup r \<mapsto> FAILED))))
        (\<lambda>s _. covers states (r # rows) s) (\<lambda>_ _. True)" for p
      by (rule hoare_keeps_seq [OF keeps_matches]) (use False set step in \<open>auto simp: stable_def\<close>)
    with False set show ?thesis by (auto split: option.splits)
  qed
qed

lemma availability_of_rows_blocks:
  assumes "availability_of_rows ev rows Map.empty w = (Inr s, w')" "r \<in> set rows" "lg_state r \<in> set BLOCKING_STATES"
  shows "\<exists>st. s (lg_backup r) = Some st \<and> st \<noteq> PRESENT"
  using hoareD [OF hoare_availability_of_rows [of ev rows Map.empty], of w] assms by (auto simp: covers_def)

lemma availability_map_blocks:
  assumes "re_connection ev" "availability_map ev w = (Inr s, w')" "b \<in> blocking_backup_ids (rw_ledger w)"
  shows "\<exists>st. s b = Some st \<and> st \<noteq> PRESENT"
proof -
  from assms(3) obtain r where "r \<in> set (rows_of (rw_ledger w) None)" "lg_state r \<in> set BLOCKING_STATES" "b = lg_backup r"
    by (auto simp: blocking_backup_ids_def)
  with assms(1,2) show ?thesis
    by (auto simp: availability_map_def ledger_rows_def seqp_def query_def split: if_splits dest: availability_of_rows_blocks)
qed

lemma availability_map_sound: "availability_map ev w = (Inr s, w') \<Longrightarrow> s b \<noteq> Some PRESENT"
proof -
  assume "availability_map ev w = (Inr s, w')"
  then obtain rows w1 where "s = Map.empty \<or> availability_of_rows ev rows Map.empty w1 = (Inr s, w')"
    by (auto simp: availability_map_def seqp_def ret_def split: if_splits prod.splits sum.splits)
  then show ?thesis
    using hoareD [OF hoare_availability_of_rows [of ev rows Map.empty], of w1] by (auto simp: covers_def)
qed

lemma sample_available: "availability sample_ret_env ''b1'' sample_ret_world = (Inr PRESENT, sample_ret_world\<lparr>rw_time := 3\<rparr>)"
  by (simp add: availability_def payload_state_of_def run_programs run_store run_ledger run_checks run_phases sample_host sample_ret_world_def Let_def
      cong: thenp_strict seqp_strict)

section \<open>Observation\<close>

fun observing :: "ret_request \<Rightarrow> bool" where
  "observing (Confirm_Retirement isolated operation phase job) = False"
| "observing _ = True"

section \<open>The properties\<close>

text \<open>C22. A quarantine that returns has done its work: there is a manifest whose digest is the operation id, and for each of its entries the
  verified payload lies at its place below \<^verbatim>\<open>.retired\<close> and the ledger says \<^verbatim>\<open>quarantined\<close>, however the operation was resumed and whatever
  files other programs added meanwhile.\<close>

theorem quarantine_completes:
  assumes "others_keep ev" and "keyed (ledger_of w)" and "\<not> isl (fst (quarantine ev operation job w))"
  shows "\<exists>mf. trusted ev mf \<and> mf_operation mf = operation
    \<and> (\<forall>e\<in>set (mf_entries mf). entry_quarantined ev operation e (snd (quarantine ev operation job w)))"
  using hoare_returned [OF hoare_quarantine [OF assms(1)] _ assms(3)] assms(2) by (simp add: on_ledger_def)

theorem quarantine_completes_witness:
  "\<exists>mf. trusted sample_ret_env mf \<and> mf_operation mf = sample_op
    \<and> (\<forall>e\<in>set (mf_entries mf). entry_quarantined sample_ret_env sample_op e (snd (quarantine sample_ret_env sample_op (Some ''j1'') sample_ret_world)))"
  by (rule quarantine_completes [OF others_keep_sample keyed_sample sample_quarantine_returns])

text \<open>C24. A purge that returns has recorded \<^verbatim>\<open>purged\<close> for every entry of its manifest, and the manifest holds a verified receipt for the digest
  of each.\<close>

theorem purge_completes:
  assumes "keyed (ledger_of w)" and "\<not> isl (fst (purge ev operation job w))"
  shows "\<exists>mf. trusted ev mf \<and> mf_operation mf = operation
    \<and> (\<forall>e\<in>set (mf_entries mf). purged_with_receipt ev operation e (ledger_of (snd (purge ev operation job w))))"
  using hoare_returned [OF hoare_purge _ assms(2)] assms(1) by (simp add: on_ledger_def)

theorem purge_completes_witness:
  "\<exists>mf. trusted sample_ret_env mf \<and> mf_operation mf = sample_op
    \<and> (\<forall>e\<in>set (mf_entries mf). purged_with_receipt sample_ret_env sample_op e (ledger_of (snd (purge sample_ret_env sample_op (Some ''j1'') quarantined_world))))"
  by (rule purge_completes [OF keyed_quarantined sample_purge_returns])

text \<open>Preparing a retirement, its status, the classification at startup and the availability of a backup never change a file or the ledger.\<close>

theorem observation_changes_nothing:
  assumes "\<And>n fs. re_others ev n fs = fs" and "observing request"
  shows "rw_fs (serve ev request w) = rw_fs w \<and> rw_ledger (serve ev request w) = rw_ledger w"
proof -
  let ?P = "\<lambda>v. rw_fs v = rw_fs w \<and> rw_ledger v = rw_ledger w"
  have "stable ev ?P" by (simp add: stable_def assms(1))
  then show ?thesis
    using assms(2)
    by (cases request)
      (auto simp: serve_def dest: keeps_ends [OF keeps_retirement_prepare, of ev ?P w] keeps_ends [OF keeps_retirement_status_rpc, of ev ?P w]
        keeps_ends [OF keeps_retirement_reconcile, of ev ?P w] keeps_ends [OF keeps_availability, of ev ?P w])
qed

theorem observation_changes_nothing_witness:
  "rw_fs (serve sample_ret_env (Prepare_Retirement sample_op ''purge'') quarantined_world) = rw_fs quarantined_world
   \<and> rw_ledger (serve sample_ret_env (Prepare_Retirement sample_op ''purge'') quarantined_world) = rw_ledger quarantined_world"
  by (rule observation_changes_nothing) (simp_all add: sample_ret_env_def)

text \<open>C25. Availability fails closed: a backup is reported \<^verbatim>\<open>present\<close> only if no operation has a blocking ledger row for it (prepared,
  quarantined, purge begun or done, failed or ambiguous) and the observed file at its archive path is a regular file with one link.\<close>

theorem availability_fails_closed:
  assumes "re_connection ev" and "availability ev b w = (Inr PRESENT, w')"
  shows "b \<notin> blocking_backup_ids (rw_ledger w) \<and>
    (\<exists>row base. find (\<lambda>c. ct_id c = b) (ct_backups (re_catalog ev (rw_time w))) = Some row \<and> re_profiles ev (ct_profile row) = Some base
       \<and> shows_payload (rw_fs w' (archive_path base b)))"
proof -
  from assms obtain w1 row base where r: "find (\<lambda>c. ct_id c = b) (ct_backups (re_catalog ev (rw_time w))) = Some row"
      "re_profiles ev (ct_profile row) = Some base" "payload_state_of ev base b w1 = (Inr PRESENT, w')" "rw_ledger w1 = rw_ledger w"
    by (auto simp: availability_def seqp_def query_def ret_def bind_eq_Some_conv split: if_splits option.splits prod.splits sum.splits)
  then obtain s w2 where s: "availability_map ev w1 = (Inr s, w2)"
      "(case s b of Some blocking \<Rightarrow> ret blocking | None \<Rightarrow> seqp (lstat ev (archive_path base b)) (\<lambda>e. ret (if shows_payload e then PRESENT else MISSING))) w2
       = (Inr PRESENT, w')"
    by (auto simp: payload_state_of_def seqp_def split: prod.splits sum.splits)
  have present: "s b \<noteq> Some PRESENT" by (rule availability_map_sound [OF s(1)])
  then have none: "s b = None" using s(2) by (auto simp: ret_def split: option.splits)
  then have "b \<notin> blocking_backup_ids (rw_ledger w)"
    using availability_map_blocks [OF assms(1) s(1), of b] r(4) by auto
  moreover have "shows_payload (rw_fs w' (archive_path base b))"
    using none s(2) by (auto simp: seqp_def lstat_def observe_fs_def Let_def ret_def split: if_splits)
  ultimately show ?thesis using r(1,2) by auto
qed

theorem availability_fails_closed_witness:
  "''b1'' \<notin> blocking_backup_ids (rw_ledger sample_ret_world) \<and>
    (\<exists>row base. find (\<lambda>c. ct_id c = ''b1'') (ct_backups (re_catalog sample_ret_env (rw_time sample_ret_world))) = Some row
       \<and> re_profiles sample_ret_env (ct_profile row) = Some base
       \<and> shows_payload (rw_fs (sample_ret_world\<lparr>rw_time := 3\<rparr>) (archive_path base ''b1'')))"
  by (rule availability_fails_closed [OF _ sample_available]) (simp add: sample_ret_env_def)

section \<open>Two active operations\<close>

text \<open>The ledger refuses a new row for a payload that another operation holds, but not the renewed preparation of a row that was rolled
  back: the first operation prepares the payload again although a second one has prepared it meanwhile, and both rows are blocking.\<close>

lemma second_active_operation:
  "let w = \<lparr>rw_fs = sample_fs, rw_ledger = Some [sample_ledger_row ROLLED_BACK, (sample_ledger_row PREPARED)\<lparr>lg_operation := ''other''\<rparr>], rw_sender = True, rw_time = 0\<rparr>;
       (r, w') = ledger_write sample_ret_env (sample_ledger_row PREPARED) w
   in r = Inr () \<and> map lg_state (ledger_of w') = [PREPARED, PREPARED]"
  by (simp add: run_programs run_ledger sample_host sample_ledger_row_def ledger_of_def BLOCKING_STATES_def Let_def sample_op_def sample_sha_def
      cong: thenp_strict seqp_strict)

end
