(* ===== verification/Retirement_Rollback.thy ===== *)
theory Retirement_Rollback
  imports Retirement_Outcomes
begin

text \<open>
  What a rollback achieves: every payload that the operation held is back at its archive path.
\<close>

section \<open>One payload\<close>

definition restored :: "ret_env \<Rightarrow> retirement_manifest \<Rightarrow> plan_entry \<Rightarrow> ret_world \<Rightarrow> bool" where
  "restored ev mf item w \<longleftrightarrow> payload_at ev (pe_entry item) (pe_archive item) w \<and> on_ledger (item_state mf item {ROLLED_BACK}) w"

text \<open>The items seen that the operation held at the start are restored; the rows of the others are as at the start.\<close>

definition rollback_progress :: "ret_env \<Rightarrow> retirement_manifest \<Rightarrow> ledger_row list \<Rightarrow> plan_entry list \<Rightarrow> plan_entry list \<Rightarrow> ret_world \<Rightarrow> bool" where
  "rollback_progress ev mf rows0 seen rest w \<longleftrightarrow>
     (on_ledger keyed w \<and> (\<forall>item\<in>{item \<in> set seen. item_state mf item {PREPARED, QUARANTINED} rows0}. restored ev mf item w))
     \<and> on_ledger (\<lambda>rows. \<forall>item\<in>set rest. row_at rows (mf_operation mf) (me_backup (pe_entry item)) = row_at rows0 (mf_operation mf) (me_backup (pe_entry item))) w"

lemma stable_rollback_progress:
  "others_keep ev \<Longrightarrow> (\<And>item. item \<in> set seen \<Longrightarrow> in_store ev (pe_archive item)) \<Longrightarrow> stable ev (rollback_progress ev mf rows0 seen rest)"
  unfolding rollback_progress_def restored_def by (intro stable_conj stable_ball stable_payload_at stable_on_ledger) auto

lemma tableless_rollback_progress: "tableless (rollback_progress ev mf rows0 seen rest)"
  unfolding rollback_progress_def restored_def
  by (intro tableless_conj tableless_ball tableless_payload_at tableless_on_ledger)

lemma planned_distinct: "planned ev mf items \<Longrightarrow> trusted ev mf \<Longrightarrow> distinct (map (\<lambda>item. me_backup (pe_entry item)) items)"
  using trusted_distinct [of ev mf] by (metis (no_types, lifting) comp_def map_eq_conv map_map planned_def)

lemma planned_apart_archive:
  assumes "planned ev mf items" "x \<in> set items" "y \<in> set items" "me_backup (pe_entry y) \<noteq> me_backup (pe_entry x)"
  shows "pe_archive y \<noteq> pe_archive x" "pe_archive y \<noteq> pe_quarantine x"
  using assms(4) planned_names [OF assms(1,2)] planned_names [OF assms(1,3)] by (auto simp: payload_name_def)

lemma rollback_progress_row:
  assumes p: "planned ev mf items" "trusted ev mf" "items = seen @ x # rest" and ev: "others_keep ev"
  shows "hoare (\<lambda>w. rollback_progress ev mf rows0 seen (x # rest) w \<and> payload_at ev (pe_entry x) (pe_archive x) w) (write_row ev mf ROLLED_BACK x None)
     (\<lambda>_. rollback_progress ev mf rows0 (seen @ [x]) rest) (\<lambda>_ _. True)"
proof -
  have store: "in_store ev (pe_archive item)" if "item \<in> set items" for item
    using planned_in_store [OF p(1) that] by simp
  then have st: "stable ev (rollback_progress ev mf rows0 seen (x # rest))" "stable ev (rollback_progress ev mf rows0 (seen @ [x]) rest)"
      "stable ev (payload_at ev (pe_entry x) (pe_archive x))"
    using p(3) by (auto intro!: stable_rollback_progress stable_payload_at ev)
  have apart: "me_backup (pe_entry y) \<noteq> me_backup (pe_entry x)" if "y \<in> set seen \<union> set rest" for y
    using planned_distinct [OF p(1,2)] p(3) that by (auto simp: image_iff)
  show ?thesis
  proof (rule hoare_conseq [OF hoare_write_row [OF stable_conj [OF st(1,3)] tableless_conj [OF tableless_rollback_progress tableless_payload_at] st(2)]])
    fix w n
    assume w: "rollback_progress ev mf rows0 seen (x # rest) w \<and> payload_at ev (pe_entry x) (pe_archive x) w"
    let ?w = "w\<lparr>rw_ledger := Some (upsert (ledger_row_for ev mf ROLLED_BACK x None n) (ledger_of w))\<rparr>"
    have "restored ev mf y ?w" if y: "y \<in> set seen" "item_state mf y {PREPARED, QUARANTINED} rows0" for y
      using w y apart [of y] by (auto simp: rollback_progress_def restored_def payload_at_def on_ledger_def item_state_def row_at_upsert)
    moreover have "restored ev mf x ?w"
      using w by (auto simp: restored_def payload_at_def on_ledger_def item_state_def row_at_upsert split: option.splits)
    ultimately show "rollback_progress ev mf rows0 (seen @ [x]) rest ?w"
      using w apart by (auto simp: rollback_progress_def on_ledger_def keyed_upsert row_at_upsert)
  qed auto
qed

lemma rollback_progress_rename:
  assumes p: "planned ev mf items" "trusted ev mf" "items = seen @ x # rest" and ev: "others_keep ev"
  shows "hoare (\<lambda>w. rollback_progress ev mf rows0 seen (x # rest) w \<and> payload_at ev (pe_entry x) (pe_quarantine x) w)
     (rename_noreplace ev (pe_quarantine x) (pe_archive x))
     (\<lambda>_ w. rollback_progress ev mf rows0 seen (x # rest) w \<and> payload_at ev (pe_entry x) (pe_archive x) w) (\<lambda>_ _. True)"
proof -
  have store: "in_store ev (pe_archive item)" "in_store ev (pe_quarantine item)" if "item \<in> set items" for item
    using planned_in_store [OF p(1) that] by simp_all
  then have st: "stable ev (rollback_progress ev mf rows0 seen (x # rest))" "stable ev (payload_at ev (pe_entry x) (pe_quarantine x))"
      "stable ev (payload_at ev (pe_entry x) (pe_archive x))"
    using p(3) by (auto intro!: stable_rollback_progress stable_payload_at ev)
  have apart: "pe_archive y \<noteq> pe_archive x" "pe_archive y \<noteq> pe_quarantine x" if "y \<in> set seen" for y
    using planned_apart_archive [OF p(1), of x y] planned_distinct [OF p(1,2)] p(3) that by (auto simp: image_iff)
  show ?thesis
  proof (rule hoare_conseq [OF hoare_rename [OF stable_conj [OF st(1,2)] _ stable_conj [OF st(1,3)]]])
    fix w i t
    assume w: "rollback_progress ev mf rows0 seen (x # rest) w \<and> payload_at ev (pe_entry x) (pe_quarantine x) w" and i: "is_payload ev (pe_entry x) i"
    let ?w = "w\<lparr>rw_fs := (rw_fs w)(pe_quarantine x := Enoent, pe_archive x := Node (i\<lparr>nd_ctime := t\<rparr>))\<rparr>"
    have "restored ev mf y ?w" if y: "y \<in> set seen" "item_state mf y {PREPARED, QUARANTINED} rows0" for y
      using w y apart [OF y(1)] by (auto simp: rollback_progress_def restored_def payload_at_def on_ledger_def)
    with w i show "rollback_progress ev mf rows0 seen (x # rest) ?w \<and> payload_at ev (pe_entry x) (pe_archive x) ?w"
      by (auto simp: rollback_progress_def on_ledger_def payload_at_def is_payload_def)
  qed auto
qed

lemma hoare_rollback_held:
  assumes p: "planned ev mf items" "trusted ev mf" "items = seen @ x # rest" and ev: "others_keep ev"
  shows "hoare (rollback_progress ev mf rows0 seen (x # rest)) (rollback_held ev mf prior x)
     (\<lambda>missing w. \<not> missing \<longrightarrow> rollback_progress ev mf rows0 (seen @ [x]) rest w) (\<lambda>_ _. True)"
proof -
  let ?J = "rollback_progress ev mf rows0 seen (x # rest)" and ?K = "rollback_progress ev mf rows0 (seen @ [x]) rest" and ?e = "pe_entry x"
  have store: "in_store ev (pe_archive item)" "in_store ev (pe_quarantine item)" if "item \<in> set items" for item
    using planned_in_store [OF p(1) that] by simp_all
  have xs: "in_store ev (pe_archive x)" "in_store ev (pe_quarantine x)" using store p(3) by auto
  have J: "stable ev ?J" using store p(3) by (auto intro!: stable_rollback_progress ev)
  have JA: "stable ev (\<lambda>w. ?J w \<and> payload_at ev ?e (pe_archive x) w)" and JQ: "stable ev (\<lambda>w. ?J w \<and> payload_at ev ?e (pe_quarantine x) w)"
    by (intro stable_conj J stable_payload_at ev xs)+
  note row = rollback_progress_row [OF p ev] and move = rollback_progress_rename [OF p ev]
  have again: "hoare (\<lambda>w. ?J w \<and> payload_at ev ?e (pe_archive x) w) (thenp (write_row ev mf ROLLED_BACK x None) (ret False))
      (\<lambda>missing w. \<not> missing \<longrightarrow> ?K w) (\<lambda>_ _. True)"
    by (rule hoare_thenp [OF row hoare_ret]) auto
  have moved: "hoare ?J (thenp (verify_payload ev ?e (pe_quarantine x) False) (thenp (assert_retirement_lease ev)
        (thenp (rename_noreplace ev (pe_quarantine x) (pe_archive x)) (thenp (fsync_dir ev d1) (thenp (fsync_dir ev d2)
        (thenp (write_row ev mf ROLLED_BACK x None) (ret False))))))) (\<lambda>missing w. \<not> missing \<longrightarrow> ?K w) (\<lambda>_ _. True)" for d1 d2
    by (rule hoare_before [OF hoare_verify_payload [OF J ev xs(2)] hoare_keeps_then [OF keeps_assert_retirement_lease [OF JQ]
          hoare_thenp [OF move hoare_keeps_then [OF keeps_fsync_dir [OF JA] hoare_keeps_then [OF keeps_fsync_dir [OF JA] again]]]]]) auto
  have there: "hoare ?J (thenp (verify_payload ev ?e (pe_archive x) b) (thenp (write_row ev mf ROLLED_BACK x None) (ret False)))
      (\<lambda>missing w. \<not> missing \<longrightarrow> ?K w) (\<lambda>_ _. True)" for b
    by (rule hoare_before [OF hoare_verify_payload [OF J ev xs(1)] again]) auto
  have missing: "hoare ?J (thenp q (ret True)) (\<lambda>missing w. \<not> missing \<longrightarrow> ?K w) (\<lambda>_ _. True)" for q :: "unit retp"
    by (auto simp: hoare_def thenp_def seqp_def ret_def split: prod.splits sum.splits)
  show ?thesis
    unfolding rollback_held_def Let_def
    by (intro hoare_keeps_seq [OF keeps_absent [OF J]] hoare_if moved there missing) auto
qed

lemma hoare_rollback_item:
  assumes p: "planned ev mf items" "trusted ev mf" "items = seen @ x # rest" and ev: "others_keep ev"
  shows "hoare (rollback_progress ev mf rows0 seen (x # rest)) (rollback_item ev mf prior x)
     (\<lambda>missing w. \<not> missing \<longrightarrow> rollback_progress ev mf rows0 (seen @ [x]) rest w) (\<lambda>_ _. True)"
proof -
  let ?J = "rollback_progress ev mf rows0 seen (x # rest)"
  have J: "stable ev ?J" using planned_in_store [OF p(1)] p(3) by (auto intro!: stable_rollback_progress ev)
  have keyed: "?J w \<Longrightarrow> keyed (ledger_of w)" for w by (simp add: rollback_progress_def on_ledger_def)
  show ?thesis
    unfolding rollback_item_def Let_def
    by (intro hoare_keeps_then [OF keeps_assert_retirement_lease [OF J]] hoare_bind [OF hoare_states_by_id [OF J keyed]] hoare_if hoare_ret
        hoare_pre [OF hoare_rollback_held [OF p ev]])
      (auto simp: rollback_progress_def on_ledger_def item_state_def)
qed

lemma hoare_rollback_items:
  assumes p: "planned ev mf items" "trusted ev mf" and ev: "others_keep ev"
  shows "items = seen @ rest \<Longrightarrow> hoare (rollback_progress ev mf rows0 seen rest) (rollback_items ev mf prior rest)
     (\<lambda>missing w. \<not> missing \<longrightarrow> rollback_progress ev mf rows0 items [] w) (\<lambda>_ _. True)"
proof (induction rest arbitrary: seen)
  case Nil
  then show ?case by (simp add: hoare_ret)
next
  case (Cons x rest)
  then have IH: "hoare (rollback_progress ev mf rows0 (seen @ [x]) rest) (rollback_items ev mf prior rest)
     (\<lambda>missing w. \<not> missing \<longrightarrow> rollback_progress ev mf rows0 items [] w) (\<lambda>_ _. True)" by simp
  have more: "hoare (\<lambda>w. \<not> missing \<longrightarrow> rollback_progress ev mf rows0 (seen @ [x]) rest w)
      (seqp (rollback_items ev mf prior rest) (\<lambda>partial. ret (missing \<or> partial)))
      (\<lambda>missing w. \<not> missing \<longrightarrow> rollback_progress ev mf rows0 items [] w) (\<lambda>_ _. True)" for missing
  proof (cases missing)
    case True
    then show ?thesis by (auto simp: hoare_def seqp_def ret_def split: prod.splits sum.splits)
  next
    case False
    with hoare_seqp [OF IH, of "\<lambda>partial. ret (missing \<or> partial)"] show ?thesis by (simp add: hoare_ret)
  qed
  show ?case
    unfolding rollback_items.simps by (rule hoare_seqp [OF hoare_rollback_item [OF p Cons.prems ev] more])
qed

section \<open>The phase\<close>

definition entry_restored :: "ret_env \<Rightarrow> string \<Rightarrow> manifest_entry \<Rightarrow> ret_world \<Rightarrow> bool" where
  "entry_restored ev operation e w \<longleftrightarrow>
     (case re_profiles ev (me_profile e) of
        None \<Rightarrow> False
      | Some base \<Rightarrow> payload_at ev e (archive_path base (me_backup e)) w
          \<and> on_ledger (\<lambda>rows. map_option lg_state (row_at rows operation (me_backup e)) = Some ROLLED_BACK) w)"

text \<open>The entries whose payload the operation holds.\<close>

definition held_entries :: "retirement_manifest \<Rightarrow> ledger_row list \<Rightarrow> manifest_entry set" where
  "held_entries mf rows = {e \<in> set (mf_entries mf).
     map_option lg_state (row_at rows (mf_operation mf) (me_backup e)) \<in> {Some PREPARED, Some QUARANTINED}}"

lemma stable_entry_restored: "others_keep ev \<Longrightarrow> stable ev (entry_restored ev operation e)"
proof -
  assume ev: "others_keep ev"
  have "in_store ev (archive_path base b)" if "re_profiles ev profile = Some base" for profile base b
    unfolding in_store_def using that by (intro exI [of _ profile] exI [of _ base]) (simp add: path_under_def archive_path_def path_join_def)
  then show ?thesis
    unfolding entry_restored_def
    by (cases "re_profiles ev (me_profile e)") (auto intro!: stable_conj stable_payload_at stable_on_ledger ev simp: stable_def [of ev "\<lambda>w. False"])
qed

lemma rollback_progress_done:
  assumes "planned ev mf items" "rollback_progress ev mf rows0 items [] w" "e \<in> held_entries mf rows0"
  shows "entry_restored ev (mf_operation mf) e w"
proof -
  from assms(1) have "map pe_entry items = mf_entries mf" by (simp add: planned_def)
  then have "set (mf_entries mf) = pe_entry ` set items" by (metis list.set_map)
  with assms(3) obtain item where item: "item \<in> set items" "e = pe_entry item" by (auto simp: held_entries_def)
  with assms(1) obtain base where b: "re_profiles ev (me_profile e) = Some base" "pe_archive item = archive_path base (me_backup e)"
    by (auto simp: planned_def)
  have "item_state mf item {PREPARED, QUARANTINED} rows0"
    using assms(3) item by (auto simp: held_entries_def item_state_def)
  with item assms(2) have "restored ev mf item w" by (auto simp: rollback_progress_def)
  with b item show ?thesis
    by (auto simp: entry_restored_def restored_def on_ledger_def item_state_def)
qed

lemma hoare_rollback_locked:
  assumes ev: "others_keep ev" and mf: "trusted ev mf" and rows0: "keyed rows0"
  shows "hoare (on_ledger (\<lambda>rows. rows = rows0)) (rollback_locked ev mf job)
     (\<lambda>partial w. \<not> partial \<longrightarrow> (\<forall>e\<in>held_entries mf rows0. entry_restored ev (mf_operation mf) e w)) (\<lambda>_ _. True)"
proof -
  note st = stable_on_ledger [of ev "\<lambda>rows. rows = rows0"]
  have run: "hoare (on_ledger (\<lambda>rows. rows = rows0)) (rollback_items ev mf prior items)
     (\<lambda>partial w. \<not> partial \<longrightarrow> (\<forall>e\<in>held_entries mf rows0. entry_restored ev (mf_operation mf) e w)) (\<lambda>_ _. True)"
    if items: "planned ev mf items" for prior items
    by (rule hoare_conseq [OF hoare_rollback_items [OF items mf ev, of "[]" items]])
      (use rows0 in \<open>auto simp: rollback_progress_def on_ledger_def intro: rollback_progress_done [OF items]\<close>)
  have "hoare (\<lambda>w. on_ledger (\<lambda>rows. rows = rows0) w \<and> planned ev mf items) (rollback_items ev mf prior items)
     (\<lambda>partial w. \<not> partial \<longrightarrow> (\<forall>e\<in>held_entries mf rows0. entry_restored ev (mf_operation mf) e w)) (\<lambda>_ _. True)" for prior items
    by (rule hoare_pure, erule conjunct2, rule hoare_pre [OF run]) auto
  then show ?thesis
    unfolding rollback_locked_def
    by (intro hoare_keeps_then [OF keeps_assert_boundaries [OF st]] hoare_keeps_then [OF keeps_assert_no_purge_intent [OF st]]
        hoare_keeps_seq [OF keeps_prior_ops [OF st]] hoare_bind [OF hoare_plan]) auto
qed

lemma hoare_rollback:
  assumes ev: "others_keep ev" and rows0: "keyed rows0"
  shows "hoare (on_ledger (\<lambda>rows. rows = rows0)) (retirement_rollback ev operation job)
    (\<lambda>report w. \<not> rp_partial report \<longrightarrow> (\<exists>mf. trusted ev mf \<and> mf_operation mf = operation \<and> (\<forall>e\<in>held_entries mf rows0. entry_restored ev operation e w)))
    (\<lambda>_ _. True)"
  unfolding retirement_rollback_def
proof (rule hoare_bind [OF hoare_load_manifest [OF stable_on_ledger]])
  fix mf :: retirement_manifest
  note st = stable_on_ledger [of ev "\<lambda>rows. rows = rows0"]
  let ?Q = "\<lambda>partial w. \<not> partial \<longrightarrow> (\<forall>e\<in>held_entries mf rows0. entry_restored ev (mf_operation mf) e w)"
  have Q: "stable ev (?Q partial)" for partial
    by (cases partial) (auto intro!: stable_ball stable_entry_restored ev simp: stable_def [of ev "\<lambda>w. True"])
  have report: "hoare (?Q partial) (seqp (retirement_status ev (Some operation)) (\<lambda>report. ret (report\<lparr>rp_partial := partial\<rparr>)))
      (\<lambda>report. ?Q (rp_partial report)) (\<lambda>_ _. True)" for partial
    by (rule hoare_keeps_seq [OF keeps_retirement_status [OF Q]]) (auto intro: hoare_ret)
  have run: "hoare (on_ledger (\<lambda>rows. rows = rows0)) (thenp (require_connection ev) (thenp (assert_operation_binding ev mf False)
      (thenp (assert_phase_admissible ev mf ''rollback'')
      (seqp (with_sender ev (rollback_locked ev mf job)) (\<lambda>partial.
       seqp (retirement_status ev (Some operation)) (\<lambda>report. ret (report\<lparr>rp_partial := partial\<rparr>)))))))
      (\<lambda>report. ?Q (rp_partial report)) (\<lambda>_ _. True)" if "trusted ev mf"
    by (intro hoare_keeps_then [OF keeps_require_connection] hoare_keeps_then [OF keeps_assert_operation_binding [OF st]]
        hoare_keeps_then [OF keeps_assert_phase_admissible [OF st]]
        hoare_seqp [OF hoare_with_sender_returns [OF st Q hoare_rollback_locked [OF ev that rows0]] report]) auto
  show "hoare (\<lambda>w. on_ledger (\<lambda>rows. rows = rows0) w \<and> trusted ev mf \<and> mf_operation mf = operation)
      (thenp (require_connection ev) (thenp (assert_operation_binding ev mf False)
      (thenp (assert_phase_admissible ev mf ''rollback'')
      (seqp (with_sender ev (rollback_locked ev mf job)) (\<lambda>partial.
       seqp (retirement_status ev (Some operation)) (\<lambda>report. ret (report\<lparr>rp_partial := partial\<rparr>)))))))
      (\<lambda>report w. \<not> rp_partial report \<longrightarrow> (\<exists>mf. trusted ev mf \<and> mf_operation mf = operation \<and> (\<forall>e\<in>held_entries mf rows0. entry_restored ev operation e w)))
      (\<lambda>_ _. True)"
    by (rule hoare_pure [of _ "trusted ev mf \<and> mf_operation mf = operation"], simp, rule hoare_conseq [OF run]) auto
qed simp

lemma hoare_returned_value: "hoare P p Q (\<lambda>_ _. True) \<Longrightarrow> P w \<Longrightarrow> \<not> isl (fst (p w)) \<Longrightarrow> Q (projr (fst (p w))) (snd (p w))"
  by (drule (1) hoareD) (auto split: prod.splits sum.splits)

lemma sample_rollback_returns:
  "\<not> isl (fst (retirement_rollback sample_ret_env sample_op (Some ''j1'') quarantined_world))
   \<and> \<not> rp_partial (projr (fst (retirement_rollback sample_ret_env sample_op (Some ''j1'') quarantined_world)))"
  by (simp add: retirement_rollback_def load_quarantined quarantined_world_def thenp_def seqp_def cong: thenp_strict seqp_strict)
    (simp add: run_programs run_store run_ledger run_checks run_phases rollback_locked_def rollback_item_def rollback_held_def assert_no_purge_intent_def
      sample_host Let_def sample_ret_codec_def sample_entry_def quarantined_fs_def
      sample_ledger_row_def sample_receipt_def copy_of_def del: set_filter cong: thenp_strict seqp_strict)

text \<open>C23. A rollback that returns without calling itself partial has put every payload back: for each entry whose payload the operation
  held, the verified payload is at its archive path again and the ledger says \<^verbatim>\<open>rolled_back\<close>.\<close>

theorem rollback_restores:
  assumes "others_keep ev" and "keyed (ledger_of w)"
    and "\<not> isl (fst (retirement_rollback ev operation job w))" and "\<not> rp_partial (projr (fst (retirement_rollback ev operation job w)))"
  shows "\<exists>mf. trusted ev mf \<and> mf_operation mf = operation
    \<and> (\<forall>e\<in>held_entries mf (ledger_of w). entry_restored ev operation e (snd (retirement_rollback ev operation job w)))"
  using hoare_returned_value [OF hoare_rollback [OF assms(1,2)] _ assms(3)] assms(4) by (simp add: on_ledger_def)

theorem rollback_restores_witness:
  "\<exists>mf. trusted sample_ret_env mf \<and> mf_operation mf = sample_op
    \<and> (\<forall>e\<in>held_entries mf (ledger_of quarantined_world).
         entry_restored sample_ret_env sample_op e (snd (retirement_rollback sample_ret_env sample_op (Some ''j1'') quarantined_world)))"
  using rollback_restores [OF others_keep_sample keyed_quarantined] sample_rollback_returns by blast

end
