(* ===== verification/Web_Auth.thy ===== *)
theory Web_Auth
  imports Programs Iso_Time Py_Text
begin

text \<open>
  The browser boundary of the web process: \<^verbatim>\<open>auth.py\<close> (proxy identity, session store, CSRF tokens) and the handlers of
  \<^verbatim>\<open>web_main.py\<close> that use it (\<open>auth_dependency\<close>, the session bootstrap and the session revocation).
  \<^item> A table row is a \<open>web_session\<close>; instants are stored as ISO text, so the one comparison SQL makes itself (in \<open>prune\<close>) is
    the order of the texts, \<open>iso_le\<close>.  The compatibility columns \<^verbatim>\<open>id\<close> and \<^verbatim>\<open>csrf_token\<close> of old databases are written and never
    read; \<^verbatim>\<open>session_hash\<close> (or \<^verbatim>\<open>id\<close>, which holds the same text) is the primary key.
  \<^item> The environment gives, by the number of the step, what the clock, the token generator and the database answer, and
    whether the root helper revoked every session just before it: SHA-256, Unicode normalisation and case folding of
    text that is not ASCII are parameters.
\<close>

section \<open>State and environment\<close>

datatype web_exn = Http int string bool | Permission_Denied | Lookup_Failed | Bad_Value | Bad_Type | Sqlite_Failed

record web_session =
  ws_hash :: string
  ws_csrf :: string
  ws_actor :: string
  ws_created :: instant
  ws_last_seen :: instant
  ws_expires :: instant
  ws_revoked :: "instant option"

record web_env =
  we_clock :: "nat \<Rightarrow> instant"
  we_token :: "nat \<Rightarrow> string"
  we_db :: "nat \<Rightarrow> io_answer"
  we_revoked_all :: "nat \<Rightarrow> instant option"
  we_sha256 :: "string \<Rightarrow> string"
  we_nfkc :: "string \<Rightarrow> string"
  we_casefold :: "string \<Rightarrow> string"
  we_credential :: "string option"
  we_credential_file :: "nat \<Rightarrow> string option"
  we_origins :: "string list"

record web_world =
  ww_sessions :: "web_session list"
  ww_time :: nat

text \<open>A request: its headers in order with lower-case names, the session cookie and the path.\<close>

record web_request =
  rq_headers :: "(string \<times> string) list"
  rq_cookie :: "string option"
  rq_path :: string

text \<open>What \<open>auth_dependency\<close> leaves for the handler: the actor, \<^verbatim>\<open>request.state.csrf_token\<close>, \<^verbatim>\<open>request.state.session_token\<close> and
  whether the response sets the session cookie.\<close>

record admission =
  ad_actor :: string
  ad_csrf :: "string option"
  ad_session :: string
  ad_sets_cookie :: bool

type_synonym 'a web_program = "(web_world, web_exn, 'a) program"

definition SESSION_TTL :: int where
  "SESSION_TTL = 8 * HOUR"

section \<open>Python and SQLite\<close>

definition is_ascii :: "string \<Rightarrow> bool" where
  "is_ascii s \<longleftrightarrow> list_all (\<lambda>c. of_char c < (128 :: nat)) s"

definition ascii_lower :: "char \<Rightarrow> char" where
  "ascii_lower c = (if (65 :: nat) \<le> of_char c \<and> of_char c < (91 :: nat) then char_of (of_char c + 32 :: nat) else c)"

definition normalize_nfkc :: "web_env \<Rightarrow> string \<Rightarrow> string" where
  "normalize_nfkc ev s = (if is_ascii s then s else we_nfkc ev s)"

definition casefold :: "web_env \<Rightarrow> string \<Rightarrow> string" where
  "casefold ev s = (if is_ascii s then map ascii_lower s else we_casefold ev s)"

text \<open>\<^verbatim>\<open>hmac.compare_digest\<close> of two texts refuses text that is not ASCII.\<close>

definition compare_digest :: "string \<Rightarrow> string \<Rightarrow> web_exn + bool" where
  "compare_digest a b = (if is_ascii a \<and> is_ascii b then Inr (a = b) else Inl Bad_Type)"

definition lift_result :: "web_exn + 'a \<Rightarrow> 'a web_program" where
  "lift_result r w = (r, w)"

definition web_tick :: "(nat \<Rightarrow> web_exn + 'a) \<Rightarrow> 'a web_program" where
  "web_tick f w = (f (ww_time w), w\<lparr>ww_time := Suc (ww_time w)\<rparr>)"

abbreviation now :: "web_env \<Rightarrow> instant web_program" where
  "now ev \<equiv> web_tick (\<lambda>n. Inr (we_clock ev n))"

abbreviation token_urlsafe :: "web_env \<Rightarrow> string web_program" where
  "token_urlsafe ev \<equiv> web_tick (\<lambda>n. Inr (we_token ev n))"

definition revoke_rows :: "instant \<Rightarrow> web_session list \<Rightarrow> web_session list" where
  "revoke_rows t = map (\<lambda>r. if ws_revoked r = None then r\<lparr>ws_revoked := Some t\<rparr> else r)"

text \<open>The table a statement sees: the root helper may have revoked every session just before.\<close>

definition visible :: "web_env \<Rightarrow> web_world \<Rightarrow> web_session list" where
  "visible ev w = (case we_revoked_all ev (ww_time w) of None \<Rightarrow> ww_sessions w | Some t \<Rightarrow> revoke_rows t (ww_sessions w))"

definition select_rows :: "web_env \<Rightarrow> (web_session list \<Rightarrow> 'a) \<Rightarrow> 'a web_program" where
  "select_rows ev f w =
     (if we_db ev (ww_time w) = Io_Done then Inr (f (visible ev w)) else Inl Sqlite_Failed,
      \<lparr>ww_sessions = visible ev w, ww_time = Suc (ww_time w)\<rparr>)"

text \<open>A statement and its commit.  A failure loses the change, or reports an error for a change that is kept.\<close>

definition change_rows :: "web_env \<Rightarrow> (web_session list \<Rightarrow> web_exn + web_session list) \<Rightarrow> unit web_program" where
  "change_rows ev f w =
     (let w1 = \<lparr>ww_sessions = visible ev w, ww_time = Suc (ww_time w)\<rparr>
      in if we_db ev (ww_time w) = Io_Lost then (Inl Sqlite_Failed, w1)
         else case f (visible ev w) of
                Inl e \<Rightarrow> (Inl e, w1)
              | Inr rows \<Rightarrow> (if we_db ev (ww_time w) = Io_Kept then Inl Sqlite_Failed else Inr (), w1\<lparr>ww_sessions := rows\<rparr>))"

definition update_where :: "web_env \<Rightarrow> string \<Rightarrow> (web_session \<Rightarrow> web_session) \<Rightarrow> unit web_program" where
  "update_where ev h g = change_rows ev (\<lambda>rows. Inr (map (\<lambda>r. if ws_hash r = h then g r else r) rows))"

section \<open>Proxy identity\<close>

definition load_proxy_credential :: "web_env \<Rightarrow> string web_program" where
  "load_proxy_credential ev = web_tick (\<lambda>n. case we_credential_file ev n of
     None \<Rightarrow> Inl Permission_Denied
   | Some s \<Rightarrow> (let v = strip s
       in if v = [] \<or> CHR 0x00 \<in> set v \<or> CHR 0x0A \<in> set v \<or> CHR 0x0D \<in> set v then Inl Permission_Denied else Inr v))"

definition actor_first :: string where
  "actor_first = ''abcdefghijklmnopqrstuvwxyz0123456789''"

definition actor_rest :: string where
  "actor_rest = ''abcdefghijklmnopqrstuvwxyz0123456789@._-''"

definition actor_name :: "string \<Rightarrow> bool" where
  "actor_name s \<longleftrightarrow> s \<noteq> [] \<and> length s \<le> 128 \<and> hd s \<in> set actor_first \<and> list_all (\<lambda>c. c \<in> set actor_rest) (tl s)"

definition normalize_actor :: "web_env \<Rightarrow> string \<Rightarrow> web_exn + string" where
  "normalize_actor ev s =
     (let normalized = casefold ev (strip (normalize_nfkc ev s))
      in if actor_name normalized then Inr normalized else Inl Bad_Value)"

text \<open>\<^verbatim>\<open>_headers(headers).get(name, "")\<close>: of a repeated header the last one counts; \<^verbatim>\<open>request.headers.get\<close> gives the first.\<close>

definition folded_header :: "web_env \<Rightarrow> (string \<times> string) list \<Rightarrow> string \<Rightarrow> string" where
  "folded_header ev headers name =
     (case map_of (rev (map (\<lambda>(k, v). (casefold ev k, v)) headers)) name of None \<Rightarrow> [] | Some v \<Rightarrow> v)"

definition first_header :: "web_request \<Rightarrow> string \<Rightarrow> string option" where
  "first_header rq name = map_of (rq_headers rq) name"

definition expected_credential :: "web_env \<Rightarrow> string web_program" where
  "expected_credential ev = (case we_credential ev of Some c \<Rightarrow> ret c | None \<Rightarrow> load_proxy_credential ev)"

definition authenticate_proxy :: "web_env \<Rightarrow> (string \<times> string) list \<Rightarrow> string web_program" where
  "authenticate_proxy ev headers =
     seqp (expected_credential ev) (\<lambda>expected.
     seqp (lift_result (compare_digest (folded_header ev headers ''x-game-control-proxy'') expected)) (\<lambda>same.
     if \<not> same then throw Permission_Denied
     else let identity = folded_header ev headers ''x-authentik-username''
          in if identity = [] then throw Lookup_Failed
             else (case normalize_actor ev identity of Inl _ \<Rightarrow> throw Lookup_Failed | Inr actor \<Rightarrow> ret actor)))"

abbreviation token_hash :: "web_env \<Rightarrow> string \<Rightarrow> string" where
  "token_hash ev \<equiv> we_sha256 ev"

definition validate_origin :: "string option \<Rightarrow> string list \<Rightarrow> bool" where
  "validate_origin origin allowed = (case origin of None \<Rightarrow> False | Some s \<Rightarrow> s \<noteq> [] \<and> s \<in> set allowed)"

section \<open>The session store\<close>

definition create_session :: "web_env \<Rightarrow> string \<Rightarrow> (string \<times> string) web_program" where
  "create_session ev actor =
     seqp (lift_result (normalize_actor ev actor)) (\<lambda>actor.
     seqp (now ev) (\<lambda>t.
     seqp (token_urlsafe ev) (\<lambda>session.
     seqp (token_urlsafe ev) (\<lambda>csrf.
     thenp (select_rows ev (\<lambda>_. ()))
     (thenp (change_rows ev (\<lambda>rows.
        if token_hash ev session \<in> ws_hash ` set rows then Inl Sqlite_Failed
        else Inr (rows @ [\<lparr>ws_hash = token_hash ev session, ws_csrf = token_hash ev csrf, ws_actor = actor, ws_created = t,
          ws_last_seen = t, ws_expires = t + SESSION_TTL, ws_revoked = None\<rparr>])))
     (ret (session, csrf)))))))"

definition web_session_row :: "web_env \<Rightarrow> string \<Rightarrow> web_session option web_program" where
  "web_session_row ev session = (if session = [] then ret None
     else select_rows ev (find (\<lambda>r. ws_hash r = token_hash ev session)))"

text \<open>The condition under which \<open>validate\<close> refuses, evaluated left to right.\<close>

definition csrf_refused :: "web_env \<Rightarrow> web_session \<Rightarrow> string option \<Rightarrow> string \<Rightarrow> instant \<Rightarrow> web_exn + bool" where
  "csrf_refused ev r csrf actor t =
     and_then (compare_digest (ws_actor r) actor) (\<lambda>same.
       if \<not> same then Inr True
       else case csrf of None \<Rightarrow> Inr True
            | Some c \<Rightarrow> if c = [] then Inr True
                else and_then (compare_digest (ws_csrf r) (token_hash ev c)) (\<lambda>known.
                  Inr (\<not> known \<or> ws_revoked r \<noteq> None \<or> ws_expires r \<le> t)))"

definition validate :: "web_env \<Rightarrow> string \<Rightarrow> string option \<Rightarrow> string \<Rightarrow> bool web_program" where
  "validate ev session csrf actor = (case normalize_actor ev actor of
     Inl _ \<Rightarrow> ret False
   | Inr actor \<Rightarrow>
       seqp (web_session_row ev session) (\<lambda>found. case found of
         None \<Rightarrow> ret False
       | Some r \<Rightarrow>
           seqp (now ev) (\<lambda>t.
           seqp (lift_result (csrf_refused ev r csrf actor t)) (\<lambda>refused.
           if refused then ret False
           else thenp (update_where ev (ws_hash r) (\<lambda>r. r\<lparr>ws_last_seen := t\<rparr>)) (ret True)))))"

text \<open>\<^verbatim>\<open>get\<close> reads the row back into instants; the texts are those \<^verbatim>\<open>_iso\<close> wrote.\<close>

abbreviation get_session :: "web_env \<Rightarrow> string \<Rightarrow> web_session option web_program" where
  "get_session \<equiv> web_session_row"

definition validate_session :: "web_env \<Rightarrow> string \<Rightarrow> string \<Rightarrow> bool \<Rightarrow> bool web_program" where
  "validate_session ev session actor touch = (case normalize_actor ev actor of
     Inl _ \<Rightarrow> ret False
   | Inr actor \<Rightarrow>
       seqp (get_session ev session) (\<lambda>found.
       seqp (now ev) (\<lambda>t. case found of
         None \<Rightarrow> ret False
       | Some r \<Rightarrow>
           if ws_actor r \<noteq> actor \<or> ws_revoked r \<noteq> None \<or> ws_expires r \<le> t then ret False
           else thenp (whenp touch (update_where ev (ws_hash r) (\<lambda>r. r\<lparr>ws_last_seen := t\<rparr>))) (ret True))))"

definition touch_session :: "web_env \<Rightarrow> string \<Rightarrow> bool web_program" where
  "touch_session ev session =
     seqp (now ev) (\<lambda>t.
     seqp (get_session ev session) (\<lambda>found. case found of
       None \<Rightarrow> ret False
     | Some r \<Rightarrow>
         if ws_revoked r \<noteq> None \<or> ws_expires r \<le> t then ret False
         else if ws_expires r - t > SESSION_TTL div 2 then ret False
         else thenp (update_where ev (token_hash ev session) (\<lambda>r. r\<lparr>ws_expires := t + SESSION_TTL, ws_last_seen := t\<rparr>))
              (ret True)))"

definition rotate_csrf :: "web_env \<Rightarrow> string \<Rightarrow> string \<Rightarrow> string web_program" where
  "rotate_csrf ev session actor =
     seqp (lift_result (normalize_actor ev actor)) (\<lambda>actor.
     seqp (web_session_row ev session) (\<lambda>found. case found of
       None \<Rightarrow> throw Bad_Value
     | Some r \<Rightarrow>
         seqp (now ev) (\<lambda>t.
         seqp (lift_result (compare_digest (ws_actor r) actor)) (\<lambda>same.
         if \<not> same \<or> ws_revoked r \<noteq> None \<or> ws_expires r \<le> t then throw Bad_Value
         else seqp (token_urlsafe ev) (\<lambda>csrf.
              thenp (select_rows ev (\<lambda>_. ()))
              (thenp (update_where ev (ws_hash r) (\<lambda>r. r\<lparr>ws_csrf := token_hash ev csrf, ws_last_seen := t\<rparr>))
              (ret csrf)))))))"

definition revoke_session :: "web_env \<Rightarrow> string \<Rightarrow> unit web_program" where
  "revoke_session ev session =
     seqp (now ev) (\<lambda>t. update_where ev (token_hash ev session) (\<lambda>r. r\<lparr>ws_revoked := Some t\<rparr>))"

definition revoke_all :: "web_env \<Rightarrow> nat web_program" where
  "revoke_all ev =
     seqp (now ev) (\<lambda>t.
     seqp (getp (\<lambda>w. length (filter (\<lambda>r. ws_revoked r = None) (visible ev w)))) (\<lambda>rowcount.
     thenp (change_rows ev (\<lambda>rows. Inr (revoke_rows t rows))) (ret rowcount)))"

definition prunable :: "instant \<Rightarrow> web_session \<Rightarrow> bool" where
  "prunable cutoff r \<longleftrightarrow>
     (iso_le (ws_expires r) cutoff \<or> ws_revoked r \<noteq> None)
     \<and> (case ws_revoked r of None \<Rightarrow> True | Some t \<Rightarrow> iso_le t cutoff)"

definition prune :: "web_env \<Rightarrow> int \<Rightarrow> int \<Rightarrow> nat web_program" where
  "prune ev older_than batch_size =
     (if older_than \<le> 0 \<or> \<not> (1 \<le> batch_size \<and> batch_size \<le> 5000) then throw Bad_Value
      else seqp (now ev) (\<lambda>t.
           seqp (select_rows ev (\<lambda>rows. map ws_hash (take (nat batch_size)
             (sort_key (iso_rank \<circ> ws_expires) (filter (prunable (t - older_than)) rows))))) (\<lambda>hashes.
           if hashes = [] then ret 0
           else thenp (change_rows ev (\<lambda>rows. Inr (filter (\<lambda>r. ws_hash r \<notin> set hashes) rows))) (ret (length hashes)))))"

section \<open>The handlers\<close>

text \<open>The cleanup of a request, whose failure is not the request's.\<close>

definition prune_quietly :: "web_env \<Rightarrow> unit web_program" where
  "prune_quietly ev = catchp (thenp (prune ev (2 * DAY) 256) (ret ()))
     (\<lambda>e. if e \<in> {Sqlite_Failed, Bad_Value} then ret () else throw e)"

definition proxy_actor :: "web_env \<Rightarrow> web_request \<Rightarrow> string web_program" where
  "proxy_actor ev rq = catchp (authenticate_proxy ev (rq_headers rq))
     (\<lambda>e. case e of Lookup_Failed \<Rightarrow> throw (Http 401 ''identity required'' False)
                  | Permission_Denied \<Rightarrow> throw (Http 403 ''forbidden'' False)
                  | _ \<Rightarrow> throw e)"

definition open_session :: "web_env \<Rightarrow> web_request \<Rightarrow> bool \<Rightarrow> string \<Rightarrow> admission web_program" where
  "open_session ev rq mutation actor =
     (let session = (case rq_cookie rq of None \<Rightarrow> [] | Some s \<Rightarrow> s)
      in if session = [] then
           if mutation then throw (Http 401 ''session required'' False)
           else seqp (create_session ev actor) (\<lambda>(session, csrf).
                ret \<lparr>ad_actor = actor, ad_csrf = Some csrf, ad_session = session, ad_sets_cookie = True\<rparr>)
         else if mutation then
           seqp (validate ev session (first_header rq ''x-csrf-token'') actor) (\<lambda>ok.
           if \<not> ok then throw (Http 403 ''csrf validation failed'' False)
           else if \<not> validate_origin (first_header rq ''origin'') (we_origins ev)
                then throw (Http 403 ''origin validation failed'' False)
           else ret \<lparr>ad_actor = actor, ad_csrf = None, ad_session = session, ad_sets_cookie = False\<rparr>)
         else
           seqp (validate_session ev session actor False) (\<lambda>ok.
           if \<not> ok then throw (Http 401 ''session required'' True)
           else seqp (if rq_path rq \<noteq> ''/api/v1/stream'' then touch_session ev session else ret False) (\<lambda>extended.
                ret \<lparr>ad_actor = actor, ad_csrf = None, ad_session = session, ad_sets_cookie = extended\<rparr>)))"

definition auth_dependency :: "web_env \<Rightarrow> web_request \<Rightarrow> bool \<Rightarrow> admission web_program" where
  "auth_dependency ev rq mutation =
     seqp (proxy_actor ev rq) (\<lambda>actor.
     seqp (open_session ev rq mutation actor) (\<lambda>ad.
     thenp (prune_quietly ev) (ret ad)))"

record session_reply =
  sr_actor :: string
  sr_csrf :: "string option"
  sr_expires :: "instant option"

definition session_endpoint :: "web_env \<Rightarrow> web_request \<Rightarrow> session_reply web_program" where
  "session_endpoint ev rq =
     seqp (auth_dependency ev rq False) (\<lambda>ad.
     let token = (case rq_cookie rq of None \<Rightarrow> [] | Some s \<Rightarrow> s);
         reply = (\<lambda>csrf current. \<lparr>sr_actor = ad_actor ad, sr_csrf = csrf, sr_expires = map_option ws_expires current\<rparr>)
     in seqp (if token = [] then ret None else get_session ev token) (\<lambda>current.
        if ad_csrf ad = None \<and> token \<noteq> [] then
          seqp (catchp (rotate_csrf ev token (ad_actor ad))
                 (\<lambda>e. if e = Bad_Value then throw (Http 401 ''session required'' False) else throw e)) (\<lambda>csrf.
          seqp (get_session ev token) (\<lambda>current. ret (reply (Some csrf) current)))
        else ret (reply (ad_csrf ad) current)))"

text \<open>The revocation; its answer also clears the cookie.\<close>

definition revoke_endpoint :: "web_env \<Rightarrow> web_request \<Rightarrow> unit web_program" where
  "revoke_endpoint ev rq =
     thenp (auth_dependency ev rq True)
     (case rq_cookie rq of None \<Rightarrow> ret () | Some s \<Rightarrow> if s = [] then ret () else revoke_session ev s)"

text \<open>What the web process serves, as a sequence of requests.\<close>

datatype web_call = Read web_request | Mutate web_request | Session_Info web_request | Revoke web_request

fun serve :: "web_env \<Rightarrow> web_call \<Rightarrow> unit web_program" where
  "serve ev (Read rq) = thenp (auth_dependency ev rq False) (ret ())"
| "serve ev (Mutate rq) = thenp (auth_dependency ev rq True) (ret ())"
| "serve ev (Session_Info rq) = thenp (session_endpoint ev rq) (ret ())"
| "serve ev (Revoke rq) = revoke_endpoint ev rq"

definition serve_all :: "web_env \<Rightarrow> web_call list \<Rightarrow> web_world \<Rightarrow> web_world" where
  "serve_all ev = fold (\<lambda>c w. snd (serve ev c w))"

section \<open>A sample host\<close>

text \<open>One stored session of \<^verbatim>\<open>ann\<close>; the hash of a text is the text with a mark, a stand-in without collisions.\<close>

definition sample_web :: web_env where
  "sample_web = \<lparr>we_clock = (\<lambda>n. int n mod 1000), we_token = (\<lambda>n. replicate n (CHR ''t'')), we_db = (\<lambda>n. Io_Done), we_revoked_all = (\<lambda>n. None),
     we_sha256 = (\<lambda>s. CHR ''#'' # s), we_nfkc = (\<lambda>s. s), we_casefold = (\<lambda>s. s), we_credential = Some ''pw'',
     we_credential_file = (\<lambda>n. None), we_origins = [''https://h'']\<rparr>"

definition sample_web_session :: web_session where
  "sample_web_session = \<lparr>ws_hash = ''#s1'', ws_csrf = ''#c1'', ws_actor = ''ann'', ws_created = 0, ws_last_seen = 0, ws_expires = SESSION_TTL,
     ws_revoked = None\<rparr>"

definition sample_web_world :: web_world where
  "sample_web_world = \<lparr>ww_sessions = [sample_web_session], ww_time = 1\<rparr>"

definition sample_web_request :: web_request where
  "sample_web_request = \<lparr>rq_headers = [(''x-game-control-proxy'', ''pw''), (''x-authentik-username'', ''Ann''),
       (''x-csrf-token'', ''c1''), (''origin'', ''https://h'')],
     rq_cookie = Some ''s1'', rq_path = ''/api/v1/jobs''\<rparr>"

definition sample_web_login :: web_request where
  "sample_web_login = \<lparr>rq_headers = [(''x-game-control-proxy'', ''pw''), (''x-authentik-username'', ''bob'')], rq_cookie = None, rq_path = ''/''\<rparr>"

section \<open>Names and credentials\<close>

lemma actor_chars:
  "list_all (\<lambda>c. 94 < (of_char c :: nat) \<and> of_char c < (128 :: nat) \<or> 32 < (of_char c :: nat) \<and> of_char c < (65 :: nat))
     (actor_first @ actor_rest)"
  by (simp add: actor_first_def actor_rest_def)

lemma actor_name_chars:
  assumes "actor_name s" "c \<in> set s"
  shows "\<not> is_space c \<and> of_char c < (128 :: nat) \<and> ascii_lower c = c"
proof -
  have "c \<in> set (actor_first @ actor_rest)"
    using assms by (cases s) (auto simp: actor_name_def list_all_iff)
  then have "94 < (of_char c :: nat) \<and> of_char c < (128 :: nat) \<or> 32 < (of_char c :: nat) \<and> of_char c < (65 :: nat)"
    using actor_chars unfolding list_all_iff by blast
  then show ?thesis by (auto simp: is_space_def ascii_lower_def Let_def)
qed

lemma dropWhile_none: "(\<And>c. c \<in> set s \<Longrightarrow> \<not> P c) \<Longrightarrow> dropWhile P s = s"
  by (cases s) auto

lemma normalize_actor_name: "actor_name s \<Longrightarrow> normalize_actor ev s = Inr s"
proof -
  assume n: "actor_name s"
  have "is_ascii s" using actor_name_chars [OF n] by (simp add: is_ascii_def list_all_iff)
  moreover have "strip s = s" using actor_name_chars [OF n] dropWhile_none [of s is_space] dropWhile_none [of "rev s" is_space]
    by (simp add: strip_def rstrip_def)
  moreover have "map ascii_lower s = s" using actor_name_chars [OF n] by (simp add: map_idI)
  ultimately show ?thesis using n by (simp add: normalize_actor_def normalize_nfkc_def casefold_def)
qed

lemma actor_name_ascii: "actor_name s \<Longrightarrow> is_ascii s"
  using actor_name_chars by (simp add: is_ascii_def list_all_iff)

lemma normalize_actor_Inr: "normalize_actor ev s = Inr a \<Longrightarrow> actor_name a"
  by (auto simp: normalize_actor_def Let_def split: if_splits)

lemma compare_digest_True: "compare_digest a b = Inr True \<longleftrightarrow> is_ascii a \<and> is_ascii b \<and> a = b"
  by (auto simp: compare_digest_def)

lemma expected_credential_sessions: "ww_sessions (snd (expected_credential ev w)) = ww_sessions w"
  by (simp add: expected_credential_def load_proxy_credential_def web_tick_def ret_def split: option.split)

lemma authenticate_proxy_Inr:
  assumes "authenticate_proxy ev hs w = (Inr actor, w')"
  shows "fst (expected_credential ev w) = Inr (folded_header ev hs ''x-game-control-proxy'')
    \<and> normalize_actor ev (folded_header ev hs ''x-authentik-username'') = Inr actor
    \<and> ww_sessions w' = ww_sessions w"
  using assms expected_credential_sessions [of ev w]
  by (auto simp: authenticate_proxy_def seqp_def lift_result_def compare_digest_True Let_def throw_def ret_def
      split: prod.splits sum.splits if_splits)

lemma proxy_actor_Inr: "proxy_actor ev rq w = (Inr actor, w') \<Longrightarrow> authenticate_proxy ev (rq_headers rq) w = (Inr actor, w')"
  by (auto simp: proxy_actor_def catchp_def throw_def split: prod.splits sum.splits web_exn.splits)

section \<open>What a mutation needs\<close>

lemma visible_unrevoked: "r \<in> set (visible ev w) \<Longrightarrow> ws_revoked r = None \<Longrightarrow> r \<in> set (ww_sessions w)"
  by (auto simp: visible_def revoke_rows_def split: option.splits if_splits)

lemma csrf_refused_False:
  "csrf_refused ev r csrf actor t = Inr False \<longleftrightarrow>
     is_ascii (ws_actor r) \<and> ws_actor r = actor \<and> (\<exists>c. csrf = Some c \<and> c \<noteq> [] \<and> is_ascii (ws_csrf r) \<and> ws_csrf r = token_hash ev c)
     \<and> ws_revoked r = None \<and> t < ws_expires r"
  by (auto simp: csrf_refused_def and_then_Inr_iff compare_digest_def split: option.splits if_splits)

lemma validate_Inr_True:
  assumes "validate ev session csrf actor w = (Inr True, w')" "actor_name actor"
  shows "\<exists>r \<in> set (ww_sessions w). \<exists>c n. ws_hash r = token_hash ev session \<and> ws_actor r = actor \<and> ws_revoked r = None
     \<and> csrf = Some c \<and> c \<noteq> [] \<and> ws_csrf r = token_hash ev c \<and> ww_time w \<le> n \<and> we_clock ev n < ws_expires r"
proof -
  obtain r where r: "find (\<lambda>r. ws_hash r = token_hash ev session) (visible ev w) = Some r"
    "csrf_refused ev r csrf actor (we_clock ev (Suc (ww_time w))) = Inr False"
    using assms(1) unfolding validate_def normalize_actor_name [OF assms(2)]
    by (auto simp: web_session_row_def select_rows_def seqp_def thenp_def web_tick_def lift_result_def ret_def
        split: if_splits option.splits prod.splits sum.splits)
  from r(1) have "r \<in> set (visible ev w)" "ws_hash r = token_hash ev session" by (auto dest: find_SomeD)
  with r(2) show ?thesis unfolding csrf_refused_False
    by (intro bexI [of _ r]) (auto intro: visible_unrevoked intro!: exI [of _ "Suc (ww_time w)"])
qed

text \<open>C15. A mutating request is admitted only if the trusted proxy sent it (the presented credential is the expected one, and
  the actor is its normalised identity), its cookie names a stored session of that actor that is neither revoked nor
  expired, its CSRF header is that session's token, and its origin is an allowed one.\<close>

theorem mutation_admission:
  assumes "auth_dependency ev rq True w = (Inr ad, w')"
  shows "fst (expected_credential ev w) = Inr (folded_header ev (rq_headers rq) ''x-game-control-proxy'')
    \<and> normalize_actor ev (folded_header ev (rq_headers rq) ''x-authentik-username'') = Inr (ad_actor ad)
    \<and> (\<exists>r \<in> set (ww_sessions w). \<exists>session csrf n. rq_cookie rq = Some session \<and> session \<noteq> []
         \<and> first_header rq ''x-csrf-token'' = Some csrf \<and> csrf \<noteq> []
         \<and> ws_hash r = token_hash ev session \<and> ws_csrf r = token_hash ev csrf \<and> ws_actor r = ad_actor ad
         \<and> ws_revoked r = None \<and> we_clock ev n < ws_expires r)
    \<and> (\<exists>origin \<in> set (we_origins ev). first_header rq ''origin'' = Some origin)"
proof -
  obtain actor w1 w2 where p: "proxy_actor ev rq w = (Inr actor, w1)" and o: "open_session ev rq True actor w1 = (Inr ad, w2)"
    using assms by (auto simp: auth_dependency_def seqp_def thenp_def ret_def split: prod.splits sum.splits)
  note a = authenticate_proxy_Inr [OF proxy_actor_Inr [OF p]]
  obtain session w3 where s: "rq_cookie rq = Some session" "session \<noteq> []" "ad_actor ad = actor"
      "validate ev session (first_header rq ''x-csrf-token'') actor w1 = (Inr True, w3)"
      "validate_origin (first_header rq ''origin'') (we_origins ev)"
    using o by (auto simp: open_session_def seqp_def ret_def throw_def Let_def split: option.splits if_splits prod.splits sum.splits)
  have v: "\<exists>r \<in> set (ww_sessions w1). \<exists>c n. ws_hash r = token_hash ev session \<and> ws_actor r = actor \<and> ws_revoked r = None
     \<and> first_header rq ''x-csrf-token'' = Some c \<and> c \<noteq> [] \<and> ws_csrf r = token_hash ev c \<and> ww_time w1 \<le> n
     \<and> we_clock ev n < ws_expires r"
    using a normalize_actor_Inr by (intro validate_Inr_True [OF s(4)]) blast
  show ?thesis
  proof (intro conjI)
    show "fst (expected_credential ev w) = Inr (folded_header ev (rq_headers rq) ''x-game-control-proxy'')" using a by simp
    show "normalize_actor ev (folded_header ev (rq_headers rq) ''x-authentik-username'') = Inr (ad_actor ad)"
      using a s(3) by simp
    show "\<exists>r \<in> set (ww_sessions w). \<exists>session csrf n. rq_cookie rq = Some session \<and> session \<noteq> []
         \<and> first_header rq ''x-csrf-token'' = Some csrf \<and> csrf \<noteq> []
         \<and> ws_hash r = token_hash ev session \<and> ws_csrf r = token_hash ev csrf \<and> ws_actor r = ad_actor ad
         \<and> ws_revoked r = None \<and> we_clock ev n < ws_expires r"
      using v a s(1-3) by metis
    show "\<exists>origin \<in> set (we_origins ev). first_header rq ''origin'' = Some origin"
      using s(5) by (auto simp: validate_origin_def split: option.splits)
  qed
qed

section \<open>Revocation is final\<close>

definition revoked_in :: "string \<Rightarrow> web_session list \<Rightarrow> bool" where
  "revoked_in h rows \<longleftrightarrow> (\<forall>r \<in> set rows. ws_hash r = h \<longrightarrow> ws_revoked r \<noteq> None)"

text \<open>From step \<open>n\<close> on, the table satisfies \<open>I\<close>.\<close>

definition from_step :: "nat \<Rightarrow> (web_session list \<Rightarrow> bool) \<Rightarrow> web_world \<Rightarrow> bool" where
  "from_step n I w \<longleftrightarrow> n \<le> ww_time w \<and> I (ww_sessions w)"

text \<open>An invariant of the table that the root helper's revocation keeps.\<close>

definition seen_ok :: "web_env \<Rightarrow> nat \<Rightarrow> (web_session list \<Rightarrow> bool) \<Rightarrow> bool" where
  "seen_ok ev n I \<longleftrightarrow> (\<forall>m rows. n \<le> m \<longrightarrow> I rows \<longrightarrow> I (visible ev \<lparr>ww_sessions = rows, ww_time = m\<rparr>))"

lemma seen_okD: "seen_ok ev n I \<Longrightarrow> n \<le> ww_time w \<Longrightarrow> I (ww_sessions w) \<Longrightarrow> I (visible ev w)"
  unfolding seen_ok_def by (cases w) simp

lemma keeps_lift [keeps_rules]: "keeps P (lift_result r)"
  by (simp add: keeps_def hoare_def lift_result_def split: sum.split)

lemma keeps_web_tick [keeps_rules]: "keeps (from_step n I) (web_tick f)"
  by (simp add: keeps_def hoare_def web_tick_def from_step_def split: sum.split)

lemma keeps_seq_tick:
  "(\<And>m v. n \<le> m \<Longrightarrow> f m = Inr v \<Longrightarrow> keeps (from_step n I) (g v)) \<Longrightarrow> keeps (from_step n I) (seqp (web_tick f) g)"
  unfolding keeps_def hoare_def
proof (intro allI impI)
  fix w assume g: "\<And>m v. n \<le> m \<Longrightarrow> f m = Inr v \<Longrightarrow>
      \<forall>w. from_step n I w \<longrightarrow> (case g v w of (Inl e, w') \<Rightarrow> from_step n I w' | (Inr v, w') \<Rightarrow> from_step n I w')"
    and w: "from_step n I w"
  then have "from_step n I (w\<lparr>ww_time := Suc (ww_time w)\<rparr>)" "n \<le> ww_time w" by (simp_all add: from_step_def)
  with g [of "ww_time w"]
  show "case seqp (web_tick f) g w of (Inl e, w') \<Rightarrow> from_step n I w' | (Inr v, w') \<Rightarrow> from_step n I w'"
    by (simp add: seqp_def web_tick_def split: sum.split)
qed

lemma keeps_select [keeps_rules]: "seen_ok ev n I \<Longrightarrow> keeps (from_step n I) (select_rows ev f)"
  by (auto simp: keeps_def hoare_def select_rows_def from_step_def intro: seen_okD)

lemma seqp_ret: "seqp (ret v) g = g v"
  by (rule ext) (simp add: seqp_def ret_def)

lemma keeps_seq_select:
  assumes "seen_ok ev n I" "\<And>rows. I rows \<Longrightarrow> keeps (from_step n I) (g (f rows))"
  shows "keeps (from_step n I) (seqp (select_rows ev f) g)"
  unfolding keeps_def hoare_def
proof (intro allI impI)
  fix w assume w: "from_step n I w"
  then have v: "I (visible ev w)" using seen_okD [OF assms(1)] by (simp add: from_step_def)
  with w have "from_step n I \<lparr>ww_sessions = visible ev w, ww_time = Suc (ww_time w)\<rparr>" by (simp add: from_step_def)
  with hoareD [OF keepsD [OF assms(2) [OF v]]]
  show "case seqp (select_rows ev f) g w of (Inl e, w') \<Rightarrow> from_step n I w' | (Inr v, w') \<Rightarrow> from_step n I w'"
    by (simp add: seqp_def select_rows_def)
qed

lemma keeps_change:
  "seen_ok ev n I \<Longrightarrow> (\<And>rows rows'. I rows \<Longrightarrow> f rows = Inr rows' \<Longrightarrow> I rows') \<Longrightarrow> keeps (from_step n I) (change_rows ev f)"
  by (auto simp: keeps_def hoare_def change_rows_def Let_def from_step_def intro: seen_okD split: sum.split)

lemma keeps_web_exn [keeps_rules]:
  "(\<And>x y z. keeps P (a x y z)) \<Longrightarrow> keeps P b \<Longrightarrow> keeps P c \<Longrightarrow> keeps P d \<Longrightarrow> keeps P f \<Longrightarrow> keeps P g
   \<Longrightarrow> keeps P (case e of Http x y z \<Rightarrow> a x y z | Permission_Denied \<Rightarrow> b | Lookup_Failed \<Rightarrow> c | Bad_Value \<Rightarrow> d | Bad_Type \<Rightarrow> f
        | Sqlite_Failed \<Rightarrow> g)"
  by (cases e) simp_all

lemma keeps_credential [keeps_rules]: "keeps (from_step n I) (expected_credential ev)"
  unfolding expected_credential_def load_proxy_credential_def by (intro keeps_rules)

lemma keeps_proxy_actor [keeps_rules]: "keeps (from_step n I) (proxy_actor ev rq)"
  unfolding proxy_actor_def authenticate_proxy_def Let_def by (intro keeps_rules)

text \<open>
  The session store as its table sees it: \<open>I\<close> survives the insertion of a session under a new token, changes to rows with
  the hash \<open>h\<close> that neither move a row to another session nor take a revocation back, and the cleanup.  Then
  every request whose cookie hashes to \<open>h\<close> keeps it.
\<close>

locale table_invariant =
  fixes ev :: web_env and n :: nat and I :: "web_session list \<Rightarrow> bool" and h :: string
  assumes seen: "seen_ok ev n I"
    and inserted: "I rows \<Longrightarrow> n \<le> m \<Longrightarrow> ws_hash r = token_hash ev (we_token ev m) \<Longrightarrow> ws_hash r \<notin> ws_hash ` set rows \<Longrightarrow> I (rows @ [r])"
    and updated: "I rows \<Longrightarrow> (\<And>r. ws_hash (g r) = ws_hash r) \<Longrightarrow> (\<And>r. ws_revoked r \<noteq> None \<Longrightarrow> ws_revoked (g r) \<noteq> None) \<Longrightarrow>
        I (map (\<lambda>r. if ws_hash r = h then g r else r) rows)"
    and pruned: "I rows \<Longrightarrow> I rows' \<Longrightarrow> n \<le> m \<Longrightarrow> H \<subseteq> ws_hash ` {r \<in> set rows'. prunable (we_clock ev m - 2 * DAY) r} \<Longrightarrow>
        I (filter (\<lambda>r. ws_hash r \<notin> H) rows)"
begin

lemma keeps_update: "(\<And>r. ws_hash (g r) = ws_hash r) \<Longrightarrow> (\<And>r. ws_revoked r \<noteq> None \<Longrightarrow> ws_revoked (g r) \<noteq> None) \<Longrightarrow>
    keeps (from_step n I) (update_where ev h g)"
  unfolding update_where_def by (rule keeps_change [OF seen]) (auto intro: updated)

lemma keeps_create: "keeps (from_step n I) (create_session ev actor)"
  unfolding create_session_def
  by (intro keeps_seq_tick keeps_select [OF seen] keeps_change [OF seen] keeps_rules)
     (auto split: if_splits intro!: inserted)

lemma keeps_prune: "keeps (from_step n I) (prune ev (2 * DAY) b)"
  unfolding prune_def
proof (intro keeps_if keeps_throw keeps_seq_tick keeps_seq_select [OF seen] keeps_thenp keeps_ret keeps_change [OF seen])
  fix m t rows and rows' rows'' :: "web_session list"
  assume m: "n \<le> m" "Inr (we_clock ev m) = (Inr t :: web_exn + instant)" and rows: "I rows" "I rows'"
    and new: "Inr (filter (\<lambda>r. ws_hash r \<notin> set (map ws_hash (take (nat b)
          (sort_key (iso_rank \<circ> ws_expires) (filter (prunable (t - 2 * DAY)) rows))))) rows') = (Inr rows'' :: web_exn + web_session list)"
  have "set (map ws_hash (take (nat b) (sort_key (iso_rank \<circ> ws_expires) (filter (prunable (t - 2 * DAY)) rows))))
      \<subseteq> ws_hash ` {r \<in> set rows. prunable (we_clock ev m - 2 * DAY) r}"
    using m(2) by (auto dest!: in_set_takeD)
  from pruned [OF rows(2,1) m(1) this] new show "I rows''" by simp
qed

lemma keeps_quiet_prune: "keeps (from_step n I) (prune_quietly ev)"
  unfolding prune_quietly_def by (intro keeps_rules keeps_prune)

end

text \<open>A request that carries no session cookie, or one that hashes to \<open>h\<close>.\<close>

definition bears :: "web_env \<Rightarrow> string \<Rightarrow> web_request \<Rightarrow> bool" where
  "bears ev h rq \<longleftrightarrow> (case rq_cookie rq of None \<Rightarrow> True | Some s \<Rightarrow> s = [] \<or> token_hash ev s = h)"

context table_invariant
begin

lemma keeps_seq_found:
  assumes "token_hash ev session = h" "keeps (from_step n I) (g None)" "\<And>r. ws_hash r = h \<Longrightarrow> keeps (from_step n I) (g (Some r))"
  shows "keeps (from_step n I) (seqp (web_session_row ev session) g)"
proof (cases "session = []")
  case True
  then show ?thesis using assms(2) by (simp add: web_session_row_def seqp_ret)
next
  case False
  have "keeps (from_step n I) (g (find (\<lambda>r. ws_hash r = token_hash ev session) rows))" for rows
    using assms by (cases "find (\<lambda>r. ws_hash r = token_hash ev session) rows") (auto dest: find_SomeD)
  then show ?thesis using False unfolding web_session_row_def by (simp add: keeps_seq_select [OF seen])
qed

lemma keeps_update_row:
  assumes "k = h" "\<And>r. ws_hash (g r) = ws_hash r" "\<And>r. ws_revoked r \<noteq> None \<Longrightarrow> ws_revoked (g r) \<noteq> None"
  shows "keeps (from_step n I) (update_where ev k g)"
  unfolding assms(1) by (rule keeps_update) (rule assms(2), rule assms(3))

lemmas keeps_store = keeps_rules keeps_update_row keeps_create keeps_quiet_prune seen

lemma keeps_validate: "token_hash ev session = h \<Longrightarrow> keeps (from_step n I) (validate ev session csrf actor)"
  unfolding validate_def by (rule keeps_sum, rule keeps_ret, rule keeps_seq_found) (simp_all add: keeps_store)

lemma keeps_validate_session: "token_hash ev session = h \<Longrightarrow> keeps (from_step n I) (validate_session ev session actor touch)"
  unfolding validate_session_def by (rule keeps_sum, rule keeps_ret, rule keeps_seq_found) (simp_all add: keeps_store)

lemma keeps_touch: "token_hash ev session = h \<Longrightarrow> keeps (from_step n I) (touch_session ev session)"
  unfolding touch_session_def by (rule keeps_seqp [OF keeps_web_tick], rule keeps_seq_found) (simp_all add: keeps_store)

lemma keeps_rotate: "token_hash ev session = h \<Longrightarrow> keeps (from_step n I) (rotate_csrf ev session actor)"
  unfolding rotate_csrf_def by (rule keeps_seqp [OF keeps_lift], rule keeps_seq_found) (simp_all add: keeps_store)

lemma keeps_revoke: "token_hash ev session = h \<Longrightarrow> keeps (from_step n I) (revoke_session ev session)"
  unfolding revoke_session_def by (simp add: keeps_store)

lemma keeps_row: "keeps (from_step n I) (web_session_row ev session)"
  unfolding web_session_row_def by (simp add: keeps_store)

lemma keeps_open: "bears ev h rq \<Longrightarrow> keeps (from_step n I) (open_session ev rq mutation actor)"
  unfolding open_session_def Let_def bears_def
  by (cases "rq_cookie rq") (auto simp: keeps_store keeps_validate keeps_validate_session keeps_touch)

lemma keeps_auth: "bears ev h rq \<Longrightarrow> keeps (from_step n I) (auth_dependency ev rq mutation)"
  unfolding auth_dependency_def by (simp add: keeps_store keeps_open)

lemma keeps_session_endpoint: "bears ev h rq \<Longrightarrow> keeps (from_step n I) (session_endpoint ev rq)"
  unfolding session_endpoint_def Let_def
  by (rule keeps_seqp, erule keeps_auth, cases "rq_cookie rq")
     (auto simp: bears_def keeps_store keeps_row keeps_rotate)

lemma keeps_revoke_endpoint: "bears ev h rq \<Longrightarrow> keeps (from_step n I) (revoke_endpoint ev rq)"
  unfolding revoke_endpoint_def
  by (rule keeps_thenp, erule keeps_auth, cases "rq_cookie rq") (auto simp: bears_def keeps_store keeps_revoke)

end

text \<open>No token drawn from step \<open>n\<close> on hashes to \<open>k\<close>.\<close>

definition fresh_for :: "web_env \<Rightarrow> nat \<Rightarrow> string \<Rightarrow> bool" where
  "fresh_for ev n k \<longleftrightarrow> (\<forall>m \<ge> n. token_hash ev (we_token ev m) \<noteq> k)"

lemma visible_cases: "visible ev w = ww_sessions w \<or> (\<exists>t. visible ev w = revoke_rows t (ww_sessions w))"
  by (cases "we_revoked_all ev (ww_time w)") (auto simp: visible_def)

lemma revoke_rows_revoked: "revoked_in k (revoke_rows t rows)"
  by (auto simp: revoked_in_def revoke_rows_def)

interpretation revoked: table_invariant ev n "\<lambda>rows. fresh_for ev n k \<longrightarrow> revoked_in k rows" h for ev n k h
proof unfold_locales
  show "seen_ok ev n (\<lambda>rows. fresh_for ev n k \<longrightarrow> revoked_in k rows)"
    unfolding seen_ok_def
  proof (intro allI impI)
    fix m rows assume "fresh_for ev n k \<longrightarrow> revoked_in k rows" "fresh_for ev n k"
    then show "revoked_in k (visible ev \<lparr>ww_sessions = rows, ww_time = m\<rparr>)"
      using visible_cases [of ev "\<lparr>ww_sessions = rows, ww_time = m\<rparr>"] revoke_rows_revoked by auto
  qed
qed (auto simp: revoked_in_def fresh_for_def)

text \<open>The request of a call; its cookie hashes to something.\<close>

fun call_request :: "web_call \<Rightarrow> web_request" where
  "call_request (Read rq) = rq"
| "call_request (Mutate rq) = rq"
| "call_request (Session_Info rq) = rq"
| "call_request (Revoke rq) = rq"

context table_invariant
begin

lemma keeps_serve: "bears ev h (call_request c) \<Longrightarrow> keeps (from_step n I) (serve ev c)"
  by (cases c) (simp_all add: keeps_rules keeps_auth keeps_session_endpoint keeps_revoke_endpoint)

end

lemma serve_all_keeps:
  "(\<And>c. c \<in> set calls \<Longrightarrow> keeps P (serve ev c)) \<Longrightarrow> P w \<Longrightarrow> P (serve_all ev calls w)"
proof (induction calls arbitrary: w)
  case (Cons c calls)
  have "P (snd (serve ev c w))" using hoare_ends [OF keepsD [OF Cons.prems(1)]] Cons.prems(2) by simp
  then show ?case using Cons by (simp add: serve_all_def)
qed (simp add: serve_all_def)

lemma bears_some: "\<exists>h. bears ev h rq"
  by (cases "rq_cookie rq") (auto simp: bears_def)

lemma revoked_keeps: "fresh_for ev n k \<Longrightarrow> keeps (from_step n (revoked_in k)) (serve ev c)"
proof -
  assume "fresh_for ev n k"
  moreover obtain h where "bears ev h (call_request c)" using bears_some by blast
  ultimately show ?thesis using revoked.keeps_serve [of ev h c n k] by simp
qed

interpretation timed: table_invariant ev n "\<lambda>_. True" h for ev n h
  by unfold_locales (simp_all add: seen_ok_def)

lemma auth_time: "ww_time w \<le> ww_time (snd (auth_dependency ev rq mutation w))"
proof -
  obtain h where "bears ev h rq" using bears_some by blast
  from hoare_ends [OF keepsD [OF timed.keeps_auth [OF this, of "ww_time w"]]] show ?thesis by (simp add: from_step_def)
qed

lemma validate_session_True:
  assumes "validate_session ev session actor False w = (Inr True, w')"
  shows "\<exists>r \<in> set (ww_sessions w). ws_hash r = token_hash ev session \<and> ws_revoked r = None"
proof -
  obtain r where r: "find (\<lambda>r. ws_hash r = token_hash ev session) (visible ev w) = Some r" "ws_revoked r = None"
    using assms unfolding validate_session_def
    by (auto simp: web_session_row_def select_rows_def seqp_def thenp_def web_tick_def ret_def whenp_def
        split: if_splits option.splits prod.splits sum.splits)
  then show ?thesis using visible_unrevoked [of r ev w] by (auto dest: find_SomeD)
qed

lemma open_session_Inr:
  assumes "open_session ev rq mutation actor w = (Inr ad, w')" "actor_name actor" "rq_cookie rq = Some session" "session \<noteq> []"
  shows "\<exists>r \<in> set (ww_sessions w). ws_hash r = token_hash ev session \<and> ws_revoked r = None"
proof (cases mutation)
  case True
  then obtain w1 where "validate ev session (first_header rq ''x-csrf-token'') actor w = (Inr True, w1)"
    using assms by (auto simp: open_session_def seqp_def ret_def throw_def split: if_splits prod.splits sum.splits)
  from validate_Inr_True [OF this assms(2)] show ?thesis by blast
next
  case False
  then obtain w1 where "validate_session ev session actor False w = (Inr True, w1)"
    using assms by (auto simp: open_session_def seqp_def ret_def throw_def split: if_splits prod.splits sum.splits)
  from validate_session_True [OF this] show ?thesis .
qed

lemma revoked_refused:
  assumes "revoked_in (token_hash ev session) (ww_sessions w)" "rq_cookie rq = Some session" "session \<noteq> []"
  shows "isl (fst (auth_dependency ev rq mutation w))"
proof (rule ccontr)
  assume "\<not> isl (fst (auth_dependency ev rq mutation w))"
  then obtain actor w1 ad w2 where p: "proxy_actor ev rq w = (Inr actor, w1)" "open_session ev rq mutation actor w1 = (Inr ad, w2)"
    by (auto simp: auth_dependency_def seqp_def split: prod.splits sum.splits)
  note a = authenticate_proxy_Inr [OF proxy_actor_Inr [OF p(1)]]
  have "actor_name actor" using a normalize_actor_Inr by blast
  from open_session_Inr [OF p(2) this assms(2,3)] a assms(1) show False by (auto simp: revoked_in_def)
qed

lemma revoke_session_revokes:
  "revoke_session ev session w = (Inr (), w') \<Longrightarrow>
     revoked_in (token_hash ev session) (ww_sessions w') \<and> ww_time w \<le> ww_time w'"
  by (auto simp: revoke_session_def seqp_def web_tick_def update_where_def change_rows_def Let_def revoked_in_def split: if_splits)

lemma revoke_all_revokes: "revoke_all ev w = (Inr count, w') \<Longrightarrow> revoked_in k (ww_sessions w') \<and> ww_time w \<le> ww_time w'"
  by (auto simp: revoke_all_def seqp_def thenp_def getp_def ret_def web_tick_def change_rows_def Let_def revoke_rows_revoked
      split: if_splits prod.splits sum.splits)

lemma revoke_endpoint_revokes:
  assumes "revoke_endpoint ev rq w = (Inr (), w')" "rq_cookie rq = Some session" "session \<noteq> []"
  shows "revoked_in (token_hash ev session) (ww_sessions w') \<and> ww_time w \<le> ww_time w'"
proof -
  obtain ad w1 where a: "auth_dependency ev rq True w = (Inr ad, w1)" "revoke_session ev session w1 = (Inr (), w')"
    using assms by (auto simp: revoke_endpoint_def thenp_def seqp_def split: prod.splits sum.splits)
  from revoke_session_revokes [OF a(2)] auth_time [of w ev rq True] a(1) show ?thesis by simp
qed

text \<open>C16. Revocation is final: once the revocation endpoint answered for a session, or the store revoked every session, no
  later request with that cookie is admitted, whatever requests are served in between, however the clock, the
  database and the root helper behave, and also after the cleanup dropped the row, unless the token generator draws a
  token with the same hash.\<close>

theorem revoked_session_refused:
  assumes "(\<exists>rq. rq_cookie rq = Some session \<and> revoke_endpoint ev rq w = (Inr (), w1)) \<or> (\<exists>count. revoke_all ev w = (Inr count, w1))"
    and "session \<noteq> []"
    and "\<forall>n \<ge> ww_time w. token_hash ev (we_token ev n) \<noteq> token_hash ev session"
    and "rq_cookie rq = Some session"
  shows "isl (fst (auth_dependency ev rq mutation (serve_all ev calls w1)))"
proof -
  have "revoked_in (token_hash ev session) (ww_sessions w1) \<and> ww_time w \<le> ww_time w1"
    using assms(1,2) revoke_endpoint_revokes revoke_all_revokes by blast
  then have "from_step (ww_time w) (revoked_in (token_hash ev session)) w1" by (simp add: from_step_def)
  moreover have "fresh_for ev (ww_time w) (token_hash ev session)" using assms(3) by (simp add: fresh_for_def)
  ultimately have "from_step (ww_time w) (revoked_in (token_hash ev session)) (serve_all ev calls w1)"
    using serve_all_keeps [of calls] revoked_keeps by blast
  then show ?thesis using revoked_refused [OF _ assms(4,2)] by (simp add: from_step_def)
qed

section \<open>A live session keeps working\<close>

definition undisturbed :: "web_env \<Rightarrow> nat \<Rightarrow> web_session \<Rightarrow> string \<Rightarrow> bool" where
  "undisturbed ev n s h \<longleftrightarrow> (\<forall>m \<ge> n. we_revoked_all ev m = None \<and> we_clock ev m < ws_expires s) \<and> ws_revoked s = None \<and> h \<noteq> ws_hash s"

lemma live_not_prunable: "ws_revoked s = None \<Longrightarrow> t < ws_expires s \<Longrightarrow> \<not> prunable (t - 2 * DAY) s"
  using iso_le_within [of "ws_expires s" "t - 2 * DAY"] by (auto simp: prunable_def)

lemma distinct_hash: "distinct (map ws_hash rows) \<Longrightarrow> r \<in> set rows \<Longrightarrow> s \<in> set rows \<Longrightarrow> ws_hash r = ws_hash s \<Longrightarrow> r = s"
  by (auto simp: distinct_map dest: inj_onD)

interpretation live: table_invariant ev n "\<lambda>rows. undisturbed ev n s h \<longrightarrow> s \<in> set rows \<and> distinct (map ws_hash rows)" h
  for ev n s h
proof unfold_locales
  show "seen_ok ev n (\<lambda>rows. undisturbed ev n s h \<longrightarrow> s \<in> set rows \<and> distinct (map ws_hash rows))"
    by (auto simp: seen_ok_def undisturbed_def visible_def)
next
  fix rows and g :: "web_session \<Rightarrow> web_session"
  assume I: "undisturbed ev n s h \<longrightarrow> s \<in> set rows \<and> distinct (map ws_hash rows)" and g: "\<And>r. ws_hash (g r) = ws_hash r"
  have same: "map ws_hash (map (\<lambda>r. if ws_hash r = h then g r else r) rows) = map ws_hash rows" by (simp add: g)
  have kept: "s \<in> set rows \<Longrightarrow> h \<noteq> ws_hash s \<Longrightarrow> s \<in> set (map (\<lambda>r. if ws_hash r = h then g r else r) rows)"
    by (auto intro!: rev_image_eqI)
  show "undisturbed ev n s h \<longrightarrow> s \<in> set (map (\<lambda>r. if ws_hash r = h then g r else r) rows)
      \<and> distinct (map ws_hash (map (\<lambda>r. if ws_hash r = h then g r else r) rows))"
    unfolding same using I kept undisturbed_def by blast
next
  fix rows rows' :: "web_session list" and m H
  assume I: "undisturbed ev n s h \<longrightarrow> s \<in> set rows \<and> distinct (map ws_hash rows)"
    "undisturbed ev n s h \<longrightarrow> s \<in> set rows' \<and> distinct (map ws_hash rows')"
    and m: "n \<le> m" and H: "H \<subseteq> ws_hash ` {r \<in> set rows'. prunable (we_clock ev m - 2 * DAY) r}"
  show "undisturbed ev n s h \<longrightarrow> s \<in> set (filter (\<lambda>r. ws_hash r \<notin> H) rows) \<and> distinct (map ws_hash (filter (\<lambda>r. ws_hash r \<notin> H) rows))"
  proof
    assume u: "undisturbed ev n s h"
    then have "\<not> prunable (we_clock ev m - 2 * DAY) s" using m by (intro live_not_prunable) (auto simp: undisturbed_def)
    then have "ws_hash s \<notin> H" using H I(2) u distinct_hash [of rows' _ s] by auto
    then show "s \<in> set (filter (\<lambda>r. ws_hash r \<notin> H) rows) \<and> distinct (map ws_hash (filter (\<lambda>r. ws_hash r \<notin> H) rows))"
      using I(1) u by (simp add: distinct_map_filter)
  qed
qed simp

lemma bears_other:
  assumes "\<forall>k. rq_cookie rq = Some k \<longrightarrow> token_hash ev k \<noteq> x"
  shows "\<exists>h. h \<noteq> x \<and> bears ev h rq"
proof (cases "rq_cookie rq")
  case None
  then show ?thesis by (intro exI [of _ "''x'' @ x"]) (simp add: bears_def)
next
  case (Some k)
  then show ?thesis using assms by (intro exI [of _ "token_hash ev k"]) (simp add: bears_def)
qed

lemma live_keeps_serve:
  assumes "\<forall>m \<ge> n. we_revoked_all ev m = None \<and> we_clock ev m < ws_expires s" "ws_revoked s = None"
    "\<forall>k. rq_cookie (call_request c) = Some k \<longrightarrow> token_hash ev k \<noteq> ws_hash s"
  shows "keeps (from_step n (\<lambda>rows. s \<in> set rows \<and> distinct (map ws_hash rows))) (serve ev c)"
proof -
  obtain h where h: "h \<noteq> ws_hash s" "bears ev h (call_request c)" using bears_other [OF assms(3)] by blast
  moreover have "undisturbed ev n s h" using assms(1,2) h(1) by (simp add: undisturbed_def)
  ultimately show ?thesis using live.keeps_serve [of ev h c n s] by simp
qed

lemma prune_quietly_returns: "fst (prune_quietly ev w) = Inr ()"
  by (auto simp: prune_quietly_def prune_def catchp_def seqp_def thenp_def throw_def ret_def web_tick_def select_rows_def
      change_rows_def Let_def split: sum.splits prod.splits if_splits)

lemma find_live: "s \<in> set rows \<Longrightarrow> distinct (map ws_hash rows) \<Longrightarrow> find (\<lambda>r. ws_hash r = ws_hash s) rows = Some s"
  by (induction rows) (auto intro: rev_image_eqI)

lemma validate_live:
  assumes "s \<in> set (ww_sessions w)" "distinct (map ws_hash (ww_sessions w))" "actor_name (ws_actor s)"
    "\<forall>m \<ge> ww_time w. we_revoked_all ev m = None \<and> we_clock ev m < ws_expires s \<and> we_db ev m = Io_Done" "ws_revoked s = None"
    "ws_hash s = token_hash ev session" "session \<noteq> []" "ws_csrf s = token_hash ev csrf" "csrf \<noteq> []" "is_ascii (ws_csrf s)"
  shows "fst (validate ev session (Some csrf) (ws_actor s) w) = Inr True"
proof -
  have "find (\<lambda>r. ws_hash r = token_hash ev session) (ww_sessions w) = Some s"
    using find_live [OF assms(1,2)] assms(6) by simp
  moreover have "csrf_refused ev s (Some csrf) (ws_actor s) (we_clock ev (Suc (ww_time w))) = Inr False"
    using assms(3,4,5,8,9,10) actor_name_ascii by (simp add: csrf_refused_False)
  ultimately show ?thesis
    using assms(4,7) unfolding validate_def normalize_actor_name [OF assms(3)]
    by (simp add: web_session_row_def select_rows_def visible_def seqp_def thenp_def web_tick_def lift_result_def ret_def
        update_where_def change_rows_def)
qed

lemma normalize_actor_Nil: "normalize_actor ev [] = Inl Bad_Value"
  by (simp add: normalize_actor_def normalize_nfkc_def casefold_def is_ascii_def strip_def rstrip_def actor_name_def)

lemma authenticate_trusted:
  assumes "we_credential ev = Some (folded_header ev hs ''x-game-control-proxy'')" "is_ascii (folded_header ev hs ''x-game-control-proxy'')"
    "normalize_actor ev (folded_header ev hs ''x-authentik-username'') = Inr actor"
  shows "authenticate_proxy ev hs w = (Inr actor, w)"
proof -
  have "folded_header ev hs ''x-authentik-username'' \<noteq> []"
    using assms(3) normalize_actor_Nil [of ev] by fastforce
  then show ?thesis
    unfolding authenticate_proxy_def expected_credential_def assms(1,3) Let_def
    by (simp add: seqp_def ret_def lift_result_def compare_digest_def assms(2))
qed

text \<open>C17. Other users cannot end a session: while a stored session is unexpired and nobody revokes it, any sequence of requests
  with other cookies or none (logins, mutations, revocations and cleanups of theirs, under any database
  failures) leaves it usable, and a mutation with its cookie, its CSRF token and an allowed origin is admitted for its
  actor.\<close>

theorem live_session_admitted:
  assumes row: "s \<in> set (ww_sessions w)" "distinct (map ws_hash (ww_sessions w))" "ws_revoked s = None" "actor_name (ws_actor s)"
    and time: "\<forall>m \<ge> ww_time w. we_revoked_all ev m = None \<and> we_clock ev m < ws_expires s"
    and others: "\<forall>c \<in> set calls. \<forall>k. rq_cookie (call_request c) = Some k \<longrightarrow> token_hash ev k \<noteq> ws_hash s"
    and db: "\<forall>m \<ge> ww_time (serve_all ev calls w). we_db ev m = Io_Done"
    and proxy: "we_credential ev = Some (folded_header ev (rq_headers rq) ''x-game-control-proxy'')"
      "is_ascii (folded_header ev (rq_headers rq) ''x-game-control-proxy'')"
      "normalize_actor ev (folded_header ev (rq_headers rq) ''x-authentik-username'') = Inr (ws_actor s)"
    and cookie: "rq_cookie rq = Some session" "session \<noteq> []" "ws_hash s = token_hash ev session"
    and csrf: "first_header rq ''x-csrf-token'' = Some csrf" "csrf \<noteq> []" "ws_csrf s = token_hash ev csrf" "is_ascii (ws_csrf s)"
    and origin: "first_header rq ''origin'' = Some site" "site \<noteq> []" "site \<in> set (we_origins ev)"
  shows "fst (auth_dependency ev rq True (serve_all ev calls w))
    = Inr \<lparr>ad_actor = ws_actor s, ad_csrf = None, ad_session = session, ad_sets_cookie = False\<rparr>"
proof -
  let ?w = "serve_all ev calls w"
  have "from_step (ww_time w) (\<lambda>rows. s \<in> set rows \<and> distinct (map ws_hash rows)) ?w"
  proof (rule serve_all_keeps)
    fix c assume "c \<in> set calls"
    with others show "keeps (from_step (ww_time w) (\<lambda>rows. s \<in> set rows \<and> distinct (map ws_hash rows))) (serve ev c)"
      by (intro live_keeps_serve [OF time row(3)]) (rule bspec)
  next
    show "from_step (ww_time w) (\<lambda>rows. s \<in> set rows \<and> distinct (map ws_hash rows)) w"
      using row(1,2) by (simp add: from_step_def)
  qed
  then have w: "s \<in> set (ww_sessions ?w)" "distinct (map ws_hash (ww_sessions ?w))" "ww_time w \<le> ww_time ?w"
    by (simp_all add: from_step_def)
  have env: "\<forall>m \<ge> ww_time ?w. we_revoked_all ev m = None \<and> we_clock ev m < ws_expires s \<and> we_db ev m = Io_Done"
    using time db w(3) order_trans by blast
  obtain w1 where v: "validate ev session (Some csrf) (ws_actor s) ?w = (Inr True, w1)"
    using validate_live [OF w(1,2) row(4) env row(3) cookie(3,2) csrf(3,2,4)] by (cases "validate ev session (Some csrf) (ws_actor s) ?w") simp
  obtain w2 where p: "prune_quietly ev w1 = (Inr (), w2)"
    using prune_quietly_returns [of ev w1] by (cases "prune_quietly ev w1") simp
  have "proxy_actor ev rq ?w = (Inr (ws_actor s), ?w)"
    using authenticate_trusted [OF proxy] by (simp add: proxy_actor_def catchp_def)
  then show ?thesis
    using v p cookie(1,2) csrf(1) origin
    by (simp add: auth_dependency_def open_session_def seqp_def thenp_def ret_def validate_origin_def)
qed

section \<open>Evaluation on the sample host\<close>

lemma sample_web_admitted: "fst (auth_dependency sample_web sample_web_request True sample_web_world)
    = Inr \<lparr>ad_actor = ''ann'', ad_csrf = None, ad_session = ''s1'', ad_sets_cookie = False\<rparr>"
  by code_simp

lemma sample_web_revoked: "fst (revoke_endpoint sample_web sample_web_request sample_web_world) = Inr ()"
  by code_simp

theorem mutation_admission_witness:
  "\<exists>ad w'. auth_dependency sample_web sample_web_request True sample_web_world = (Inr ad, w')
     \<and> (\<exists>r \<in> set (ww_sessions sample_web_world). ws_hash r = ''#s1'' \<and> ws_csrf r = ''#c1'' \<and> ws_revoked r = None)
     \<and> (\<exists>origin \<in> set (we_origins sample_web). first_header sample_web_request ''origin'' = Some origin)"
proof -
  obtain ad w' where a: "auth_dependency sample_web sample_web_request True sample_web_world = (Inr ad, w')"
    using sample_web_admitted by (cases "auth_dependency sample_web sample_web_request True sample_web_world") simp
  then show ?thesis using mutation_admission [OF a]
    by (intro exI [of _ ad] exI [of _ w']) (auto simp: sample_web_request_def sample_web_def first_header_def)
qed

theorem revoked_session_refused_witness:
  "\<exists>w1. revoke_endpoint sample_web sample_web_request sample_web_world = (Inr (), w1)
     \<and> isl (fst (auth_dependency sample_web sample_web_request True
         (serve_all sample_web [Session_Info sample_web_login, Read sample_web_request] w1)))"
proof -
  obtain w1 where r: "revoke_endpoint sample_web sample_web_request sample_web_world = (Inr (), w1)"
    using sample_web_revoked by (cases "revoke_endpoint sample_web sample_web_request sample_web_world") simp
  have c: "rq_cookie sample_web_request = Some ''s1''" by (simp add: sample_web_request_def)
  have t: "\<forall>n \<ge> ww_time sample_web_world. token_hash sample_web (we_token sample_web n) \<noteq> token_hash sample_web ''s1''"
  proof (intro allI impI)
    fix n
    have "replicate n CHR ''t'' \<noteq> ''s1''" by (cases n) simp_all
    then show "token_hash sample_web (we_token sample_web n) \<noteq> token_hash sample_web ''s1''" by (simp add: sample_web_def)
  qed
  have d: "(\<exists>rq. rq_cookie rq = Some ''s1'' \<and> revoke_endpoint sample_web rq sample_web_world = (Inr (), w1))
      \<or> (\<exists>count. revoke_all sample_web sample_web_world = (Inr count, w1))"
    using c r by blast
  show ?thesis using r revoked_session_refused [OF d _ t c] by simp
qed

theorem live_session_admitted_witness:
  "fst (auth_dependency sample_web sample_web_request True
      (serve_all sample_web [Read sample_web_login, Revoke sample_web_login] sample_web_world))
    = Inr \<lparr>ad_actor = ''ann'', ad_csrf = None, ad_session = ''s1'', ad_sets_cookie = False\<rparr>"
proof -
  have p: "folded_header sample_web (rq_headers sample_web_request) ''x-game-control-proxy'' = ''pw''"
    "normalize_actor sample_web (folded_header sample_web (rq_headers sample_web_request) ''x-authentik-username'') = Inr ''ann''"
    "actor_name ''ann''" "is_ascii ''pw''" "is_ascii ''#c1''"
    by code_simp+
  have "int m mod 1000 < SESSION_TTL" for m
    using pos_mod_bound [of 1000 "int m"] by (simp add: SESSION_TTL_def)
  then show ?thesis
    using live_session_admitted [of sample_web_session sample_web_world sample_web "[Read sample_web_login, Revoke sample_web_login]"
      sample_web_request "''s1''" "''c1''" "''https://h''"] p
    by (simp add: sample_web_session_def sample_web_world_def sample_web_def sample_web_login_def sample_web_request_def first_header_def)
qed

end
