(* ===== verification/Retention_Plan.thy ===== *)
theory Retention_Plan
  imports Schedule "HOL-Library.List_Lexorder" "HOL-Library.Char_ord" "HOL-Library.Product_Lexorder"
begin

text \<open>
  The retention planner of the archive vault, \<^verbatim>\<open>ops/laptop-backup/retention_plan.py\<close>: from an inventory (catalog, protections,
  retirement ledger, preserved manifests, policy) it lists the objects that may be proposed for deletion, and refuses an
  inventory it cannot trust.
  \<^item> \<^verbatim>\<open>PlanRefused\<close> is a \<^verbatim>\<open>RuntimeError\<close>.  The dictionaries the catalog loop fills (\<^verbatim>\<open>entries\<close>, \<^verbatim>\<open>order\<close>, \<^verbatim>\<open>digest_sizes\<close>, \<^verbatim>\<open>aliases\<close>)
    are read off the list of entries in catalog order.
  \<^item> A timestamp is its instant; two instants of different microseconds have different \<^verbatim>\<open>timestamp()\<close> floats.
  \<^item> Parameters: \<^verbatim>\<open>fromisoformat\<close>, \<^verbatim>\<open>json.dumps\<close>, SHA-256, and the order in which Python iterates over a set of texts, which
    differs from process to process.
\<close>

section \<open>The inventory\<close>

text \<open>A parsed time without an offset, or with one; \<open>Aware None\<close>: the time in UTC is no \<^verbatim>\<open>datetime\<close>, and \<^verbatim>\<open>astimezone\<close> raises.\<close>

datatype iso_time = Naive | Aware "instant option"

record plan_env =
  pe_fromisoformat :: "string \<Rightarrow> iso_time option"
  pe_dumps :: "json \<Rightarrow> string"
  pe_sha256 :: "string \<Rightarrow> string"
  pe_set_order :: "string list \<Rightarrow> string list"

record plan_entry =
  pl_backup :: string
  pl_profile :: string
  pl_size :: int
  pl_digest :: string
  pl_created :: string
  pl_epoch :: instant

datatype plan_scope = Remote_Vault | Local_Payload

record plan_input =
  iv_budget :: int
  iv_reserve :: int
  iv_used :: int
  iv_available :: int
  iv_keep :: int
  iv_scope :: plan_scope
  iv_catalog :: "plan_entry list"
  iv_protected :: "string list"
  iv_ledger :: "(string \<times> string) list"
  iv_referenced :: "(string \<times> int) list"

definition MIN_KEEP_NEWEST :: int where
  "MIN_KEEP_NEWEST = 2"

definition BLOCKING_LEDGER_STATES :: "string list" where
  "BLOCKING_LEDGER_STATES = [''prepared'', ''quarantined'', ''purge_prepared'', ''purged'', ''failed'', ''ambiguous'']"

definition KNOWN_LEDGER_STATES :: "string list" where
  "KNOWN_LEDGER_STATES = BLOCKING_LEDGER_STATES @ [''present'', ''rolled_back'', ''missing'']"

section \<open>Reading the inventory\<close>

abbreviation refused :: "string \<Rightarrow> 'a outcome" where
  "refused m \<equiv> Inl (Runtime_Error m)"

text \<open>\<^verbatim>\<open>obj.get(key)\<close>.\<close>

definition plan_get :: "(string \<times> json) list \<Rightarrow> string \<Rightarrow> json" where
  "plan_get obj key = (case map_of obj key of None \<Rightarrow> JNull | Some v \<Rightarrow> v)"

definition plan_int :: "json \<Rightarrow> string \<Rightarrow> int \<Rightarrow> int outcome" where
  "plan_int v name minimum = (case as_int v of
     None \<Rightarrow> refused (name @ '' is invalid'')
   | Some n \<Rightarrow> if n < minimum then refused (name @ '' is invalid'') else Inr n)"

definition plan_positive :: "json \<Rightarrow> string \<Rightarrow> int outcome" where
  "plan_positive v name = and_then (plan_int v name 0) (\<lambda>n. if n \<le> 0 then refused (name @ '' must be positive'') else Inr n)"

text \<open>\<^verbatim>\<open>^[0-9a-f]{64}$\<close> with \<^verbatim>\<open>match\<close>: the dollar also matches before a final line feed.\<close>

definition matches_digest :: "string \<Rightarrow> bool" where
  "matches_digest s \<longleftrightarrow> is_hex64 s \<or> s \<noteq> [] \<and> last s = CHR 0x0A \<and> is_hex64 (butlast s)"

definition plan_digest :: "json \<Rightarrow> string \<Rightarrow> string outcome" where
  "plan_digest v name = (case as_str v of
     Some s \<Rightarrow> if matches_digest s then Inr s else refused (name @ '' is not a sha256 digest'')
   | None \<Rightarrow> refused (name @ '' is not a sha256 digest''))"

definition created_at :: "plan_env \<Rightarrow> json \<Rightarrow> (string \<times> instant) outcome" where
  "created_at env v = (case as_str v of
     None \<Rightarrow> refused ''catalog created_at is invalid''
   | Some s \<Rightarrow>
       if s = [] \<or> length s > 64 then refused ''catalog created_at is invalid''
       else case pe_fromisoformat env (if last s = CHR ''Z'' then butlast s @ ''+00:00'' else s) of
              None \<Rightarrow> refused ''catalog created_at is invalid''
            | Some Naive \<Rightarrow> refused ''catalog created_at is naive''
            | Some (Aware None) \<Rightarrow> Inl (Overflow_Error ''date value out of range'')
            | Some (Aware (Some t)) \<Rightarrow> Inr (s, t))"

text \<open>The size recorded for a digest.\<close>

definition digest_size :: "plan_entry list \<Rightarrow> string \<Rightarrow> int option" where
  "digest_size es d = map_option pl_size (find (\<lambda>e. pl_digest e = d) es)"

fun nonempty_str :: "json \<Rightarrow> string option" where
  "nonempty_str (JStr s) = (if s = [] then None else Some s)"
| "nonempty_str _ = None"

definition read_entry :: "plan_env \<Rightarrow> plan_entry list \<Rightarrow> json \<Rightarrow> plan_entry list outcome" where
  "read_entry env es raw = (case raw of
     JObj obj \<Rightarrow>
       (case (nonempty_str (plan_get obj ''backup_id''), nonempty_str (plan_get obj ''profile_id'')) of
          (Some backup, Some prof) \<Rightarrow>
            if backup \<in> pl_backup ` set es then refused ''catalog contains a duplicate backup_id''
            else and_then (plan_int (plan_get obj ''size_bytes'') ''size_bytes'' 0) (\<lambda>size.
                 and_then (plan_digest (plan_get obj ''digest'') ''digest'') (\<lambda>digest.
                 if digest_size es digest \<noteq> None \<and> digest_size es digest \<noteq> Some size
                 then refused ''content-addressed digest has conflicting sizes''
                 else and_then (created_at env (plan_get obj ''created_at'')) (\<lambda>(created, epoch).
                   Inr (es @ [\<lparr>pl_backup = backup, pl_profile = prof, pl_size = size, pl_digest = digest,
                               pl_created = created, pl_epoch = epoch\<rparr>]))))
        | _ \<Rightarrow> refused ''catalog entry identity is invalid'')
   | _ \<Rightarrow> refused ''catalog entry is not an object'')"

fun fold_outcome :: "('a \<Rightarrow> json \<Rightarrow> 'a outcome) \<Rightarrow> 'a \<Rightarrow> json list \<Rightarrow> 'a outcome" where
  "fold_outcome f acc [] = Inr acc"
| "fold_outcome f acc (j # js) = and_then (f acc j) (\<lambda>acc'. fold_outcome f acc' js)"

definition read_catalog :: "plan_env \<Rightarrow> json \<Rightarrow> plan_entry list outcome" where
  "read_catalog env v = (case v of
     JArr js \<Rightarrow> if js = [] then refused ''catalog is empty or invalid'' else fold_outcome (read_entry env) [] js
   | _ \<Rightarrow> refused ''catalog is empty or invalid'')"

definition read_protections :: "plan_entry list \<Rightarrow> json \<Rightarrow> string list outcome" where
  "read_protections es v = (case v of
     JArr js \<Rightarrow>
       if \<not> list_all is_str js then refused ''protected_backup_ids is invalid''
       else let ids = List.map_filter as_str js
            in if \<not> distinct ids then refused ''protected_backup_ids contains a duplicate row''
               else if \<not> list_all (\<lambda>i. i \<in> pl_backup ` set es) ids then refused ''a protection row references an unknown backup''
               else Inr ids
   | _ \<Rightarrow> refused ''protected_backup_ids is invalid'')"

definition read_ledger_row :: "plan_entry list \<Rightarrow> (string \<times> string) list \<Rightarrow> json \<Rightarrow> (string \<times> string) list outcome" where
  "read_ledger_row es states row = (case row of
     JObj obj \<Rightarrow>
       (case (as_str (plan_get obj ''backup_id''), as_str (plan_get obj ''state'')) of
          (Some backup, Some state) \<Rightarrow>
            if state \<notin> set KNOWN_LEDGER_STATES then refused ''ledger row has an unknown state''
            else if backup \<notin> pl_backup ` set es then refused ''ledger row references an unknown backup''
            else (case map_of states backup of
                    None \<Rightarrow> Inr (states @ [(backup, state)])
                  | Some s \<Rightarrow> if s \<noteq> state then refused ''ledger has conflicting rows for one backup'' else Inr states)
        | _ \<Rightarrow> refused ''ledger row is malformed'')
   | _ \<Rightarrow> refused ''ledger row is not an object'')"

definition read_ledger :: "plan_entry list \<Rightarrow> json \<Rightarrow> (string \<times> string) list outcome" where
  "read_ledger es v = (case v of JArr js \<Rightarrow> fold_outcome (read_ledger_row es) [] js | _ \<Rightarrow> refused ''ledger is invalid'')"

definition read_member :: "(string \<times> int) list \<Rightarrow> json \<Rightarrow> (string \<times> int) list outcome" where
  "read_member refs member = (case member of
     JObj obj \<Rightarrow>
       and_then (plan_digest (plan_get obj ''digest'') ''manifest digest'') (\<lambda>digest.
       and_then (plan_int (plan_get obj ''size_bytes'') ''manifest size_bytes'' 0) (\<lambda>size.
       case map_of refs digest of
         None \<Rightarrow> Inr (refs @ [(digest, size)])
       | Some s \<Rightarrow> if s \<noteq> size then refused ''manifest digest has conflicting sizes'' else Inr refs))
   | _ \<Rightarrow> refused ''manifest member is not an object'')"

definition read_manifests :: "plan_entry list \<Rightarrow> json \<Rightarrow> (string \<times> int) list outcome" where
  "read_manifests es v = (case v of
     JArr js \<Rightarrow> and_then (fold_outcome read_member [] js) (\<lambda>refs.
       if list_ex (\<lambda>(d, size). digest_size es d \<noteq> None \<and> digest_size es d \<noteq> Some size) refs
       then refused ''catalog and manifest disagree on an object size'' else Inr refs)
   | _ \<Rightarrow> refused ''manifests is invalid'')"

definition read_scope :: "json \<Rightarrow> plan_scope outcome" where
  "read_scope v = (if v = JStr ''remote-vault'' then Inr Remote_Vault
     else if v = JStr ''local-payload'' then Inr Local_Payload
     else refused ''policy scope must be remote-vault or local-payload'')"

definition read_policy :: "json \<Rightarrow> (int \<times> plan_scope) outcome" where
  "read_policy v = (case v of
     JObj policy \<Rightarrow>
       if map_of policy ''keep_newest_per_profile'' = None then refused ''explicit keep_newest_per_profile policy is required''
       else and_then (plan_int (plan_get policy ''keep_newest_per_profile'') ''keep_newest_per_profile'' 0) (\<lambda>keep.
            if keep < MIN_KEEP_NEWEST then refused ''keep_newest_per_profile must be >= 2''
            else and_then (read_scope (plan_get policy ''scope'')) (\<lambda>scope. Inr (keep, scope)))
   | _ \<Rightarrow> refused ''explicit retention policy is required'')"

text \<open>Python's \<^verbatim>\<open>==\<close> with the integer 1.\<close>

fun equals_one :: "json \<Rightarrow> bool" where
  "equals_one (JInt n) = (n = 1)"
| "equals_one (JBool b) = b"
| "equals_one (JFloat (Finite q)) = (q = 1)"
| "equals_one _ = False"

definition read_inventory :: "plan_env \<Rightarrow> json \<Rightarrow> plan_input outcome" where
  "read_inventory env inventory = (case inventory of
     JObj doc \<Rightarrow>
       if \<not> equals_one (plan_get doc ''schema'') then refused ''unsupported inventory schema''
       else
         and_then (plan_positive (plan_get doc ''budget_bytes'') ''budget_bytes'') (\<lambda>budget.
         and_then (plan_positive (plan_get doc ''reserve_bytes'') ''reserve_bytes'') (\<lambda>reserve.
         and_then (plan_int (plan_get doc ''used_bytes'') ''used_bytes'' 0) (\<lambda>used.
         and_then (plan_int (plan_get doc ''available_bytes'') ''available_bytes'' 0) (\<lambda>available.
         and_then (read_policy (plan_get doc ''policy'')) (\<lambda>(keep, scope).
         and_then (read_catalog env (plan_get doc ''catalog'')) (\<lambda>es.
         and_then (read_protections es (plan_get doc ''protected_backup_ids'')) (\<lambda>protected.
         and_then (read_ledger es (plan_get doc ''ledger'')) (\<lambda>states.
         and_then (read_manifests es (plan_get doc ''manifests'')) (\<lambda>refs.
         Inr \<lparr>iv_budget = budget, iv_reserve = reserve, iv_used = used, iv_available = available, iv_keep = keep,
              iv_scope = scope, iv_catalog = es, iv_protected = protected, iv_ledger = states, iv_referenced = refs\<rparr>)))))))))
   | _ \<Rightarrow> refused ''inventory is not an object'')"

section \<open>The plan\<close>

text \<open>The entries of a profile, newest first, ties by identifier.\<close>

definition newest_first :: "plan_entry list \<Rightarrow> string \<Rightarrow> plan_entry list" where
  "newest_first es prof = rev (sort_key (\<lambda>e. (pl_epoch e, pl_backup e)) (filter (\<lambda>e. pl_profile e = prof) es))"

definition within_keep :: "plan_input \<Rightarrow> plan_entry \<Rightarrow> bool" where
  "within_keep iv e \<longleftrightarrow> pl_backup e \<in> pl_backup ` set (take (nat (iv_keep iv)) (newest_first (iv_catalog iv) (pl_profile e)))"

definition is_blocking :: "plan_input \<Rightarrow> string \<Rightarrow> bool" where
  "is_blocking iv backup \<longleftrightarrow> (case map_of (iv_ledger iv) backup of None \<Rightarrow> False | Some s \<Rightarrow> s \<in> set BLOCKING_LEDGER_STATES)"

definition is_referenced :: "plan_input \<Rightarrow> string \<Rightarrow> bool" where
  "is_referenced iv digest \<longleftrightarrow> digest \<in> fst ` set (iv_referenced iv)"

definition retain_reason :: "plan_input \<Rightarrow> plan_entry \<Rightarrow> string option" where
  "retain_reason iv e =
     (if within_keep iv e then Some ''within_keep_newest''
      else if pl_backup e \<in> set (iv_protected iv) then Some ''protected''
      else if is_blocking iv (pl_backup e) then Some ''blocking_ledger_state''
      else if iv_scope iv = Remote_Vault \<and> is_referenced iv (pl_digest e) then Some ''remote_object_referenced_by_manifest''
      else if iv_scope iv = Local_Payload \<and> \<not> is_referenced iv (pl_digest e) then Some ''no_remote_manifest_copy''
      else None)"

definition reason_by_backup :: "plan_input \<Rightarrow> (string \<times> string) list" where
  "reason_by_backup iv = List.map_filter (\<lambda>e. map_option (Pair (pl_backup e)) (retain_reason iv e)) (iv_catalog iv)"

text \<open>The digests in the order of their first entry, and the backups that share one.\<close>

definition digests_of :: "plan_entry list \<Rightarrow> string list" where
  "digests_of es = rev (remdups (rev (map pl_digest es)))"

definition aliases_of :: "plan_entry list \<Rightarrow> string \<Rightarrow> string list" where
  "aliases_of es d = map pl_backup (filter (\<lambda>e. pl_digest e = d) es)"

definition inherited_reason :: "plan_env \<Rightarrow> plan_input \<Rightarrow> string \<Rightarrow> string option" where
  "inherited_reason env iv d =
     (case List.map_filter (map_of (reason_by_backup iv)) (pe_set_order env (aliases_of (iv_catalog iv) d)) of
        [] \<Rightarrow> None | reason # _ \<Rightarrow> Some reason)"

text \<open>\<^verbatim>\<open>excluded.setdefault(alias, inherited)\<close> over the aliases of every digest.\<close>

definition set_default :: "string \<Rightarrow> string \<Rightarrow> (string \<times> string) list \<Rightarrow> (string \<times> string) list" where
  "set_default reason alias ex = (if map_of ex alias = None then ex @ [(alias, reason)] else ex)"

definition excluded_of :: "plan_env \<Rightarrow> plan_input \<Rightarrow> (string \<times> string) list" where
  "excluded_of env iv = fold (\<lambda>d ex. case inherited_reason env iv d of
       None \<Rightarrow> ex
     | Some reason \<Rightarrow> fold (set_default reason) (pe_set_order env (aliases_of (iv_catalog iv) d)) ex)
     (digests_of (iv_catalog iv)) (reason_by_backup iv)"

record candidate =
  cn_digest :: string
  cn_size :: int
  cn_backups :: "string list"

definition eligible :: "plan_input \<Rightarrow> string \<Rightarrow> bool" where
  "eligible iv d \<longleftrightarrow> list_all (\<lambda>alias. map_of (reason_by_backup iv) alias = None) (aliases_of (iv_catalog iv) d)"

definition candidate_of :: "plan_input \<Rightarrow> string \<Rightarrow> candidate" where
  "candidate_of iv d = \<lparr>cn_digest = d, cn_size = (case digest_size (iv_catalog iv) d of None \<Rightarrow> 0 | Some n \<Rightarrow> n),
     cn_backups = sort (aliases_of (iv_catalog iv) d)\<rparr>"

definition candidates_of :: "plan_input \<Rightarrow> candidate list" where
  "candidates_of iv = sort_key cn_digest (map (candidate_of iv) (filter (eligible iv) (digests_of (iv_catalog iv))))"

definition scope_text :: "plan_scope \<Rightarrow> string" where
  "scope_text s = (case s of Remote_Vault \<Rightarrow> ''remote-vault'' | Local_Payload \<Rightarrow> ''local-payload'')"

definition section_digest :: "plan_env \<Rightarrow> json \<Rightarrow> string" where
  "section_digest env j = pe_sha256 env (pe_dumps env j)"

definition plan_identities :: "plan_env \<Rightarrow> plan_input \<Rightarrow> (string \<times> string) list" where
  "plan_identities env iv =
     [(''catalog_sha256'', section_digest env (JArr (map (\<lambda>e. JArr [JStr (pl_backup e), JStr (pl_profile e), JStr (pl_created e),
          JInt (pl_size e), JStr (pl_digest e)]) (sort_key pl_backup (iv_catalog iv))))),
      (''protections_sha256'', section_digest env (JArr (map JStr (sort (iv_protected iv))))),
      (''ledger_sha256'', section_digest env (JArr (map (\<lambda>(b, s). JArr [JStr b, JStr s]) (sort (iv_ledger iv))))),
      (''manifests_sha256'', section_digest env (JArr (map (\<lambda>(d, n). JArr [JStr d, JInt n]) (sort (iv_referenced iv)))))]"

definition pressure :: "plan_input \<Rightarrow> int \<times> int" where
  "pressure iv = (max 0 (iv_used iv - iv_budget iv), max 0 (iv_reserve iv - iv_available iv))"

definition canonical_plan :: "plan_env \<Rightarrow> plan_input \<Rightarrow> json" where
  "canonical_plan env iv = JObj
     [(''policy'', JObj [(''keep_newest_per_profile'', JInt (iv_keep iv)), (''scope'', JStr (scope_text (iv_scope iv)))]),
      (''budget_bytes'', JInt (iv_budget iv)), (''reserve_bytes'', JInt (iv_reserve iv)),
      (''used_bytes'', JInt (iv_used iv)), (''available_bytes'', JInt (iv_available iv)),
      (''pressure'', JObj [(''over_budget'', JInt (fst (pressure iv))), (''under_reserve'', JInt (snd (pressure iv)))]),
      (''identities'', JObj (map (\<lambda>(k, v). (k, JStr v)) (plan_identities env iv))),
      (''candidates'', JArr (map (\<lambda>c. JArr [JStr (cn_digest c), JInt (cn_size c), JArr (map JStr (cn_backups c))]) (candidates_of iv)))]"

record plan_result =
  pn_scope :: plan_scope
  pn_keep :: int
  pn_sha256 :: string
  pn_identities :: "(string \<times> string) list"
  pn_count :: nat
  pn_bytes :: int
  pn_candidates :: "candidate list"
  pn_excluded :: "(string \<times> string) list"
  pn_referenced :: "(string \<times> int) list"
  pn_pressure :: "int \<times> int"

definition plan_of :: "plan_env \<Rightarrow> plan_input \<Rightarrow> plan_result" where
  "plan_of env iv = \<lparr>pn_scope = iv_scope iv, pn_keep = iv_keep iv, pn_sha256 = section_digest env (canonical_plan env iv),
     pn_identities = plan_identities env iv, pn_count = length (candidates_of iv),
     pn_bytes = sum_list (map cn_size (candidates_of iv)), pn_candidates = candidates_of iv, pn_excluded = excluded_of env iv,
     pn_referenced = sort (iv_referenced iv), pn_pressure = pressure iv\<rparr>"

definition build_plan :: "plan_env \<Rightarrow> json \<Rightarrow> plan_result outcome" where
  "build_plan env inventory = and_then (read_inventory env inventory) (\<lambda>iv. Inr (plan_of env iv))"

section \<open>A sample inventory\<close>

text \<open>Three backups of one profile; a time is the number of its characters, and the encodings are short stand-ins.\<close>

definition sample_plan_env :: plan_env where
  "sample_plan_env = \<lparr>pe_fromisoformat = (\<lambda>s. Some (Aware (Some (int (length s))))), pe_dumps = (\<lambda>j. []), pe_sha256 = (\<lambda>s. s), pe_set_order = (\<lambda>xs. xs)\<rparr>"

definition sample_plan_row :: "string \<Rightarrow> char \<Rightarrow> string \<Rightarrow> json" where
  "sample_plan_row backup d created = JObj [(''backup_id'', JStr backup), (''profile_id'', JStr ''p''), (''size_bytes'', JInt 5),
     (''digest'', JStr (replicate 64 d)), (''created_at'', JStr created)]"

definition sample_inventory :: json where
  "sample_inventory = JObj [(''schema'', JInt 1), (''budget_bytes'', JInt 9), (''reserve_bytes'', JInt 1), (''used_bytes'', JInt 15),
     (''available_bytes'', JInt 3), (''policy'', JObj [(''keep_newest_per_profile'', JInt 2), (''scope'', JStr ''remote-vault'')]),
     (''catalog'', JArr [sample_plan_row ''b1'' (CHR ''a'') ''1'', sample_plan_row ''b2'' (CHR ''b'') ''12'', sample_plan_row ''b3'' (CHR ''c'') ''123'']),
     (''protected_backup_ids'', JArr []), (''ledger'', JArr []), (''manifests'', JArr [])]"

text \<open>The same with a fourth, protected backup of the oldest object, whose digest is written with a line feed.\<close>

definition newline_inventory :: json where
  "newline_inventory = JObj [(''schema'', JInt 1), (''budget_bytes'', JInt 9), (''reserve_bytes'', JInt 1), (''used_bytes'', JInt 15),
     (''available_bytes'', JInt 3), (''policy'', JObj [(''keep_newest_per_profile'', JInt 2), (''scope'', JStr ''remote-vault'')]),
     (''catalog'', JArr [sample_plan_row ''b1'' (CHR ''a'') ''1'', sample_plan_row ''b2'' (CHR ''b'') ''12'', sample_plan_row ''b3'' (CHR ''c'') ''123'',
        JObj [(''backup_id'', JStr ''b4''), (''profile_id'', JStr ''p''), (''size_bytes'', JInt 5),
          (''digest'', JStr (replicate 64 (CHR ''a'') @ [CHR 0x0A])), (''created_at'', JStr ''1234'')]]),
     (''protected_backup_ids'', JArr [JStr ''b4'']), (''ledger'', JArr []), (''manifests'', JArr [])]"

section \<open>What a catalog that was read satisfies\<close>

definition catalog_ok :: "plan_entry list \<Rightarrow> bool" where
  "catalog_ok es \<longleftrightarrow> distinct (map pl_backup es)
     \<and> (\<forall>e \<in> set es. \<forall>e' \<in> set es. pl_digest e = pl_digest e' \<longrightarrow> pl_size e = pl_size e')"

lemma catalog_ok_ids: "catalog_ok es \<Longrightarrow> distinct (map pl_backup es)"
  by (simp add: catalog_ok_def)

lemma catalog_ok_size: "catalog_ok es \<Longrightarrow> e \<in> set es \<Longrightarrow> e' \<in> set es \<Longrightarrow> pl_digest e = pl_digest e' \<Longrightarrow> pl_size e = pl_size e'"
  unfolding catalog_ok_def by blast

lemma catalog_ok_inj: "catalog_ok es \<Longrightarrow> inj_on pl_backup (set es)"
  using catalog_ok_ids by (simp add: distinct_map)

lemma digest_size_entry: "catalog_ok es \<Longrightarrow> e \<in> set es \<Longrightarrow> digest_size es (pl_digest e) = Some (pl_size e)"
proof -
  assume ok: "catalog_ok es" and e: "e \<in> set es"
  obtain x where "find (\<lambda>x. pl_digest x = pl_digest e) es = Some x"
    using e by (cases "find (\<lambda>x. pl_digest x = pl_digest e) es") (auto simp: find_None_iff)
  moreover from this have "pl_size x = pl_size e" using catalog_ok_size [OF ok _ e] by (blast dest: find_SomeD)
  ultimately show ?thesis by (simp add: digest_size_def)
qed

lemma catalog_ok_snoc:
  assumes ok: "catalog_ok es" and new: "pl_backup e \<notin> pl_backup ` set es"
    and size: "digest_size es (pl_digest e) = None \<or> digest_size es (pl_digest e) = Some (pl_size e)"
  shows "catalog_ok (es @ [e])"
proof -
  have "pl_size x = pl_size e" if "x \<in> set es" "pl_digest x = pl_digest e" for x
    using size digest_size_entry [OF ok that(1)] that by simp
  then have "\<forall>x \<in> set (es @ [e]). \<forall>y \<in> set (es @ [e]). pl_digest x = pl_digest y \<longrightarrow> pl_size x = pl_size y"
    using catalog_ok_size [OF ok] unfolding set_append list.set by (metis Un_iff insert_iff empty_iff)
  moreover have "distinct (map pl_backup (es @ [e]))" using catalog_ok_ids [OF ok] new by simp
  ultimately show ?thesis unfolding catalog_ok_def by (rule conjI [rotated])
qed

lemma read_entry_ok:
  assumes "read_entry env es raw = Inr es'" "catalog_ok es"
  shows "catalog_ok es'"
proof -
  obtain e where "es' = es @ [e]" "pl_backup e \<notin> pl_backup ` set es"
    "digest_size es (pl_digest e) = None \<or> digest_size es (pl_digest e) = Some (pl_size e)"
    using assms(1) by (auto simp: read_entry_def and_then_Inr_iff split: json.splits option.splits if_splits prod.splits)
  then show ?thesis using catalog_ok_snoc [OF assms(2)] by simp
qed

lemma fold_outcome_keeps:
  "fold_outcome f acc js = Inr acc' \<Longrightarrow> (\<And>a j a'. f a j = Inr a' \<Longrightarrow> P a \<Longrightarrow> P a') \<Longrightarrow> P acc \<Longrightarrow> P acc'"
  by (induction js arbitrary: acc) (auto simp: and_then_Inr_iff)

lemma read_catalog_ok: "read_catalog env v = Inr es \<Longrightarrow> catalog_ok es"
  unfolding read_catalog_def
  by (auto split: json.splits if_splits elim!: fold_outcome_keeps [where P = catalog_ok] intro: read_entry_ok)
     (simp add: catalog_ok_def)

lemma read_inventory_ok:
  assumes "read_inventory env doc = Inr iv"
  shows "catalog_ok (iv_catalog iv) \<and> MIN_KEEP_NEWEST \<le> iv_keep iv"
  using assms
  by (auto simp: read_inventory_def read_policy_def and_then_Inr_iff read_catalog_ok split: json.splits if_splits)

section \<open>Reasons, aliases and candidates\<close>

lemma map_of_filtered:
  assumes "distinct (map k es)" "e \<in> set es"
  shows "map_of (List.map_filter (\<lambda>e. map_option (Pair (k e)) (f e)) es) (k e) = f e"
  using assms
proof (induction es)
  case (Cons x es)
  have "k e \<notin> k ` set es \<Longrightarrow> map_of (List.map_filter (\<lambda>e. map_option (Pair (k e)) (f e)) es) (k e) = None" for e
    by (auto simp: map_of_eq_None_iff List.map_filter_def)
  moreover have "e \<noteq> x \<Longrightarrow> k e \<noteq> k x" using Cons.prems by (auto simp: image_iff)
  ultimately show ?case using Cons by (cases "f x"; cases "e = x") (simp_all add: List.map_filter_simps)
qed simp

lemma reason_of_entry: "catalog_ok (iv_catalog iv) \<Longrightarrow> e \<in> set (iv_catalog iv) \<Longrightarrow> map_of (reason_by_backup iv) (pl_backup e) = retain_reason iv e"
  unfolding reason_by_backup_def catalog_ok_def by (rule map_of_filtered) simp_all

lemma set_aliases: "set (aliases_of es d) = pl_backup ` {e \<in> set es. pl_digest e = d}"
  by (auto simp: aliases_of_def)

lemma set_digests: "set (digests_of es) = pl_digest ` set es"
  by (simp add: digests_of_def)

lemma eligible_iff:
  "catalog_ok (iv_catalog iv) \<Longrightarrow> eligible iv d \<longleftrightarrow> (\<forall>e \<in> set (iv_catalog iv). pl_digest e = d \<longrightarrow> retain_reason iv e = None)"
  by (auto simp: eligible_def list_all_iff set_aliases reason_of_entry)

lemma set_candidates: "set (candidates_of iv) = candidate_of iv ` {d \<in> pl_digest ` set (iv_catalog iv). eligible iv d}"
  by (auto simp: candidates_of_def set_digests)

lemma candidate_entry:
  assumes ok: "catalog_ok (iv_catalog iv)" and e: "e \<in> set (iv_catalog iv)"
  shows "pl_backup e \<in> set (cn_backups (candidate_of iv d)) \<longleftrightarrow> pl_digest e = d"
proof -
  have "x = e" if "x \<in> set (iv_catalog iv)" "pl_backup x = pl_backup e" for x
    using inj_onD [OF catalog_ok_inj [OF ok]] e that by blast
  then show ?thesis using e by (auto simp: candidate_of_def set_aliases)
qed

section \<open>The newest entries of a profile\<close>

lemma below_take_rev_sort:
  fixes f :: "'a \<Rightarrow> 'b :: linorder"
  assumes "e \<in> set xs" "e \<notin> set (take k (rev (sort_key f xs)))" "inj_on f (set xs)"
  shows "length (take k (rev (sort_key f xs))) = k \<and> (\<forall>x \<in> set (take k (rev (sort_key f xs))). f e < f x)"
proof -
  let ?s = "rev (sort_key f xs)"
  have drop: "e \<in> set (drop k ?s)"
    using assms(1,2) set_append [of "take k ?s" "drop k ?s"] by simp
  then have "k < length ?s" by (cases "k < length ?s") simp_all
  moreover have "f e < f x" if x: "x \<in> set (take k ?s)" for x
  proof -
    have "sorted_wrt (\<lambda>a b. f b \<le> f a) (take k ?s @ drop k ?s)"
      unfolding append_take_drop_id sorted_wrt_rev using sorted_sort_key [of f xs] by (simp add: sorted_map)
    then have "f e \<le> f x" using drop x unfolding sorted_wrt_append by blast
    moreover have "f e \<noteq> f x"
      using assms x set_take_subset [of k ?s] by (auto dest: inj_onD)
    ultimately show ?thesis by simp
  qed
  ultimately show ?thesis by simp
qed

lemma newest_retained:
  assumes ok: "catalog_ok (iv_catalog iv)" and e: "e \<in> set (iv_catalog iv)" "\<not> within_keep iv e" and k: "0 \<le> iv_keep iv"
  shows "\<exists>kept. distinct kept \<and> int (length kept) = iv_keep iv
    \<and> (\<forall>x \<in> set kept. x \<in> set (iv_catalog iv) \<and> pl_profile x = pl_profile e \<and> within_keep iv x
         \<and> (pl_epoch e, pl_backup e) < (pl_epoch x, pl_backup x))"
proof -
  let ?f = "\<lambda>e. (pl_epoch e, pl_backup e)"
  let ?xs = "filter (\<lambda>x. pl_profile x = pl_profile e) (iv_catalog iv)"
  let ?kept = "take (nat (iv_keep iv)) (newest_first (iv_catalog iv) (pl_profile e))"
  have "inj_on ?f (set ?xs)" by (rule inj_onI) (use inj_onD [OF catalog_ok_inj [OF ok]] in simp)
  moreover have "e \<notin> set ?kept" using e(2) by (auto simp: within_keep_def)
  ultimately have "length ?kept = nat (iv_keep iv) \<and> (\<forall>x \<in> set ?kept. ?f e < ?f x)"
    using e(1) below_take_rev_sort [of e ?xs "nat (iv_keep iv)" ?f] by (simp add: newest_first_def)
  moreover have "distinct ?kept" using catalog_ok_ids [OF ok] by (simp add: newest_first_def distinct_map)
  moreover have "x \<in> set (iv_catalog iv) \<and> pl_profile x = pl_profile e \<and> within_keep iv x" if "x \<in> set ?kept" for x
  proof -
    have "x \<in> set (iv_catalog iv)" "pl_profile x = pl_profile e"
      using that set_take_subset [of "nat (iv_keep iv)" "newest_first (iv_catalog iv) (pl_profile e)"]
      by (auto simp: newest_first_def)
    with that show ?thesis by (simp add: within_keep_def)
  qed
  moreover have "int (length ?kept) = iv_keep iv" using k calculation(1) by simp
  ultimately show ?thesis by blast
qed

lemma candidate_reason:
  assumes "catalog_ok (iv_catalog iv)" "c \<in> set (candidates_of iv)" "e \<in> set (iv_catalog iv)" "pl_digest e = cn_digest c"
  shows "retain_reason iv e = None \<and> cn_size c = pl_size e"
proof -
  obtain d where d: "c = candidate_of iv d" "eligible iv d" using assms(2) by (auto simp: set_candidates)
  then show ?thesis
    using assms(1,3,4) digest_size_entry [OF assms(1,3)] eligible_iff [OF assms(1)] by (auto simp: candidate_of_def)
qed

lemma retain_reason_None:
  "retain_reason iv e = None \<longleftrightarrow> \<not> within_keep iv e \<and> pl_backup e \<notin> set (iv_protected iv) \<and> \<not> is_blocking iv (pl_backup e)
     \<and> (iv_scope iv = Remote_Vault \<longleftrightarrow> \<not> is_referenced iv (pl_digest e))"
  by (cases "iv_scope iv") (auto simp: retain_reason_def)

text \<open>C18. What the planner proposes to remove.  When it returns a plan, every backup whose digest is that of a
  candidate is listed with it, is not protected, has no blocking ledger state, and has at least \<open>keep\<close> newer backups of its own profile
  (and \<open>keep\<close> is at least two), none of whose digests is a candidate.  In the scope of the remote vault no candidate is referenced by a
  preserved manifest; in the scope of local payloads every candidate is.  Digests are compared as texts: one that is followed by a line feed
  is accepted and differs from the same digest without it (see \<open>newline_hides_alias\<close> below).\<close>

theorem plan_retains:
  assumes "build_plan env doc = Inr pn"
  shows "\<exists>iv. read_inventory env doc = Inr iv \<and> 2 \<le> iv_keep iv
    \<and> (\<forall>c \<in> set (pn_candidates pn). \<forall>e \<in> set (iv_catalog iv).
         (pl_backup e \<in> set (cn_backups c) \<longleftrightarrow> pl_digest e = cn_digest c)
       \<and> (pl_digest e = cn_digest c \<longrightarrow>
            cn_size c = pl_size e \<and> pl_backup e \<notin> set (iv_protected iv) \<and> \<not> is_blocking iv (pl_backup e)
          \<and> (iv_scope iv = Remote_Vault \<longrightarrow> \<not> is_referenced iv (pl_digest e))
          \<and> (iv_scope iv = Local_Payload \<longrightarrow> is_referenced iv (pl_digest e))
          \<and> (\<exists>kept. distinct kept \<and> int (length kept) = iv_keep iv
               \<and> (\<forall>x \<in> set kept. x \<in> set (iv_catalog iv) \<and> pl_profile x = pl_profile e
                    \<and> (pl_epoch e, pl_backup e) < (pl_epoch x, pl_backup x)
                    \<and> (\<forall>c' \<in> set (pn_candidates pn). pl_digest x \<noteq> cn_digest c')))))"
proof -
  obtain iv where iv: "read_inventory env doc = Inr iv" "pn = plan_of env iv"
    using assms by (auto simp: build_plan_def and_then_Inr_iff)
  have ok: "catalog_ok (iv_catalog iv)" and keep: "2 \<le> iv_keep iv"
    using read_inventory_ok [OF iv(1)] by (simp_all add: MIN_KEEP_NEWEST_def)
  have cs: "pn_candidates pn = candidates_of iv" by (simp add: iv(2) plan_of_def)
  have member: "pl_backup e \<in> set (cn_backups c) \<longleftrightarrow> pl_digest e = cn_digest c"
    if c: "c \<in> set (candidates_of iv)" and e: "e \<in> set (iv_catalog iv)" for c e
  proof -
    obtain d where "c = candidate_of iv d" using c by (auto simp: set_candidates)
    then show ?thesis using candidate_entry [OF ok e] by (simp add: candidate_of_def)
  qed
  have kept: "pl_digest x \<noteq> cn_digest c'" if "within_keep iv x" "x \<in> set (iv_catalog iv)" "c' \<in> set (candidates_of iv)" for x c'
    using that(1) candidate_reason [OF ok that(3,2)] unfolding retain_reason_None by blast
  show ?thesis
    unfolding cs
  proof (intro exI [of _ iv] conjI ballI impI iv(1) keep)
    fix c e assume c: "c \<in> set (candidates_of iv)" and e: "e \<in> set (iv_catalog iv)"
    show "pl_backup e \<in> set (cn_backups c) \<longleftrightarrow> pl_digest e = cn_digest c" by (rule member [OF c e])
    assume d: "pl_digest e = cn_digest c"
    note r = candidate_reason [OF ok c e d, unfolded retain_reason_None]
    show "cn_size c = pl_size e" "pl_backup e \<notin> set (iv_protected iv)" "\<not> is_blocking iv (pl_backup e)"
      "iv_scope iv = Remote_Vault \<Longrightarrow> \<not> is_referenced iv (pl_digest e)"
      "iv_scope iv = Local_Payload \<Longrightarrow> is_referenced iv (pl_digest e)" using r by auto
    have n: "\<not> within_keep iv e" and k0: "0 \<le> iv_keep iv" using r keep by simp_all
    obtain ks where ks: "distinct ks" "int (length ks) = iv_keep iv"
      "\<forall>x \<in> set ks. x \<in> set (iv_catalog iv) \<and> pl_profile x = pl_profile e \<and> within_keep iv x
         \<and> (pl_epoch e, pl_backup e) < (pl_epoch x, pl_backup x)"
      using newest_retained [OF ok e n k0] by blast
    then show "\<exists>kept. distinct kept \<and> int (length kept) = iv_keep iv
        \<and> (\<forall>x \<in> set kept. x \<in> set (iv_catalog iv) \<and> pl_profile x = pl_profile e
             \<and> (pl_epoch e, pl_backup e) < (pl_epoch x, pl_backup x) \<and> (\<forall>c' \<in> set (candidates_of iv). pl_digest x \<noteq> cn_digest c'))"
      using kept by (intro exI [of _ ks]) blast
  qed
qed

section \<open>Evaluation of the sample inventory\<close>

lemma sample_plan_eligible:
  "(case read_inventory sample_plan_env sample_inventory of Inl _ \<Rightarrow> False | Inr iv \<Rightarrow> list_ex (eligible iv) (digests_of (iv_catalog iv)))"
  by code_simp

text \<open>The rule that all backups of an object must be eligible is by the text of the digest: here the object of the protected backup
  \<open>b4\<close> is proposed, under the digest of \<open>b1\<close>.\<close>

lemma newline_hides_alias:
  "(case read_inventory sample_plan_env newline_inventory of
      Inl _ \<Rightarrow> False
    | Inr iv \<Rightarrow> eligible iv (replicate 64 (CHR ''a'')) \<and> ''b4'' \<in> set (iv_protected iv)
        \<and> list_ex (\<lambda>e. pl_backup e = ''b4'' \<and> pl_digest e = replicate 64 (CHR ''a'') @ [CHR 0x0A]) (iv_catalog iv))"
  by code_simp

lemma eligible_proposed: "list_ex (eligible iv) (digests_of (iv_catalog iv)) \<Longrightarrow> pn_candidates (plan_of env iv) \<noteq> []"
  by (auto simp: list_ex_iff plan_of_def candidates_of_def filter_empty_conv dest: arg_cong [where f = set])

theorem plan_retains_witness:
  "\<exists>pn iv. build_plan sample_plan_env sample_inventory = Inr pn \<and> pn_candidates pn \<noteq> [] \<and> read_inventory sample_plan_env sample_inventory = Inr iv
     \<and> 2 \<le> iv_keep iv
     \<and> (\<forall>c \<in> set (pn_candidates pn). \<forall>e \<in> set (iv_catalog iv). pl_backup e \<in> set (cn_backups c) \<longleftrightarrow> pl_digest e = cn_digest c)"
proof -
  obtain iv where iv: "read_inventory sample_plan_env sample_inventory = Inr iv" "list_ex (eligible iv) (digests_of (iv_catalog iv))"
    using sample_plan_eligible by (cases "read_inventory sample_plan_env sample_inventory") simp_all
  then obtain pn where p: "build_plan sample_plan_env sample_inventory = Inr pn" "pn_candidates pn \<noteq> []"
    using eligible_proposed by (simp add: build_plan_def)
  show ?thesis
    by (rule exI [of _ pn], rule exE [OF plan_retains [OF p(1)]], elim conjE)
       (intro exI conjI p ballI, assumption, assumption, drule (1) bspec, drule (1) bspec, erule conjunct1)
qed

end
