(* ===== verification/Spec2Isabelle.thy ===== *)
theory Spec2Isabelle
  imports Models Py_Text Slot Schedule Idle_Stop Alert_Policy Startup_Estimates Sql_Table Capability Control_State
    Readiness Status Lifecycle_Outcomes Log_Paging Watch_Hub Player_Sessions Benchmark_Safety Maintenance_Cycle Retirement_Rollback
    Web_Auth Retention_Plan
begin

text \<open>
  \<^bold>\<open>Helios Horizon\<close>: a controller for game servers that share one machine.  At most one server may run at a time; the right to
  run is a durable lease on the ``game slot''.  A root daemon owns the lease file, the state database and the adapters that start and
  stop servers; a web process and a narrow capability socket send it requests.  Sources are under \<^verbatim>\<open>src/src/game_control/\<close> unless
  another directory of \<^verbatim>\<open>src/\<close> is named.

  \<^bold>\<open>Parts and theories.\<close>
  \<^item> \<open>Horizon_Prelude\<close>: exceptions as values (\<open>outcome\<close>), Python numbers, instants, shared lemmas and collections.  \<open>Py_Text\<close>: the
    string methods the sources use.  \<open>Sql_Table\<close>: rows of a table as a list, with the statements the sources issue.  \<open>Iso_Time\<close>: the
    order of ISO 8601 texts, which is what SQL compares, against the order of instants.
  \<^item> \<open>Models\<close> (\<^verbatim>\<open>models.py\<close>): profiles with all their validators.
  \<^item> \<open>Slot\<close> (\<^verbatim>\<open>slot.py\<close>): the lease file, acquisition, renewal, transfer, release, reconciliation, handoff, the observer of the lock.
    Root calls form a trace; the lemmas show that a live lease survives every foreign trace, that a dead one can be replaced, and that
    the file stays one the admission reader accepts.
  \<^item> \<open>Schedule\<close> (\<^verbatim>\<open>schedule.py\<close>): cron fields, the calendar, the next-fire search and the schedule book, against a minute-by-minute
    definition.  \<open>Idle_Stop\<close> (\<^verbatim>\<open>idle_stop.py\<close>) against a definition over whole histories.  \<open>Alert_Policy\<close> (\<^verbatim>\<open>alert_policy.py\<close>).
    \<open>Startup_Estimates\<close> (\<^verbatim>\<open>startup_estimates.py\<close>): the table, its trimming and its cache.
  \<^item> \<open>Capability\<close> (\<^verbatim>\<open>capability.py\<close>): tokens, rate windows, idempotent requests, retention, and the requests a token may cause.
  \<^item> \<open>Control_State\<close> (\<^verbatim>\<open>controller.py\<close>, \<^verbatim>\<open>state_db.py\<close>): the state database as a record of tables and each transaction on it; a
    request id runs once, a confirmation is used once, a restart reads the history unless a boot profile is configured.
  \<^item> \<open>Readiness\<close> (\<^verbatim>\<open>health.py\<close>), \<open>Status\<close> (\<^verbatim>\<open>status.py\<close>), \<open>Log_Paging\<close> (\<^verbatim>\<open>logs.py\<close> and the log handler), \<open>Watch_Hub\<close>
    (\<^verbatim>\<open>push.py\<close>), \<open>Player_Sessions\<close> (\<^verbatim>\<open>sessions.py\<close>, \<^verbatim>\<open>session_store.py\<close>), \<open>Benchmark_Safety\<close> (\<^verbatim>\<open>root_state.py\<close>,
    \<^verbatim>\<open>capability_evidence.py\<close>, \<^verbatim>\<open>benchmark_safety.py\<close>).
  \<^item> \<open>Programs\<close>: programs that map a state to a value or an exception and the next state, and \<open>hoare\<close> triples for them with separate
    postconditions for results and exceptions.
  \<^item> \<open>Handler\<close>: the asynchronous handlers of \<^verbatim>\<open>controller.py\<close> as programs over a world (database, trace of effects, readiness,
    startup attempts, local variables).  Everything outside (lock, lease store, adapters, probes, the scheduler that may cancel at an
    await) answers through \<open>ctl_env\<close>, one answer for each tick, and every theorem holds for all environments.  The theory also has
    monitors of the trace and their rules.
  \<^item> \<open>Lifecycle\<close>: start, stop, force stop, restart, command, switch with rollback; \<open>Lifecycle_Guards\<close> and \<open>Lifecycle_Outcomes\<close> prove
    what precedes each adapter call and how a failed start is cleaned up, or its failed cleanup reported.
  \<^item> \<open>Maintenance_Jobs\<close>: backups, restores, updates, world clones, retirements, benchmark runs, idle stops and due schedule entries as
    programs of the same kind; \<open>Maintenance_Cycle\<close> proves what a maintenance cycle does.
  \<^item> \<open>Retirement_Manifest\<close> and \<open>Retirement\<close> (\<^verbatim>\<open>retirement.py\<close>, the retirement methods of \<^verbatim>\<open>backups.py\<close>): manifests with the receipt of
    their remote copies, the ledger, quarantine, purge, rollback, status and availability of backup payloads, as programs over a file
    system that other programs may change between any two calls, where every call may fail before or after its effect.
    \<open>Retirement_Logic\<close> has the program logic; \<open>Retirement_Safety\<close> proves that payloads are conserved, \<open>Retirement_Outcomes\<close> and
    \<open>Retirement_Rollback\<close> what a phase that returns has achieved and that availability fails closed.
  \<^item> \<open>Web_Auth\<close> (\<^verbatim>\<open>auth.py\<close>, the session handlers of \<^verbatim>\<open>web_main.py\<close>): proxy identity, browser sessions and CSRF tokens as programs over
    the session table; what a mutation needs, that revocation is final, and that other users cannot end a session.
  \<^item> \<open>Retention_Plan\<close> (\<^verbatim>\<open>ops/laptop-backup/retention_plan.py\<close>): the plan of archive objects that may be deleted, and what it never proposes.
  \<^item> This theory joins \<open>Status\<close>, \<open>Benchmark_Safety\<close> and \<open>Maintenance_Cycle\<close>: what a cycle does on the snapshot it samples itself.

  \<^bold>\<open>Correspondence.\<close>  Definitions keep the names of the source functions without a leading underscore; where two functions have one name,
  or a name clashes with HOL, a prefix tells them apart (\<open>session_record\<close>, \<open>tracker_observe\<close>).  A class with state is a record passed
  and returned; an exception is \<open>Inl\<close>.  Instants are integers in microseconds, finite floats are rationals; rounding of floating
  point is not modelled.  A transaction either applies all its statements or none; \<open>Startup_Estimates\<close> also has failures the database did not undo.

  \<^bold>\<open>Bounds.\<close>  \<open>Schedule\<close> searches the four years of the source's own horizon.  The replay wait of \<open>Control_State\<close> polls as often as the
  source, at most 1000 times.  The log walk of \<open>Log_Paging\<close> is given 5001 requests, one more than the 5000 lines a service returns at most,
  and the theorem says that it ends within them, also when the log changes from one request to the next.  Records of \<open>Slot\<close> are called ordinary with an
  operation id of at most 1024 characters and numbers below \<open>2^63\<close>, which an encoder fits into the 64 KiB the admission reader allows.  All other recursion is structural or has a termination proof.

  \<^bold>\<open>Parameters.\<close>  SHA-256, JSON encoding, UUIDs, the clock, redaction, the journal, the process table and the answers of services are
  arguments of the definitions.  What a theorem needs of them is a hypothesis of that theorem, with a concrete instance in its witness.

  \<^bold>\<open>Not modelled\<close>: the adapters, the archive and update engines, health probes and telemetry samplers, which only drive processes, archives,
  sockets and \<^verbatim>\<open>/proc\<close> (their answers are the environment above); the routes of the web application and the command line, which are front ends of a
  framework; request models that only list fields for pydantic; deployment and migration scripts; the browser client.
\<close>

section \<open>The maintenance cycle on sampled status\<close>

text \<open>A profile that was not probed has no player count.\<close>

lemma sampled_unprobed:
  assumes "profile_sample env persist owner p st = (Inr x, st')" "\<not> full_probe env owner (prof_id p)"
  shows "ps_players_online x = None"
  using assms by (auto simp: profile_sample_def idle_status_def Let_def probe_then_Inr case_prod_unfold)

lemma profile_value_nonempty: "profile_value p \<noteq> []"
  by (cases p) simp_all

lemma sampled_not_quiet:
  assumes "profile_sample env persist owner p st = (Inr x, st')" "se_slot env \<noteq> None"
  shows "\<not> (status_quiet x \<and> unowned x)"
proof (cases "full_probe env owner (prof_id p)")
  case True
  have "ps_slot_owner x = owner" "ps_active_job_id x = raw_job_for env (prof_id p)"
    using profile_sample_basis [OF assms(1)] by (auto simp: status_basis_def)
  then show ?thesis
    using True assms(2) profile_value_nonempty [of "prof_id p"] by (auto simp: full_probe_def status_quiet_def unowned_def)
qed (use sampled_unprobed [OF assms(1)] in \<open>simp add: status_quiet_def\<close>)

lemma sampled_never_eligible:
  assumes "sample persist env st = (Inr sn, st')" "se_slot env \<noteq> None" "se_profiles env \<noteq> []"
  shows "\<not> benchmark_eligible sn evidence entries"
proof -
  obtain p ps where ps: "se_profiles env = p # ps" using assms(3) by (cases "se_profiles env") auto
  obtain owner x xs st1 st2 where "profile_sample env persist owner p st1 = (Inr x, st2)" "sn_profiles sn = x # xs"
    using assms(1) ps by (auto simp: sample_def probe_then_Inr)
  then show ?thesis using sampled_not_quiet assms(2) by (fastforce simp: benchmark_eligible_def)
qed

text \<open>C32. With a slot observer configured, as the daemon always has one, the snapshot of a maintenance cycle never makes a scheduled
  benchmark eligible, because a stopped profile that is not probed has no player count and the handler asks for the count zero;
  hence a cycle starts no scheduled benchmark and gives back every lease it took, for all entries, evidence and answers.\<close>

theorem sampled_cycle_runs_no_benchmark:
  assumes "sample persist env st = (Inr sn, st')" "se_slot env \<noteq> None" "se_profiles env \<noteq> []" "held w = {}"
  shows "\<not> benchmark_eligible sn evidence entries \<and> held (snd (snd (apply_schedules ev je sn rid book w))) = {}"
proof -
  have never: "\<And>evidence entries. \<not> benchmark_eligible sn evidence entries"
    using sampled_never_eligible [OF assms(1,2,3)] .
  have "held (snd (apply_due ev je sn rid es w)) = {}" for es
    using hoare_ends [OF keepsD [OF apply_due_no_lease [OF never]], of w] assms(4) by simp
  then have "held (snd (snd (apply_schedules ev je sn rid book w))) = {}"
    using assms(4) by (auto simp: apply_schedules_def case_prod_unfold)
  then show ?thesis using never by simp
qed

theorem sampled_cycle_runs_no_benchmark_witness:
  "\<not> benchmark_eligible (projr (fst (sample True sample_status_env new_status_service))) None []
   \<and> held (snd (snd (apply_schedules sample_ctl_env sample_jobs (projr (fst (sample True sample_status_env new_status_service)))
        ''r1'' \<lparr>book_entries = [nightly], last_minute = None\<rparr> sample_world))) = {}"
proof (rule sampled_cycle_runs_no_benchmark)
  have "isl (fst (sample True sample_status_env new_status_service)) = False" by code_simp
  then show "sample True sample_status_env new_status_service
      = (Inr (projr (fst (sample True sample_status_env new_status_service))), snd (sample True sample_status_env new_status_service))"
    by (cases "sample True sample_status_env new_status_service"; cases "fst (sample True sample_status_env new_status_service)") auto
qed (simp_all add: sample_status_env_def sample_world_def monitored_def)

text \<open>C20. An idle stop only ever stops the server that owns the slot: when a cycle applies idle stops to a snapshot sampled with a
  slot observer, every adapter call is a graceful stop of the slot owner of that sample, whose process a health check saw.\<close>

theorem idle_stop_hits_slot_owner:
  assumes "\<And>q p. env_profiles ev q = Some p \<Longrightarrow> prof_id p = q" "distinct (map prof_id (se_profiles env))"
    "sample persist env st = (Inr sn, st')" "se_slot env \<noteq> None"
    "apply_idle_stops ev je rid (sn_profiles sn) tracker w = (r, tracker', w')"
    "Eff_Adapter op q \<in> set (drop (length (w_trace w)) (w_trace w'))"
  shows "op = Adapter_Graceful_Stop \<and> slot_owner_value env = Inr (Some (profile_value q)) \<and> checked_alive env q"
proof -
  obtain owner where o: "slot_owner_value env = Inr owner" "map ps_profile_id (sn_profiles sn) = map prof_id (se_profiles env)"
      "list_all (status_basis env owner) (sn_profiles sn)"
    using sample_basis [OF assms(3)] .
  have "grown (idle_due ev tracker (sn_profiles sn)) w w'"
    using idle_stops_grow [of ev "sn_profiles sn" tracker w je rid] assms(1,2,5) o(2) by simp
  then have "idle_due ev tracker (sn_profiles sn) (Eff_Adapter op q)" using assms(6) by (auto simp: grown_def list_all_iff)
  then obtain s where s: "s \<in> set (sn_profiles sn)" "op = Adapter_Graceful_Stop" "ps_profile_id s = q" "ps_state s = RUNNING"
      "ps_active_job_id s = None"
    unfolding idle_due_def by auto
  have "status_basis env owner s" using o(3) s(1) by (simp add: list_all_iff)
  then have "full_probe env owner q" "checked_alive env q" "raw_job_for env q = None"
    using s(3,4,5) by (auto simp: status_basis_def derive_RUNNING)
  then show ?thesis using o(1) s(2) assms(4) by (simp add: full_probe_def)
qed

text \<open>One server that owns the slot, runs, and has no players.\<close>

definition quiet_status_env :: status_env where
  "quiet_status_env = sample_status_env\<lparr>se_profiles := [sample_profile PZ_RISING],
     se_slot := Some (Inr \<lparr>obs_owner = Some ''pz-rising'', obs_pid = Some 7, obs_ticks = Some 1, obs_inconsistent = False\<rparr>),
     se_probe := (\<lambda>_. (se_probe sample_status_env PZ_RISING)\<lparr>pr_observe := Inr (absent_observation\<lparr>ob_running := True, ob_players := Some 0\<rparr>)\<rparr>)\<rparr>"

definition quiet_snapshot :: status_snapshot where
  "quiet_snapshot = projr (fst (sample True quiet_status_env new_status_service))"

lemma quiet_sampled: "sample True quiet_status_env new_status_service = (Inr quiet_snapshot, snd (sample True quiet_status_env new_status_service))"
proof -
  have "isl (fst (sample True quiet_status_env new_status_service)) = False" by code_simp
  then show ?thesis
    by (cases "sample True quiet_status_env new_status_service"; cases "fst (sample True quiet_status_env new_status_service)")
      (auto simp: quiet_snapshot_def)
qed

lemma quiet_statuses:
  "map (\<lambda>s. (ps_profile_id s, ps_state s, ps_players_online s, ps_active_job_id s)) (sn_profiles quiet_snapshot) = [(PZ_RISING, RUNNING, Some 0, None)]"
  by code_simp

definition quiet_cycle :: "(exn + unit) \<times> idle_tracker \<times> world" where
  "quiet_cycle = apply_idle_stops idle_env sample_jobs ''r1'' (sn_profiles quiet_snapshot)
     [''pz-rising'' \<mapsto> \<lparr>started_at = 0, attempted = False\<rparr>] sample_world"

lemma quiet_cycle_stops: "Eff_Adapter Adapter_Graceful_Stop PZ_RISING \<in> set (w_trace (snd (snd quiet_cycle)))"
proof -
  obtain s where s: "sn_profiles quiet_snapshot = [s]" "ps_profile_id s = PZ_RISING" "ps_state s = RUNNING"
      "ps_players_online s = Some 0" "ps_active_job_id s = None"
    using quiet_statuses by (cases "sn_profiles quiet_snapshot") auto
  show ?thesis by (simp add: quiet_cycle_def s idle_simps sample_profile_def Let_def)
qed

theorem idle_stop_hits_slot_owner_witness:
  "slot_owner_value quiet_status_env = Inr (Some (profile_value PZ_RISING)) \<and> checked_alive quiet_status_env PZ_RISING"
proof -
  have conf: "\<And>q p. env_profiles idle_env q = Some p \<Longrightarrow> prof_id p = q"
    by (auto simp: idle_env_def sample_profile_def)
  have dist: "distinct (map prof_id (se_profiles quiet_status_env))" "se_slot quiet_status_env \<noteq> None" by (simp_all add: quiet_status_env_def)
  have run: "apply_idle_stops idle_env sample_jobs ''r1'' (sn_profiles quiet_snapshot) [''pz-rising'' \<mapsto> \<lparr>started_at = 0, attempted = False\<rparr>] sample_world
      = (fst quiet_cycle, fst (snd quiet_cycle), snd (snd quiet_cycle))"
    by (simp add: quiet_cycle_def)
  have eff: "Eff_Adapter Adapter_Graceful_Stop PZ_RISING \<in> set (drop (length (w_trace sample_world)) (w_trace (snd (snd quiet_cycle))))"
    using quiet_cycle_stops by (simp add: sample_world_def)
  show ?thesis
    using idle_stop_hits_slot_owner [OF conf dist(1) quiet_sampled dist(2) run eff] by simp
qed

end
